(* ===== verification/Erp_Prelude.thy ===== *)
theory Erp_Prelude
  imports Main
begin

text \<open>
  Shared vocabulary of the development: identifiers, the transaction type of a service
  operation, tables as lists of rows with the ORM's operations on them, and the few facts
  about them that every component uses.

  \<^item> An operation of a service is a function from the database session to a result and
    the session it leaves: \<open>(Inl e, s')\<close> when it raised \<open>e\<close>, \<open>(Inr v, s')\<close> when it
    returned \<open>v\<close>. The session is kept in both cases, because Python code that catches
    the exception goes on with the objects as the failed call left them.
  \<^item> \<open>request\<close> is the HTTP dependency \<open>get_db_with_org\<close> of \<open>app/api/deps.py\<close>: it commits
    when the handler returns and rolls back when it raises.
  \<^item> A table is the list of its rows in insertion order; \<open>get_row\<close> is \<open>db.get\<close>,
    \<open>set_row\<close> an attribute assignment on a loaded row, \<open>add_row\<close> \<open>db.add\<close> and
    \<open>del_row\<close> \<open>db.delete\<close>.
\<close>

named_theorems row_simps \<open>how the table operations commute\<close>
named_theorems tx_simps \<open>evaluation of the transaction combinators\<close>

type_synonym uuid = nat
type_synonym timestamp = nat

section \<open>Operations and requests\<close>

type_synonym ('e, 'a, 's) tx = "('e + 'a) \<times> 's"

definition raise :: "'e \<Rightarrow> 's \<Rightarrow> ('e, 'a, 's) tx" where
  "raise e s = (Inl e, s)"

definition return :: "'a \<Rightarrow> 's \<Rightarrow> ('e, 'a, 's) tx" where
  "return v s = (Inr v, s)"

fun bind_tx :: "('e, 'a, 's) tx \<Rightarrow> ('a \<Rightarrow> 's \<Rightarrow> ('e, 'b, 's) tx) \<Rightarrow> ('e, 'b, 's) tx" where
  "bind_tx (Inl e, s) k = (Inl e, s)"
| "bind_tx (Inr v, s) k = k v s"

definition request :: "('s \<Rightarrow> ('e, 'a, 's) tx) \<Rightarrow> 's \<Rightarrow> ('e, 'a, 's) tx" where
  "request f s = (case f s of (Inl e, _) \<Rightarrow> (Inl e, s) | (Inr v, s') \<Rightarrow> (Inr v, s'))"

lemma return_eq [simp, tx_simps]: "return v s = (r, t) \<longleftrightarrow> r = Inr v \<and> t = s"
  by (auto simp: return_def)

lemma raise_eq [simp, tx_simps]: "raise e s = (r, t) \<longleftrightarrow> r = Inl e \<and> t = s"
  by (auto simp: raise_def)

lemma bind_return [simp, tx_simps]: "bind_tx (return v s) k = k v s"
  by (simp add: return_def)

lemma bind_raise [simp, tx_simps]: "bind_tx (raise e s) k = raise e s"
  by (simp add: raise_def)

lemma bind_Inr [tx_simps]:
  "bind_tx m k = (Inr v, t) \<longleftrightarrow> (\<exists>a s. m = (Inr a, s) \<and> k a s = (Inr v, t))"
  by (cases "(m, k)" rule: bind_tx.cases) auto

lemma bind_InrE [elim]:
  assumes "bind_tx m k = (Inr v, t)"
  obtains a s where "m = (Inr a, s)" and "k a s = (Inr v, t)"
  using assms by (auto simp: bind_Inr)

lemma snd_raise [simp]: "snd (raise e s) = s"
  by (simp add: raise_def)

lemma snd_return [simp]: "snd (return v s) = s"
  by (simp add: return_def)

lemma fst_raise [simp]: "fst (raise e s) = Inl e"
  by (simp add: raise_def)

lemma fst_return [simp]: "fst (return v s) = Inr v"
  by (simp add: return_def)

text \<open>A predicate on the final session is shown through a bind piece by piece.\<close>

lemma bind_tx_post:
  assumes "Q (snd m)" and "\<And>a s. m = (Inr a, s) \<Longrightarrow> Q s \<Longrightarrow> Q (snd (k a s))"
  shows "Q (snd (bind_tx m k))"
  using assms by (cases "(m, k)" rule: bind_tx.cases) auto

lemma request_raise: "f s = (Inl e, s') \<Longrightarrow> request f s = (Inl e, s)"
  by (simp add: request_def)

lemma request_return: "f s = (Inr v, s') \<Longrightarrow> request f s = (Inr v, s')"
  by (simp add: request_def)

lemma request_cases:
  obtains e s' where "f s = (Inl e, s')" and "request f s = (Inl e, s)"
  | v s' where "f s = (Inr v, s')" and "request f s = (Inr v, s')"
  by (cases "f s"; cases "fst (f s)") (auto simp: request_def)

section \<open>Tables\<close>

fun get_row :: "('r \<Rightarrow> 'k) \<Rightarrow> 'k \<Rightarrow> 'r list \<Rightarrow> 'r option" where
  "get_row key k [] = None"
| "get_row key k (r # rs) = (if key r = k then Some r else get_row key k rs)"

definition set_row :: "('r \<Rightarrow> 'k) \<Rightarrow> 'k \<Rightarrow> ('r \<Rightarrow> 'r) \<Rightarrow> 'r list \<Rightarrow> 'r list" where
  "set_row key k f rs = map (\<lambda>r. if key r = k then f r else r) rs"

definition add_row :: "'r \<Rightarrow> 'r list \<Rightarrow> 'r list" where
  "add_row r rs = rs @ [r]"

definition del_row :: "('r \<Rightarrow> 'k) \<Rightarrow> 'k \<Rightarrow> 'r list \<Rightarrow> 'r list" where
  "del_row key k rs = filter (\<lambda>r. key r \<noteq> k) rs"

lemma get_row_SomeD: "get_row key k rs = Some r \<Longrightarrow> r \<in> set rs \<and> key r = k"
  by (induction rs) (auto split: if_splits)

lemma get_row_None_iff [row_simps]: "get_row key k rs = None \<longleftrightarrow> k \<notin> key ` set rs"
  by (induction rs) auto

lemma get_row_distinct:
  "distinct (map key rs) \<Longrightarrow> r \<in> set rs \<Longrightarrow> get_row key (key r) rs = Some r"
  by (induction rs) force+

lemma get_row_append [row_simps]:
  "get_row key k (xs @ ys) = (case get_row key k xs of Some r \<Rightarrow> Some r | None \<Rightarrow> get_row key k ys)"
  by (induction xs) auto

lemma get_add_row [row_simps]:
  "get_row key k (add_row r rs) =
    (case get_row key k rs of Some r' \<Rightarrow> Some r' | None \<Rightarrow> if key r = k then Some r else None)"
  by (simp add: add_row_def get_row_append split: option.split)

lemma get_row_map:
  assumes "\<And>r. key (f r) = key r"
  shows "get_row key k (map f rs) = map_option f (get_row key k rs)"
  by (induction rs) (auto simp: assms)

lemma get_set_row [row_simps]:
  assumes "\<And>r. key (f r) = key r"
  shows "get_row key k (set_row key k' f rs) =
    (if k = k' then map_option f (get_row key k rs) else get_row key k rs)"
  by (induction rs) (auto simp: set_row_def assms)

lemma get_del_row [row_simps]:
  "get_row key k (del_row key k' rs) = (if k = k' then None else get_row key k rs)"
  by (induction rs) (auto simp: del_row_def)

lemma map_key_set_row [row_simps]:
  assumes "\<And>r. key (f r) = key r"
  shows "map key (set_row key k f rs) = map key rs"
  by (induction rs) (auto simp: set_row_def assms)

lemma set_set_row: "set (set_row key k f rs) = (\<lambda>r. if key r = k then f r else r) ` set rs"
  by (simp add: set_row_def)

lemma set_row_updated:
  assumes "r \<in> set rs" and "key r = k" and "P (f r)"
  shows "\<exists>x \<in> set (set_row key k f rs). P x"
proof (rule bexI [of _ "f r"])
  show "f r \<in> set (set_row key k f rs)"
    unfolding set_set_row using assms(1,2) by (intro image_eqI [of _ _ r]) simp_all
qed (rule assms(3))

lemma set_add_row [simp]: "set (add_row r rs) = insert r (set rs)"
  by (simp add: add_row_def)

lemma set_del_row [simp]: "set (del_row key k rs) = {r \<in> set rs. key r \<noteq> k}"
  by (simp add: del_row_def)

lemma distinct_del_row: "distinct (map key rs) \<Longrightarrow> distinct (map key (del_row key k rs))"
  by (simp add: del_row_def distinct_map_filter)

lemma map_add_row [row_simps]: "map key (add_row r rs) = map key rs @ [key r]"
  by (simp add: add_row_def)

text \<open>
  The interface every ORM table offers: the session's component that holds the rows, its
  update, and their primary key. The facts below are what a service relies on when it
  loads, assigns to and adds rows; each table of the model interprets it.
\<close>

locale orm_table =
  fixes key :: "'r \<Rightarrow> 'k"
    and rows :: "'s \<Rightarrow> 'r list"
    and set_rows :: "('r list \<Rightarrow> 'r list) \<Rightarrow> 's \<Rightarrow> 's"
  assumes rows_set_rows: "rows (set_rows g s) = g (rows s)"
    and set_rows_compose: "set_rows g (set_rows h s) = set_rows (\<lambda>rs. g (h rs)) s"
begin

lemma load_after_assign:
  assumes "\<And>r. key (f r) = key r" and "get_row key k (rows s) = Some r"
  shows "get_row key k (rows (set_rows (set_row key k f) s)) = Some (f r)"
  using assms by (simp add: rows_set_rows get_set_row)

lemma load_other_after_assign:
  assumes "\<And>r. key (f r) = key r" and "k' \<noteq> k"
  shows "get_row key k' (rows (set_rows (set_row key k f) s)) = get_row key k' (rows s)"
  using assms by (simp add: rows_set_rows get_set_row)

lemma load_after_add:
  assumes "key r \<notin> key ` set (rows s)"
  shows "get_row key (key r) (rows (set_rows (add_row r) s)) = Some r"
  using assms by (simp add: rows_set_rows get_add_row get_row_None_iff [THEN iffD2])

lemma load_after_delete: "get_row key k (rows (set_rows (del_row key k) s)) = None"
  by (simp add: rows_set_rows get_del_row)

lemma keys_after_assign:
  assumes "\<And>r. key (f r) = key r"
  shows "map key (rows (set_rows (set_row key k f) s)) = map key (rows s)"
  using assms by (simp add: rows_set_rows map_key_set_row)

end

section \<open>Text forms of identifiers\<close>

definition digit_char :: "nat \<Rightarrow> char" where
  "digit_char d = ''0123456789abcdef'' ! d"

text \<open>\<open>str(n)\<close> of a non-negative int.\<close>

fun nat_str :: "nat \<Rightarrow> string" where
  "nat_str n = (if n < 10 then [digit_char n] else nat_str (n div 10) @ [digit_char (n mod 10)])"

declare nat_str.simps [simp del]

fun hex_digits :: "nat \<Rightarrow> nat \<Rightarrow> string" where
  "hex_digits 0 n = []"
| "hex_digits (Suc w) n = hex_digits w (n div 16) @ [digit_char (n mod 16)]"

text \<open>\<open>str(UUID)\<close>: thirty-two hexadecimal digits in groups of 8, 4, 4, 4 and 12.\<close>

definition uuid_str :: "uuid \<Rightarrow> string" where
  "uuid_str u = (let h = hex_digits 32 u in
     take 8 h @ ''-'' @ take 4 (drop 8 h) @ ''-'' @ take 4 (drop 12 h) @ ''-'' @
     take 4 (drop 16 h) @ ''-'' @ drop 20 h)"

lemma length_hex_digits [simp]: "length (hex_digits w n) = w"
  by (induction w arbitrary: n) auto

lemma length_uuid_str [simp]: "length (uuid_str u) = 36"
  by (simp add: uuid_str_def Let_def)

lemma nat_str_nonempty [simp]: "nat_str n \<noteq> []"
  by (subst nat_str.simps) simp

end
