(* ===== verification/Dates.thy ===== *)
theory Dates
  imports Erp_Prelude
begin

text \<open>
  Python's \<open>datetime.date\<close>, ordered as Python orders it (year, then month, then day), and the
  two functions of \<open>calendar\<close> the period guard uses: \<open>monthrange\<close> and \<open>month_name\<close>.
\<close>

datatype date = Date (year: nat) (month: nat) (day: nat)

instantiation date :: linorder
begin

fun less_date :: "date \<Rightarrow> date \<Rightarrow> bool" where
  "less_date (Date y m d) (Date y' m' d') \<longleftrightarrow> y < y' \<or> y = y' \<and> (m < m' \<or> m = m' \<and> d < d')"

definition less_eq_date :: "date \<Rightarrow> date \<Rightarrow> bool" where
  "less_eq_date a b \<longleftrightarrow> a < b \<or> a = (b :: date)"

instance
proof
  fix a b c :: date
  show "(a < b) = (a \<le> b \<and> \<not> b \<le> a)" and "a \<le> a" and "a \<le> b \<or> b \<le> a"
    by (cases a; cases b; auto simp: less_eq_date_def)+
  show "a \<le> b \<Longrightarrow> b \<le> c \<Longrightarrow> a \<le> c"
    by (cases a; cases b; cases c; auto simp: less_eq_date_def)
  show "a \<le> b \<Longrightarrow> b \<le> a \<Longrightarrow> a = b"
    by (cases a; cases b; auto simp: less_eq_date_def)
qed

end

lemma Date_le_iff [simp]:
  "Date y m d \<le> Date y' m' d' \<longleftrightarrow> y < y' \<or> y = y' \<and> (m < m' \<or> m = m' \<and> d \<le> d')"
  by (auto simp: less_eq_date_def)

definition is_leap :: "nat \<Rightarrow> bool" where
  "is_leap y \<longleftrightarrow> y mod 4 = 0 \<and> (y mod 100 \<noteq> 0 \<or> y mod 400 = 0)"

definition days_in_month :: "nat \<Rightarrow> nat \<Rightarrow> nat" where
  "days_in_month y m = (if m = 2 then (if is_leap y then 29 else 28)
     else if m \<in> set [4, 6, 9, 11] then 30 else 31)"

definition valid_date :: "date \<Rightarrow> bool" where
  "valid_date d \<longleftrightarrow> 1 \<le> month d \<and> month d \<le> 12 \<and> 1 \<le> day d \<and> day d \<le> days_in_month (year d) (month d)"

definition month_name :: "nat \<Rightarrow> string" where
  "month_name m = ([''January'', ''February'', ''March'', ''April'', ''May'', ''June'', ''July'',
     ''August'', ''September'', ''October'', ''November'', ''December''] ! (m - 1))"

text \<open>A valid date lies between the first and the last day of its month.\<close>

lemma month_bounds:
  assumes "valid_date d"
  shows "Date (year d) (month d) 1 \<le> d"
    and "d \<le> Date (year d) (month d) (days_in_month (year d) (month d))"
  using assms by (cases d; simp add: valid_date_def)+

end
