(* ===== verification/Decimals.thy ===== *)
theory Decimals
  imports Erp_Prelude Complex_Main
begin

text \<open>
  Python's \<open>decimal.Decimal\<close> as the services use it. A finite decimal is the rational number
  it denotes; \<open>quantize_half_up d\<close> is \<open>.quantize(Decimal(10) ** -d, rounding=ROUND_HALF_UP)\<close>
  (ties away from zero), which is also how PostgreSQL stores a value in a \<open>NUMERIC(p, d)\<close>
  column; \<open>dec28\<close> is the rounding of the default context (28 significant digits, ties to
  even) that the results of \<open>+\<close>, \<open>-\<close>, \<open>*\<close> and \<open>/\<close> go through.

  The locale \<open>rounding\<close> is what the services rely on a rounding mode for; it is interpreted
  on the persisted scale of the ledger (six places) and on the two places of a payslip.
\<close>

type_synonym decimal = rat

lemma floor_rat_divide_numeral [simp]:
  "\<lfloor>numeral a / numeral b :: rat\<rfloor> = numeral a div numeral b"
  using floor_divide_of_int_eq [of "numeral a" "numeral b", where ?'a = rat] by simp

lemma floor_rat_minus_divide_numeral [simp]:
  "\<lfloor>- (numeral a / numeral b) :: rat\<rfloor> = - numeral a div numeral b"
  using floor_divide_of_int_eq [of "- numeral a" "numeral b", where ?'a = rat] by simp

lemma floor_rat_one_divide_numeral [simp]: "\<lfloor>1 / numeral b :: rat\<rfloor> = 1 div numeral b"
  using floor_divide_of_int_eq [of 1 "numeral b", where ?'a = rat] by simp

section \<open>Rounding to a fixed number of places\<close>

definition half_up :: "rat \<Rightarrow> int" where
  "half_up x = (if 0 \<le> x then \<lfloor>x + 1/2\<rfloor> else - \<lfloor>- x + 1/2\<rfloor>)"

definition quantize_half_up :: "nat \<Rightarrow> decimal \<Rightarrow> decimal" where
  "quantize_half_up d x = of_int (half_up (x * 10 ^ d)) / 10 ^ d"

definition at_scale :: "nat \<Rightarrow> decimal \<Rightarrow> bool" where
  "at_scale d x \<longleftrightarrow> x * 10 ^ d = of_int \<lfloor>x * 10 ^ d\<rfloor>"

lemma half_up_of_int [simp]: "half_up (of_int n) = n"
  by (auto simp: half_up_def)

lemma half_up_uminus: "half_up (- x) = - half_up x"
  by (auto simp: half_up_def)

lemma half_up_error: "\<bar>of_int (half_up x) - x\<bar> \<le> 1 / 2"
  unfolding half_up_def abs_le_iff
  using floor_correct [of "x + 1/2"] floor_correct [of "- x + 1/2"] by (simp split: if_split) linarith

lemma half_up_mono: "x \<le> y \<Longrightarrow> half_up x \<le> half_up y"
  unfolding half_up_def by (auto intro!: floor_mono simp: not_le) linarith+

lemma half_up_nonneg: "0 \<le> x \<Longrightarrow> 0 \<le> half_up x"
  unfolding half_up_def by simp

lemma half_up_add_int: "0 \<le> x \<Longrightarrow> 0 \<le> n \<Longrightarrow> half_up (x + of_int n) = half_up x + n"
  unfolding half_up_def by (simp add: add.commute add.left_commute) linarith

lemma at_scale_iff: "at_scale d x \<longleftrightarrow> (\<exists>n. x = of_int n / 10 ^ d)"
  unfolding at_scale_def
proof
  assume "x * 10 ^ d = of_int \<lfloor>x * 10 ^ d\<rfloor>"
  then have "x = of_int \<lfloor>x * 10 ^ d\<rfloor> / 10 ^ d" by (simp add: field_simps)
  then show "\<exists>n. x = of_int n / 10 ^ d" by blast
qed auto

lemma at_scaleE [elim]:
  assumes "at_scale d x"
  obtains n where "x = of_int n / 10 ^ d"
  using assms by (auto simp: at_scale_iff)

lemma at_scale_quantize [simp, intro]: "at_scale d (quantize_half_up d x)"
  by (auto simp: at_scale_iff quantize_half_up_def)

lemma at_scale_add [intro]: "at_scale d x \<Longrightarrow> at_scale d y \<Longrightarrow> at_scale d (x + y)"
  by (auto simp: at_scale_iff add_divide_distrib [symmetric] simp flip: of_int_add)

lemma at_scale_diff [intro]: "at_scale d x \<Longrightarrow> at_scale d y \<Longrightarrow> at_scale d (x - y)"
  by (auto simp: at_scale_iff diff_divide_distrib [symmetric] simp flip: of_int_diff)

lemma at_scale_0 [simp]: "at_scale d 0"
  by (simp add: at_scale_def)

lemma at_scale_uminus: "at_scale d x \<Longrightarrow> at_scale d (- x)"
  using at_scale_diff [OF at_scale_0, of d x] by simp

lemma at_scale_abs: "at_scale d x \<Longrightarrow> at_scale d \<bar>x\<bar>"
  by (auto simp: abs_if at_scale_uminus)

lemma at_scale_min: "at_scale d x \<Longrightarrow> at_scale d y \<Longrightarrow> at_scale d (min x y)"
  by (simp add: min_def)

lemma at_scale_sum_list [intro]: "(\<And>x. x \<in> set xs \<Longrightarrow> at_scale d x) \<Longrightarrow> at_scale d (sum_list xs)"
  by (induction xs) auto

lemma quantize_at_scale: "at_scale d x \<Longrightarrow> quantize_half_up d x = x"
  by (auto simp: quantize_half_up_def at_scale_iff)

section \<open>The interface of a rounding mode\<close>

locale rounding =
  fixes rnd :: "decimal \<Rightarrow> decimal"
    and unit :: decimal
  assumes rnd_idem: "rnd (rnd x) = rnd x"
    and rnd_mono: "x \<le> y \<Longrightarrow> rnd x \<le> rnd y"
    and rnd_uminus: "rnd (- x) = - rnd x"
    and rnd_error: "\<bar>rnd x - x\<bar> \<le> unit / 2"
    and rnd_add_fixed: "rnd x = x \<Longrightarrow> rnd y = y \<Longrightarrow> rnd (x + y) = x + y"
begin

lemma rnd_zero: "rnd 0 = 0"
  using rnd_uminus [of 0] by simp

lemma rnd_nonneg: "0 \<le> x \<Longrightarrow> 0 \<le> rnd x"
  using rnd_mono [of 0 x] rnd_zero by simp

lemma rnd_diff_fixed: "rnd x = x \<Longrightarrow> rnd y = y \<Longrightarrow> rnd (x - y) = x - y"
  using rnd_add_fixed [of x "- y"] rnd_uminus [of y] by simp

lemma rnd_sum_fixed: "(\<And>x. x \<in> set xs \<Longrightarrow> rnd x = x) \<Longrightarrow> rnd (sum_list xs) = sum_list xs"
  by (induction xs) (auto simp: rnd_zero intro: rnd_add_fixed)

lemma rnd_sum_rounded [simp]: "rnd (\<Sum>x\<leftarrow>xs. rnd (f x)) = (\<Sum>x\<leftarrow>xs. rnd (f x))"
  by (rule rnd_sum_fixed) (auto simp: rnd_idem)

text \<open>Rounding each addend moves a total by at most half a unit per addend.\<close>

lemma sum_rnd_error: "\<bar>(\<Sum>x\<leftarrow>xs. rnd (f x)) - (\<Sum>x\<leftarrow>xs. f x)\<bar> \<le> of_nat (length xs) * (unit / 2)"
proof (induction xs)
  case Nil
  then show ?case by simp
next
  case (Cons x xs)
  have "of_nat (length (x # xs)) * (unit / 2) = unit / 2 + of_nat (length xs) * (unit / 2)"
    by (simp add: algebra_simps)
  with Cons.IH rnd_error [of "f x"] show ?case
    by (simp only: abs_le_iff list.map sum_list.Cons) linarith
qed

end

lemma quantize_idem: "quantize_half_up d (quantize_half_up d x) = quantize_half_up d x"
  by (simp add: quantize_at_scale)

lemma quantize_mono: "x \<le> y \<Longrightarrow> quantize_half_up d x \<le> quantize_half_up d y"
  by (simp add: quantize_half_up_def divide_right_mono half_up_mono mult_right_mono)

lemma quantize_uminus: "quantize_half_up d (- x) = - quantize_half_up d x"
  by (simp add: quantize_half_up_def half_up_uminus)

lemma quantize_error: "\<bar>quantize_half_up d x - x\<bar> \<le> 1 / 10 ^ d / 2"
proof -
  have "quantize_half_up d x - x = (of_int (half_up (x * 10 ^ d)) - x * 10 ^ d) / 10 ^ d"
    by (simp add: quantize_half_up_def field_simps)
  then have "\<bar>quantize_half_up d x - x\<bar> = \<bar>of_int (half_up (x * 10 ^ d)) - x * 10 ^ d\<bar> / 10 ^ d"
    by (simp add: abs_divide)
  also have "\<dots> \<le> (1 / 2) / 10 ^ d"
    by (rule divide_right_mono [OF half_up_error]) simp
  finally show ?thesis by (simp add: mult.commute)
qed

lemma quantize_fixed_iff: "quantize_half_up d x = x \<longleftrightarrow> at_scale d x"
  using at_scale_quantize [of d x] quantize_at_scale by metis

lemma rounding_quantize: "rounding (quantize_half_up d) (1 / 10 ^ d)"
proof unfold_locales
  show "\<bar>quantize_half_up d x - x\<bar> \<le> 1 / 10 ^ d / 2" for x
    by (rule quantize_error)
qed (auto simp: quantize_idem quantize_mono quantize_uminus quantize_fixed_iff)

text \<open>
  The scale ledger amounts are persisted at, \<open>NUMERIC(20, 6)\<close> rounded half away from zero
  (\<open>PERSISTED_SCALE\<close> and \<open>PERSISTED_ROUNDING\<close> of \<open>posting/residue.py\<close>), and the kobo scale.
\<close>

abbreviation numeric6 :: "decimal \<Rightarrow> decimal" where
  "numeric6 \<equiv> quantize_half_up 6"

abbreviation kobo :: "decimal \<Rightarrow> decimal" where
  "kobo \<equiv> quantize_half_up 2"

interpretation persisted: rounding numeric6 "1 / 10 ^ 6"
  by (rule rounding_quantize)

interpretation payslip: rounding kobo "1 / 10 ^ 2"
  by (rule rounding_quantize)

section \<open>The default context\<close>

fun num_digits :: "nat \<Rightarrow> nat" where
  "num_digits n = (if n < 10 then 1 else Suc (num_digits (n div 10)))"

declare num_digits.simps [simp del]

definition half_even :: "rat \<Rightarrow> int" where
  "half_even x = (let f = \<lfloor>x\<rfloor>; r = x - of_int f in
     if r < 1 / 2 then f else if 1 / 2 < r then f + 1 else if even f then f else f + 1)"

text \<open>The adjusted exponent: the power of ten of the leading digit of a non-zero decimal.\<close>

definition adjusted :: "decimal \<Rightarrow> int" where
  "adjusted x = (case quotient_of \<bar>x\<bar> of (p, q) \<Rightarrow>
     let e = int (num_digits (nat p)) - int (num_digits (nat q))
     in if 10 powi e \<le> \<bar>x\<bar> then e else e - 1)"

definition dec28 :: "decimal \<Rightarrow> decimal" where
  "dec28 x = (if x = 0 then 0 else let k = 27 - adjusted x in
     of_int (half_even (x * 10 powi k)) * 10 powi (- k))"

definition dec_add :: "decimal \<Rightarrow> decimal \<Rightarrow> decimal" where "dec_add x y = dec28 (x + y)"
definition dec_mul :: "decimal \<Rightarrow> decimal \<Rightarrow> decimal" where "dec_mul x y = dec28 (x * y)"
definition dec_div :: "decimal \<Rightarrow> decimal \<Rightarrow> decimal" where "dec_div x y = dec28 (x / y)"

lemma num_digits_bounds: "0 < n \<Longrightarrow> 10 ^ (num_digits n - 1) \<le> n \<and> n < 10 ^ num_digits n"
proof (induction n rule: num_digits.induct)
  case (1 n)
  show ?case
  proof (cases "n < 10")
    case True
    with "1.prems" show ?thesis by (simp add: num_digits.simps [of n])
  next
    case False
    let ?m = "n div 10"
    from False have m: "0 < ?m" by simp
    with False "1.IH" have IH: "10 ^ (num_digits ?m - 1) \<le> ?m" "?m < 10 ^ num_digits ?m" by auto
    have d: "num_digits n = Suc (num_digits ?m)" "0 < num_digits ?m"
      using False by (simp_all add: num_digits.simps [of n] num_digits.simps [of ?m])
    have "(10::nat) ^ num_digits ?m = 10 * 10 ^ (num_digits ?m - 1)"
      using d(2) by (metis Suc_diff_1 power_Suc)
    then have "10 ^ num_digits ?m \<le> 10 * ?m" using IH(1) by simp
    moreover have "10 * ?m \<le> n" by simp
    moreover have "n < 10 * 10 ^ num_digits ?m" using IH(2) by (simp add: div_less_iff_less_mult)
    ultimately show ?thesis using d(1) by simp
  qed
qed

lemma adjusted_le: "x \<noteq> 0 \<Longrightarrow> 10 powi adjusted x \<le> \<bar>x\<bar>"
proof -
  assume x: "x \<noteq> 0"
  obtain p q where pq: "quotient_of \<bar>x\<bar> = (p, q)" by fastforce
  have q: "0 < q" using quotient_of_denom_pos [OF pq] .
  have ax: "\<bar>x\<bar> = of_int p / of_int q" by (rule quotient_of_div [OF pq])
  have "0 < \<bar>x\<bar>" using x by simp
  with q have p: "0 < p" unfolding ax by (simp add: zero_less_divide_iff)
  let ?a = "num_digits (nat p)" and ?b = "num_digits (nat q)"
  let ?e = "int ?a - int ?b"
  have a: "10 ^ (?a - 1) \<le> nat p" and b: "nat q < 10 ^ ?b"
    using num_digits_bounds [of "nat p"] num_digits_bounds [of "nat q"] p q by auto
  have a0: "0 < ?a" by (simp add: num_digits.simps [of "nat p"])
  have a': "(10::rat) ^ (?a - 1) \<le> of_int p"
    using a p by (metis of_nat_le_iff of_nat_numeral of_nat_power of_nat_nat less_imp_le)
  have b': "of_int q \<le> (10::rat) ^ ?b"
    using b q by (metis of_nat_le_iff of_nat_numeral of_nat_power of_nat_nat less_imp_le)
  have "(10::rat) powi (?e - 1) = 10 ^ (?a - 1) / 10 ^ ?b"
  proof -
    have e: "?e - 1 = int (?a - 1) - int ?b" using a0 by simp
    show ?thesis unfolding e by (simp add: power_int_diff)
  qed
  also have "\<dots> \<le> of_int p / of_int q"
    using a' b' p q by (intro frac_le) auto
  finally have "10 powi (?e - 1) \<le> \<bar>x\<bar>" using ax by simp
  then show ?thesis using pq by (auto simp: adjusted_def Let_def)
qed

text \<open>
  The context is invisible on persisted amounts: below \<open>10 ^ 21\<close> (a \<open>NUMERIC(20, 6)\<close> column
  holds less than \<open>10 ^ 14\<close>), a value with six places has at most 27 significant digits.
  This is why totals of persisted amounts are written with the exact \<open>+\<close> in the model.
\<close>

lemma dec28_exact: "at_scale d x \<Longrightarrow> \<bar>x\<bar> < 10 ^ e \<Longrightarrow> d + e \<le> 27 \<Longrightarrow> dec28 x = x"
proof (cases "x = 0")
  case False
  assume x: "at_scale d x" "\<bar>x\<bar> < 10 ^ e" and de: "d + e \<le> 27"
  have "10 powi adjusted x < (10::rat) powi (int e)"
    using adjusted_le [OF False] x(2) by (simp only: power_int_of_nat)
  then have "adjusted x < int e"
    by (metis not_le order_less_le_trans order_less_irrefl power_int_increasing one_le_numeral)
  then have "0 \<le> 27 - adjusted x - int d" using de by simp
  then obtain m where "27 - adjusted x - int d = int m" by (rule nonneg_int_cases)
  then have m: "27 - adjusted x = int d + int m" by simp
  obtain n where n: "x = of_int n / 10 ^ d" using x(1) by (rule at_scaleE)
  have "x * 10 powi (int d + int m) = of_int (n * 10 ^ m)"
    by (simp add: n power_int_add)
  then have he: "of_int (half_even (x * 10 powi (int d + int m))) = x * 10 powi (int d + int m)"
    by (simp only: half_even_def Let_def) simp
  show ?thesis
    unfolding dec28_def Let_def m he using False
    by (simp add: mult.assoc power_int_add [symmetric])
qed (simp add: dec28_def)

lemma dec28_persisted: "at_scale 6 x \<Longrightarrow> \<bar>x\<bar> < 10 ^ 21 \<Longrightarrow> dec28 x = x"
  by (rule dec28_exact [where d = 6 and e = 21]) simp_all

lemma dec28_0 [simp]: "dec28 0 = 0"
  by (simp add: dec28_def)

end
