(* ===== verification/Gl_Model.thy ===== *)
theory Gl_Model
  imports Dates Decimals
begin

text \<open>
  The general ledger's data: the ORM classes of \<open>app/models/finance/gl\<close> as records (the columns
  the modelled services read or write), their enums as datatypes, and the database session as
  the record of the tables. Fields carry the table's initials (\<open>fp_\<close> fiscal period, \<open>je_\<close>
  journal entry, \<open>jl_\<close> journal line, \<open>pb_\<close> posting batch, \<open>ll_\<close> posted ledger line), so that one
  name means one column. Amount columns are \<open>NUMERIC(20, 6)\<close>: what the model writes to them
  goes through \<open>numeric6\<close>. \<open>next_uuid\<close> stands for \<open>uuid4()\<close>: every call yields an identifier
  no row has had.
\<close>

section \<open>Enums\<close>

datatype period_status = P_FUTURE | P_OPEN | P_SOFT_CLOSED | P_HARD_CLOSED | P_REOPENED

datatype journal_type = STANDARD | ADJUSTMENT | CLOSING | OPENING | REVERSAL | RECURRING
  | INTERCOMPANY | REVALUATION | CONSOLIDATION

datatype journal_status = J_DRAFT | J_SUBMITTED | J_APPROVED | J_POSTED | J_REVERSED | J_VOID

datatype batch_status = B_PENDING | B_PROCESSING | B_POSTED | B_FAILED | B_PARTIALLY_POSTED

datatype audit_action = INSERT | UPDATE

text \<open>\<open>PeriodStatus.accepts_postings\<close> and \<open>PeriodGuardService.POSTABLE_STATUSES\<close>.\<close>

definition accepts_postings :: "period_status \<Rightarrow> bool" where
  "accepts_postings st \<longleftrightarrow> st \<in> set [P_OPEN, P_REOPENED]"

section \<open>Rows\<close>

record dims =
  business_unit_id :: "uuid option"
  cost_center_id :: "uuid option"
  project_id :: "uuid option"
  segment_id :: "uuid option"

record account =
  ac_id :: uuid
  ac_org :: uuid
  ac_code :: string
  ac_name :: string
  ac_is_posting_allowed :: bool

record fiscal_year =
  fy_id :: uuid
  fy_org :: uuid
  fy_year_code :: string
  fy_year_name :: string
  fy_start_date :: date
  fy_end_date :: date

record fiscal_period =
  fp_id :: uuid
  fp_org :: uuid
  fp_fiscal_year_id :: uuid
  fp_period_number :: nat
  fp_period_name :: string
  fp_start_date :: date
  fp_end_date :: date
  fp_is_adjustment_period :: bool
  fp_status :: period_status
  fp_soft_closed_at :: "timestamp option"
  fp_soft_closed_by :: "uuid option"
  fp_hard_closed_at :: "timestamp option"
  fp_hard_closed_by :: "uuid option"
  fp_reopen_count :: nat
  fp_last_reopen_session_id :: "uuid option"

record journal_entry =
  je_id :: uuid
  je_org :: uuid
  je_journal_number :: string
  je_journal_type :: journal_type
  je_entry_date :: date
  je_posting_date :: date
  je_fiscal_period_id :: uuid
  je_description :: string
  je_reference :: "string option"
  je_currency_code :: string
  je_exchange_rate :: decimal
  je_exchange_rate_type_id :: "uuid option"
  je_total_debit :: decimal
  je_total_credit :: decimal
  je_total_debit_functional :: decimal
  je_total_credit_functional :: decimal
  je_status :: journal_status
  je_posting_batch_id :: "uuid option"
  je_is_reversal :: bool
  je_reversed_journal_id :: "uuid option"
  je_reversal_journal_id :: "uuid option"
  je_auto_reverse_date :: "date option"
  je_source_module :: "string option"
  je_source_document_type :: "string option"
  je_source_document_id :: "uuid option"
  je_created_by :: uuid
  je_submitted_by :: "uuid option"
  je_submitted_at :: "timestamp option"
  je_approved_by :: "uuid option"
  je_approved_at :: "timestamp option"
  je_posted_by :: "uuid option"
  je_posted_at :: "timestamp option"
  je_correlation_id :: "string option"

record journal_line =
  jl_id :: uuid
  jl_journal :: uuid
  jl_line_number :: nat
  jl_account :: uuid
  jl_description :: "string option"
  jl_debit :: decimal
  jl_credit :: decimal
  jl_debit_functional :: decimal
  jl_credit_functional :: decimal
  jl_currency_code :: "string option"
  jl_exchange_rate :: "decimal option"
  jl_dims :: dims

record posting_batch =
  pb_id :: uuid
  pb_org :: uuid
  pb_fiscal_period_id :: uuid
  pb_idempotency_key :: string
  pb_source_module :: string
  pb_batch_description :: string
  pb_total_entries :: nat
  pb_posted_entries :: nat
  pb_failed_entries :: nat
  pb_status :: batch_status
  pb_error_message :: "string option"
  pb_submitted_by :: uuid
  pb_processing_started_at :: "timestamp option"
  pb_completed_at :: "timestamp option"
  pb_correlation_id :: "string option"

record ledger_line =
  ll_id :: uuid
  ll_posting_year :: nat
  ll_org :: uuid
  ll_journal :: uuid
  ll_journal_line :: uuid
  ll_batch :: uuid
  ll_period :: uuid
  ll_account :: uuid
  ll_account_code :: string
  ll_entry_date :: date
  ll_posting_date :: date
  ll_description :: "string option"
  ll_journal_reference :: "string option"
  ll_debit :: decimal
  ll_credit :: decimal
  ll_original_currency_code :: "string option"
  ll_original_debit :: "decimal option"
  ll_original_credit :: "decimal option"
  ll_exchange_rate :: "decimal option"
  ll_dims :: dims
  ll_source_module :: string
  ll_source_document_type :: "string option"
  ll_source_document_id :: "uuid option"
  ll_posted_by :: uuid
  ll_correlation_id :: "string option"

record account_balance =
  ab_org :: uuid
  ab_account :: uuid
  ab_period :: uuid
  ab_actual :: bool
  ab_is_stale :: bool
  ab_stale_since :: "timestamp option"

record refresh_entry =
  rf_key :: "uuid \<times> uuid \<times> uuid"
  rf_invalidated_at :: timestamp
  rf_processed_at :: "timestamp option"

record outbox_event =
  ob_event_name :: string
  ob_aggregate_type :: string
  ob_aggregate_id :: string
  ob_journal :: uuid
  ob_period :: uuid
  ob_line_count :: nat
  ob_total_debit :: decimal
  ob_total_credit :: decimal
  ob_idempotency_key :: string

record audit_row =
  au_org :: uuid
  au_table :: string
  au_record_id :: uuid
  au_action :: audit_action
  au_old_status :: "journal_status option"
  au_new_status :: "journal_status option"
  au_user :: "uuid option"

text \<open>The session: the tables, the organisations whose \<open>require_segregation_of_duties\<close> feature
  flag is on, the hook events emitted, and the supply of identifiers.\<close>

record gldb =
  accounts :: "account list"
  fiscal_years :: "fiscal_year list"
  periods :: "fiscal_period list"
  journals :: "journal_entry list"
  jlines :: "journal_line list"
  batches :: "posting_batch list"
  ledger :: "ledger_line list"
  balances :: "account_balance list"
  refresh_queue :: "refresh_entry list"
  outbox :: "outbox_event list"
  audit_log :: "audit_row list"
  hook_events :: "(string \<times> uuid) list"
  sod_orgs :: "uuid list"
  next_uuid :: uuid

section \<open>Errors\<close>

text \<open>The message of a \<open>PeriodGuardResult\<close>.\<close>

datatype guard_message =
  PeriodCreationFailed date
| AdjustmentNeedsAllowance
| NotYetOpen string
| SoftClosedNeedsApproval string
| PermanentlyClosed string
| ReopenSessionRequired
| InvalidReopenSession
| OpenForPosting

datatype detail =
  IdempotencyKeyRequired
| FailedBatchHasEntries
| BatchInStatus batch_status
| JournalNotFound
| JournalAlreadyPosted
| CannotPostStatus journal_status
| Guard guard_message
| FiscalPeriodNotFound
| Unbalanced decimal decimal
| FunctionalNegative nat
| FunctionalBothZero nat
| FunctionalBothSides nat
| OriginalNegative nat
| OriginalBothSides nat
| JournalNeedsLines
| PostingNotAllowed "string list"
| NoFiscalPeriodFor date
| CannotUpdateStatus journal_status
| CannotDeleteStatus journal_status
| CannotSubmitStatus journal_status
| CannotApproveStatus journal_status
| CannotVoidStatus journal_status
| SegregationOfDuties
| CannotReverseStatus journal_status
| AlreadyReversed
| OnlyPostedCanBeReversed
| ReversalFailed
| PostingFailed
| CannotOpenPeriod period_status
| CannotSoftCloseStatus period_status
| CannotHardCloseStatus period_status
| CannotReopenStatus period_status
| PeriodNotReopened

text \<open>
  What an operation of the ledger raises: an \<open>HTTPException\<close> with its status code, or the
  driver's \<open>IntegrityError\<close> when a flush violates the named unique constraint. After an
  \<open>IntegrityError\<close> the session is unusable until it is rolled back.
\<close>

datatype gl_error = HTTPException nat detail | IntegrityError string

section \<open>The tables as the services see them\<close>

interpretation period_table: orm_table fp_id periods periods_update
  by unfold_locales (simp_all add: o_def)

interpretation journal_table: orm_table je_id journals journals_update
  by unfold_locales (simp_all add: o_def)

interpretation batch_table: orm_table pb_id batches batches_update
  by unfold_locales (simp_all add: o_def)

definition audit :: "uuid \<Rightarrow> uuid \<Rightarrow> audit_action \<Rightarrow> journal_status option \<Rightarrow>
    journal_status option \<Rightarrow> uuid option \<Rightarrow> gldb \<Rightarrow> gldb" where
  "audit org jid act old new user s = s\<lparr>audit_log := audit_log s @
     [\<lparr>au_org = org, au_table = ''gl.journal_entry'', au_record_id = jid, au_action = act,
       au_old_status = old, au_new_status = new, au_user = user\<rparr>]\<rparr>"

text \<open>Loading a journal in an organisation's scope, as every operation of the services begins.\<close>

definition scoped_journal :: "uuid \<Rightarrow> uuid \<Rightarrow> gldb \<Rightarrow> journal_entry option" where
  "scoped_journal org jid s = (case get_row je_id jid (journals s) of
     None \<Rightarrow> None | Some j \<Rightarrow> if je_org j \<noteq> org then None else Some j)"

definition set_journal :: "uuid \<Rightarrow> (journal_entry \<Rightarrow> journal_entry) \<Rightarrow> gldb \<Rightarrow> gldb" where
  "set_journal jid f = journals_update (set_row je_id jid f)"

lemma scoped_journal_SomeD:
  "scoped_journal org jid s = Some j \<Longrightarrow> j \<in> set (journals s) \<and> je_id j = jid \<and> je_org j = org"
  by (auto simp: scoped_journal_def split: option.splits if_splits dest: get_row_SomeD)

lemma audit_frame [simp]:
  "accounts (audit org jid a x y u s) = accounts s"
  "fiscal_years (audit org jid a x y u s) = fiscal_years s"
  "periods (audit org jid a x y u s) = periods s"
  "journals (audit org jid a x y u s) = journals s"
  "jlines (audit org jid a x y u s) = jlines s"
  "batches (audit org jid a x y u s) = batches s"
  "ledger (audit org jid a x y u s) = ledger s"
  "outbox (audit org jid a x y u s) = outbox s"
  "hook_events (audit org jid a x y u s) = hook_events s"
  "sod_orgs (audit org jid a x y u s) = sod_orgs s"
  "next_uuid (audit org jid a x y u s) = next_uuid s"
  by (simp_all add: audit_def)

lemma set_journal_frame [simp]:
  "accounts (set_journal jid f s) = accounts s"
  "fiscal_years (set_journal jid f s) = fiscal_years s"
  "periods (set_journal jid f s) = periods s"
  "journals (set_journal jid f s) = set_row je_id jid f (journals s)"
  "jlines (set_journal jid f s) = jlines s"
  "batches (set_journal jid f s) = batches s"
  "ledger (set_journal jid f s) = ledger s"
  "outbox (set_journal jid f s) = outbox s"
  "audit_log (set_journal jid f s) = audit_log s"
  "hook_events (set_journal jid f s) = hook_events s"
  "sod_orgs (set_journal jid f s) = sod_orgs s"
  "next_uuid (set_journal jid f s) = next_uuid s"
  by (simp_all add: set_journal_def)

end
