(* ===== verification/Period_Guard.thy ===== *)
theory Period_Guard
  imports Gl_Model
begin

text \<open>
  \<open>app/services/finance/gl/period_guard.py\<close>: the write gate of the ledger. \<open>resolve_period\<close> is
  \<open>_resolve_period_for_date\<close>; \<open>can_post_to_date\<close> and \<open>require_open_period\<close> are the gate, which
  creates a calendar month's period on demand (\<open>ensure_period_exists\<close>); the rest is the
  lifecycle of a period. The current time is the argument \<open>now\<close>.
\<close>

section \<open>Resolving a period\<close>

fun insort_by :: "('a \<Rightarrow> 'a \<Rightarrow> bool) \<Rightarrow> 'a \<Rightarrow> 'a list \<Rightarrow> 'a list" where
  "insort_by prec x [] = [x]"
| "insort_by prec x (y # ys) = (if prec x y then x # y # ys else y # insort_by prec x ys)"

definition order_by :: "('a \<Rightarrow> 'a \<Rightarrow> bool) \<Rightarrow> 'a list \<Rightarrow> 'a list" where
  "order_by prec xs = foldr (insort_by prec) xs []"

text \<open>\<open>ORDER BY start_date DESC, end_date ASC\<close>: the most specific period first.\<close>

definition more_specific :: "fiscal_period \<Rightarrow> fiscal_period \<Rightarrow> bool" where
  "more_specific p q \<longleftrightarrow> fp_start_date q < fp_start_date p
     \<or> fp_start_date p = fp_start_date q \<and> fp_end_date p \<le> fp_end_date q"

definition covers :: "uuid \<Rightarrow> date \<Rightarrow> fiscal_period \<Rightarrow> bool" where
  "covers org d p \<longleftrightarrow> fp_org p = org \<and> fp_start_date p \<le> d \<and> d \<le> fp_end_date p"

definition resolve_period :: "gldb \<Rightarrow> uuid \<Rightarrow> date \<Rightarrow> bool \<Rightarrow> bool \<Rightarrow> fiscal_period option" where
  "resolve_period s org target_date prefer_postable allow_adjustment =
    (case order_by more_specific (filter (covers org target_date) (periods s)) of
       [] \<Rightarrow> None
     | p # ps \<Rightarrow>
         if prefer_postable then
           (case find (\<lambda>q. accepts_postings (fp_status q)
                \<and> \<not> (fp_is_adjustment_period q \<and> \<not> allow_adjustment)) (p # ps) of
              Some q \<Rightarrow> Some q
            | None \<Rightarrow> Some p)
         else Some p)"

definition get_period_for_date :: "gldb \<Rightarrow> uuid \<Rightarrow> date \<Rightarrow> fiscal_period option" where
  "get_period_for_date s org target_date = resolve_period s org target_date False False"

section \<open>Creating a period on demand\<close>

definition new_fiscal_year :: "uuid \<Rightarrow> uuid \<Rightarrow> nat \<Rightarrow> fiscal_year" where
  "new_fiscal_year u org y = \<lparr>fy_id = u, fy_org = org, fy_year_code = nat_str y,
     fy_year_name = ''Fiscal Year '' @ nat_str y,
     fy_start_date = Date y 1 1, fy_end_date = Date y 12 31\<rparr>"

definition new_month_period :: "uuid \<Rightarrow> uuid \<Rightarrow> uuid \<Rightarrow> nat \<Rightarrow> nat \<Rightarrow> fiscal_period" where
  "new_month_period u org fy y m = \<lparr>fp_id = u, fp_org = org, fp_fiscal_year_id = fy,
     fp_period_number = m, fp_period_name = month_name m @ '' '' @ nat_str y,
     fp_start_date = Date y m 1, fp_end_date = Date y m (days_in_month y m),
     fp_is_adjustment_period = False, fp_status = P_OPEN,
     fp_soft_closed_at = None, fp_soft_closed_by = None,
     fp_hard_closed_at = None, fp_hard_closed_by = None,
     fp_reopen_count = 0, fp_last_reopen_session_id = None\<rparr>"

definition ensure_period_exists ::
  "uuid \<Rightarrow> date \<Rightarrow> gldb \<Rightarrow> (gl_error, fiscal_period option, gldb) tx" where
  "ensure_period_exists org target_date s =
    (case resolve_period s org target_date False False of
       Some p \<Rightarrow> return (Some p) s
     | None \<Rightarrow>
        (let y = year target_date; m = month target_date;
             (fy, s1) = (case find (\<lambda>f. fy_org f = org \<and> fy_year_code f = nat_str y) (fiscal_years s) of
                Some f \<Rightarrow> (f, s)
              | None \<Rightarrow> (let f = new_fiscal_year (next_uuid s) org y
                  in (f, s\<lparr>fiscal_years := add_row f (fiscal_years s), next_uuid := Suc (next_uuid s)\<rparr>)));
             p = new_month_period (next_uuid s1) org (fy_id fy) y m
         in if (\<exists>q \<in> set (periods s1). fp_fiscal_year_id q = fy_id fy \<and> fp_period_number q = m)
            then raise (IntegrityError ''uq_fiscal_period'') s
            else return (Some p) (s1\<lparr>periods := add_row p (periods s1), next_uuid := Suc (next_uuid s1)\<rparr>)))"

section \<open>The gate\<close>

record guard_result =
  is_allowed :: bool
  gr_fiscal_period_id :: "uuid option"
  gr_period_status :: "period_status option"
  gr_message :: guard_message
  gr_reopen_session_id :: "uuid option"

definition guard_result_of :: "fiscal_period \<Rightarrow> bool \<Rightarrow> guard_message \<Rightarrow> uuid option \<Rightarrow> guard_result" where
  "guard_result_of p allowed msg sess = \<lparr>is_allowed = allowed, gr_fiscal_period_id = Some (fp_id p),
     gr_period_status = Some (fp_status p), gr_message = msg, gr_reopen_session_id = sess\<rparr>"

text \<open>The checks on the period found, in the order of the source.\<close>

definition check_period :: "fiscal_period \<Rightarrow> bool \<Rightarrow> uuid option \<Rightarrow> guard_result" where
  "check_period p allow_adjustment reopen_session_id =
    (if fp_is_adjustment_period p \<and> \<not> allow_adjustment
       then guard_result_of p False AdjustmentNeedsAllowance None
     else if fp_status p = P_FUTURE
       then guard_result_of p False (NotYetOpen (fp_period_name p)) None
     else if fp_status p = P_SOFT_CLOSED
       then guard_result_of p False (SoftClosedNeedsApproval (fp_period_name p)) None
     else if fp_status p = P_HARD_CLOSED
       then guard_result_of p False (PermanentlyClosed (fp_period_name p)) None
     else if fp_status p = P_REOPENED \<and> reopen_session_id = None
       then guard_result_of p False ReopenSessionRequired (fp_last_reopen_session_id p)
     else if fp_status p = P_REOPENED \<and> fp_last_reopen_session_id p \<noteq> reopen_session_id
       then guard_result_of p False InvalidReopenSession (fp_last_reopen_session_id p)
     else guard_result_of p True OpenForPosting
       (if fp_status p = P_REOPENED then fp_last_reopen_session_id p else None))"

definition can_post_to_date ::
  "uuid \<Rightarrow> date \<Rightarrow> bool \<Rightarrow> uuid option \<Rightarrow> gldb \<Rightarrow> (gl_error, guard_result, gldb) tx" where
  "can_post_to_date org posting_date allow_adjustment reopen_session_id s =
    (case resolve_period s org posting_date True allow_adjustment of
       Some p \<Rightarrow> return (check_period p allow_adjustment reopen_session_id) s
     | None \<Rightarrow> bind_tx (ensure_period_exists org posting_date s) (\<lambda>po s'.
         (case po of
            None \<Rightarrow> return \<lparr>is_allowed = False, gr_fiscal_period_id = None, gr_period_status = None,
                gr_message = PeriodCreationFailed posting_date, gr_reopen_session_id = None\<rparr> s'
          | Some p \<Rightarrow> return (check_period p allow_adjustment reopen_session_id) s')))"

definition require_open_period ::
  "uuid \<Rightarrow> date \<Rightarrow> bool \<Rightarrow> uuid option \<Rightarrow> gldb \<Rightarrow> (gl_error, uuid, gldb) tx" where
  "require_open_period org posting_date allow_adjustment reopen_session_id s =
    bind_tx (can_post_to_date org posting_date allow_adjustment reopen_session_id s) (\<lambda>r s'.
      if \<not> is_allowed r then raise (HTTPException 400 (Guard (gr_message r))) s'
      else (case gr_fiscal_period_id r of
          None \<Rightarrow> raise (HTTPException 400 FiscalPeriodNotFound) s'
        | Some p \<Rightarrow> return p s'))"

section \<open>The lifecycle of a period\<close>

definition scoped_period :: "uuid \<Rightarrow> uuid \<Rightarrow> gldb \<Rightarrow> fiscal_period option" where
  "scoped_period org pid s = (case get_row fp_id pid (periods s) of
     None \<Rightarrow> None | Some p \<Rightarrow> if fp_org p \<noteq> org then None else Some p)"

definition set_period :: "uuid \<Rightarrow> (fiscal_period \<Rightarrow> fiscal_period) \<Rightarrow> gldb \<Rightarrow> gldb" where
  "set_period pid f = periods_update (set_row fp_id pid f)"

definition open_period :: "uuid \<Rightarrow> uuid \<Rightarrow> uuid \<Rightarrow> gldb \<Rightarrow> (gl_error, fiscal_period, gldb) tx" where
  "open_period org pid opened_by_user_id s = (case scoped_period org pid s of
     None \<Rightarrow> raise (HTTPException 404 FiscalPeriodNotFound) s
   | Some p \<Rightarrow>
      if fp_status p \<noteq> P_FUTURE then raise (HTTPException 400 (CannotOpenPeriod (fp_status p))) s
      else return (p\<lparr>fp_status := P_OPEN\<rparr>) (set_period pid (\<lambda>p. p\<lparr>fp_status := P_OPEN\<rparr>) s))"

definition soft_close_period ::
  "uuid \<Rightarrow> uuid \<Rightarrow> uuid \<Rightarrow> timestamp \<Rightarrow> gldb \<Rightarrow> (gl_error, fiscal_period, gldb) tx" where
  "soft_close_period org pid closed_by_user_id now s = (case scoped_period org pid s of
     None \<Rightarrow> raise (HTTPException 404 FiscalPeriodNotFound) s
   | Some p \<Rightarrow>
      if fp_status p \<notin> set [P_OPEN, P_REOPENED]
      then raise (HTTPException 400 (CannotSoftCloseStatus (fp_status p))) s
      else (let f = (\<lambda>p. p\<lparr>fp_status := P_SOFT_CLOSED, fp_soft_closed_at := Some now,
              fp_soft_closed_by := Some closed_by_user_id\<rparr>)
            in return (f p) (set_period pid f s)))"

definition hard_close_period ::
  "uuid \<Rightarrow> uuid \<Rightarrow> uuid \<Rightarrow> timestamp \<Rightarrow> gldb \<Rightarrow> (gl_error, fiscal_period, gldb) tx" where
  "hard_close_period org pid closed_by_user_id now s = (case scoped_period org pid s of
     None \<Rightarrow> raise (HTTPException 404 FiscalPeriodNotFound) s
   | Some p \<Rightarrow>
      if fp_status p \<notin> set [P_SOFT_CLOSED, P_OPEN, P_REOPENED]
      then raise (HTTPException 400 (CannotHardCloseStatus (fp_status p))) s
      else (let f = (\<lambda>p. p\<lparr>fp_status := P_HARD_CLOSED, fp_hard_closed_at := Some now,
              fp_hard_closed_by := Some closed_by_user_id\<rparr>)
            in return (f p) (set_period pid f s)))"

definition reopen_period ::
  "uuid \<Rightarrow> uuid \<Rightarrow> uuid \<Rightarrow> gldb \<Rightarrow> (gl_error, fiscal_period \<times> uuid, gldb) tx" where
  "reopen_period org pid reopened_by_user_id s = (case scoped_period org pid s of
     None \<Rightarrow> raise (HTTPException 404 FiscalPeriodNotFound) s
   | Some p \<Rightarrow>
      if fp_status p \<noteq> P_SOFT_CLOSED
      then raise (HTTPException 400 (CannotReopenStatus (fp_status p))) s
      else (let session = next_uuid s;
              f = (\<lambda>p. p\<lparr>fp_status := P_REOPENED, fp_reopen_count := fp_reopen_count p + 1,
                fp_last_reopen_session_id := Some session\<rparr>)
            in return (f p, session) ((set_period pid f s)\<lparr>next_uuid := Suc session\<rparr>)))"

definition close_reopen_session ::
  "uuid \<Rightarrow> uuid \<Rightarrow> uuid \<Rightarrow> uuid \<Rightarrow> timestamp \<Rightarrow> gldb \<Rightarrow> (gl_error, fiscal_period, gldb) tx" where
  "close_reopen_session org pid session closed_by_user_id now s = (case scoped_period org pid s of
     None \<Rightarrow> raise (HTTPException 404 FiscalPeriodNotFound) s
   | Some p \<Rightarrow>
      if fp_status p \<noteq> P_REOPENED then raise (HTTPException 400 PeriodNotReopened) s
      else if fp_last_reopen_session_id p \<noteq> Some session
      then raise (HTTPException 400 (Guard InvalidReopenSession)) s
      else (let f = (\<lambda>p. p\<lparr>fp_status := P_SOFT_CLOSED, fp_soft_closed_at := Some now,
              fp_soft_closed_by := Some closed_by_user_id\<rparr>)
            in return (f p) (set_period pid f s)))"

section \<open>Facts about resolution\<close>

lemma set_insort_by [simp]: "set (insort_by b x xs) = insert x (set xs)"
  by (induction xs) auto

lemma set_order_by [simp]: "set (order_by b xs) = set xs"
  unfolding order_by_def by (induction xs) auto

lemma order_by_eq_Nil_iff: "order_by b xs = [] \<longleftrightarrow> xs = []"
  by (metis set_empty set_order_by)

definition usable :: "bool \<Rightarrow> fiscal_period \<Rightarrow> bool" where
  "usable allow_adjustment p \<longleftrightarrow> accepts_postings (fp_status p)
     \<and> \<not> (fp_is_adjustment_period p \<and> \<not> allow_adjustment)"

text \<open>What the gate guarantees of the period it names.\<close>

definition open_for :: "bool \<Rightarrow> uuid option \<Rightarrow> fiscal_period \<Rightarrow> bool" where
  "open_for allow_adjustment reopen_session_id p \<longleftrightarrow>
     (fp_is_adjustment_period p \<longrightarrow> allow_adjustment)
     \<and> (fp_status p = P_OPEN
        \<or> fp_status p = P_REOPENED \<and> reopen_session_id \<noteq> None
          \<and> fp_last_reopen_session_id p = reopen_session_id)"

text \<open>The candidates of a date, and the two ways \<open>resolve_period\<close> chooses among them.\<close>

definition candidates :: "gldb \<Rightarrow> uuid \<Rightarrow> date \<Rightarrow> fiscal_period list" where
  "candidates s org d = order_by more_specific (filter (covers org d) (periods s))"

lemma set_candidates [simp]: "set (candidates s org d) = {p \<in> set (periods s). covers org d p}"
  by (simp add: candidates_def)

lemma resolve_period_eq:
  "resolve_period s org d pp adj = (case candidates s org d of [] \<Rightarrow> None
     | p # ps \<Rightarrow> Some (if pp then (case find (usable adj) (p # ps) of Some q \<Rightarrow> q | None \<Rightarrow> p) else p))"
proof -
  have u: "usable adj = (\<lambda>q. accepts_postings (fp_status q)
      \<and> \<not> (fp_is_adjustment_period q \<and> \<not> adj))"
    by (simp add: fun_eq_iff usable_def)
  show ?thesis
    unfolding resolve_period_def candidates_def u
    by (simp split: list.split option.split)
qed

lemma resolve_period_None_iff:
  "resolve_period s org d pp adj = None \<longleftrightarrow> (\<forall>p \<in> set (periods s). \<not> covers org d p)"
proof -
  have "candidates s org d = [] \<longleftrightarrow> (\<forall>p \<in> set (periods s). \<not> covers org d p)"
    by (simp add: candidates_def filter_empty_conv order_by_eq_Nil_iff)
  then show ?thesis by (cases "candidates s org d") (simp_all add: resolve_period_eq)
qed

lemma find_SomeD: "find P xs = Some x \<Longrightarrow> x \<in> set xs \<and> P x"
  by (auto simp: find_Some_iff)

lemma resolve_period_SomeD:
  assumes "resolve_period s org d pp adj = Some p"
  shows "p \<in> set (periods s)" and "covers org d p"
proof -
  have "p \<in> set (candidates s org d)"
  proof (cases "candidates s org d")
    case (Cons q qs)
    show ?thesis
      using assms unfolding resolve_period_eq Cons
      by (cases "find (usable adj) (q # qs)") (auto split: if_splits dest: find_SomeD)
  qed (use assms in \<open>simp add: resolve_period_eq\<close>)
  then show "p \<in> set (periods s)" and "covers org d p" by auto
qed

lemma resolve_prefers_usable:
  assumes "resolve_period s org d True adj = Some p"
    and "q \<in> set (periods s)" and "covers org d q" and "usable adj q"
  shows "usable adj p"
proof -
  have "q \<in> set (candidates s org d)" using assms(2,3) by simp
  then obtain x xs where c: "candidates s org d = x # xs" by (cases "candidates s org d") auto
  have "find (usable adj) (x # xs) \<noteq> None"
    using \<open>q \<in> set (candidates s org d)\<close> assms(4) unfolding c find_None_iff by blast
  then obtain y where y: "find (usable adj) (x # xs) = Some y" by blast
  then have "p = y" using assms(1) by (simp only: resolve_period_eq c list.case option.case if_True option.inject)
  then show ?thesis using find_SomeD [OF y] by simp
qed

lemma check_period_allowed_iff: "is_allowed (check_period p adj sess) \<longleftrightarrow> open_for adj sess p"
  by (cases "fp_status p") (auto simp: check_period_def guard_result_of_def open_for_def)

lemma check_period_id [simp]: "gr_fiscal_period_id (check_period p adj sess) = Some (fp_id p)"
  by (simp add: check_period_def guard_result_of_def)

section \<open>What the gate may change\<close>

text \<open>
  The gate writes no book: it only adds fiscal years and open periods, under new identifiers.
\<close>

definition fresh_periods :: "gldb \<Rightarrow> gldb \<Rightarrow> fiscal_period list \<Rightarrow> bool" where
  "fresh_periods s s' new \<longleftrightarrow> periods s' = periods s @ new \<and> distinct (map fp_id new)
     \<and> (\<forall>p \<in> set new. next_uuid s \<le> fp_id p \<and> fp_id p < next_uuid s' \<and> fp_status p = P_OPEN)"

definition books_kept :: "gldb \<Rightarrow> gldb \<Rightarrow> bool" where
  "books_kept s s' \<longleftrightarrow> journals s' = journals s \<and> jlines s' = jlines s \<and> ledger s' = ledger s
     \<and> accounts s' = accounts s \<and> next_uuid s \<le> next_uuid s' \<and> (\<exists>new. fresh_periods s s' new)"

lemma fresh_periods_same:
  "periods s' = periods s \<Longrightarrow> fresh_periods s s' []"
  by (simp add: fresh_periods_def)

lemma books_keptI [intro]:
  "journals s' = journals s \<Longrightarrow> jlines s' = jlines s \<Longrightarrow> ledger s' = ledger s \<Longrightarrow> accounts s' = accounts s
   \<Longrightarrow> next_uuid s \<le> next_uuid s' \<Longrightarrow> periods s' = periods s \<Longrightarrow> books_kept s s'"
  by (auto simp: books_kept_def intro: fresh_periods_same)

lemma books_kept_refl [simp, intro]: "books_kept s s"
  by (rule books_keptI) simp_all

lemma fresh_periods_trans:
  assumes "fresh_periods s t new1" and "fresh_periods t v new2"
    and "next_uuid s \<le> next_uuid t" and "next_uuid t \<le> next_uuid v"
  shows "fresh_periods s v (new1 @ new2)"
  using assms unfolding fresh_periods_def by (force intro: order_trans less_le_trans)

lemma books_kept_trans [trans]: "books_kept s t \<Longrightarrow> books_kept t v \<Longrightarrow> books_kept s v"
  unfolding books_kept_def by (auto intro: fresh_periods_trans order_trans)

lemma books_keptD:
  assumes "books_kept s s'"
  shows "journals s' = journals s" "jlines s' = jlines s" "ledger s' = ledger s"
    "accounts s' = accounts s" "next_uuid s \<le> next_uuid s'"
    "set (periods s) \<subseteq> set (periods s')"
  using assms by (auto simp: books_kept_def fresh_periods_def)

text \<open>What \<open>ensure_period_exists\<close> leaves: nothing new, or one open month period.\<close>

lemma ensure_period_exists_cases:
  obtains p where "resolve_period s org d False False = Some p"
      "ensure_period_exists org d s = (Inr (Some p), s)"
  | e where "ensure_period_exists org d s = (Inl e, s)"
  | fy u s' where "resolve_period s org d False False = None"
      "ensure_period_exists org d s = (Inr (Some (new_month_period u org fy (year d) (month d))), s')"
      "periods s' = periods s @ [new_month_period u org fy (year d) (month d)]"
      "journals s' = journals s" "jlines s' = jlines s" "ledger s' = ledger s"
      "accounts s' = accounts s" "next_uuid s \<le> u" "next_uuid s' = Suc u"
proof (cases "resolve_period s org d False False")
  case (Some p)
  then show thesis using that(1) by (simp add: ensure_period_exists_def)
next
  case None
  let ?find = "find (\<lambda>f. fy_org f = org \<and> fy_year_code f = nat_str (year d)) (fiscal_years s)"
  define fs where "fs = (case ?find of Some f \<Rightarrow> (f, s)
    | None \<Rightarrow> (new_fiscal_year (next_uuid s) org (year d),
        s\<lparr>fiscal_years := add_row (new_fiscal_year (next_uuid s) org (year d)) (fiscal_years s),
          next_uuid := Suc (next_uuid s)\<rparr>))"
  have s1: "periods (snd fs) = periods s" "journals (snd fs) = journals s" "jlines (snd fs) = jlines s"
    "ledger (snd fs) = ledger s" "accounts (snd fs) = accounts s" "next_uuid s \<le> next_uuid (snd fs)"
    by (simp_all add: fs_def split: option.split)
  have e: "ensure_period_exists org d s =
    (if (\<exists>q \<in> set (periods s). fp_fiscal_year_id q = fy_id (fst fs) \<and> fp_period_number q = month d)
     then raise (IntegrityError ''uq_fiscal_period'') s
     else return (Some (new_month_period (next_uuid (snd fs)) org (fy_id (fst fs)) (year d) (month d)))
       ((snd fs)\<lparr>periods := periods s @ [new_month_period (next_uuid (snd fs)) org (fy_id (fst fs)) (year d) (month d)],
          next_uuid := Suc (next_uuid (snd fs))\<rparr>))"
    unfolding ensure_period_exists_def None option.case Let_def fs_def [symmetric]
    by (simp only: case_prod_unfold s1 add_row_def)
  show thesis
  proof (cases "\<exists>q \<in> set (periods s). fp_fiscal_year_id q = fy_id (fst fs) \<and> fp_period_number q = month d")
    case True
    show thesis by (rule that(2)) (simp add: e True)
  next
    case False
    show thesis
      by (rule that(3) [OF None, where s' = "(snd fs)\<lparr>periods := periods s @
            [new_month_period (next_uuid (snd fs)) org (fy_id (fst fs)) (year d) (month d)],
          next_uuid := Suc (next_uuid (snd fs))\<rparr>"])
        (simp_all only: e False if_False return_eq simp_thms, simp_all add: s1)
  qed
qed

lemma new_month_period_simps [simp]:
  "fp_id (new_month_period u org fy y m) = u" "fp_status (new_month_period u org fy y m) = P_OPEN"
  "fp_org (new_month_period u org fy y m) = org"
  "fp_start_date (new_month_period u org fy y m) = Date y m 1"
  "fp_end_date (new_month_period u org fy y m) = Date y m (days_in_month y m)"
  by (simp_all add: new_month_period_def)

lemma ensure_period_exists_kept:
  "ensure_period_exists org d s = (r, s') \<Longrightarrow> books_kept s s'"
proof (rule ensure_period_exists_cases [of s org d])
  fix fy u t
  assume "ensure_period_exists org d s = (r, s')"
    and "ensure_period_exists org d s = (Inr (Some (new_month_period u org fy (year d) (month d))), t)"
    and t: "periods t = periods s @ [new_month_period u org fy (year d) (month d)]"
      "journals t = journals s" "jlines t = jlines s" "ledger t = ledger s"
      "accounts t = accounts s" "next_uuid s \<le> u" "next_uuid t = Suc u"
  then have "s' = t" by simp
  have "fresh_periods s t [new_month_period u org fy (year d) (month d)]"
    using t by (simp add: fresh_periods_def)
  then show "books_kept s s'" using t unfolding \<open>s' = t\<close> books_kept_def by auto
qed simp_all

text \<open>What the period named for a date is: the organisation's, and around the date.\<close>

definition named_for :: "uuid \<Rightarrow> date \<Rightarrow> fiscal_period \<Rightarrow> bool" where
  "named_for org d p \<longleftrightarrow> fp_org p = org \<and> (valid_date d \<longrightarrow> covers org d p)"

lemma covers_named_for: "covers org d p \<Longrightarrow> named_for org d p"
  by (simp add: named_for_def covers_def)

lemma ensure_period_exists_names:
  assumes "ensure_period_exists org d s = (Inr (Some p), s')"
  shows "p \<in> set (periods s') \<and> named_for org d p"
proof (rule ensure_period_exists_cases [of s org d])
  fix q assume "resolve_period s org d False False = Some q"
    "ensure_period_exists org d s = (Inr (Some q), s)"
  then show ?thesis using assms(1) resolve_period_SomeD covers_named_for
    by (metis Inr_inject option.inject prod.inject)
next
  fix fy u t
  assume "ensure_period_exists org d s = (Inr (Some (new_month_period u org fy (year d) (month d))), t)"
    and "periods t = periods s @ [new_month_period u org fy (year d) (month d)]"
  moreover from this(1) assms(1) have "p = new_month_period u org fy (year d) (month d)" "s' = t" by auto
  ultimately show ?thesis using month_bounds [of d]
    by (simp add: named_for_def covers_def del: Date_le_iff)
qed (use assms(1) in simp)

lemma can_post_to_date_kept: "can_post_to_date org d adj sess s = (r, s') \<Longrightarrow> books_kept s s'"
proof -
  assume c: "can_post_to_date org d adj sess s = (r, s')"
  have "books_kept s (snd (can_post_to_date org d adj sess s))"
  proof (cases "resolve_period s org d True adj")
    case None
    have e: "books_kept s (snd (ensure_period_exists org d s))"
      by (rule ensure_period_exists_kept [of org d s "fst (ensure_period_exists org d s)"]) simp
    show ?thesis
      unfolding can_post_to_date_def None option.case
      by (rule bind_tx_post [where Q = "books_kept s", OF e]) (simp split: option.split)
  qed (simp add: can_post_to_date_def)
  then show ?thesis using c by simp
qed

lemma require_open_period_kept: "require_open_period org d adj sess s = (r, s') \<Longrightarrow> books_kept s s'"
  by (cases "can_post_to_date org d adj sess s"; cases "fst (can_post_to_date org d adj sess s)")
    (auto simp: require_open_period_def dest: can_post_to_date_kept split: if_splits option.splits)

lemma can_post_to_date_names:
  assumes "can_post_to_date org d adj sess s = (Inr r, s')" and "is_allowed r"
  shows "\<exists>p \<in> set (periods s'). gr_fiscal_period_id r = Some (fp_id p) \<and> named_for org d p \<and> open_for adj sess p"
proof (cases "resolve_period s org d True adj")
  case (Some p)
  with assms show ?thesis
    using resolve_period_SomeD [OF Some] covers_named_for
    by (auto simp: can_post_to_date_def check_period_allowed_iff [symmetric])
next
  case None
  with assms(1) obtain po where e: "ensure_period_exists org d s = (Inr po, s')"
    and r: "po = None \<and> \<not> is_allowed r \<or> (\<exists>p. po = Some p \<and> r = check_period p adj sess)"
    by (fastforce simp: can_post_to_date_def bind_Inr split: option.splits)
  with assms(2) obtain p where "po = Some p" "r = check_period p adj sess" by auto
  then show ?thesis
    using ensure_period_exists_names [of org d s p s'] e assms(2)
    by (auto simp: check_period_allowed_iff [symmetric])
qed

lemma require_open_period_names:
  assumes "require_open_period org d adj sess s = (Inr pid, s')"
  shows "\<exists>p \<in> set (periods s'). fp_id p = pid \<and> named_for org d p \<and> open_for adj sess p"
proof -
  from assms(1) obtain r where c: "can_post_to_date org d adj sess s = (Inr r, s')"
    and r: "is_allowed r" "gr_fiscal_period_id r = Some pid"
    by (fastforce simp: require_open_period_def bind_Inr split: if_splits option.splits)
  show ?thesis using can_post_to_date_names [OF c r(1)] r(2) by auto
qed

section \<open>The status graph\<close>

text \<open>The transitions of \<open>PeriodStatus\<close> that the operations make.\<close>

inductive period_step :: "period_status \<Rightarrow> period_status \<Rightarrow> bool" where
  opened: "period_step P_FUTURE P_OPEN"
| soft_closed: "st \<in> {P_OPEN, P_REOPENED} \<Longrightarrow> period_step st P_SOFT_CLOSED"
| hard_closed: "st \<in> {P_SOFT_CLOSED, P_OPEN, P_REOPENED} \<Longrightarrow> period_step st P_HARD_CLOSED"
| reopened: "period_step P_SOFT_CLOSED P_REOPENED"

inductive_cases period_step_from [elim]: "period_step st st'"
inductive_simps period_step_hard_closed [simp]: "period_step P_HARD_CLOSED st"
inductive_simps period_step_future [simp]: "period_step P_FUTURE st"
inductive_simps period_step_soft_closed [simp]: "period_step P_SOFT_CLOSED st"

text \<open>An operation of the lifecycle touches one row, and moves it along the graph.\<close>

definition moves_period :: "uuid \<Rightarrow> gldb \<Rightarrow> gldb \<Rightarrow> bool" where
  "moves_period pid s s' \<longleftrightarrow> (\<exists>f p. get_row fp_id pid (periods s) = Some p
     \<and> periods s' = set_row fp_id pid f (periods s)
     \<and> (\<forall>q. fp_id (f q) = fp_id q \<and> fp_org (f q) = fp_org q \<and> fp_fiscal_year_id (f q) = fp_fiscal_year_id q
         \<and> fp_start_date (f q) = fp_start_date q \<and> fp_end_date (f q) = fp_end_date q
         \<and> fp_is_adjustment_period (f q) = fp_is_adjustment_period q)
     \<and> period_step (fp_status p) (fp_status (f p)))
   \<and> journals s' = journals s \<and> jlines s' = jlines s \<and> ledger s' = ledger s
   \<and> batches s' = batches s \<and> accounts s' = accounts s \<and> next_uuid s \<le> next_uuid s'"

lemma scoped_period_SomeD:
  "scoped_period org pid s = Some p \<Longrightarrow> get_row fp_id pid (periods s) = Some p \<and> fp_org p = org"
  by (auto simp: scoped_period_def split: option.splits if_splits)

lemma moves_periodI:
  assumes "scoped_period org pid s = Some p" and "s' = set_period pid f s \<or> s' = (set_period pid f s)\<lparr>next_uuid := Suc (next_uuid s)\<rparr>"
    and "\<And>q. fp_id (f q) = fp_id q" "\<And>q. fp_org (f q) = fp_org q"
    "\<And>q. fp_fiscal_year_id (f q) = fp_fiscal_year_id q" "\<And>q. fp_start_date (f q) = fp_start_date q"
    "\<And>q. fp_end_date (f q) = fp_end_date q" "\<And>q. fp_is_adjustment_period (f q) = fp_is_adjustment_period q"
    and "period_step (fp_status p) (fp_status (f p))"
  shows "moves_period pid s s'"
  unfolding moves_period_def
  using scoped_period_SomeD [OF assms(1)] assms(2-)
  by (auto simp: set_period_def intro!: exI [of _ f])

lemma open_period_step:
  "open_period org pid u s = (Inr r, s') \<Longrightarrow> moves_period pid s s'"
  by (auto simp: open_period_def split: option.splits if_splits
      intro!: moves_periodI [where f = "\<lambda>p. p\<lparr>fp_status := P_OPEN\<rparr>"] period_step.intros)

lemma soft_close_period_step:
  "soft_close_period org pid u now s = (Inr r, s') \<Longrightarrow> moves_period pid s s'"
  by (auto simp: soft_close_period_def Let_def split: option.splits if_splits
      intro!: moves_periodI [where f = "\<lambda>p. p\<lparr>fp_status := P_SOFT_CLOSED, fp_soft_closed_at := Some now,
              fp_soft_closed_by := Some u\<rparr>"] period_step.intros)

lemma hard_close_period_step:
  "hard_close_period org pid u now s = (Inr r, s') \<Longrightarrow> moves_period pid s s'"
  by (auto simp: hard_close_period_def Let_def split: option.splits if_splits
      intro!: moves_periodI [where f = "\<lambda>p. p\<lparr>fp_status := P_HARD_CLOSED, fp_hard_closed_at := Some now,
              fp_hard_closed_by := Some u\<rparr>"] period_step.intros)

lemma reopen_period_step:
  "reopen_period org pid u s = (Inr r, s') \<Longrightarrow> moves_period pid s s'"
  by (auto simp: reopen_period_def Let_def split: option.splits if_splits
      intro!: moves_periodI [where f = "\<lambda>p. p\<lparr>fp_status := P_REOPENED, fp_reopen_count := fp_reopen_count p + 1,
                fp_last_reopen_session_id := Some (next_uuid s)\<rparr>"] period_step.intros)

lemma close_reopen_session_step:
  "close_reopen_session org pid sess u now s = (Inr r, s') \<Longrightarrow> moves_period pid s s'"
  by (auto simp: close_reopen_session_def Let_def split: option.splits if_splits
      intro!: moves_periodI [where f = "\<lambda>p. p\<lparr>fp_status := P_SOFT_CLOSED, fp_soft_closed_at := Some now,
              fp_soft_closed_by := Some u\<rparr>"] period_step.intros)

lemmas period_op_steps = open_period_step soft_close_period_step hard_close_period_step
  reopen_period_step close_reopen_session_step

lemma period_op_refused:
  "open_period org pid u s = (Inl e, s') \<Longrightarrow> s' = s"
  "soft_close_period org pid u now s = (Inl e, s') \<Longrightarrow> s' = s"
  "hard_close_period org pid u now s = (Inl e, s') \<Longrightarrow> s' = s"
  "reopen_period org pid u s = (Inl e, s') \<Longrightarrow> s' = s"
  "close_reopen_session org pid sess u now s = (Inl e, s') \<Longrightarrow> s' = s"
  by (auto simp: open_period_def soft_close_period_def hard_close_period_def reopen_period_def
      close_reopen_session_def Let_def split: option.splits if_splits)

end
