(* ===== verification/Residue.thy ===== *)
theory Residue
  imports Decimals
begin

text \<open>
  \<open>app/services/finance/posting/residue.py\<close>: totals at the scale the ledger persists, and the
  allocation of a rounding residue to the line of largest absolute value, the earliest one on
  a tie. The module exists because three invoices posted one micro-unit out of balance; what
  it promises is that the allocated lines sum to the target exactly.
\<close>

datatype residue_error =
  ZeroLines decimal
| MissedTarget decimal decimal

definition sum_at_persisted_scale :: "decimal list \<Rightarrow> decimal" where
  "sum_at_persisted_scale amounts = (\<Sum>a\<leftarrow>amounts. numeric6 a)"

definition largest_absolute_index :: "decimal list \<Rightarrow> nat" where
  "largest_absolute_index amounts =
     fold (\<lambda>index best. if \<bar>amounts ! best\<bar> < \<bar>amounts ! index\<bar> then index else best)
       [1..<length amounts] 0"

definition allocate_residue ::
  "decimal list \<Rightarrow> decimal \<Rightarrow> residue_error + decimal list" where
  "allocate_residue amounts target_total =
    (let target = numeric6 target_total;
         rounded = map numeric6 amounts
     in if rounded = [] then (if target \<noteq> 0 then Inl (ZeroLines target) else Inr [])
        else let residue = target - sum_list rounded
          in if residue = 0 then Inr rounded
             else let index = largest_absolute_index rounded;
                      adjusted = rounded[index := numeric6 (rounded ! index + residue)]
               in if sum_list adjusted \<noteq> target then Inl (MissedTarget (sum_list adjusted) target)
                  else Inr adjusted)"

section \<open>The scan\<close>

lemma scan_invariant:
  fixes a :: "nat \<Rightarrow> 'v::linorder"
  assumes "n \<noteq> 0"
  shows "let k = fold (\<lambda>i b. if a b < a i then i else b) [1..<n] 0
         in k < n \<and> (\<forall>i<n. a i \<le> a k) \<and> (\<forall>i<k. a i < a k)"
  using assms
proof (induction n)
  case 0
  then show ?case by simp
next
  case (Suc n)
  show ?case
  proof (cases "n = 0")
    case True
    then show ?thesis by (simp add: Let_def)
  next
    case False
    let ?k = "fold (\<lambda>i b. if a b < a i then i else b) [1..<n] 0"
    have "?k < n" "\<forall>i<n. a i \<le> a ?k" "\<forall>i<?k. a i < a ?k"
      using Suc.IH False by (simp_all add: Let_def)
    then show ?thesis
      using False by (auto simp: Let_def less_Suc_eq not_less intro: le_less_trans order_trans)
  qed
qed

lemma largest_absolute_index_spec:
  assumes "amounts \<noteq> []"
  shows "largest_absolute_index amounts < length amounts"
    and "i < length amounts \<Longrightarrow> \<bar>amounts ! i\<bar> \<le> \<bar>amounts ! largest_absolute_index amounts\<bar>"
    and "i < largest_absolute_index amounts \<Longrightarrow>
      \<bar>amounts ! i\<bar> < \<bar>amounts ! largest_absolute_index amounts\<bar>"
  using scan_invariant [of "length amounts" "\<lambda>i. \<bar>amounts ! i\<bar>"] assms
  by (simp_all add: largest_absolute_index_def Let_def)

section \<open>Reaching the target\<close>

lemma sum_list_update_rat:
  "i < length xs \<Longrightarrow> sum_list (xs[i := v]) = sum_list xs - xs ! i + (v :: rat)"
  by (induction xs arbitrary: i) (auto split: nat.split)

context rounding
begin

text \<open>Any rounding mode: moving one fixed line by the missing amount hits the target.\<close>

lemma adjusted_line_hits_target:
  assumes "\<And>x. x \<in> set xs \<Longrightarrow> rnd x = x" and "i < length xs"
  shows "sum_list (xs[i := rnd (xs ! i + (rnd t - sum_list xs))]) = rnd t"
proof -
  have "rnd (xs ! i + (rnd t - sum_list xs)) = xs ! i + (rnd t - sum_list xs)"
    by (intro rnd_add_fixed rnd_diff_fixed rnd_sum_fixed rnd_idem assms nth_mem)
  then show ?thesis using assms(2) by (simp add: sum_list_update_rat)
qed

lemma residue_bound:
  assumes "t = sum_list xs"
  shows "\<bar>rnd t - (\<Sum>x\<leftarrow>xs. rnd x)\<bar> \<le> of_nat (Suc (length xs)) * (unit / 2)"
proof -
  have "of_nat (Suc (length xs)) * (unit / 2) = unit / 2 + of_nat (length xs) * (unit / 2)"
    by (simp add: algebra_simps)
  then show ?thesis
    using rnd_error [of t] sum_rnd_error [of "\<lambda>x. x" xs] assms
    by (simp only: abs_le_iff map_ident) linarith
qed

end

lemma allocate_residue_Inr:
  assumes "amounts \<noteq> []"
  shows "allocate_residue amounts t =
    Inr (let rounded = map numeric6 amounts; i = largest_absolute_index rounded
         in rounded[i := rounded ! i + (numeric6 t - sum_list rounded)])"
proof -
  let ?r = "map numeric6 amounts" and ?d = "numeric6 t - sum_list (map numeric6 amounts)"
  let ?i = "largest_absolute_index ?r"
  have i: "?i < length ?r" using largest_absolute_index_spec(1) [of ?r] assms by simp
  have fixed: "numeric6 x = x" if "x \<in> set ?r" for x
    using that persisted.rnd_idem by auto
  have "numeric6 (?r ! ?i + ?d) = ?r ! ?i + ?d"
    by (intro persisted.rnd_add_fixed persisted.rnd_diff_fixed persisted.rnd_sum_fixed
        persisted.rnd_idem fixed nth_mem i)
  moreover have "sum_list (?r[?i := numeric6 (?r ! ?i + ?d)]) = numeric6 t"
    by (rule persisted.adjusted_line_hits_target [OF fixed i])
  moreover have "?r[?i := ?r ! ?i] = ?r" by simp
  ultimately show ?thesis
    using assms by (auto simp: allocate_residue_def Let_def)
qed

lemma sum_at_persisted_scale_map:
  "sum_at_persisted_scale (map f xs) = (\<Sum>x\<leftarrow>xs. numeric6 (f x))"
  by (simp add: sum_at_persisted_scale_def o_def)

section \<open>Properties\<close>



text \<open>When the target is the total of the unrounded amounts, every line other than the
  largest is just the rounded amount, and the largest (the first of the largest) absorbs at
  most half a micro-unit per line plus one half.\<close>

theorem allocate_residue_least_distortion:
  assumes "amounts \<noteq> []" and "target = sum_list amounts"
    and "allocate_residue amounts target = Inr ys"
  shows "\<exists>k < length amounts.
    (\<forall>i < length amounts. abs (numeric6 (amounts ! i)) \<le> abs (numeric6 (amounts ! k)))
    \<and> (\<forall>i < k. abs (numeric6 (amounts ! i)) < abs (numeric6 (amounts ! k)))
    \<and> (\<forall>i < length amounts. i \<noteq> k \<longrightarrow> ys ! i = numeric6 (amounts ! i))
    \<and> abs (ys ! k - numeric6 (amounts ! k)) \<le> of_nat (Suc (length amounts)) * (1 / 10 ^ 6 / 2)"
proof (rule exI [of _ "largest_absolute_index (map numeric6 amounts)"], intro conjI)
  let ?r = "map numeric6 amounts"
  let ?k = "largest_absolute_index ?r"
  have ne: "?r \<noteq> []" using assms(1) by simp
  show k: "?k < length amounts"
    using largest_absolute_index_spec(1) [OF ne] by (simp only: length_map)
  show "\<forall>i < length amounts. abs (numeric6 (amounts ! i)) \<le> abs (numeric6 (amounts ! ?k))"
  proof (intro allI impI)
    fix i assume "i < length amounts"
    then show "abs (numeric6 (amounts ! i)) \<le> abs (numeric6 (amounts ! ?k))"
      using largest_absolute_index_spec(2) [OF ne, of i] k by (simp only: nth_map length_map)
  qed
  show "\<forall>i < ?k. abs (numeric6 (amounts ! i)) < abs (numeric6 (amounts ! ?k))"
  proof (intro allI impI)
    fix i assume i: "i < ?k"
    then have "i < length amounts" using k by (rule less_trans)
    then show "abs (numeric6 (amounts ! i)) < abs (numeric6 (amounts ! ?k))"
      using largest_absolute_index_spec(3) [OF ne i] k by (simp only: nth_map)
  qed
  have ys: "ys = ?r[?k := ?r ! ?k + (numeric6 target - sum_list ?r)]"
    using assms(3) unfolding allocate_residue_Inr [OF assms(1)] Let_def by (simp only: sum.inject)
  show "\<forall>i < length amounts. i \<noteq> ?k \<longrightarrow> ys ! i = numeric6 (amounts ! i)"
    unfolding ys by simp
  have "ys ! ?k - numeric6 (amounts ! ?k) = numeric6 target - sum_list ?r"
    unfolding ys using k by simp
  then show "abs (ys ! ?k - numeric6 (amounts ! ?k)) \<le> of_nat (Suc (length amounts)) * (1 / 10 ^ 6 / 2)"
    using persisted.residue_bound [OF assms(2)] by (simp only:)
qed

theorem allocate_residue_least_distortion_witness:
  "\<exists>k < length [1 / 3, 1 / 3 :: decimal].
    (\<forall>i < length [1 / 3, 1 / 3 :: decimal].
      abs (numeric6 ([1 / 3, 1 / 3] ! i)) \<le> abs (numeric6 ([1 / 3, 1 / 3] ! k)))
    \<and> (\<forall>i < k. abs (numeric6 ([1 / 3, 1 / 3] ! i)) < abs (numeric6 ([1 / 3, 1 / 3] ! k)))
    \<and> (\<forall>i < length [1 / 3, 1 / 3 :: decimal].
      i \<noteq> k \<longrightarrow> [333334 / 10 ^ 6, 333333 / 10 ^ 6] ! i = numeric6 ([1 / 3, 1 / 3] ! i))
    \<and> abs ([333334 / 10 ^ 6, 333333 / 10 ^ 6] ! k - numeric6 ([1 / 3, 1 / 3] ! k))
      \<le> of_nat (Suc (length [1 / 3, 1 / 3 :: decimal])) * (1 / 10 ^ 6 / 2)"
proof (rule allocate_residue_least_distortion [of "[1 / 3, 1 / 3]" "2 / 3"])
  show "allocate_residue [1 / 3, 1 / 3] (2 / 3) = Inr [333334 / 10 ^ 6, 333333 / 10 ^ 6]"
    by (simp add: allocate_residue_def largest_absolute_index_def quantize_half_up_def half_up_def)
qed simp_all

end
