(* ===== verification/Ledger_Posting.thy ===== *)
theory Ledger_Posting
  imports Period_Guard Residue
begin

text \<open>
  \<open>app/services/finance/gl/ledger_posting.py\<close>, the only writer of \<open>posted_ledger_line\<close>, and the
  part of \<open>balance_invalidation.py\<close> and \<open>outbox_publisher.py\<close> it calls. \<open>post_journal_entry\<close>
  is composed as the source is: claim the batch of the idempotency key, check the journal, pass
  the period gate, load and validate the entries, obtain a batch, write the lines and settle.
\<close>

section \<open>Requests and results\<close>

record posting_entry =
  pe_account_id :: uuid
  pe_journal_line_id :: "uuid option"
  pe_debit_amount :: decimal
  pe_credit_amount :: decimal
  pe_description :: "string option"
  pe_debit_functional :: decimal
  pe_credit_functional :: decimal
  pe_original_currency_code :: "string option"
  pe_original_debit :: "decimal option"
  pe_original_credit :: "decimal option"
  pe_exchange_rate :: "decimal option"
  pe_dims :: dims

record posting_request =
  rq_organization_id :: uuid
  rq_journal_entry_id :: uuid
  rq_posting_date :: date
  rq_idempotency_key :: string
  rq_source_module :: string
  rq_entries :: "posting_entry list"
  rq_correlation_id :: "string option"
  rq_posted_by :: "uuid option"
  rq_allow_adjustment_period :: bool
  rq_reopen_session_id :: "uuid option"

record posting_result =
  res_success :: bool
  res_batch_id :: "uuid option"
  res_posted_lines :: nat
  res_total_debit :: decimal
  res_total_credit :: decimal
  res_message :: string
  res_correlation_id :: "string option"
  res_idempotent_replay :: bool

section \<open>Validation of the entries\<close>

definition validate_balance :: "posting_entry list \<Rightarrow> detail option" where
  "validate_balance entries =
    (let total_debit = sum_at_persisted_scale (map pe_debit_functional entries);
         total_credit = sum_at_persisted_scale (map pe_credit_functional entries)
     in if total_debit \<noteq> total_credit then Some (Unbalanced total_debit total_credit) else None)"

fun validate_functional_amounts :: "nat \<Rightarrow> posting_entry list \<Rightarrow> detail option" where
  "validate_functional_amounts i [] = None"
| "validate_functional_amounts i (e # es) =
    (if pe_debit_functional e < 0 \<or> pe_credit_functional e < 0 then Some (FunctionalNegative (i + 1))
     else if pe_debit_functional e = 0 \<and> pe_credit_functional e = 0 then Some (FunctionalBothZero (i + 1))
     else if pe_debit_functional e \<noteq> 0 \<and> pe_credit_functional e \<noteq> 0 then Some (FunctionalBothSides (i + 1))
     else if pe_debit_amount e < 0 \<or> pe_credit_amount e < 0 then Some (OriginalNegative (i + 1))
     else if pe_debit_amount e \<noteq> 0 \<and> pe_credit_amount e \<noteq> 0 then Some (OriginalBothSides (i + 1))
     else validate_functional_amounts (i + 1) es)"

section \<open>The batch of an idempotency key\<close>

text \<open>Whether the posting a batch stands for has been undone by a reversal.\<close>

definition batch_posting_reversed :: "gldb \<Rightarrow> uuid \<Rightarrow> posting_batch \<Rightarrow> bool" where
  "batch_posting_reversed s org b =
    (if (\<exists>j \<in> set (journals s). je_org j = org \<and> je_posting_batch_id j = Some (pb_id b)
         \<and> je_status j = J_POSTED) then False
     else (\<exists>j \<in> set (journals s). je_org j = org \<and> je_posting_batch_id j = Some (pb_id b)
         \<and> je_status j = J_REVERSED))"

definition superseded_key :: "posting_batch \<Rightarrow> string" where
  "superseded_key b = (let suffix = '':superseded:'' @ uuid_str (pb_id b)
     in take (200 - length suffix) (pb_idempotency_key b) @ suffix)"

definition key_taken :: "gldb \<Rightarrow> uuid \<Rightarrow> string \<Rightarrow> bool" where
  "key_taken s own key \<longleftrightarrow> (\<exists>b \<in> set (batches s). pb_id b \<noteq> own \<and> pb_idempotency_key b = key)"

definition retire_superseded_batch_key :: "posting_batch \<Rightarrow> gldb \<Rightarrow> (gl_error, unit, gldb) tx" where
  "retire_superseded_batch_key b s =
    (if key_taken s (pb_id b) (superseded_key b) then raise (IntegrityError ''uq_batch_idempotency'') s
     else return () (s\<lparr>batches := set_row pb_id (pb_id b)
       (\<lambda>r. r\<lparr>pb_idempotency_key := superseded_key b\<rparr>) (batches s)\<rparr>))"

text \<open>What the lookup of an existing batch decides (steps 1 and 2 of the source).\<close>

datatype batch_claim =
  NewBatch
| Superseding posting_batch
| Retrying posting_batch
| Replayed posting_batch

definition find_batch :: "gldb \<Rightarrow> uuid \<Rightarrow> string \<Rightarrow> posting_batch option" where
  "find_batch s org key = find (\<lambda>b. pb_org b = org \<and> pb_idempotency_key b = key) (batches s)"

text \<open>Sessions do not autoflush: the statuses that \<open>_batch_posting_reversed\<close> selects on are those
  last flushed, the argument \<open>flushed\<close>.\<close>

definition claim_batch :: "gldb \<Rightarrow> posting_request \<Rightarrow> timestamp \<Rightarrow> gldb
    \<Rightarrow> (gl_error, batch_claim, gldb) tx" where
  "claim_batch flushed req now s =
    (if rq_idempotency_key req = [] then raise (HTTPException 400 IdempotencyKeyRequired) s
     else case find_batch s (rq_organization_id req) (rq_idempotency_key req) of
       None \<Rightarrow> return NewBatch s
     | Some b \<Rightarrow>
        if pb_status b = B_POSTED then
          (if batch_posting_reversed flushed (rq_organization_id req) b then return (Superseding b) s
           else return (Replayed b) s)
        else if pb_status b = B_FAILED then
          (if 0 < pb_posted_entries b then raise (HTTPException 409 FailedBatchHasEntries) s
           else return (Retrying b) (s\<lparr>batches := set_row pb_id (pb_id b)
             (\<lambda>r. r\<lparr>pb_status := B_PROCESSING, pb_error_message := None, pb_failed_entries := 0,
                pb_total_entries := 0, pb_posted_entries := 0, pb_processing_started_at := Some now,
                pb_submitted_by := (case rq_posted_by req of Some u \<Rightarrow> u | None \<Rightarrow> pb_submitted_by r)\<rparr>)
             (batches s)\<rparr>))
        else raise (HTTPException 409 (BatchInStatus (pb_status b))) s)"

definition new_batch :: "uuid \<Rightarrow> posting_request \<Rightarrow> journal_entry \<Rightarrow> uuid \<Rightarrow> nat \<Rightarrow> timestamp \<Rightarrow> posting_batch" where
  "new_batch u req j pid n now = \<lparr>pb_id = u, pb_org = rq_organization_id req,
     pb_fiscal_period_id = pid, pb_idempotency_key = rq_idempotency_key req,
     pb_source_module = rq_source_module req,
     pb_batch_description = ''Journal '' @ je_journal_number j,
     pb_total_entries = n, pb_posted_entries = 0, pb_failed_entries = 0,
     pb_status = B_PROCESSING, pb_error_message = None,
     pb_submitted_by = (case rq_posted_by req of Some u \<Rightarrow> u | None \<Rightarrow> je_created_by j),
     pb_processing_started_at = Some now, pb_completed_at = None,
     pb_correlation_id = rq_correlation_id req\<rparr>"

definition insert_batch :: "posting_request \<Rightarrow> journal_entry \<Rightarrow> uuid \<Rightarrow> nat \<Rightarrow> timestamp \<Rightarrow> gldb
    \<Rightarrow> (gl_error, uuid, gldb) tx" where
  "insert_batch req j pid n now s = (let u = next_uuid s in
     if key_taken s u (rq_idempotency_key req) then raise (IntegrityError ''uq_batch_idempotency'') s
     else return u (s\<lparr>batches := add_row (new_batch u req j pid n now) (batches s), next_uuid := Suc u\<rparr>))"

text \<open>Step 8: create the batch row, or reuse the failed one.\<close>

definition obtain_batch :: "batch_claim \<Rightarrow> posting_request \<Rightarrow> journal_entry \<Rightarrow> uuid \<Rightarrow> nat \<Rightarrow> timestamp
    \<Rightarrow> gldb \<Rightarrow> (gl_error, uuid, gldb) tx" where
  "obtain_batch claim req j pid n now s = (case claim of
     Retrying b \<Rightarrow> return (pb_id b) (s\<lparr>batches := set_row pb_id (pb_id b)
       (\<lambda>r. r\<lparr>pb_org := rq_organization_id req, pb_fiscal_period_id := pid,
          pb_source_module := rq_source_module req,
          pb_batch_description := ''Journal '' @ je_journal_number j,
          pb_total_entries := n, pb_correlation_id := rq_correlation_id req\<rparr>) (batches s)\<rparr>)
   | Superseding b \<Rightarrow> bind_tx (retire_superseded_batch_key b s) (\<lambda>_ s'. insert_batch req j pid n now s')
   | _ \<Rightarrow> insert_batch req j pid n now s)"

section \<open>The ledger lines\<close>

definition entry_of_line :: "journal_line \<Rightarrow> posting_entry" where
  "entry_of_line l = \<lparr>pe_account_id = jl_account l, pe_journal_line_id = Some (jl_id l),
     pe_debit_amount = jl_debit l, pe_credit_amount = jl_credit l,
     pe_description = jl_description l,
     pe_debit_functional = jl_debit_functional l, pe_credit_functional = jl_credit_functional l,
     pe_original_currency_code = jl_currency_code l,
     pe_original_debit = (if jl_currency_code l \<noteq> None then Some (jl_debit l) else None),
     pe_original_credit = (if jl_currency_code l \<noteq> None then Some (jl_credit l) else None),
     pe_exchange_rate = jl_exchange_rate l, pe_dims = jl_dims l\<rparr>"

definition lines_of :: "gldb \<Rightarrow> uuid \<Rightarrow> journal_line list" where
  "lines_of s jid = sort_key jl_line_number (filter (\<lambda>l. jl_journal l = jid) (jlines s))"

definition load_journal_lines :: "gldb \<Rightarrow> journal_entry \<Rightarrow> posting_entry list" where
  "load_journal_lines s j = map entry_of_line (lines_of s (je_id j))"

definition account_code_of :: "gldb \<Rightarrow> uuid \<Rightarrow> string" where
  "account_code_of s aid = (case get_row ac_id aid (accounts s) of None \<Rightarrow> '''' | Some a \<Rightarrow> ac_code a)"

text \<open>One \<open>PostedLedgerLine\<close>; \<open>u\<close> is its identifier, and \<open>Suc u\<close> the one drawn for a journal line
  that the entry does not name.\<close>

definition ledger_line_of :: "gldb \<Rightarrow> posting_request \<Rightarrow> journal_entry \<Rightarrow> uuid \<Rightarrow> uuid \<Rightarrow> uuid
    \<Rightarrow> posting_entry \<Rightarrow> ledger_line" where
  "ledger_line_of s req j pid bid u e = \<lparr>ll_id = u,
     ll_posting_year = year (rq_posting_date req), ll_org = rq_organization_id req,
     ll_journal = rq_journal_entry_id req,
     ll_journal_line = (case pe_journal_line_id e of Some x \<Rightarrow> x | None \<Rightarrow> Suc u),
     ll_batch = bid, ll_period = pid, ll_account = pe_account_id e,
     ll_account_code = account_code_of s (pe_account_id e),
     ll_entry_date = je_entry_date j, ll_posting_date = rq_posting_date req,
     ll_description = pe_description e, ll_journal_reference = je_reference j,
     ll_debit = numeric6 (pe_debit_functional e), ll_credit = numeric6 (pe_credit_functional e),
     ll_original_currency_code = pe_original_currency_code e,
     ll_original_debit = map_option numeric6 (pe_original_debit e),
     ll_original_credit = map_option numeric6 (pe_original_credit e),
     ll_exchange_rate = map_option (quantize_half_up 10) (pe_exchange_rate e),
     ll_dims = pe_dims e, ll_source_module = rq_source_module req,
     ll_source_document_type = je_source_document_type j,
     ll_source_document_id = je_source_document_id j,
     ll_posted_by = (case rq_posted_by req of Some x \<Rightarrow> x | None \<Rightarrow> je_created_by j),
     ll_correlation_id = rq_correlation_id req\<rparr>"

fun ledger_lines_from :: "gldb \<Rightarrow> posting_request \<Rightarrow> journal_entry \<Rightarrow> uuid \<Rightarrow> uuid \<Rightarrow> uuid
    \<Rightarrow> posting_entry list \<Rightarrow> ledger_line list" where
  "ledger_lines_from s req j pid bid u [] = []"
| "ledger_lines_from s req j pid bid u (e # es) =
     ledger_line_of s req j pid bid u e # ledger_lines_from s req j pid bid (u + 2) es"

section \<open>Effects of a posting\<close>

text \<open>\<open>BalanceInvalidationService.invalidate\<close>: mark the actual balance stale and queue the
  account and period for a refresh.\<close>

definition invalidate :: "timestamp \<Rightarrow> uuid \<times> uuid \<times> uuid \<Rightarrow> gldb \<Rightarrow> gldb" where
  "invalidate now k s = (case k of (org, acct, per) \<Rightarrow>
     s\<lparr>balances := map (\<lambda>b. if ab_org b = org \<and> ab_account b = acct \<and> ab_period b = per \<and> ab_actual b
           then b\<lparr>ab_is_stale := True, ab_stale_since := Some now\<rparr> else b) (balances s),
       refresh_queue := (if (\<exists>q \<in> set (refresh_queue s). rf_key q = k)
           then set_row rf_key k (\<lambda>q. q\<lparr>rf_invalidated_at := now, rf_processed_at := None\<rparr>) (refresh_queue s)
           else add_row \<lparr>rf_key = k, rf_invalidated_at = now, rf_processed_at = None\<rparr> (refresh_queue s))\<rparr>)"

definition invalidate_batch :: "timestamp \<Rightarrow> (uuid \<times> uuid \<times> uuid) list \<Rightarrow> gldb \<Rightarrow> gldb" where
  "invalidate_batch now keys s = fold (invalidate now) (remdups keys) s"

definition posting_event :: "posting_request \<Rightarrow> uuid \<Rightarrow> uuid \<Rightarrow> nat \<Rightarrow> decimal \<Rightarrow> decimal \<Rightarrow> outbox_event" where
  "posting_event req bid pid n td tc = \<lparr>ob_event_name = ''ledger.posting.completed'',
     ob_aggregate_type = ''PostingBatch'', ob_aggregate_id = uuid_str bid,
     ob_journal = rq_journal_entry_id req, ob_period = pid, ob_line_count = n,
     ob_total_debit = td, ob_total_credit = tc,
     ob_idempotency_key = ''posting:'' @ uuid_str bid\<rparr>"

text \<open>\<open>OutboxPublisher.publish_event\<close> for a posting; \<open>uq_outbox_idempotency\<close> is its unique key.\<close>

definition publish_posting_event :: "outbox_event \<Rightarrow> gldb \<Rightarrow> (gl_error, unit, gldb) tx" where
  "publish_posting_event ev s =
    (if ob_idempotency_key ev \<in> set (map ob_idempotency_key (outbox s))
     then raise (IntegrityError ''uq_outbox_idempotency'') s
     else return () (s\<lparr>outbox := add_row ev (outbox s)\<rparr>))"

text \<open>Steps 9 to 15: the lines, the stale balances, the batch, the journal, the event, the hook.\<close>

definition write_posting :: "posting_request \<Rightarrow> journal_entry \<Rightarrow> uuid \<Rightarrow> uuid \<Rightarrow> posting_entry list
    \<Rightarrow> timestamp \<Rightarrow> gldb \<Rightarrow> (gl_error, posting_result, gldb) tx" where
  "write_posting req j pid bid entries now s =
    (let lines = ledger_lines_from s req j pid bid (next_uuid s) entries;
         total_debit = foldl (\<lambda>t e. dec_add t (pe_debit_functional e)) 0 entries;
         total_credit = foldl (\<lambda>t e. dec_add t (pe_credit_functional e)) 0 entries;
         poster = (case rq_posted_by req of Some u \<Rightarrow> u | None \<Rightarrow> je_created_by j);
         s1 = invalidate_batch now (map (\<lambda>l. (rq_organization_id req, ll_account l, ll_period l)) lines) s;
         s2 = s1\<lparr>batches := set_row pb_id bid (\<lambda>b. b\<lparr>pb_posted_entries := length lines,
             pb_status := B_POSTED, pb_completed_at := Some now\<rparr>) (batches s1)\<rparr>;
         s3 = set_journal (rq_journal_entry_id req) (\<lambda>j. j\<lparr>je_status := J_POSTED,
             je_posting_batch_id := Some bid, je_posted_at := Some now, je_posted_by := Some poster\<rparr>) s2
     in bind_tx (publish_posting_event
            (posting_event req bid pid (length lines) total_debit total_credit) s3) (\<lambda>_ s4.
          return \<lparr>res_success = True, res_batch_id = Some bid, res_posted_lines = length lines,
              res_total_debit = total_debit, res_total_credit = total_credit,
              res_message = ''Journal posted successfully'',
              res_correlation_id = rq_correlation_id req, res_idempotent_replay = False\<rparr>
            (s4\<lparr>ledger := ledger s @ lines, next_uuid := next_uuid s + 2 * length lines,
               hook_events := hook_events s4 @ [(''gl.journal.posted'', rq_journal_entry_id req)]\<rparr>)))"

definition replay_result :: "posting_batch \<Rightarrow> posting_result" where
  "replay_result b = \<lparr>res_success = True, res_batch_id = Some (pb_id b),
     res_posted_lines = pb_posted_entries b, res_total_debit = 0, res_total_credit = 0,
     res_message = ''Already posted (idempotent replay)'',
     res_correlation_id = pb_correlation_id b, res_idempotent_replay = True\<rparr>"

text \<open>Steps 4 to 15, for a journal that may be posted.\<close>

definition post_approved :: "batch_claim \<Rightarrow> posting_request \<Rightarrow> journal_entry \<Rightarrow> timestamp \<Rightarrow> gldb
    \<Rightarrow> (gl_error, posting_result, gldb) tx" where
  "post_approved claim req j now s =
    bind_tx (require_open_period (rq_organization_id req) (rq_posting_date req)
        (rq_allow_adjustment_period req) (rq_reopen_session_id req) s) (\<lambda>pid s1.
      let entries = (if rq_entries req = [] then load_journal_lines s1 j else rq_entries req) in
      case validate_balance entries of Some d \<Rightarrow> raise (HTTPException 400 d) s1
      | None \<Rightarrow>
        (case validate_functional_amounts 0 entries of Some d \<Rightarrow> raise (HTTPException 400 d) s1
         | None \<Rightarrow> bind_tx (obtain_batch claim req j pid (length entries) now s1) (\<lambda>bid s2.
             write_posting req j pid bid entries now s2)))"

definition post_seeing :: "gldb \<Rightarrow> posting_request \<Rightarrow> timestamp \<Rightarrow> gldb
    \<Rightarrow> (gl_error, posting_result, gldb) tx" where
  "post_seeing flushed req now s =
    bind_tx (claim_batch flushed req now s) (\<lambda>claim s1. case claim of
       Replayed b \<Rightarrow> return (replay_result b) s1
     | _ \<Rightarrow> (case get_row je_id (rq_journal_entry_id req) (journals s1) of
          None \<Rightarrow> raise (HTTPException 404 JournalNotFound) s1
        | Some j \<Rightarrow>
            if je_org j \<noteq> rq_organization_id req then raise (HTTPException 404 JournalNotFound) s1
            else if je_status j = J_POSTED then raise (HTTPException 400 JournalAlreadyPosted) s1
            else if je_status j \<noteq> J_APPROVED then raise (HTTPException 400 (CannotPostStatus (je_status j))) s1
            else post_approved claim req j now s1))"

text \<open>The call on a session whose assignments are flushed; \<open>create_reversal\<close> makes the other one.\<close>

definition post_journal_entry :: "posting_request \<Rightarrow> timestamp \<Rightarrow> gldb
    \<Rightarrow> (gl_error, posting_result, gldb) tx" where
  "post_journal_entry req now s = post_seeing s req now s"

section \<open>What a posting changes\<close>

lemma invalidate_frame [simp]:
  "accounts (invalidate now k s) = accounts s" "periods (invalidate now k s) = periods s"
  "fiscal_years (invalidate now k s) = fiscal_years s"
  "journals (invalidate now k s) = journals s" "jlines (invalidate now k s) = jlines s"
  "batches (invalidate now k s) = batches s" "ledger (invalidate now k s) = ledger s"
  "outbox (invalidate now k s) = outbox s" "hook_events (invalidate now k s) = hook_events s"
  "audit_log (invalidate now k s) = audit_log s" "next_uuid (invalidate now k s) = next_uuid s"
  by (simp_all add: invalidate_def split: prod.split)

lemma invalidate_all_frame:
  "accounts (fold (invalidate now) ks s) = accounts s \<and> periods (fold (invalidate now) ks s) = periods s
   \<and> journals (fold (invalidate now) ks s) = journals s \<and> jlines (fold (invalidate now) ks s) = jlines s
   \<and> batches (fold (invalidate now) ks s) = batches s \<and> ledger (fold (invalidate now) ks s) = ledger s
   \<and> outbox (fold (invalidate now) ks s) = outbox s \<and> hook_events (fold (invalidate now) ks s) = hook_events s
   \<and> next_uuid (fold (invalidate now) ks s) = next_uuid s"
  by (induction ks arbitrary: s) simp_all

lemma invalidate_batch_frame [simp]:
  "accounts (invalidate_batch now ks s) = accounts s" "periods (invalidate_batch now ks s) = periods s"
  "journals (invalidate_batch now ks s) = journals s" "jlines (invalidate_batch now ks s) = jlines s"
  "batches (invalidate_batch now ks s) = batches s" "ledger (invalidate_batch now ks s) = ledger s"
  "outbox (invalidate_batch now ks s) = outbox s" "hook_events (invalidate_batch now ks s) = hook_events s"
  "next_uuid (invalidate_batch now ks s) = next_uuid s"
  by (simp_all add: invalidate_batch_def invalidate_all_frame)

lemma length_ledger_lines_from [simp]:
  "length (ledger_lines_from s req j pid bid u es) = length es"
  by (induction es arbitrary: u) simp_all

text \<open>Any column computed from the entry alone is the entries' image; the shared ones are the
  request's, the batch's and the period's.\<close>

lemma map_ledger_lines_from:
  assumes "\<And>u e. f (ledger_line_of s req j pid bid u e) = g e"
  shows "map f (ledger_lines_from s req j pid bid u es) = map g es"
  by (induction es arbitrary: u) (simp_all add: assms)

lemma in_ledger_lines_from:
  "l \<in> set (ledger_lines_from s req j pid bid u es) \<Longrightarrow>
     ll_org l = rq_organization_id req \<and> ll_journal l = rq_journal_entry_id req \<and> ll_batch l = bid
     \<and> ll_period l = pid \<and> ll_posting_date l = rq_posting_date req \<and> ll_source_module l = rq_source_module req"
  by (induction es arbitrary: u) (auto simp: ledger_line_of_def)

lemma claim_batch_kept: "claim_batch fl req now s = (r, s') \<Longrightarrow> books_kept s s' \<and> periods s' = periods s"
  by (auto simp: claim_batch_def Let_def return_def raise_def split: option.splits if_splits)

lemma claim_batch_Inr:
  assumes "claim_batch fl req now s = (Inr c, s')"
  shows "(case c of NewBatch \<Rightarrow> find_batch s (rq_organization_id req) (rq_idempotency_key req) = None
     | Superseding b \<Rightarrow> find_batch s (rq_organization_id req) (rq_idempotency_key req) = Some b
         \<and> pb_status b = B_POSTED \<and> batch_posting_reversed fl (rq_organization_id req) b
     | Replayed b \<Rightarrow> find_batch s (rq_organization_id req) (rq_idempotency_key req) = Some b
         \<and> pb_status b = B_POSTED \<and> \<not> batch_posting_reversed fl (rq_organization_id req) b \<and> s' = s
     | Retrying b \<Rightarrow> find_batch s (rq_organization_id req) (rq_idempotency_key req) = Some b
         \<and> pb_status b = B_FAILED \<and> pb_posted_entries b = 0)
   \<and> rq_idempotency_key req \<noteq> []"
  using assms by (auto simp: claim_batch_def Let_def split: option.splits if_splits)

lemma insert_batch_kept:
  "insert_batch req j pid n now s = (r, s') \<Longrightarrow> books_kept s s' \<and> periods s' = periods s"
  by (auto simp: insert_batch_def Let_def return_def raise_def split: if_splits)

lemma retire_superseded_batch_key_kept:
  "retire_superseded_batch_key b s = (r, s') \<Longrightarrow> books_kept s s' \<and> periods s' = periods s"
  by (auto simp: retire_superseded_batch_key_def return_def raise_def split: if_splits)

lemma obtain_batch_kept:
  assumes "obtain_batch c req j pid n now s = (r, s')"
  shows "books_kept s s' \<and> periods s' = periods s"
proof (cases c)
  case (Superseding b)
  obtain r1 s1 where r1: "retire_superseded_batch_key b s = (r1, s1)" by fastforce
  show ?thesis
    using assms retire_superseded_batch_key_kept [OF r1] insert_batch_kept [of req j pid n now s1 r s']
    by (cases r1) (auto simp: obtain_batch_def Superseding r1 intro: books_kept_trans)
qed (use assms in \<open>auto simp: obtain_batch_def return_def dest: insert_batch_kept\<close>)

text \<open>The writing steps are one function of the session: they raise only on a clash in the outbox.\<close>

lemma write_posting_Inr:
  assumes "write_posting req j pid bid es now s = (Inr r, s')"
  shows "journals s' = set_row je_id (rq_journal_entry_id req) (\<lambda>j'. j'\<lparr>je_status := J_POSTED,
      je_posting_batch_id := Some bid, je_posted_at := Some now,
      je_posted_by := Some (case rq_posted_by req of Some u \<Rightarrow> u | None \<Rightarrow> je_created_by j)\<rparr>) (journals s)"
    and "ledger s' = ledger s @ ledger_lines_from s req j pid bid (next_uuid s) es"
    and "jlines s' = jlines s" and "accounts s' = accounts s" and "periods s' = periods s"
    and "batches s' = set_row pb_id bid (\<lambda>b. b\<lparr>pb_posted_entries := length es,
      pb_status := B_POSTED, pb_completed_at := Some now\<rparr>) (batches s)"
    and "next_uuid s' = next_uuid s + 2 * length es"
    and "res_success r" and "res_batch_id r = Some bid" and "res_posted_lines r = length es"
    and "\<not> res_idempotent_replay r"
  using assms
  by (auto simp: write_posting_def publish_posting_event_def Let_def split: if_splits)

lemma write_posting_Inl:
  "write_posting req j pid bid es now s = (Inl e, s') \<Longrightarrow> e = IntegrityError ''uq_outbox_idempotency''"
  by (auto simp: write_posting_def publish_posting_event_def Let_def raise_def return_def split: if_splits)

text \<open>
  What a posting that is neither refused nor replayed has done, as one predicate on the two
  sessions: \<open>j\<close> is the journal as it was, \<open>pid\<close> the period the gate named, \<open>bid\<close> the batch.
\<close>

definition entries_to_post :: "gldb \<Rightarrow> posting_request \<Rightarrow> journal_entry \<Rightarrow> posting_entry list" where
  "entries_to_post s req j = (if rq_entries req = [] then load_journal_lines s j else rq_entries req)"

definition posts :: "posting_request \<Rightarrow> journal_entry \<Rightarrow> uuid \<Rightarrow> uuid \<Rightarrow> timestamp \<Rightarrow> gldb \<Rightarrow> gldb \<Rightarrow> bool" where
  "posts req j pid bid now s s' \<longleftrightarrow>
     get_row je_id (rq_journal_entry_id req) (journals s) = Some j
   \<and> je_org j = rq_organization_id req \<and> je_status j = J_APPROVED
   \<and> validate_balance (entries_to_post s req j) = None
   \<and> validate_functional_amounts 0 (entries_to_post s req j) = None
   \<and> jlines s' = jlines s \<and> accounts s' = accounts s \<and> next_uuid s \<le> next_uuid s'
   \<and> (\<exists>new. fresh_periods s s' new)
   \<and> journals s' = set_row je_id (rq_journal_entry_id req) (\<lambda>j'. j'\<lparr>je_status := J_POSTED,
        je_posting_batch_id := Some bid, je_posted_at := Some now,
        je_posted_by := Some (case rq_posted_by req of Some u \<Rightarrow> u | None \<Rightarrow> je_created_by j)\<rparr>) (journals s)
   \<and> (\<exists>u. ledger s' = ledger s @ ledger_lines_from s req j pid bid u (entries_to_post s req j))"

lemma ledger_lines_from_cong:
  "accounts s' = accounts s \<Longrightarrow> ledger_lines_from s' req j pid bid u es = ledger_lines_from s req j pid bid u es"
  by (induction es arbitrary: u) (simp_all add: ledger_line_of_def account_code_of_def)

lemma entries_to_post_cong: "jlines s' = jlines s \<Longrightarrow> entries_to_post s' req j = entries_to_post s req j"
  by (simp add: entries_to_post_def load_journal_lines_def lines_of_def)

lemma fresh_periods_grow:
  "fresh_periods s s1 new \<Longrightarrow> periods s' = periods s1 \<Longrightarrow> next_uuid s1 \<le> next_uuid s' \<Longrightarrow> fresh_periods s s' new"
  by (auto simp: fresh_periods_def)

lemma write_posting_posts:
  assumes kept: "books_kept s s2"
    and j: "get_row je_id (rq_journal_entry_id req) (journals s) = Some j"
      "je_org j = rq_organization_id req" "je_status j = J_APPROVED"
    and v: "validate_balance (entries_to_post s req j) = None"
      "validate_functional_amounts 0 (entries_to_post s req j) = None"
    and w: "write_posting req j pid bid (entries_to_post s req j) now s2 = (Inr r, s')"
  shows "posts req j pid bid now s s'"
proof -
  note k = books_keptD [OF kept] and w = write_posting_Inr [OF w]
  obtain new where "fresh_periods s s2 new" using kept by (auto simp: books_kept_def)
  then have "fresh_periods s s' new" by (rule fresh_periods_grow) (simp_all add: w)
  moreover have "next_uuid s \<le> next_uuid s'" using k(5) w(7) by simp
  moreover have "ledger s' = ledger s @ ledger_lines_from s req j pid bid (next_uuid s2) (entries_to_post s req j)"
    using w(2) k(3) ledger_lines_from_cong [OF k(4)] by simp
  ultimately show ?thesis
    unfolding posts_def using j v w(1) w(3) w(4) k by auto
qed

lemma post_approved_cases:
  assumes "post_approved c req j now s = (r, s')"
  obtains (refused) e where "r = Inl e" "(\<exists>k. e = IntegrityError k) \<or> books_kept s s'"
  | (written) res pid bid s1 s2 where "r = Inr res"
      "require_open_period (rq_organization_id req) (rq_posting_date req)
         (rq_allow_adjustment_period req) (rq_reopen_session_id req) s = (Inr pid, s1)"
      "validate_balance (entries_to_post s req j) = None"
      "validate_functional_amounts 0 (entries_to_post s req j) = None"
      "obtain_batch c req j pid (length (entries_to_post s req j)) now s1 = (Inr bid, s2)"
      "books_kept s s1" "books_kept s s2" "periods s2 = periods s1"
      "write_posting req j pid bid (entries_to_post s req j) now s2 = (Inr res, s')"
proof -
  let ?es = "entries_to_post s req j"
  obtain r1 s1 where g: "require_open_period (rq_organization_id req) (rq_posting_date req)
      (rq_allow_adjustment_period req) (rq_reopen_session_id req) s = (r1, s1)" by fastforce
  have k1: "books_kept s s1" by (rule require_open_period_kept [OF g])
  note es = entries_to_post_cong [OF books_keptD(2) [OF k1], of req j]
  show thesis
  proof (cases r1)
    case (Inl e)
    then show thesis using assms k1 by (intro refused [of e]) (auto simp: post_approved_def g raise_def)
  next
    case (Inr pid)
    note pa = assms [unfolded post_approved_def g Inr bind_tx.simps Let_def
        entries_to_post_def [symmetric] es]
    show thesis
    proof (cases "validate_balance ?es")
      case (Some d)
      then show thesis using pa k1 by (intro refused [of "HTTPException 400 d"]) (auto simp: raise_def)
    next
      case vb: None
      show thesis
      proof (cases "validate_functional_amounts 0 ?es")
        case (Some d)
        then show thesis using pa vb k1 by (intro refused [of "HTTPException 400 d"]) (auto simp: raise_def)
      next
        case vf: None
        obtain r2 s2 where o: "obtain_batch c req j pid (length ?es) now s1 = (r2, s2)" by fastforce
        have k2: "books_kept s s2" "periods s2 = periods s1"
          using obtain_batch_kept [OF o] k1 by (auto intro: books_kept_trans)
        show thesis
        proof (cases r2)
          case (Inl e)
          then show thesis using pa vb vf o k2 by (intro refused [of e]) auto
        next
          case (Inr bid)
          with pa vb vf o have w: "write_posting req j pid bid ?es now s2 = (r, s')" by simp
          show thesis
          proof (cases r)
            case (Inl e)
            then show thesis using write_posting_Inl [OF w [unfolded Inl]] by (intro refused [of e]) simp_all
          next
            case (Inr res)
            with w g \<open>r1 = Inr pid\<close> o \<open>r2 = Inr bid\<close> vb vf k1 k2 show thesis
              by (intro written [of res pid s1 bid s2]) simp_all
          qed
        qed
      qed
    qed
  qed
qed

text \<open>The outcomes of \<open>post_journal_entry\<close>: refused, replayed, or posted.\<close>

theorem post_seeing_cases:
  assumes "post_seeing fl req now s = (r, s')"
  obtains (refused) e where "r = Inl e" "(\<exists>k. e = IntegrityError k) \<or> books_kept s s'"
  | (replayed) b where "r = Inr (replay_result b)" "s' = s"
      "find_batch s (rq_organization_id req) (rq_idempotency_key req) = Some b"
      "pb_status b = B_POSTED" "\<not> batch_posting_reversed fl (rq_organization_id req) b"
  | (posted) res j pid bid where "r = Inr res" "posts req j pid bid now s s'"
      "res_success res" "\<not> res_idempotent_replay res" "res_batch_id res = Some bid"
      "\<exists>p \<in> set (periods s'). fp_id p = pid \<and> named_for (rq_organization_id req) (rq_posting_date req) p
         \<and> open_for (rq_allow_adjustment_period req) (rq_reopen_session_id req) p"
proof -
  obtain r1 s1 where cb: "claim_batch fl req now s = (r1, s1)" by fastforce
  have k1: "books_kept s s1" using claim_batch_kept [OF cb] by simp
  note j1 = books_keptD(1) [OF k1]
  show thesis
  proof (cases r1)
    case (Inl e)
    then show thesis using assms k1 by (intro refused [of e]) (auto simp: post_seeing_def cb)
  next
    case (Inr c)
    note spec = claim_batch_Inr [OF cb [unfolded Inr]]
    note eq = assms [unfolded post_seeing_def cb Inr bind_tx.simps j1]
    show thesis
    proof (cases "\<exists>b. c = Replayed b")
      case True
      then show thesis using spec eq by (auto intro: replayed)
    next
      case nr: False
      let ?j = "get_row je_id (rq_journal_entry_id req) (journals s)"
      have body: "(r, s') = (case ?j of None \<Rightarrow> raise (HTTPException 404 JournalNotFound) s1
        | Some j \<Rightarrow>
            if je_org j \<noteq> rq_organization_id req then raise (HTTPException 404 JournalNotFound) s1
            else if je_status j = J_POSTED then raise (HTTPException 400 JournalAlreadyPosted) s1
            else if je_status j \<noteq> J_APPROVED then raise (HTTPException 400 (CannotPostStatus (je_status j))) s1
            else post_approved c req j now s1)"
        using eq nr by (cases c) simp_all
      show thesis
      proof (cases "\<exists>j. ?j = Some j \<and> je_org j = rq_organization_id req \<and> je_status j = J_APPROVED")
        case False
        then obtain e where "(r, s') = (Inl e, s1)"
          using body by (auto simp: raise_def split: option.splits if_splits)
        then show thesis using k1 by (intro refused [of e]) simp_all
      next
        case True
        then obtain j where j: "?j = Some j" "je_org j = rq_organization_id req" "je_status j = J_APPROVED"
          by blast
        with body have pa: "post_approved c req j now s1 = (r, s')" by simp
        note es = entries_to_post_cong [OF books_keptD(2) [OF k1], of req j]
        show thesis
          using pa
        proof (cases rule: post_approved_cases)
          case (refused e)
          then show thesis using k1 by (intro that(1) [of e]) (auto intro: books_kept_trans)
        next
          case (written res pid bid s2 s3)
          have "books_kept s s3" using k1 written(7) by (rule books_kept_trans)
          from write_posting_posts [OF this j written(3,4,9) [unfolded es]]
          have "posts req j pid bid now s s'" .
          moreover have "periods s' = periods s2"
            using write_posting_Inr(5) [OF written(9)] written(8) by simp
          ultimately show thesis
            using written(1) require_open_period_names [OF written(2)] write_posting_Inr [OF written(9)]
            by (intro that(3) [of res j pid bid]) auto
        qed
      qed
    qed
  qed
qed

lemma post_journal_entry_seeing: "post_journal_entry req now s = (r, s') \<Longrightarrow> post_seeing s req now s = (r, s')"
  by (simp add: post_journal_entry_def)

lemmas post_journal_entry_cases [consumes 1, case_names refused replayed posted] =
  post_seeing_cases [OF post_journal_entry_seeing]

section \<open>The batches\<close>

text \<open>Primary key, \<open>uq_batch_idempotency\<close>, and identifiers drawn so far.\<close>

definition batches_ok :: "gldb \<Rightarrow> bool" where
  "batches_ok s \<longleftrightarrow> distinct (map pb_id (batches s)) \<and> distinct (map pb_idempotency_key (batches s))
     \<and> (\<forall>b \<in> set (batches s). pb_id b < next_uuid s)"

lemma batches_ok_same:
  "batches_ok s \<Longrightarrow> batches s' = batches s \<Longrightarrow> next_uuid s \<le> next_uuid s' \<Longrightarrow> batches_ok s'"
  by (auto simp: batches_ok_def)

lemma batches_ok_set_row:
  assumes "batches_ok s" and "batches s' = set_row pb_id i f (batches s)" and "next_uuid s \<le> next_uuid s'"
    and "\<And>b. pb_id (f b) = pb_id b" and "\<And>b. pb_idempotency_key (f b) = pb_idempotency_key b"
  shows "batches_ok s'"
proof -
  have "map pb_id (batches s') = map pb_id (batches s)"
    and "map pb_idempotency_key (batches s') = map pb_idempotency_key (batches s)"
    using assms by (simp_all add: set_row_def)
  moreover have "pb_id b < next_uuid s'" if "b \<in> set (batches s')" for b
    using that assms by (fastforce simp: batches_ok_def set_set_row split: if_splits)
  ultimately show ?thesis using assms(1) by (simp add: batches_ok_def)
qed

lemma distinct_set_key:
  assumes "distinct (map pb_id bs)" and "distinct (map pb_idempotency_key bs)"
    and "\<forall>b \<in> set bs. pb_id b \<noteq> i \<longrightarrow> pb_idempotency_key b \<noteq> k"
  shows "distinct (map pb_idempotency_key (set_row pb_id i (\<lambda>r. r\<lparr>pb_idempotency_key := k\<rparr>) bs))"
proof -
  have id: "inj_on pb_id (set bs)" and key: "inj_on pb_idempotency_key (set bs)" and d: "distinct bs"
    using assms(1,2) by (simp_all add: distinct_map)
  have "inj_on (\<lambda>r. pb_idempotency_key (if pb_id r = i then r\<lparr>pb_idempotency_key := k\<rparr> else r)) (set bs)"
    by (rule inj_onI) (use assms(3) inj_onD [OF id] inj_onD [OF key] in \<open>auto split: if_splits\<close>)
  then show ?thesis using d by (simp add: set_row_def distinct_map o_def)
qed

lemma gate_keeps_batches:
  "require_open_period org d adj sess s = (r, s') \<Longrightarrow> batches s' = batches s"
proof -
  have e: "batches (snd (ensure_period_exists org d s)) = batches s"
    by (auto simp: ensure_period_exists_def Let_def return_def raise_def split: option.split)
  have "batches (snd (can_post_to_date org d adj sess s)) = batches s"
    unfolding can_post_to_date_def
    by (split option.split, intro conjI allI impI)
      (rule bind_tx_post [where Q = "\<lambda>t. batches t = batches s", OF e], simp_all split: option.split)
  moreover assume "require_open_period org d adj sess s = (r, s')"
  ultimately show ?thesis
    unfolding require_open_period_def
    using bind_tx_post [where Q = "\<lambda>t. batches t = batches s", of "can_post_to_date org d adj sess s"
        "\<lambda>r s'. if \<not> is_allowed r then raise (HTTPException 400 (Guard (gr_message r))) s'
          else (case gr_fiscal_period_id r of
              None \<Rightarrow> raise (HTTPException 400 FiscalPeriodNotFound) s'
            | Some p \<Rightarrow> return p s')"]
    by (auto split: option.splits)
qed

lemma claim_batch_ok: "claim_batch fl req now s = (r, s') \<Longrightarrow> batches_ok s \<Longrightarrow> batches_ok s'"
  by (auto simp: claim_batch_def Let_def return_def raise_def split: option.splits if_splits
      elim!: batches_ok_set_row)

lemma retire_superseded_batch_key_ok:
  assumes "retire_superseded_batch_key b s = (r, s')" and "batches_ok s"
  shows "batches_ok s'"
proof (cases "key_taken s (pb_id b) (superseded_key b)")
  case False
  with assms have s': "s' = s\<lparr>batches := set_row pb_id (pb_id b)
      (\<lambda>r. r\<lparr>pb_idempotency_key := superseded_key b\<rparr>) (batches s)\<rparr>"
    by (simp add: retire_superseded_batch_key_def return_def)
  have "distinct (map pb_idempotency_key (batches s'))"
    unfolding s' using assms(2) False by (auto simp: batches_ok_def key_taken_def intro!: distinct_set_key)
  moreover have "map pb_id (batches s') = map pb_id (batches s)"
    unfolding s' by (simp add: set_row_def)
  ultimately show ?thesis using assms(2) unfolding s'
    by (auto simp: batches_ok_def set_set_row)
qed (use assms in \<open>simp add: retire_superseded_batch_key_def raise_def\<close>)

lemma insert_batch_ok:
  assumes "insert_batch req j pid n now s = (r, s')" and "batches_ok s"
  shows "batches_ok s'"
    and "r = Inr bid \<Longrightarrow> \<exists>b \<in> set (batches s'). pb_id b = bid \<and> pb_org b = rq_organization_id req
      \<and> pb_idempotency_key b = rq_idempotency_key req"
proof -
  have fresh: "pb_id b \<noteq> next_uuid s" if "b \<in> set (batches s)" for b
    using that assms(2) by (auto simp: batches_ok_def)
  show "batches_ok s'"
  proof (cases "key_taken s (next_uuid s) (rq_idempotency_key req)")
    case True
    then show ?thesis using assms by (simp add: insert_batch_def Let_def raise_def)
  next
    case False
    then have key: "\<forall>b \<in> set (batches s). pb_idempotency_key b \<noteq> rq_idempotency_key req"
      using fresh by (auto simp: key_taken_def)
    have s': "s' = s\<lparr>batches := batches s @ [new_batch (next_uuid s) req j pid n now],
        next_uuid := Suc (next_uuid s)\<rparr>"
      using assms(1) False by (simp add: insert_batch_def Let_def return_def add_row_def)
    show ?thesis
      using assms(2) key fresh unfolding s' batches_ok_def
      by (simp add: new_batch_def less_Suc_eq image_iff) metis
  qed
  show "r = Inr bid \<Longrightarrow> \<exists>b \<in> set (batches s'). pb_id b = bid \<and> pb_org b = rq_organization_id req
      \<and> pb_idempotency_key b = rq_idempotency_key req"
    using assms(1) by (auto simp: insert_batch_def Let_def new_batch_def return_def raise_def split: if_splits)
qed

lemma find_batch_SomeD:
  "find_batch s org key = Some b \<Longrightarrow> b \<in> set (batches s) \<and> pb_org b = org \<and> pb_idempotency_key b = key"
  by (auto simp: find_batch_def dest: find_SomeD)

lemma find_batch_unique:
  assumes "batches_ok s" and "b \<in> set (batches s)"
  shows "find_batch s (pb_org b) (pb_idempotency_key b) = Some b"
proof -
  have "find_batch s (pb_org b) (pb_idempotency_key b) \<noteq> None"
    using assms(2) by (auto simp: find_batch_def find_None_iff)
  then obtain c where c: "find_batch s (pb_org b) (pb_idempotency_key b) = Some c" by blast
  then have "c = b"
    using find_batch_SomeD [OF c] assms by (auto simp: batches_ok_def distinct_map inj_on_def)
  with c show ?thesis by simp
qed

lemma obtain_batch_ok:
  assumes o: "obtain_batch c req j pid n now s = (r, s')" and ok: "batches_ok s"
  shows "batches_ok s'"
    and "\<lbrakk>r = Inr bid; case c of Retrying b \<Rightarrow> \<exists>b' \<in> set (batches s). pb_id b' = pb_id b
        \<and> pb_idempotency_key b' = rq_idempotency_key req | _ \<Rightarrow> True\<rbrakk> \<Longrightarrow>
      \<exists>b \<in> set (batches s'). pb_id b = bid \<and> pb_org b = rq_organization_id req
        \<and> pb_idempotency_key b = rq_idempotency_key req"
proof -
  have "batches_ok s' \<and> (\<forall>bid. r = Inr bid \<longrightarrow> (case c of Retrying b \<Rightarrow> \<exists>b' \<in> set (batches s). pb_id b' = pb_id b
        \<and> pb_idempotency_key b' = rq_idempotency_key req | _ \<Rightarrow> True) \<longrightarrow>
      (\<exists>b \<in> set (batches s'). pb_id b = bid \<and> pb_org b = rq_organization_id req
        \<and> pb_idempotency_key b = rq_idempotency_key req))"
  proof (cases c)
    case (Retrying b)
    define f :: "posting_batch \<Rightarrow> posting_batch" where "f = (\<lambda>r. r\<lparr>pb_org := rq_organization_id req, pb_fiscal_period_id := pid,
          pb_source_module := rq_source_module req,
          pb_batch_description := ''Journal '' @ je_journal_number j,
          pb_total_entries := n, pb_correlation_id := rq_correlation_id req\<rparr>)"
    have f: "pb_id (f b) = pb_id b" "pb_idempotency_key (f b) = pb_idempotency_key b"
      "pb_org (f b) = rq_organization_id req" for b by (simp_all add: f_def)
    have s': "s' = s\<lparr>batches := set_row pb_id (pb_id b) f (batches s)\<rparr>" and r: "r = Inr (pb_id b)"
      using o by (simp_all add: obtain_batch_def Retrying return_def f_def)
    have "batches_ok s'" by (rule batches_ok_set_row [OF ok, where f = f]) (simp_all add: s' f)
    moreover have "\<exists>x \<in> set (batches s'). pb_id x = pb_id b \<and> pb_org x = rq_organization_id req
        \<and> pb_idempotency_key x = rq_idempotency_key req"
      if y: "y \<in> set (batches s)" "pb_id y = pb_id b" "pb_idempotency_key y = rq_idempotency_key req" for y
    proof (rule bexI [of _ "f y"])
      show "f y \<in> set (batches s')"
        unfolding s' set_set_row using y(1,2) by (simp add: set_set_row)
    qed (simp add: f y)
    ultimately show ?thesis unfolding Retrying r by (simp only: sum.inject batch_claim.case) blast
  next
    case (Superseding b)
    obtain r1 s1 where r1: "retire_superseded_batch_key b s = (r1, s1)" by fastforce
    note ok1 = retire_superseded_batch_key_ok [OF r1 ok]
    show ?thesis
    proof (cases r1)
      case (Inl e)
      then show ?thesis using o ok1 by (auto simp: obtain_batch_def Superseding r1)
    next
      case (Inr u)
      then have "insert_batch req j pid n now s1 = (r, s')"
        using o by (simp add: obtain_batch_def Superseding r1)
      from insert_batch_ok [OF this ok1] show ?thesis by auto
    qed
  qed (use o insert_batch_ok [OF _ ok] in \<open>auto simp: obtain_batch_def\<close>)
  then show "batches_ok s'"
    and "\<lbrakk>r = Inr bid; case c of Retrying b \<Rightarrow> \<exists>b' \<in> set (batches s). pb_id b' = pb_id b
        \<and> pb_idempotency_key b' = rq_idempotency_key req | _ \<Rightarrow> True\<rbrakk> \<Longrightarrow>
      \<exists>b \<in> set (batches s'). pb_id b = bid \<and> pb_org b = rq_organization_id req
        \<and> pb_idempotency_key b = rq_idempotency_key req" by blast+
qed

lemma write_posting_ok: "batches_ok s \<Longrightarrow> batches_ok (snd (write_posting req j pid bid es now s))"
  by (auto simp: write_posting_def publish_posting_event_def Let_def return_def raise_def
      elim!: batches_ok_set_row)

lemma post_approved_ok: "batches_ok s \<Longrightarrow> batches_ok (snd (post_approved c req j now s))"
proof -
  let ?gate = "require_open_period (rq_organization_id req) (rq_posting_date req)
        (rq_allow_adjustment_period req) (rq_reopen_session_id req) s"
  assume ok: "batches_ok s"
  obtain r1 s1 where g: "?gate = (r1, s1)" by fastforce
  have ok1: "batches_ok s1"
    using batches_ok_same [OF ok gate_keeps_batches [OF g]]
      books_keptD(5) [OF require_open_period_kept [OF g]] by simp
  have obt: "batches_ok (snd (obtain_batch c req j pid n now s1))" for pid n
    using obtain_batch_ok(1) [OF _ ok1] by (metis prod.collapse)
  show ?thesis
    unfolding post_approved_def g
  proof (rule bind_tx_post)
    show "batches_ok (snd (r1, s1))" using ok1 by simp
  next
    fix pid s2 assume "(r1, s1) = (Inr pid, s2)"
    then have "s2 = s1" by simp
    show "batches_ok (snd (let entries = if rq_entries req = [] then load_journal_lines s2 j else rq_entries req
        in case validate_balance entries of Some d \<Rightarrow> raise (HTTPException 400 d) s2
        | None \<Rightarrow> (case validate_functional_amounts 0 entries of Some d \<Rightarrow> raise (HTTPException 400 d) s2
            | None \<Rightarrow> bind_tx (obtain_batch c req j pid (length entries) now s2)
                (\<lambda>bid s2. write_posting req j pid bid entries now s2))))"
      using ok1 unfolding Let_def \<open>s2 = s1\<close>
      by (auto split: option.split intro!: bind_tx_post [where Q = batches_ok] obt write_posting_ok)
  qed
qed

lemma post_seeing_ok:
  assumes "post_seeing fl req now s = (r, s')" and "batches_ok s"
  shows "batches_ok s'"
proof -
  obtain r1 s1 where cb: "claim_batch fl req now s = (r1, s1)" by fastforce
  note ok1 = claim_batch_ok [OF cb assms(2)]
  have "batches_ok (snd (post_seeing fl req now s))"
    unfolding post_seeing_def cb
    by (rule bind_tx_post) (use ok1 in \<open>auto simp: post_approved_ok split: batch_claim.split option.split\<close>)
  then show ?thesis using assms(1) by simp
qed

lemma post_journal_entry_ok: "post_journal_entry req now s = (r, s') \<Longrightarrow> batches_ok s \<Longrightarrow> batches_ok s'"
  unfolding post_journal_entry_def by (rule post_seeing_ok)

text \<open>A posting leaves its batch posted under the request's key, unique to it.\<close>

lemma posted_batch_found:
  assumes p: "post_journal_entry req now s = (Inr res, s')" and ok: "batches_ok s"
    and fresh: "\<not> res_idempotent_replay res"
  shows "\<exists>b. find_batch s' (rq_organization_id req) (rq_idempotency_key req) = Some b
    \<and> res_batch_id res = Some (pb_id b) \<and> pb_status b = B_POSTED
    \<and> pb_posted_entries b = res_posted_lines res"
proof -
  obtain c s1 where cb: "claim_batch s req now s = (Inr c, s1)"
    using p by (auto simp: post_journal_entry_def post_seeing_def)
  have nr: "c \<noteq> Replayed b" for b
    using p fresh by (auto simp: post_journal_entry_def post_seeing_def cb replay_result_def)
  then obtain j where pa: "post_approved c req j now s1 = (Inr res, s')"
    using p by (cases c) (auto simp: post_journal_entry_def post_seeing_def cb split: option.splits if_splits)
  have ok1: "batches_ok s1" by (rule claim_batch_ok [OF cb ok])
  have retry: "case c of Retrying b \<Rightarrow> \<exists>b' \<in> set (batches s1). pb_id b' = pb_id b
        \<and> pb_idempotency_key b' = rq_idempotency_key req | _ \<Rightarrow> True"
    using cb find_batch_SomeD [of s "rq_organization_id req" "rq_idempotency_key req"]
    by (auto simp: claim_batch_def Let_def split: option.splits if_splits batch_claim.splits
        intro!: set_row_updated)
  show ?thesis
    using pa
  proof (cases rule: post_approved_cases)
    case (written res' pid bid s2 s3)
    have ok2: "batches_ok s2" and b2: "batches s2 = batches s1"
      using gate_keeps_batches [OF written(2)] written(6) ok1
      by (auto intro: batches_ok_same dest: books_keptD)
    note ok3 = obtain_batch_ok(1) [OF written(5) ok2]
    have "\<exists>b \<in> set (batches s3). pb_id b = bid \<and> pb_org b = rq_organization_id req
        \<and> pb_idempotency_key b = rq_idempotency_key req"
      using obtain_batch_ok(2) [OF written(5) ok2 refl] retry unfolding b2 by blast
    then obtain b where b: "b \<in> set (batches s3)" "pb_id b = bid" "pb_org b = rq_organization_id req"
        "pb_idempotency_key b = rq_idempotency_key req" by blast
    let ?f = "\<lambda>b. b\<lparr>pb_posted_entries := length (entries_to_post s1 req j), pb_status := B_POSTED,
        pb_completed_at := Some now\<rparr>"
    note w = write_posting_Inr [OF written(9)]
    have "batches_ok s'" by (rule post_journal_entry_ok [OF p ok])
    moreover have "?f b \<in> set (batches s')"
      unfolding w(6) using b(1,2) by (simp add: set_set_row)
    ultimately have "find_batch s' (rq_organization_id req) (rq_idempotency_key req) = Some (?f b)"
      using find_batch_unique [of s' "?f b"] b(3,4) by simp
    then show ?thesis using written(1) w(9,10) b(2) by auto
  qed simp
qed

text \<open>C5: a repeated request is answered from the first posting. After a request has posted a
  journal, the same request at any later time succeeds as a replay that names the same batch
  and the same number of lines, and leaves the session as it is.\<close>

theorem post_journal_entry_idempotent:
  assumes "batches_ok s" and "post_journal_entry req now s = (Inr res, s')"
  shows "\<exists>res'. post_journal_entry req later s' = (Inr res', s')
    \<and> res_success res' \<and> res_idempotent_replay res'
    \<and> res_batch_id res' = res_batch_id res \<and> res_posted_lines res' = res_posted_lines res"
proof -
  have replay: "post_journal_entry req later s' = (Inr (replay_result b), s')"
    if "find_batch s' (rq_organization_id req) (rq_idempotency_key req) = Some b"
      and "pb_status b = B_POSTED" and "\<not> batch_posting_reversed s' (rq_organization_id req) b"
      and "rq_idempotency_key req \<noteq> []" for b
    using that by (simp add: post_journal_entry_def post_seeing_def claim_batch_def return_def)
  have key: "rq_idempotency_key req \<noteq> []"
    using assms(2) by (auto simp: post_journal_entry_def post_seeing_def claim_batch_def Let_def split: if_splits)
  from assms(2) show ?thesis
  proof (cases rule: post_journal_entry_cases)
    case (replayed b)
    then show ?thesis using replay [of b] key by (auto simp: replay_result_def)
  next
    case (posted res' j pid bid)
    then obtain b where b: "find_batch s' (rq_organization_id req) (rq_idempotency_key req) = Some b"
        "res_batch_id res = Some (pb_id b)" "pb_status b = B_POSTED" "pb_posted_entries b = res_posted_lines res"
      using posted_batch_found [OF assms(2,1)] by auto
    let ?j = "j\<lparr>je_status := J_POSTED, je_posting_batch_id := Some bid, je_posted_at := Some now,
        je_posted_by := Some (case rq_posted_by req of Some u \<Rightarrow> u | None \<Rightarrow> je_created_by j)\<rparr>"
    have "j \<in> set (journals s)" "je_id j = rq_journal_entry_id req"
      using posted(2) by (auto simp: posts_def dest: get_row_SomeD)
    then have "?j \<in> set (journals s')" "je_org ?j = rq_organization_id req"
      using posted(2) by (simp_all add: posts_def set_set_row)
    then have "\<not> batch_posting_reversed s' (rq_organization_id req) b"
      using b(2) posted(1,5) by (auto simp: batch_posting_reversed_def intro!: bexI [of _ ?j])
    then show ?thesis using replay [of b] b key by (auto simp: replay_result_def)
  qed simp
qed

end
