(* ===== verification/Sample_Data.thy ===== *)
theory Sample_Data
  imports Ledger_Posting
begin

text \<open>
  A small set of books on which the properties' hypotheses are met: organisation 1 with two
  accounts, the period of January of the year 6 (small numbers keep the evaluation short), and one approved journal of two lines.
\<close>

definition no_dims :: dims where
  "no_dims = \<lparr>business_unit_id = None, cost_center_id = None, project_id = None, segment_id = None\<rparr>"

definition sample_account :: "uuid \<Rightarrow> string \<Rightarrow> account" where
  "sample_account u c = \<lparr>ac_id = u, ac_org = 1, ac_code = c, ac_name = c, ac_is_posting_allowed = True\<rparr>"

definition sample_period :: "period_status \<Rightarrow> fiscal_period" where
  "sample_period st = \<lparr>fp_id = 10, fp_org = 1, fp_fiscal_year_id = 9, fp_period_number = 1,
     fp_period_name = ''January 6'', fp_start_date = Date 6 1 1, fp_end_date = Date 6 1 31,
     fp_is_adjustment_period = False, fp_status = st,
     fp_soft_closed_at = None, fp_soft_closed_by = None, fp_hard_closed_at = None,
     fp_hard_closed_by = None, fp_reopen_count = 0, fp_last_reopen_session_id = None\<rparr>"

definition sample_journal :: "journal_status \<Rightarrow> journal_entry" where
  "sample_journal st = \<lparr>je_id = 20, je_org = 1, je_journal_number = ''JE1'',
     je_journal_type = STANDARD, je_entry_date = Date 6 1 15, je_posting_date = Date 6 1 15,
     je_fiscal_period_id = 10, je_description = ''Rent'', je_reference = None, je_currency_code = ''NGN'',
     je_exchange_rate = 1, je_exchange_rate_type_id = None, je_total_debit = 2, je_total_credit = 2,
     je_total_debit_functional = 2, je_total_credit_functional = 2, je_status = st,
     je_posting_batch_id = None, je_is_reversal = False, je_reversed_journal_id = None,
     je_reversal_journal_id = None, je_auto_reverse_date = None, je_source_module = None,
     je_source_document_type = None, je_source_document_id = None, je_created_by = 7,
     je_submitted_by = None, je_submitted_at = None, je_approved_by = None, je_approved_at = None,
     je_posted_by = None, je_posted_at = None, je_correlation_id = None\<rparr>"

definition sample_line :: "nat \<Rightarrow> uuid \<Rightarrow> decimal \<Rightarrow> decimal \<Rightarrow> journal_line" where
  "sample_line n a d c = \<lparr>jl_id = 20 + n, jl_journal = 20, jl_line_number = n, jl_account = a,
     jl_description = None, jl_debit = d, jl_credit = c, jl_debit_functional = d,
     jl_credit_functional = c, jl_currency_code = None, jl_exchange_rate = None, jl_dims = no_dims\<rparr>"

definition sample_books :: "period_status \<Rightarrow> journal_status \<Rightarrow> gldb" where
  "sample_books pst jst = \<lparr>accounts = [sample_account 2 ''6100'', sample_account 3 ''1010''],
     fiscal_years = [\<lparr>fy_id = 9, fy_org = 1, fy_year_code = ''6'', fy_year_name = ''Fiscal Year 6'',
       fy_start_date = Date 6 1 1, fy_end_date = Date 6 12 31\<rparr>],
     periods = [sample_period pst], journals = [sample_journal jst],
     jlines = [sample_line 1 2 2 0, sample_line 2 3 0 2],
     batches = [], ledger = [], balances = [], refresh_queue = [], outbox = [], audit_log = [],
     hook_events = [], sod_orgs = [1], next_uuid = 30\<rparr>"

definition sample_request :: posting_request where
  "sample_request = \<lparr>rq_organization_id = 1, rq_journal_entry_id = 20, rq_posting_date = Date 6 1 15,
     rq_idempotency_key = ''1:GL:20:v1'', rq_source_module = ''GL'', rq_entries = [], rq_correlation_id = None,
     rq_posted_by = Some 8, rq_allow_adjustment_period = False, rq_reopen_session_id = None\<rparr>"

lemmas sample_defs = no_dims_def sample_account_def sample_period_def sample_journal_def
  sample_line_def sample_books_def

lemma sample_batches_ok: "batches_ok (sample_books pst jst)"
  by (simp add: batches_ok_def sample_books_def)

text \<open>The request posts the journal.\<close>

lemma sample_posting_succeeds:
  "case post_journal_entry sample_request 5 (sample_books P_OPEN J_APPROVED) of
     (Inr res, s') \<Rightarrow> res_success res \<and> res_posted_lines res = 2 \<and> length (ledger s') = 2 | _ \<Rightarrow> False"
  by code_simp

lemma sample_posting_result:
  obtains res s' where "post_journal_entry sample_request 5 (sample_books P_OPEN J_APPROVED) = (Inr res, s')"
    and "res_success res" and "length (ledger s') = 2"
  using sample_posting_succeeds by (auto split: prod.splits sum.splits)

section \<open>Witness\<close>

theorem post_journal_entry_idempotent_witness:
  "\<exists>res s'. post_journal_entry sample_request 5 (sample_books P_OPEN J_APPROVED) = (Inr res, s')
    \<and> length (ledger s') = 2
    \<and> (\<exists>res'. post_journal_entry sample_request 9 s' = (Inr res', s')
      \<and> res_success res' \<and> res_idempotent_replay res'
      \<and> res_batch_id res' = res_batch_id res \<and> res_posted_lines res' = res_posted_lines res)"
proof (rule sample_posting_result)
  fix res s'
  assume p: "post_journal_entry sample_request 5 (sample_books P_OPEN J_APPROVED) = (Inr res, s')"
    and "length (ledger s') = 2"
  then show ?thesis
    using post_journal_entry_idempotent [OF sample_batches_ok p, of 9] by auto
qed

end
