(* ===== verification/Journal_Service.thy ===== *)
theory Journal_Service
  imports Sample_Data
begin

text \<open>
  \<open>app/services/finance/gl/journal.py\<close>: the lifecycle of a journal entry, from its creation as
  a balanced draft to its posting. Journal numbers come from the numbering package (the JOURNAL
  series is cut over to it), so \<open>create_journal\<close> takes the number drawn as an argument and
  raises what the database raises when it is taken. An organisation is in \<open>sod_orgs\<close> when its
  segregation-of-duties feature flag is on. Operations return the journal's identifier; the row
  is in the session.
\<close>

section \<open>Inputs\<close>

record line_input =
  li_account :: uuid
  li_debit :: decimal
  li_credit :: decimal
  li_description :: "string option"
  li_debit_functional :: "decimal option"
  li_credit_functional :: "decimal option"
  li_currency_code :: "string option"
  li_exchange_rate :: "decimal option"
  li_dims :: dims

record journal_input =
  ji_type :: journal_type
  ji_entry_date :: date
  ji_posting_date :: date
  ji_description :: string
  ji_lines :: "line_input list"
  ji_reference :: "string option"
  ji_currency_code :: string
  ji_exchange_rate :: decimal
  ji_exchange_rate_type_id :: "uuid option"
  ji_source_module :: "string option"
  ji_source_document_type :: "string option"
  ji_source_document_id :: "uuid option"
  ji_auto_reverse_date :: "date option"
  ji_correlation_id :: "string option"

section \<open>Amounts\<close>

definition require_balanced :: "line_input list \<Rightarrow> detail + (decimal \<times> decimal)" where
  "require_balanced ls =
    (let total_debit = sum_at_persisted_scale (map li_debit ls);
         total_credit = sum_at_persisted_scale (map li_credit ls)
     in if total_debit \<noteq> total_credit then Inl (Unbalanced total_debit total_credit)
        else Inr (total_debit, total_credit))"

text \<open>A functional amount that the caller does not give is the amount at the header's rate.\<close>

definition functional :: "decimal option \<Rightarrow> decimal \<Rightarrow> decimal \<Rightarrow> decimal" where
  "functional given amount rate = (case given of Some f \<Rightarrow> f | None \<Rightarrow> dec_mul amount rate)"

definition functional_debit :: "journal_input \<Rightarrow> line_input \<Rightarrow> decimal" where
  "functional_debit i l = functional (li_debit_functional l) (li_debit l) (ji_exchange_rate i)"

definition functional_credit :: "journal_input \<Rightarrow> line_input \<Rightarrow> decimal" where
  "functional_credit i l = functional (li_credit_functional l) (li_credit l) (ji_exchange_rate i)"

definition functional_totals :: "journal_input \<Rightarrow> decimal \<times> decimal" where
  "functional_totals i = (foldl (\<lambda>t l. dec_add t (functional_debit i l)) 0 (ji_lines i),
     foldl (\<lambda>t l. dec_add t (functional_credit i l)) 0 (ji_lines i))"

text \<open>\<open>line_input.currency_code or input.currency_code\<close>, and the same of the rate: an empty
  string and a zero are false.\<close>

definition line_currency :: "journal_input \<Rightarrow> line_input \<Rightarrow> string" where
  "line_currency i l = (case li_currency_code l of
     Some c \<Rightarrow> (if c = [] then ji_currency_code i else c) | None \<Rightarrow> ji_currency_code i)"

definition line_rate :: "journal_input \<Rightarrow> line_input \<Rightarrow> decimal" where
  "line_rate i l = (case li_exchange_rate l of
     Some r \<Rightarrow> (if r = 0 then ji_exchange_rate i else r) | None \<Rightarrow> ji_exchange_rate i)"

text \<open>The row of line number \<open>n\<close>, as the columns store it.\<close>

definition new_line :: "journal_input \<Rightarrow> uuid \<Rightarrow> uuid \<Rightarrow> nat \<Rightarrow> line_input \<Rightarrow> journal_line" where
  "new_line i jid u n l = \<lparr>jl_id = u, jl_journal = jid, jl_line_number = n, jl_account = li_account l,
     jl_description = li_description l,
     jl_debit = numeric6 (li_debit l), jl_credit = numeric6 (li_credit l),
     jl_debit_functional = numeric6 (functional_debit i l),
     jl_credit_functional = numeric6 (functional_credit i l),
     jl_currency_code = Some (line_currency i l),
     jl_exchange_rate = Some (quantize_half_up 10 (line_rate i l)), jl_dims = li_dims l\<rparr>"

fun new_lines :: "journal_input \<Rightarrow> uuid \<Rightarrow> uuid \<Rightarrow> nat \<Rightarrow> line_input list \<Rightarrow> journal_line list" where
  "new_lines i jid u n [] = []"
| "new_lines i jid u n (l # ls) = new_line i jid u (n + 1) l # new_lines i jid (u + 1) (n + 1) ls"

section \<open>Creation and update\<close>

definition blocked_accounts :: "gldb \<Rightarrow> line_input list \<Rightarrow> account list" where
  "blocked_accounts s ls =
     filter (\<lambda>a. ac_id a \<in> set (map li_account ls) \<and> \<not> ac_is_posting_allowed a) (accounts s)"

definition number_taken :: "gldb \<Rightarrow> uuid \<Rightarrow> string \<Rightarrow> bool" where
  "number_taken s org n \<longleftrightarrow> (\<exists>j \<in> set (journals s). je_org j = org \<and> je_journal_number j = n)"

definition new_journal :: "uuid \<Rightarrow> uuid \<Rightarrow> string \<Rightarrow> uuid \<Rightarrow> journal_input \<Rightarrow> decimal \<Rightarrow> decimal \<Rightarrow> uuid
    \<Rightarrow> journal_entry" where
  "new_journal u org number pid i td tc user = \<lparr>je_id = u, je_org = org, je_journal_number = number,
     je_journal_type = ji_type i, je_entry_date = ji_entry_date i, je_posting_date = ji_posting_date i,
     je_fiscal_period_id = pid, je_description = ji_description i, je_reference = ji_reference i,
     je_currency_code = ji_currency_code i, je_exchange_rate = quantize_half_up 10 (ji_exchange_rate i),
     je_exchange_rate_type_id = ji_exchange_rate_type_id i,
     je_total_debit = td, je_total_credit = tc,
     je_total_debit_functional = numeric6 (fst (functional_totals i)),
     je_total_credit_functional = numeric6 (snd (functional_totals i)),
     je_status = J_DRAFT, je_posting_batch_id = None, je_is_reversal = False,
     je_reversed_journal_id = None, je_reversal_journal_id = None,
     je_auto_reverse_date = ji_auto_reverse_date i, je_source_module = ji_source_module i,
     je_source_document_type = ji_source_document_type i,
     je_source_document_id = ji_source_document_id i, je_created_by = user,
     je_submitted_by = None, je_submitted_at = None, je_approved_by = None, je_approved_at = None,
     je_posted_by = None, je_posted_at = None, je_correlation_id = ji_correlation_id i\<rparr>"

text \<open>The rows of a new journal: \<open>db.add\<close> of the header and of each line, then the audit event.\<close>

definition insert_journal :: "journal_entry \<Rightarrow> journal_line list \<Rightarrow> uuid \<Rightarrow> gldb \<Rightarrow> gldb" where
  "insert_journal j ls nxt s = s\<lparr>journals := add_row j (journals s), jlines := jlines s @ ls,
     next_uuid := nxt\<rparr>"

definition create_journal :: "uuid \<Rightarrow> journal_input \<Rightarrow> uuid \<Rightarrow> string \<Rightarrow> gldb \<Rightarrow> (gl_error, uuid, gldb) tx" where
  "create_journal org i user number s =
    (if ji_lines i = [] then raise (HTTPException 400 JournalNeedsLines) s
     else case require_balanced (ji_lines i) of
       Inl d \<Rightarrow> raise (HTTPException 400 d) s
     | Inr (td, tc) \<Rightarrow>
        if blocked_accounts s (ji_lines i) \<noteq> []
        then raise (HTTPException 400 (PostingNotAllowed (map ac_code (blocked_accounts s (ji_lines i))))) s
        else case get_period_for_date s org (ji_posting_date i) of
          None \<Rightarrow> raise (HTTPException 400 (NoFiscalPeriodFor (ji_posting_date i))) s
        | Some p \<Rightarrow>
           if number_taken s org number then raise (IntegrityError ''uq_journal_number'') s
           else (let u = next_uuid s in
             return u (audit org u INSERT None None (Some user)
               (insert_journal (new_journal u org number (fp_id p) i td tc user)
                  (new_lines i u (u + 1) 0 (ji_lines i)) (u + 1 + length (ji_lines i)) s))))"

definition updated_journal :: "journal_input \<Rightarrow> uuid \<Rightarrow> decimal \<Rightarrow> decimal \<Rightarrow> journal_entry \<Rightarrow> journal_entry" where
  "updated_journal i pid td tc j = j\<lparr>je_journal_type := ji_type i, je_entry_date := ji_entry_date i,
     je_posting_date := ji_posting_date i, je_fiscal_period_id := pid,
     je_description := ji_description i, je_reference := ji_reference i,
     je_currency_code := ji_currency_code i, je_exchange_rate := quantize_half_up 10 (ji_exchange_rate i),
     je_total_debit := td, je_total_credit := tc,
     je_total_debit_functional := numeric6 (fst (functional_totals i)),
     je_total_credit_functional := numeric6 (snd (functional_totals i)),
     je_auto_reverse_date := ji_auto_reverse_date i, je_correlation_id := ji_correlation_id i\<rparr>"

definition update_journal :: "uuid \<Rightarrow> uuid \<Rightarrow> journal_input \<Rightarrow> uuid \<Rightarrow> gldb \<Rightarrow> (gl_error, uuid, gldb) tx" where
  "update_journal org jid i user s = (case scoped_journal org jid s of
     None \<Rightarrow> raise (HTTPException 404 JournalNotFound) s
   | Some j \<Rightarrow>
      if je_status j \<noteq> J_DRAFT then raise (HTTPException 400 (CannotUpdateStatus (je_status j))) s
      else if ji_lines i = [] then raise (HTTPException 400 JournalNeedsLines) s
      else case require_balanced (ji_lines i) of
        Inl d \<Rightarrow> raise (HTTPException 400 d) s
      | Inr (td, tc) \<Rightarrow>
         (case get_period_for_date s org (ji_posting_date i) of
            None \<Rightarrow> raise (HTTPException 400 (NoFiscalPeriodFor (ji_posting_date i))) s
          | Some p \<Rightarrow> (let s1 = set_journal jid (updated_journal i (fp_id p) td tc) s in
              return jid (s1\<lparr>jlines := filter (\<lambda>l. jl_journal l \<noteq> jid) (jlines s1)
                  @ new_lines i jid (next_uuid s1) 0 (ji_lines i),
                next_uuid := next_uuid s1 + length (ji_lines i)\<rparr>))))"

definition delete_journal :: "uuid \<Rightarrow> uuid \<Rightarrow> gldb \<Rightarrow> (gl_error, unit, gldb) tx" where
  "delete_journal org jid s = (case scoped_journal org jid s of
     None \<Rightarrow> raise (HTTPException 404 JournalNotFound) s
   | Some j \<Rightarrow>
      if je_status j \<noteq> J_DRAFT then raise (HTTPException 400 (CannotDeleteStatus (je_status j))) s
      else return () (s\<lparr>journals := del_row je_id jid (journals s),
             jlines := filter (\<lambda>l. jl_journal l \<noteq> jid) (jlines s)\<rparr>))"

section \<open>Approval\<close>

definition submit_journal :: "uuid \<Rightarrow> uuid \<Rightarrow> uuid \<Rightarrow> timestamp \<Rightarrow> gldb \<Rightarrow> (gl_error, uuid, gldb) tx" where
  "submit_journal org jid user now s = (case scoped_journal org jid s of
     None \<Rightarrow> raise (HTTPException 404 JournalNotFound) s
   | Some j \<Rightarrow>
      if je_status j \<noteq> J_DRAFT then raise (HTTPException 400 (CannotSubmitStatus (je_status j))) s
      else return jid (audit org jid UPDATE (Some J_DRAFT) (Some J_SUBMITTED) (Some user)
        (set_journal jid (\<lambda>j. j\<lparr>je_status := J_SUBMITTED, je_submitted_by := Some user,
           je_submitted_at := Some now\<rparr>) s)))"

definition approve_journal :: "uuid \<Rightarrow> uuid \<Rightarrow> uuid \<Rightarrow> timestamp \<Rightarrow> gldb \<Rightarrow> (gl_error, uuid, gldb) tx" where
  "approve_journal org jid user now s = (case scoped_journal org jid s of
     None \<Rightarrow> raise (HTTPException 404 JournalNotFound) s
   | Some j \<Rightarrow>
      if je_status j \<noteq> J_SUBMITTED then raise (HTTPException 400 (CannotApproveStatus (je_status j))) s
      else if je_created_by j = user \<and> org \<in> set (sod_orgs s)
      then raise (HTTPException 403 SegregationOfDuties) s
      else return jid (audit org jid UPDATE (Some J_SUBMITTED) (Some J_APPROVED) (Some user)
        (set_journal jid (\<lambda>j. j\<lparr>je_status := J_APPROVED, je_approved_by := Some user,
           je_approved_at := Some now\<rparr>) s)))"

definition void_journal :: "uuid \<Rightarrow> uuid \<Rightarrow> uuid \<Rightarrow> gldb \<Rightarrow> (gl_error, uuid, gldb) tx" where
  "void_journal org jid user s = (case scoped_journal org jid s of
     None \<Rightarrow> raise (HTTPException 404 JournalNotFound) s
   | Some j \<Rightarrow>
      if je_status j \<in> set [J_POSTED, J_REVERSED]
      then raise (HTTPException 400 (CannotVoidStatus (je_status j))) s
      else return jid (audit org jid UPDATE (Some (je_status j)) (Some J_VOID) (Some user)
        (set_journal jid (\<lambda>j. j\<lparr>je_status := J_VOID\<rparr>) s)))"

section \<open>Posting\<close>

definition default_key :: "uuid \<Rightarrow> uuid \<Rightarrow> string" where
  "default_key org jid = uuid_str org @ '':GL:'' @ uuid_str jid @ '':v1''"

definition given_or :: "string \<Rightarrow> string option \<Rightarrow> string" where
  "given_or dflt key = (case key of Some k \<Rightarrow> (if k = [] then dflt else k) | None \<Rightarrow> dflt)"

definition journal_request :: "uuid \<Rightarrow> journal_entry \<Rightarrow> uuid \<Rightarrow> string option \<Rightarrow> bool \<Rightarrow> uuid option
    \<Rightarrow> posting_request" where
  "journal_request org j user key allow_adjustment reopen_session_id =
     \<lparr>rq_organization_id = org, rq_journal_entry_id = je_id j, rq_posting_date = je_posting_date j,
      rq_idempotency_key = given_or (default_key org (je_id j)) key,
      rq_source_module = given_or ''GL'' (je_source_module j), rq_entries = [],
      rq_correlation_id = je_correlation_id j, rq_posted_by = Some user,
      rq_allow_adjustment_period = allow_adjustment, rq_reopen_session_id = reopen_session_id\<rparr>"

definition post_journal :: "uuid \<Rightarrow> uuid \<Rightarrow> uuid \<Rightarrow> string option \<Rightarrow> bool \<Rightarrow> uuid option \<Rightarrow> timestamp
    \<Rightarrow> gldb \<Rightarrow> (gl_error, uuid, gldb) tx" where
  "post_journal org jid user key allow_adjustment reopen_session_id now s =
    (case scoped_journal org jid s of
       None \<Rightarrow> raise (HTTPException 404 JournalNotFound) s
     | Some j \<Rightarrow>
        if je_status j = J_POSTED then return jid s
        else if je_status j \<noteq> J_APPROVED then raise (HTTPException 400 (CannotPostStatus (je_status j))) s
        else bind_tx (post_journal_entry
            (journal_request org j user key allow_adjustment reopen_session_id) now s) (\<lambda>r s'.
          if \<not> res_success r then raise (HTTPException 400 PostingFailed) s'
          else return jid (audit org jid UPDATE (Some J_APPROVED) (Some J_POSTED) (Some user) s')))"

text \<open>\<open>LedgerPostingService.post_entry\<close>: an \<open>HTTPException\<close> becomes a failed result, and the
  session goes on as the failed call left it.\<close>

record post_entry_result =
  per_success :: bool
  per_entry_id :: "uuid option"
  per_message :: "detail option"

definition post_entry :: "uuid \<Rightarrow> uuid \<Rightarrow> uuid \<Rightarrow> timestamp \<Rightarrow> gldb
    \<Rightarrow> (gl_error, post_entry_result, gldb) tx" where
  "post_entry org jid user now s = (case scoped_journal org jid s of
     None \<Rightarrow> raise (HTTPException 404 JournalNotFound) s
   | Some j \<Rightarrow> (case post_journal org jid user None False None now s of
       (Inr u, s') \<Rightarrow> return \<lparr>per_success = True, per_entry_id = Some u, per_message = None\<rparr> s'
     | (Inl (HTTPException c d), s') \<Rightarrow>
         return \<lparr>per_success = False, per_entry_id = None, per_message = Some d\<rparr> s'
     | (Inl (IntegrityError k), s') \<Rightarrow> raise (IntegrityError k) s'))"

section \<open>What a creation and an update have checked\<close>

lemma create_journal_InrE:
  assumes "create_journal org i user number s = (Inr v, s')"
  obtains p td where "ji_lines i \<noteq> []" and "require_balanced (ji_lines i) = Inr (td, td)"
    and "blocked_accounts s (ji_lines i) = []" and "get_period_for_date s org (ji_posting_date i) = Some p"
    and "\<not> number_taken s org number" and "v = next_uuid s"
    and "s' = audit org (next_uuid s) INSERT None None (Some user)
      (insert_journal (new_journal (next_uuid s) org number (fp_id p) i td td user)
         (new_lines i (next_uuid s) (next_uuid s + 1) 0 (ji_lines i)) (next_uuid s + 1 + length (ji_lines i)) s)"
proof (cases "require_balanced (ji_lines i)")
  case (Inl d)
  then show ?thesis using assms by (simp add: create_journal_def split: if_splits)
next
  case (Inr t)
  then have t: "t = (fst t, fst t)" by (auto simp: require_balanced_def Let_def split: if_splits)
  show ?thesis
  proof (cases "get_period_for_date s org (ji_posting_date i)")
    case None
    then show ?thesis using assms Inr by (simp add: create_journal_def split: if_splits prod.splits)
  next
    case (Some p)
    have "ji_lines i \<noteq> [] \<and> blocked_accounts s (ji_lines i) = [] \<and> \<not> number_taken s org number
        \<and> v = next_uuid s \<and> s' = audit org (next_uuid s) INSERT None None (Some user)
      (insert_journal (new_journal (next_uuid s) org number (fp_id p) i (fst t) (fst t) user)
         (new_lines i (next_uuid s) (next_uuid s + 1) 0 (ji_lines i)) (next_uuid s + 1 + length (ji_lines i)) s)"
      using assms by (subst (asm) create_journal_def, subst (asm) Inr, subst (asm) t)
        (simp add: Some Let_def split: if_splits)
    with Some Inr t show ?thesis by (intro that [of "fst t" p]) simp_all
  qed
qed

lemma update_journal_InrE:
  assumes "update_journal org jid i user s = (Inr v, s')"
  obtains j p td where "scoped_journal org jid s = Some j" and "je_status j = J_DRAFT" and "ji_lines i \<noteq> []"
    and "require_balanced (ji_lines i) = Inr (td, td)"
    and "get_period_for_date s org (ji_posting_date i) = Some p" and "v = jid"
    and "s' = (set_journal jid (updated_journal i (fp_id p) td td) s)\<lparr>
        jlines := filter (\<lambda>l. jl_journal l \<noteq> jid) (jlines s) @ new_lines i jid (next_uuid s) 0 (ji_lines i),
        next_uuid := next_uuid s + length (ji_lines i)\<rparr>"
proof (cases "require_balanced (ji_lines i)")
  case (Inl d)
  then show ?thesis using assms by (simp add: update_journal_def split: if_splits option.splits)
next
  case (Inr t)
  then have t: "t = (fst t, fst t)" by (auto simp: require_balanced_def Let_def split: if_splits)
  show ?thesis
  proof (cases "scoped_journal org jid s")
    case None
    then show ?thesis using assms by (simp add: update_journal_def)
  next
    case j: (Some j)
    show ?thesis
    proof (cases "get_period_for_date s org (ji_posting_date i)")
      case None
      then show ?thesis using assms Inr j by (simp add: update_journal_def split: if_splits prod.splits)
    next
      case (Some p)
      have "ji_lines i \<noteq> [] \<and> je_status j = J_DRAFT \<and> v = jid
        \<and> s' = (set_journal jid (updated_journal i (fp_id p) (fst t) (fst t)) s)\<lparr>
            jlines := filter (\<lambda>l. jl_journal l \<noteq> jid) (jlines s) @ new_lines i jid (next_uuid s) 0 (ji_lines i),
            next_uuid := next_uuid s + length (ji_lines i)\<rparr>"
        using assms by (subst (asm) update_journal_def, subst (asm) Inr, subst (asm) t)
          (simp add: j Some Let_def split: if_splits)
      with Some Inr t j show ?thesis by (intro that [of j "fst t" p]) simp_all
    qed
  qed
qed

lemma journal_ops_refused:
  "create_journal org i user number s = (Inl e, s') \<Longrightarrow> s' = s"
  "update_journal org jid i user s = (Inl e, s') \<Longrightarrow> s' = s"
  "delete_journal org jid s = (Inl e, s') \<Longrightarrow> s' = s"
  "submit_journal org jid user now s = (Inl e, s') \<Longrightarrow> s' = s"
  "approve_journal org jid user now s = (Inl e, s') \<Longrightarrow> s' = s"
  "void_journal org jid user s = (Inl e, s') \<Longrightarrow> s' = s"
  by (auto simp: create_journal_def update_journal_def delete_journal_def submit_journal_def
      approve_journal_def void_journal_def Let_def split: if_splits option.splits sum.splits prod.splits)

end
