(* ===== verification/Reversal_Service.thy ===== *)
theory Reversal_Service
  imports Journal_Service
begin

text \<open>
  \<open>app/services/finance/gl/reversal.py\<close> and \<open>JournalService.reverse_entry\<close>: a posted journal is
  undone by a second journal with its lines swapped, linked to it, and posted when
  \<open>auto_post\<close> is set. As in \<open>Journal_Service\<close>, the journal number drawn is an argument. The
  branch of \<open>reverse_entry\<close> for mocked sessions of unit tests is not modelled.
\<close>

record reversal_result =
  rr_success :: bool
  rr_journal_id :: "uuid option"
  rr_number :: "string option"
  rr_posted :: bool

definition reversal_line :: "uuid \<Rightarrow> uuid \<Rightarrow> journal_line \<Rightarrow> journal_line" where
  "reversal_line jid u l = l\<lparr>jl_id := u, jl_journal := jid,
     jl_description := Some (''Reversal: '' @ (case jl_description l of Some d \<Rightarrow> d | None \<Rightarrow> '''')),
     jl_debit := jl_credit l, jl_credit := jl_debit l,
     jl_debit_functional := jl_credit_functional l, jl_credit_functional := jl_debit_functional l\<rparr>"

fun reversal_lines :: "uuid \<Rightarrow> uuid \<Rightarrow> journal_line list \<Rightarrow> journal_line list" where
  "reversal_lines jid u [] = []"
| "reversal_lines jid u (l # ls) = reversal_line jid u l # reversal_lines jid (u + 1) ls"

definition reversal_of :: "uuid \<Rightarrow> string \<Rightarrow> uuid \<Rightarrow> date \<Rightarrow> uuid \<Rightarrow> string \<Rightarrow> bool \<Rightarrow> timestamp
    \<Rightarrow> journal_entry \<Rightarrow> journal_entry" where
  "reversal_of u number pid d user reason auto_post now original = \<lparr>je_id = u, je_org = je_org original,
     je_journal_number = number, je_journal_type = REVERSAL, je_entry_date = d, je_posting_date = d,
     je_fiscal_period_id = pid,
     je_description = ''Reversal of '' @ je_journal_number original @ '': '' @ reason,
     je_reference = Some (''REV:'' @ je_journal_number original),
     je_currency_code = je_currency_code original, je_exchange_rate = je_exchange_rate original,
     je_exchange_rate_type_id = je_exchange_rate_type_id original,
     je_total_debit = je_total_credit original, je_total_credit = je_total_debit original,
     je_total_debit_functional = je_total_credit_functional original,
     je_total_credit_functional = je_total_debit_functional original,
     je_status = (if auto_post then J_APPROVED else J_DRAFT), je_posting_batch_id = None,
     je_is_reversal = True, je_reversed_journal_id = Some (je_id original),
     je_reversal_journal_id = None, je_auto_reverse_date = None,
     je_source_module = je_source_module original,
     je_source_document_type = je_source_document_type original,
     je_source_document_id = je_source_document_id original, je_created_by = user,
     je_submitted_by = None, je_submitted_at = None,
     je_approved_by = (if auto_post then Some user else None),
     je_approved_at = (if auto_post then Some now else None),
     je_posted_by = None, je_posted_at = None, je_correlation_id = je_correlation_id original\<rparr>"

definition reversal_key :: "uuid \<Rightarrow> uuid \<Rightarrow> string" where
  "reversal_key org jid = uuid_str org @ '':GL:'' @ uuid_str jid @ '':reversal:v1''"

text \<open>Steps 7 to 9: the reversal journal, its lines, and the link from the original.\<close>

definition insert_reversal :: "journal_entry \<Rightarrow> journal_entry \<Rightarrow> gldb \<Rightarrow> gldb" where
  "insert_reversal original rvl s =
     (let ls = reversal_lines (je_id rvl) (je_id rvl + 1) (lines_of s (je_id original)) in
      set_journal (je_id original) (\<lambda>j. j\<lparr>je_reversal_journal_id := Some (je_id rvl)\<rparr>)
        (insert_journal rvl ls (je_id rvl + 1 + length ls) s))"

definition reversal_request :: "uuid \<Rightarrow> journal_entry \<Rightarrow> uuid \<Rightarrow> date \<Rightarrow> uuid \<Rightarrow> string option \<Rightarrow> bool
    \<Rightarrow> uuid option \<Rightarrow> posting_request" where
  "reversal_request org original rid d user key allow_adjustment reopen_session_id =
     \<lparr>rq_organization_id = org, rq_journal_entry_id = rid, rq_posting_date = d,
      rq_idempotency_key = given_or (reversal_key org rid) key,
      rq_source_module = given_or ''GL'' (je_source_module original), rq_entries = [],
      rq_correlation_id = je_correlation_id original, rq_posted_by = Some user,
      rq_allow_adjustment_period = allow_adjustment, rq_reopen_session_id = reopen_session_id\<rparr>"

text \<open>Step 10. \<open>post_journal_entry\<close> never returns an unsuccessful result (it raises), so the
  branch that rolls the session back is not reached; it is kept as a return to the session of
  before the call. The session does not flush by itself (\<open>autoflush=False\<close>): the original's status
  is assigned before the posting, and the replay check, a query, does not see it.\<close>

definition post_reversal :: "uuid \<Rightarrow> journal_entry \<Rightarrow> journal_entry \<Rightarrow> date \<Rightarrow> uuid \<Rightarrow> string option \<Rightarrow> bool
    \<Rightarrow> uuid option \<Rightarrow> timestamp \<Rightarrow> gldb \<Rightarrow> gldb \<Rightarrow> (gl_error, reversal_result, gldb) tx" where
  "post_reversal org original rvl d user key allow_adjustment reopen_session_id now before s =
     bind_tx (post_seeing s
         (reversal_request org original (je_id rvl) d user key allow_adjustment reopen_session_id) now
         (set_journal (je_id original) (\<lambda>j. j\<lparr>je_status := J_REVERSED\<rparr>) s)) (\<lambda>r s'.
       if \<not> res_success r
       then return \<lparr>rr_success = False, rr_journal_id = Some (je_id rvl),
          rr_number = Some (je_journal_number rvl), rr_posted = False\<rparr> before
       else return \<lparr>rr_success = True, rr_journal_id = Some (je_id rvl),
          rr_number = Some (je_journal_number rvl), rr_posted = True\<rparr> s')"

definition create_reversal :: "uuid \<Rightarrow> uuid \<Rightarrow> date \<Rightarrow> uuid \<Rightarrow> string \<Rightarrow> bool \<Rightarrow> string option \<Rightarrow> bool
    \<Rightarrow> uuid option \<Rightarrow> string \<Rightarrow> timestamp \<Rightarrow> gldb \<Rightarrow> (gl_error, reversal_result, gldb) tx" where
  "create_reversal org jid d user reason auto_post key allow_adjustment reopen_session_id number now s =
    (case scoped_journal org jid s of
       None \<Rightarrow> raise (HTTPException 404 JournalNotFound) s
     | Some original \<Rightarrow>
        if je_status original \<noteq> J_POSTED
        then raise (HTTPException 400 (CannotReverseStatus (je_status original))) s
        else if je_reversal_journal_id original \<noteq> None then raise (HTTPException 400 AlreadyReversed) s
        else (case get_period_for_date s org d of
          None \<Rightarrow> raise (HTTPException 400 (NoFiscalPeriodFor d)) s
        | Some p \<Rightarrow>
           bind_tx (if auto_post then require_open_period org d allow_adjustment reopen_session_id s
                    else return (fp_id p) s) (\<lambda>pid s1.
             if number_taken s1 org number then raise (IntegrityError ''uq_journal_number'') s1
             else (let rvl = reversal_of (next_uuid s1) number pid d user reason auto_post now original;
                       s2 = insert_reversal original rvl s1
               in if auto_post
                  then post_reversal org original rvl d user key allow_adjustment reopen_session_id now s s2
                  else return \<lparr>rr_success = True, rr_journal_id = Some (je_id rvl),
                    rr_number = Some number, rr_posted = False\<rparr> s2))))"

definition can_reverse :: "uuid \<Rightarrow> uuid \<Rightarrow> gldb \<Rightarrow> bool \<times> detail option" where
  "can_reverse org jid s = (case scoped_journal org jid s of
     None \<Rightarrow> (False, Some JournalNotFound)
   | Some j \<Rightarrow>
      if je_status j \<noteq> J_POSTED then (False, Some (CannotReverseStatus (je_status j)))
      else if je_reversal_journal_id j \<noteq> None then (False, Some AlreadyReversed)
      else (True, None))"

definition reverse_entry :: "uuid \<Rightarrow> uuid \<Rightarrow> date \<Rightarrow> uuid \<Rightarrow> string \<Rightarrow> timestamp \<Rightarrow> gldb
    \<Rightarrow> (gl_error, uuid, gldb) tx" where
  "reverse_entry org jid d user number now s = (case scoped_journal org jid s of
     None \<Rightarrow> raise (HTTPException 404 JournalNotFound) s
   | Some j \<Rightarrow>
      if je_status j \<noteq> J_POSTED then raise (HTTPException 400 OnlyPostedCanBeReversed) s
      else if je_reversal_journal_id j \<noteq> None then raise (HTTPException 400 AlreadyReversed) s
      else bind_tx (create_reversal org jid d user ''Manual reversal'' True None True None number now s)
        (\<lambda>r s'. case rr_journal_id r of
           None \<Rightarrow> raise (HTTPException 400 ReversalFailed) s'
         | Some rid \<Rightarrow>
            if \<not> rr_success r \<or> scoped_journal org rid s' = None
            then raise (HTTPException 400 ReversalFailed) s'
            else return rid (audit org jid UPDATE (Some J_POSTED) (Some J_REVERSED) (Some user)
              (audit org rid INSERT None None (Some user) s'))))"

end
