(* ===== verification/Posting_Adapter.thy ===== *)
theory Posting_Adapter
  imports Reversal_Service
begin

text \<open>
  \<open>app/services/finance/posting/base.py\<close>: the helper through which source documents (invoices,
  payments, payroll, assets) reach the ledger: create a journal, approve it as the system and
  post it, and take the approval back when the posting is refused. Exceptions of the posting are
  turned into failed results; after an \<open>IntegrityError\<close> the handler's own first query raises
  again, because the session is unusable until it is rolled back.
\<close>

record adapter_result =
  ar_success :: bool
  ar_journal_entry_id :: "uuid option"
  ar_posting_batch_id :: "uuid option"
  ar_message :: "detail option"
  ar_idempotent_replay :: bool

definition failed_result :: "uuid option \<Rightarrow> detail \<Rightarrow> adapter_result" where
  "failed_result jid d = \<lparr>ar_success = False, ar_journal_entry_id = jid, ar_posting_batch_id = None,
     ar_message = Some d, ar_idempotent_replay = False\<rparr>"

definition revert_unposted_journal :: "uuid \<Rightarrow> gldb \<Rightarrow> gldb" where
  "revert_unposted_journal jid s = (case get_row je_id jid (journals s) of
     None \<Rightarrow> s
   | Some j \<Rightarrow>
      if je_status j \<noteq> J_APPROVED \<or> je_posting_batch_id j \<noteq> None then s
      else set_journal jid (\<lambda>j. j\<lparr>je_status := J_DRAFT, je_approved_by := None, je_approved_at := None\<rparr>) s)"

definition submit_and_approve_as_system :: "uuid \<Rightarrow> uuid \<Rightarrow> uuid \<Rightarrow> timestamp \<Rightarrow> gldb
    \<Rightarrow> (gl_error, unit, gldb) tx" where
  "submit_and_approve_as_system org jid user now s =
    bind_tx (submit_journal org jid user now s) (\<lambda>_ s1.
      case approve_journal org jid user now s1 of
        (Inr _, s2) \<Rightarrow> return () s2
      | (Inl e, s2) \<Rightarrow>
          if e \<noteq> HTTPException 403 SegregationOfDuties then raise e s2
          else return () (set_journal jid (\<lambda>j. j\<lparr>je_status := J_APPROVED, je_approved_by := Some user,
            je_approved_at := Some now\<rparr>) s2))"

text \<open>The pair the source returns has exactly one component: the error here is \<open>Inl\<close>.\<close>

definition create_and_approve_journal :: "uuid \<Rightarrow> journal_input \<Rightarrow> uuid \<Rightarrow> string \<Rightarrow> timestamp \<Rightarrow> gldb
    \<Rightarrow> (gl_error, adapter_result + uuid, gldb) tx" where
  "create_and_approve_journal org i user number now s =
    (case bind_tx (create_journal org i user number s) (\<lambda>jid s1.
        bind_tx (submit_and_approve_as_system org jid user now s1) (\<lambda>_ s2. return jid s2)) of
       (Inr jid, s') \<Rightarrow> return (Inr jid) s'
     | (Inl (HTTPException c d), s') \<Rightarrow> return (Inl (failed_result None d)) s'
     | (Inl (IntegrityError k), s') \<Rightarrow> raise (IntegrityError k) s')"

definition adapter_request :: "uuid \<Rightarrow> uuid \<Rightarrow> date \<Rightarrow> string \<Rightarrow> string \<Rightarrow> string option \<Rightarrow> uuid
    \<Rightarrow> posting_request" where
  "adapter_request org jid d key source_module correlation user =
     \<lparr>rq_organization_id = org, rq_journal_entry_id = jid, rq_posting_date = d,
      rq_idempotency_key = key, rq_source_module = source_module, rq_entries = [],
      rq_correlation_id = correlation, rq_posted_by = Some user,
      rq_allow_adjustment_period = False, rq_reopen_session_id = None\<rparr>"

definition post_to_ledger :: "uuid \<Rightarrow> uuid \<Rightarrow> date \<Rightarrow> string \<Rightarrow> string \<Rightarrow> string option \<Rightarrow> uuid
    \<Rightarrow> timestamp \<Rightarrow> gldb \<Rightarrow> (gl_error, adapter_result, gldb) tx" where
  "post_to_ledger org jid d key source_module correlation user now s =
    (case post_journal_entry (adapter_request org jid d key source_module correlation user) now s of
       (Inr r, s') \<Rightarrow>
          if \<not> res_success r
          then return (failed_result (Some jid) PostingFailed) (revert_unposted_journal jid s')
          else return \<lparr>ar_success = True, ar_journal_entry_id = Some jid,
             ar_posting_batch_id = res_batch_id r, ar_message = None,
             ar_idempotent_replay = res_idempotent_replay r\<rparr> s'
     | (Inl (HTTPException c e), s') \<Rightarrow>
          return (failed_result (Some jid) e) (revert_unposted_journal jid s')
     | (Inl (IntegrityError k), s') \<Rightarrow> raise (IntegrityError k) s')"

definition create_approve_and_post_journal :: "uuid \<Rightarrow> journal_input \<Rightarrow> uuid \<Rightarrow> string \<Rightarrow> date \<Rightarrow> string
    \<Rightarrow> string \<Rightarrow> string option \<Rightarrow> timestamp \<Rightarrow> gldb
    \<Rightarrow> (gl_error, uuid option \<times> adapter_result, gldb) tx" where
  "create_approve_and_post_journal org i user number d key source_module correlation now s =
    bind_tx (create_and_approve_journal org i user number now s) (\<lambda>created s1.
      case created of
        Inl e \<Rightarrow> return (None, e) s1
      | Inr jid \<Rightarrow>
          bind_tx (post_to_ledger org jid d key source_module correlation user now s1) (\<lambda>r s2.
            return (Some jid, r) s2))"

end
