(* ===== verification/Gl_Invariant.thy ===== *)
theory Gl_Invariant
  imports Posting_Adapter
begin

text \<open>
  The invariant of the books and the relation between the books before and after an operation.
  \<open>gl_inv\<close> says what the tables always satisfy together; \<open>evolves\<close> says what no operation may
  take back: ledger lines, posted journals, hard-closed periods, and the direction of a
  journal's status. Both are shown here for the elementary changes that the operations are
  made of; \<open>Gl_Safety\<close> shows them for the operations.
\<close>

section \<open>The status graph of a journal\<close>

inductive journal_step :: "journal_status \<Rightarrow> journal_status \<Rightarrow> bool" where
  submitted: "journal_step J_DRAFT J_SUBMITTED"
| approved: "journal_step J_SUBMITTED J_APPROVED"
| posted: "journal_step J_APPROVED J_POSTED"
| reversed: "journal_step J_POSTED J_REVERSED"
| voided: "st \<notin> {J_POSTED, J_REVERSED} \<Longrightarrow> journal_step st J_VOID"
| reverted: "journal_step J_APPROVED J_DRAFT"

inductive_cases journal_step_from_posted [elim]: "journal_step J_POSTED st"
inductive_simps journal_step_reversed [simp]: "journal_step J_REVERSED st"
inductive_simps journal_step_to_posted: "journal_step st J_POSTED"

definition in_ledger :: "journal_entry \<Rightarrow> bool" where
  "in_ledger j \<longleftrightarrow> je_status j \<in> {J_POSTED, J_REVERSED}"

lemma journal_steps_reversed: "journal_step\<^sup>*\<^sup>* J_REVERSED st \<longleftrightarrow> st = J_REVERSED"
proof
  show "journal_step\<^sup>*\<^sup>* J_REVERSED st \<Longrightarrow> st = J_REVERSED"
    by (induction st rule: rtranclp_induct) auto
qed simp

lemma journal_steps_posted: "journal_step\<^sup>*\<^sup>* J_POSTED st \<Longrightarrow> st \<in> {J_POSTED, J_REVERSED}"
  by (induction st rule: rtranclp_induct) auto

lemma journal_steps_void: "journal_step\<^sup>*\<^sup>* J_VOID st \<Longrightarrow> st = J_VOID"
  by (induction st rule: rtranclp_induct) (auto elim: journal_step.cases)

section \<open>The ledger as a sequence of postings\<close>

definition line_view :: "journal_line \<Rightarrow> uuid \<times> decimal \<times> decimal" where
  "line_view l = (jl_account l, numeric6 (jl_debit_functional l), numeric6 (jl_credit_functional l))"

definition ledger_view :: "ledger_line \<Rightarrow> uuid \<times> decimal \<times> decimal" where
  "ledger_view l = (ll_account l, ll_debit l, ll_credit l)"

definition ledger_of :: "gldb \<Rightarrow> uuid \<Rightarrow> ledger_line list" where
  "ledger_of s jid = filter (\<lambda>l. ll_journal l = jid) (ledger s)"

definition net :: "ledger_line list \<Rightarrow> decimal" where
  "net ls = (\<Sum>l\<leftarrow>ls. ll_debit l - ll_credit l)"

lemma net_simps [simp]: "net [] = 0" "net (l # ls) = ll_debit l - ll_credit l + net ls"
  "net (xs @ ys) = net xs + net ys"
  by (simp_all add: net_def)

text \<open>One posting: lines of one journal, batch, period and date, whose debits equal their credits.\<close>

definition posting_chunk :: "ledger_line list \<Rightarrow> bool" where
  "posting_chunk ls \<longleftrightarrow> net ls = 0
     \<and> (\<forall>x \<in> set ls. \<forall>y \<in> set ls. ll_org x = ll_org y \<and> ll_journal x = ll_journal y
        \<and> ll_batch x = ll_batch y \<and> ll_period x = ll_period y \<and> ll_posting_date x = ll_posting_date y)"

inductive balanced_ledger :: "ledger_line list \<Rightarrow> bool" where
  no_lines: "balanced_ledger []"
| posting: "balanced_ledger ls \<Longrightarrow> posting_chunk new \<Longrightarrow>
    (\<forall>x \<in> set ls. \<forall>y \<in> set new. ll_journal x \<noteq> ll_journal y) \<Longrightarrow> balanced_ledger (ls @ new)"

text \<open>Any selection of lines by organisation, journal, batch, period and date balances.\<close>

definition selects_postings :: "(ledger_line \<Rightarrow> bool) \<Rightarrow> bool" where
  "selects_postings P \<longleftrightarrow> (\<forall>x y. ll_org x = ll_org y \<and> ll_journal x = ll_journal y
     \<and> ll_batch x = ll_batch y \<and> ll_period x = ll_period y \<and> ll_posting_date x = ll_posting_date y
     \<longrightarrow> P x = P y)"

lemma balanced_ledger_selection:
  assumes "balanced_ledger ls" and "selects_postings P"
  shows "net (filter P ls) = 0"
  using assms(1)
proof induction
  case (posting ls new)
  have "filter P new = new \<or> filter P new = []"
  proof (cases "\<exists>x \<in> set new. P x")
    case True
    then have "\<forall>y \<in> set new. P y"
      using posting.hyps(2) assms(2) unfolding posting_chunk_def selects_postings_def by metis
    then show ?thesis by simp
  qed (simp add: filter_empty_conv)
  then show ?case using posting.IH posting.hyps(2) by (auto simp: posting_chunk_def)
qed simp

section \<open>The invariant\<close>

definition ids_ok :: "gldb \<Rightarrow> bool" where
  "ids_ok s \<longleftrightarrow> distinct (map je_id (journals s)) \<and> (\<forall>j \<in> set (journals s). je_id j < next_uuid s)
     \<and> distinct (map fp_id (periods s)) \<and> (\<forall>p \<in> set (periods s). fp_id p < next_uuid s)
     \<and> batches_ok s"

text \<open>Every line belongs to a journal and every journal has lines.\<close>

definition lines_ok :: "gldb \<Rightarrow> bool" where
  "lines_ok s \<longleftrightarrow> (\<forall>l \<in> set (jlines s). jl_journal l \<in> je_id ` set (journals s))
     \<and> (\<forall>j \<in> set (journals s). lines_of s (je_id j) \<noteq> [])"

text \<open>A journal is in the ledger, with exactly its lines, when its status says so.\<close>

definition posted_ok :: "gldb \<Rightarrow> journal_entry \<Rightarrow> bool" where
  "posted_ok s j \<longleftrightarrow> map ledger_view (ledger_of s (je_id j)) =
       (if in_ledger j then map line_view (lines_of s (je_id j)) else [])
     \<and> (in_ledger j \<longleftrightarrow> je_posting_batch_id j \<noteq> None)
     \<and> (in_ledger j \<longrightarrow> validate_balance (load_journal_lines s j) = None
          \<and> validate_functional_amounts 0 (load_journal_lines s j) = None)"

definition ledger_ok :: "gldb \<Rightarrow> bool" where
  "ledger_ok s \<longleftrightarrow> balanced_ledger (ledger s)
     \<and> (\<forall>l \<in> set (ledger s). \<exists>j \<in> set (journals s). je_id j = ll_journal l \<and> je_org j = ll_org l
          \<and> je_posting_batch_id j = Some (ll_batch l))
     \<and> (\<forall>l \<in> set (ledger s). \<exists>p \<in> set (periods s). fp_id p = ll_period l
          \<and> named_for (ll_org l) (ll_posting_date l) p)"

definition gl_inv :: "gldb \<Rightarrow> bool" where
  "gl_inv s \<longleftrightarrow> ids_ok s \<and> lines_ok s \<and> (\<forall>j \<in> set (journals s). posted_ok s j) \<and> ledger_ok s"

section \<open>What no operation takes back\<close>

definition appends :: "gldb \<Rightarrow> gldb \<Rightarrow> bool" where
  "appends s s' \<longleftrightarrow> (\<exists>new. ledger s' = ledger s @ new \<and> (\<forall>l \<in> set new. \<forall>p \<in> set (periods s).
     fp_id p = ll_period l \<longrightarrow> fp_status p \<noteq> P_HARD_CLOSED))"

definition keeps_closed :: "gldb \<Rightarrow> gldb \<Rightarrow> bool" where
  "keeps_closed s s' \<longleftrightarrow> (\<forall>p \<in> set (periods s). fp_status p = P_HARD_CLOSED \<longrightarrow> p \<in> set (periods s'))"

definition traces :: "gldb \<Rightarrow> gldb \<Rightarrow> bool" where
  "traces s s' \<longleftrightarrow> (\<forall>j' \<in> set (journals s'). next_uuid s \<le> je_id j'
     \<or> (\<exists>j \<in> set (journals s). je_id j = je_id j' \<and> je_org j = je_org j'
          \<and> journal_step\<^sup>*\<^sup>* (je_status j) (je_status j')))"

definition keeps_posted :: "gldb \<Rightarrow> gldb \<Rightarrow> bool" where
  "keeps_posted s s' \<longleftrightarrow> (\<forall>j \<in> set (journals s). in_ledger j \<longrightarrow>
     (\<exists>j' \<in> set (journals s'). je_id j' = je_id j \<and> in_ledger j'
        \<and> je_posting_batch_id j' = je_posting_batch_id j)
     \<and> lines_of s' (je_id j) = lines_of s (je_id j))"

definition evolves :: "gldb \<Rightarrow> gldb \<Rightarrow> bool" where
  "evolves s s' \<longleftrightarrow> next_uuid s \<le> next_uuid s' \<and> appends s s' \<and> keeps_closed s s'
     \<and> traces s s' \<and> keeps_posted s s'"

lemma appends_trans: "appends s t \<Longrightarrow> keeps_closed s t \<Longrightarrow> appends t u \<Longrightarrow> appends s u"
  unfolding appends_def keeps_closed_def by (elim exE conjE) (auto intro!: exI)

lemma traces_trans:
  assumes "traces s t" and "traces t u" and "next_uuid s \<le> next_uuid t"
  shows "traces s u"
  unfolding traces_def
proof
  fix j'' assume "j'' \<in> set (journals u)"
  with assms(2) consider "next_uuid t \<le> je_id j''"
    | j' where "j' \<in> set (journals t)" "je_id j' = je_id j''" "je_org j' = je_org j''"
      "journal_step\<^sup>*\<^sup>* (je_status j') (je_status j'')" by (auto simp: traces_def)
  then show "next_uuid s \<le> je_id j'' \<or> (\<exists>j \<in> set (journals s). je_id j = je_id j'' \<and> je_org j = je_org j''
      \<and> journal_step\<^sup>*\<^sup>* (je_status j) (je_status j''))"
  proof cases
    case 1
    then show ?thesis using assms(3) by simp
  next
    case 2
    with assms(1) show ?thesis unfolding traces_def by (metis rtranclp_trans)
  qed
qed

lemma keeps_posted_trans: "keeps_posted s t \<Longrightarrow> keeps_posted t u \<Longrightarrow> keeps_posted s u"
  unfolding keeps_posted_def by metis

lemma evolves_trans [trans]: "evolves s t \<Longrightarrow> evolves t u \<Longrightarrow> evolves s u"
  unfolding evolves_def
  by (auto intro: appends_trans traces_trans keeps_posted_trans simp: keeps_closed_def)

lemma evolves_refl [simp, intro]: "evolves s s"
  by (auto simp: evolves_def appends_def keeps_closed_def traces_def keeps_posted_def)

section \<open>Elementary changes\<close>

lemma named_for_cong: "fp_org q = fp_org p \<Longrightarrow> fp_start_date q = fp_start_date p
   \<Longrightarrow> fp_end_date q = fp_end_date p \<Longrightarrow> named_for org d q = named_for org d p"
  by (simp add: named_for_def covers_def)

lemma lines_of_cong: "jlines s' = jlines s \<Longrightarrow> lines_of s' jid = lines_of s jid"
  by (simp add: lines_of_def)

lemma load_journal_lines_cong:
  "lines_of s' (je_id j') = lines_of s (je_id j) \<Longrightarrow> load_journal_lines s' j' = load_journal_lines s j"
  by (simp add: load_journal_lines_def)

lemma ledger_of_cong: "ledger s' = ledger s \<Longrightarrow> ledger_of s' jid = ledger_of s jid"
  by (simp add: ledger_of_def)

lemma posted_ok_cong:
  assumes "posted_ok s j" and "je_id j' = je_id j" and "je_posting_batch_id j' = je_posting_batch_id j"
    and "in_ledger j' = in_ledger j" and "lines_of s' (je_id j) = lines_of s (je_id j)"
    and "ledger_of s' (je_id j) = ledger_of s (je_id j)"
  shows "posted_ok s' j'"
  using assms load_journal_lines_cong [of s' j' s j] by (simp add: posted_ok_def)

lemma ids_ok_unique: "ids_ok s \<Longrightarrow> j \<in> set (journals s) \<Longrightarrow> j' \<in> set (journals s) \<Longrightarrow> je_id j = je_id j' \<Longrightarrow> j = j'"
  by (auto simp: ids_ok_def distinct_map inj_on_def)

lemma ids_ok_period_unique: "ids_ok s \<Longrightarrow> p \<in> set (periods s) \<Longrightarrow> q \<in> set (periods s) \<Longrightarrow> fp_id p = fp_id q \<Longrightarrow> p = q"
  by (auto simp: ids_ok_def distinct_map inj_on_def)

lemma fresh_periods_ok:
  assumes "ids_ok s" and "fresh_periods s s' new" and "next_uuid s \<le> next_uuid s'"
  shows "distinct (map fp_id (periods s'))" and "\<forall>p \<in> set (periods s'). fp_id p < next_uuid s'"
    and "set (periods s) \<subseteq> set (periods s')"
  using assms by (force simp: ids_ok_def fresh_periods_def)+

text \<open>Assignments to headers that leave identity, batch and being in the ledger alone.\<close>

lemma gl_inv_headers:
  assumes inv: "gl_inv s"
    and js: "journals s' = map h (journals s)"
    and same: "jlines s' = jlines s" "ledger s' = ledger s"
    and per: "fresh_periods s s' new" and nxt: "next_uuid s \<le> next_uuid s'" and bat: "batches_ok s'"
    and h: "\<And>j. j \<in> set (journals s) \<Longrightarrow> je_id (h j) = je_id j \<and> je_org (h j) = je_org j
      \<and> je_posting_batch_id (h j) = je_posting_batch_id j \<and> in_ledger (h j) = in_ledger j
      \<and> journal_step\<^sup>*\<^sup>* (je_status j) (je_status (h j))"
  shows "gl_inv s' \<and> evolves s s'"
proof
  have ids: "ids_ok s" and lines: "lines_ok s" and posted: "\<forall>j \<in> set (journals s). posted_ok s j"
    and led: "ledger_ok s" using inv by (simp_all add: gl_inv_def)
  note fresh = fresh_periods_ok [OF ids per nxt]
  have keys: "map je_id (journals s') = map je_id (journals s)"
    using h by (simp add: js)
  have "ids_ok s'"
    unfolding ids_ok_def keys using ids fresh bat nxt h by (fastforce simp: ids_ok_def js)
  moreover have "lines_ok s'"
    using lines h by (auto simp: lines_ok_def js same lines_of_cong [OF same(1)] image_image)
  moreover have "\<forall>j \<in> set (journals s'). posted_ok s' j"
    using posted h posted_ok_cong [OF _ _ _ _ lines_of_cong [OF same(1)] ledger_of_cong [OF same(2)]]
    by (auto simp: js)
  moreover have "ledger_ok s'"
    unfolding ledger_ok_def same
  proof (intro conjI ballI)
    fix l assume l: "l \<in> set (ledger s)"
    then obtain j where "j \<in> set (journals s)" "je_id j = ll_journal l" "je_org j = ll_org l"
        "je_posting_batch_id j = Some (ll_batch l)" using led by (auto simp: ledger_ok_def)
    then show "\<exists>j \<in> set (journals s'). je_id j = ll_journal l \<and> je_org j = ll_org l
        \<and> je_posting_batch_id j = Some (ll_batch l)"
      using h unfolding js by (intro bexI [of _ "h j"]) auto
    show "\<exists>p \<in> set (periods s'). fp_id p = ll_period l \<and> named_for (ll_org l) (ll_posting_date l) p"
      using led l fresh(3) unfolding ledger_ok_def by blast
  qed (use led in \<open>simp add: ledger_ok_def\<close>)
  ultimately show "gl_inv s'" by (simp add: gl_inv_def)
  have "traces s s'" unfolding traces_def js using h by fastforce
  moreover have "keeps_posted s s'"
    unfolding keeps_posted_def js using h lines_of_cong [OF same(1)] by fastforce
  ultimately show "evolves s s'"
    using nxt fresh(3) by (auto simp: evolves_def appends_def keeps_closed_def same)
qed

lemma gl_inv_books_kept:
  assumes "gl_inv s" and "books_kept s s'" and "batches_ok s'"
  shows "gl_inv s' \<and> evolves s s'"
proof -
  obtain new where "fresh_periods s s' new" using assms(2) by (auto simp: books_kept_def)
  from gl_inv_headers [where h = "\<lambda>j. j", OF assms(1) _ _ _ this _ assms(3)]
  show ?thesis using books_keptD [OF assms(2)] by simp
qed

lemma gl_inv_set_journal:
  assumes inv: "gl_inv s" and j: "j \<in> set (journals s)" "je_id j = jid"
    and js: "journals s' = set_row je_id jid f (journals s)"
    and same: "jlines s' = jlines s" "ledger s' = ledger s" "periods s' = periods s" "batches s' = batches s"
      "next_uuid s' = next_uuid s"
    and f: "je_id (f j) = je_id j" "je_org (f j) = je_org j" "je_posting_batch_id (f j) = je_posting_batch_id j"
      "in_ledger (f j) = in_ledger j" "journal_step\<^sup>*\<^sup>* (je_status j) (je_status (f j))"
  shows "gl_inv s' \<and> evolves s s'"
proof (rule gl_inv_headers [OF inv js [unfolded set_row_def] same(1,2) fresh_periods_same [OF same(3)]])
  have ids: "ids_ok s" using inv by (simp add: gl_inv_def)
  then show "batches_ok s'" using batches_ok_same [of s s'] same by (simp add: ids_ok_def)
  fix k assume k: "k \<in> set (journals s)"
  show "je_id (if je_id k = jid then f k else k) = je_id k \<and> je_org (if je_id k = jid then f k else k) = je_org k
      \<and> je_posting_batch_id (if je_id k = jid then f k else k) = je_posting_batch_id k
      \<and> in_ledger (if je_id k = jid then f k else k) = in_ledger k
      \<and> journal_step\<^sup>*\<^sup>* (je_status k) (je_status (if je_id k = jid then f k else k))"
    using f ids_ok_unique [OF ids k j(1)] j(2) by (cases "k = j") auto
qed (use same in simp)

text \<open>Rows of a journal that the ledger does not know: inserted, replaced, deleted.\<close>

lemma lines_of_append:
  assumes "jlines s' = jlines s @ ls" and "\<forall>l \<in> set ls. jl_journal l = u"
  shows "jid \<noteq> u \<Longrightarrow> lines_of s' jid = lines_of s jid"
    and "\<forall>l \<in> set (jlines s). jl_journal l \<noteq> u \<Longrightarrow> lines_of s' u = sort_key jl_line_number ls"
proof -
  have n: "filter (\<lambda>l. jl_journal l = jid) ls = (if jid = u then ls else [])" for jid
    using assms(2) by (auto simp: filter_empty_conv)
  show "jid \<noteq> u \<Longrightarrow> lines_of s' jid = lines_of s jid"
    by (simp add: lines_of_def assms(1) n)
  show "\<forall>l \<in> set (jlines s). jl_journal l \<noteq> u \<Longrightarrow> lines_of s' u = sort_key jl_line_number ls"
    using filter_empty_conv [of "\<lambda>l. jl_journal l = u" "jlines s"]
    by (simp add: lines_of_def assms(1) n)
qed

lemma lines_of_filter_other:
  "jid' \<noteq> jid \<Longrightarrow> filter (\<lambda>l. jl_journal l \<noteq> jid \<and> jl_journal l = jid') ls = filter (\<lambda>l. jl_journal l = jid') ls"
  by (rule filter_cong) auto

lemma ledger_of_unknown:
  "ledger_ok s \<Longrightarrow> \<forall>j \<in> set (journals s). je_id j \<noteq> jid \<Longrightarrow> ledger_of s jid = []"
  by (auto simp: ledger_ok_def ledger_of_def filter_empty_conv)

lemma gl_inv_insert:
  assumes inv: "gl_inv s"
    and s': "journals s' = journals s @ [j]" "jlines s' = jlines s @ ls" "ledger s' = ledger s"
      "periods s' = periods s" "batches s' = batches s"
    and j: "je_id j = next_uuid s" "\<not> in_ledger j" "je_posting_batch_id j = None"
    and ls: "ls \<noteq> []" "\<forall>l \<in> set ls. jl_journal l = je_id j" and nxt: "next_uuid s < next_uuid s'"
  shows "gl_inv s' \<and> evolves s s'"
proof
  have ids: "ids_ok s" and lines: "lines_ok s" and posted: "\<forall>j \<in> set (journals s). posted_ok s j"
    and led: "ledger_ok s" using inv by (simp_all add: gl_inv_def)
  have old: "\<forall>k \<in> set (journals s). je_id k \<noteq> je_id j" using ids j(1) by (auto simp: ids_ok_def)
  have oldl: "\<forall>l \<in> set (jlines s). jl_journal l \<noteq> je_id j" using lines old by (auto simp: lines_ok_def)
  have other: "lines_of s' (je_id k) = lines_of s (je_id k)" if "k \<in> set (journals s)" for k
    using lines_of_append(1) [OF s'(2) ls(2)] old that by simp
  have mine: "lines_of s' (je_id j) = sort_key jl_line_number ls"
    by (rule lines_of_append(2) [OF s'(2) ls(2) oldl])
  have "batches_ok s'" using batches_ok_same [of s s'] ids s'(5) nxt by (simp add: ids_ok_def)
  then have "ids_ok s'" using ids old nxt j(1) by (fastforce simp: ids_ok_def s')
  moreover have "lines_ok s'"
    using lines ls other mine
    by (auto simp: lines_ok_def s') (metis length_0_conv length_sort)
  moreover have "posted_ok s' k" if "k \<in> set (journals s)" for k
    by (rule posted_ok_cong [OF bspec [OF posted that] refl refl refl other [OF that] ledger_of_cong [OF s'(3)]])
  moreover have "posted_ok s' j"
    using j ledger_of_unknown [OF led old] ledger_of_cong [OF s'(3)] by (simp add: posted_ok_def)
  moreover have "ledger_ok s'" using led unfolding ledger_ok_def s' by auto
  ultimately show "gl_inv s'" by (auto simp: gl_inv_def s')
  show "evolves s s'"
    using nxt other j(1) by (auto simp: evolves_def appends_def keeps_closed_def traces_def keeps_posted_def s')
qed

lemma gl_inv_replace_lines:
  assumes inv: "gl_inv s" and j: "j \<in> set (journals s)" "je_id j = jid" "\<not> in_ledger j"
    and s': "journals s' = journals s" "jlines s' = filter (\<lambda>l. jl_journal l \<noteq> jid) (jlines s) @ ls"
      "ledger s' = ledger s" "periods s' = periods s" "batches s' = batches s"
    and ls: "ls \<noteq> []" "\<forall>l \<in> set ls. jl_journal l = jid" and nxt: "next_uuid s \<le> next_uuid s'"
  shows "gl_inv s' \<and> evolves s s'"
proof
  have ids: "ids_ok s" and lines: "lines_ok s" and posted: "\<forall>j \<in> set (journals s). posted_ok s j"
    and led: "ledger_ok s" using inv by (simp_all add: gl_inv_def)
  have f: "filter (\<lambda>l. jl_journal l = k) ls = (if k = jid then ls else [])" for k
    using ls(2) by (auto simp: filter_empty_conv)
  have other: "lines_of s' k = lines_of s k" if "k \<noteq> jid" for k
    using that by (simp add: lines_of_def s' f lines_of_filter_other)
  have mine: "lines_of s' jid = sort_key jl_line_number ls"
    by (simp add: lines_of_def s' f)
  have "batches_ok s'" using batches_ok_same [of s s'] ids s'(5) nxt by (simp add: ids_ok_def)
  then have "ids_ok s'" using ids nxt by (fastforce simp: ids_ok_def s')
  moreover have "lines_ok s'"
    unfolding lines_ok_def
  proof (intro conjI ballI)
    fix l assume "l \<in> set (jlines s')"
    then show "jl_journal l \<in> je_id ` set (journals s')"
      using lines j(1,2) ls(2) by (auto simp: lines_ok_def s')
  next
    fix k assume k: "k \<in> set (journals s')"
    have "length (lines_of s' jid) \<noteq> 0" using ls(1) by (simp add: mine)
    then show "lines_of s' (je_id k) \<noteq> []"
      using k other [of "je_id k"] lines by (cases "je_id k = jid") (auto simp: lines_ok_def s'(1))
  qed
  moreover have "posted_ok s' k" if k: "k \<in> set (journals s)" for k
  proof (cases "je_id k = jid")
    case True
    then have "k = j" using ids_ok_unique [OF ids k j(1)] j(2) by simp
    then show ?thesis using j posted ledger_of_cong [OF s'(3)] by (auto simp: posted_ok_def)
  next
    case False
    from posted_ok_cong [OF bspec [OF posted k] refl refl refl other [OF False] ledger_of_cong [OF s'(3)]]
    show ?thesis .
  qed
  moreover have "ledger_ok s'" using led unfolding ledger_ok_def s' .
  ultimately show "gl_inv s'" by (simp add: gl_inv_def s')
  have "keeps_posted s s'"
    unfolding keeps_posted_def
  proof (intro ballI impI)
    fix k assume k: "k \<in> set (journals s)" "in_ledger k"
    then have "je_id k \<noteq> jid" using ids_ok_unique [OF ids k(1) j(1)] j(2,3) by auto
    with k other show "(\<exists>j' \<in> set (journals s'). je_id j' = je_id k \<and> in_ledger j'
        \<and> je_posting_batch_id j' = je_posting_batch_id k) \<and> lines_of s' (je_id k) = lines_of s (je_id k)"
      by (intro conjI bexI [of _ k]) (simp_all add: s')
  qed
  then show "evolves s s'"
    using nxt by (auto simp: evolves_def appends_def keeps_closed_def traces_def s')
qed

lemma gl_inv_delete:
  assumes inv: "gl_inv s" and j: "j \<in> set (journals s)" "je_id j = jid" "\<not> in_ledger j"
    and s': "journals s' = del_row je_id jid (journals s)" "jlines s' = filter (\<lambda>l. jl_journal l \<noteq> jid) (jlines s)"
      "ledger s' = ledger s" "periods s' = periods s" "batches s' = batches s" "next_uuid s' = next_uuid s"
  shows "gl_inv s' \<and> evolves s s'"
proof
  have ids: "ids_ok s" and lines: "lines_ok s" and posted: "\<forall>j \<in> set (journals s). posted_ok s j"
    and led: "ledger_ok s" using inv by (simp_all add: gl_inv_def)
  have other: "lines_of s' k = lines_of s k" if "k \<noteq> jid" for k
    using that by (simp add: lines_of_def s' lines_of_filter_other)
  have "batches_ok s'" using batches_ok_same [of s s'] ids s'(5,6) by (simp add: ids_ok_def)
  then have "ids_ok s'" using ids by (auto simp: ids_ok_def s' distinct_del_row)
  moreover have "lines_ok s'" using lines other by (auto simp: lines_ok_def s')
  moreover have "posted_ok s' k" if "k \<in> set (journals s')" for k
  proof -
    have k: "k \<in> set (journals s)" "je_id k \<noteq> jid" using that by (simp_all add: s')
    from posted_ok_cong [OF bspec [OF posted k(1)] refl refl refl other [OF k(2)] ledger_of_cong [OF s'(3)]]
    show ?thesis .
  qed
  moreover have "ll_journal l \<noteq> jid" if "l \<in> set (ledger s)" for l
  proof
    assume "ll_journal l = jid"
    then obtain k where "k \<in> set (journals s)" "je_id k = jid" "je_posting_batch_id k \<noteq> None"
      using led \<open>l \<in> set (ledger s)\<close> by (fastforce simp: ledger_ok_def)
    moreover from this have "k = j" using ids_ok_unique [OF ids _ j(1)] j(2) by simp
    ultimately show False using bspec [OF posted j(1)] j(3) by (simp add: posted_ok_def)
  qed
  then have "ledger_ok s'" using led unfolding ledger_ok_def s' by fastforce
  ultimately show "gl_inv s'" by (simp add: gl_inv_def)
  have "keeps_posted s s'"
    unfolding keeps_posted_def
  proof (intro ballI impI)
    fix k assume k: "k \<in> set (journals s)" "in_ledger k"
    then have "je_id k \<noteq> jid" using ids_ok_unique [OF ids k(1) j(1)] j(2,3) by auto
    with k other show "(\<exists>j' \<in> set (journals s'). je_id j' = je_id k \<and> in_ledger j'
        \<and> je_posting_batch_id j' = je_posting_batch_id k) \<and> lines_of s' (je_id k) = lines_of s (je_id k)"
      by (intro conjI bexI [of _ k]) (simp_all add: s')
  qed
  then show "evolves s s'"
    by (auto simp: evolves_def appends_def keeps_closed_def traces_def s')
qed

text \<open>A posting: the ledger grows by one balanced chunk, the image of the journal's lines.\<close>

lemma ledger_view_of_lines:
  "map ledger_view (ledger_lines_from s req j pid bid u (map entry_of_line ls)) = map line_view ls"
proof -
  have "map ledger_view (ledger_lines_from s req j pid bid u (map entry_of_line ls)) =
      map (\<lambda>e. (pe_account_id e, numeric6 (pe_debit_functional e), numeric6 (pe_credit_functional e)))
        (map entry_of_line ls)"
    by (rule map_ledger_lines_from) (simp add: ledger_view_def ledger_line_of_def)
  then show ?thesis by (simp add: line_view_def entry_of_line_def o_def)
qed

lemma net_ledger_lines_from:
  assumes "validate_balance es = None"
  shows "net (ledger_lines_from s req j pid bid u es) = 0"
proof -
  let ?ls = "ledger_lines_from s req j pid bid u es"
  have "map ll_debit ?ls = map (\<lambda>e. numeric6 (pe_debit_functional e)) es"
    and "map ll_credit ?ls = map (\<lambda>e. numeric6 (pe_credit_functional e)) es"
    by (rule map_ledger_lines_from, simp add: ledger_line_of_def)+
  moreover have "(\<Sum>e\<leftarrow>es. numeric6 (pe_debit_functional e)) = (\<Sum>e\<leftarrow>es. numeric6 (pe_credit_functional e))"
    using assms by (simp add: validate_balance_def Let_def sum_at_persisted_scale_map split: if_splits)
  ultimately show ?thesis unfolding net_def sum_list_subtractf by simp
qed

lemma posting_chunk_lines_from:
  "validate_balance es = None \<Longrightarrow> posting_chunk (ledger_lines_from s req j pid bid u es)"
  unfolding posting_chunk_def by (auto simp: net_ledger_lines_from dest!: in_ledger_lines_from)

lemma gl_inv_posts:
  assumes inv: "gl_inv s" and p: "posts req j pid bid now s s'" and e: "rq_entries req = []"
    and bat: "batches_ok s'" and per: "per \<in> set (periods s')" "fp_id per = pid"
      "named_for (rq_organization_id req) (rq_posting_date req) per" "fp_status per \<noteq> P_HARD_CLOSED"
  shows "gl_inv s' \<and> evolves s s'"
proof
  have ids: "ids_ok s" and lines: "lines_ok s" and posted: "\<forall>j \<in> set (journals s). posted_ok s j"
    and led: "ledger_ok s" using inv by (simp_all add: gl_inv_def)
  let ?jid = "rq_journal_entry_id req" and ?es = "load_journal_lines s j"
  define f where "f = (\<lambda>j'. j'\<lparr>je_status := J_POSTED, je_posting_batch_id := Some bid, je_posted_at := Some now,
      je_posted_by := Some (case rq_posted_by req of Some u \<Rightarrow> u | None \<Rightarrow> je_created_by j)\<rparr> :: journal_entry)"
  have f: "je_id (f k) = je_id k" "je_org (f k) = je_org k" "je_posting_batch_id (f k) = Some bid"
    "je_status (f k) = J_POSTED" for k by (simp_all add: f_def)
  from p e obtain u new where j: "get_row je_id ?jid (journals s) = Some j" "je_org j = rq_organization_id req"
      "je_status j = J_APPROVED"
    and v: "validate_balance ?es = None" "validate_functional_amounts 0 ?es = None"
    and s': "jlines s' = jlines s" "next_uuid s \<le> next_uuid s'" "fresh_periods s s' new"
      "journals s' = set_row je_id ?jid f (journals s)"
      "ledger s' = ledger s @ ledger_lines_from s req j pid bid u ?es"
    unfolding posts_def entries_to_post_def if_P [OF e] f_def by blast
  let ?new = "ledger_lines_from s req j pid bid u ?es"
  have jm: "j \<in> set (journals s)" "je_id j = ?jid" using get_row_SomeD [OF j(1)] by simp_all
  note fresh = fresh_periods_ok [OF ids s'(3,2)]
  have is_j: "(je_id k = ?jid) = (k = j)" if "k \<in> set (journals s)" for k
    using ids_ok_unique [OF ids that jm(1)] jm(2) by auto
  have js: "journals s' = map (\<lambda>k. if k = j then f k else k) (journals s)"
    unfolding s'(4) set_row_def by (rule map_cong [OF refl]) (simp add: is_j)
  have keys: "map je_id (journals s') = map je_id (journals s)" by (simp add: js f)
  have nl: "\<not> in_ledger j" using j(3) by (simp add: in_ledger_def)
  have other: "je_id k \<noteq> ?jid" if "k \<in> set (journals s)" "k \<noteq> j" for k
    using ids_ok_unique [OF ids that(1) jm(1)] jm(2) that(2) by auto
  have newj: "ll_journal l = ?jid \<and> ll_org l = rq_organization_id req \<and> ll_batch l = bid \<and> ll_period l = pid
      \<and> ll_posting_date l = rq_posting_date req" if "l \<in> set ?new" for l
    using in_ledger_lines_from [OF that] by simp
  have led_of: "ledger_of s' k = (if k = ?jid then ledger_of s k @ ?new else ledger_of s k)" for k
  proof -
    have "filter (\<lambda>l. ll_journal l = k) ?new = (if k = ?jid then ?new else [])"
    proof (cases "k = ?jid")
      case True
      have "filter (\<lambda>l. ll_journal l = k) ?new = ?new"
        by (rule filter_True) (use newj True in blast)
      then show ?thesis using True by simp
    next
      case False
      have "filter (\<lambda>l. ll_journal l = k) ?new = []"
        unfolding filter_empty_conv using newj False by blast
      then show ?thesis using False by simp
    qed
    then show ?thesis by (simp add: ledger_of_def s'(5))
  qed
  have "ids_ok s'" unfolding ids_ok_def keys using ids fresh bat s'(2)
    by (fastforce simp: ids_ok_def js f)
  moreover have "lines_ok s'"
  proof -
    have ks: "je_id ` set (journals s') = je_id ` set (journals s)"
      using arg_cong [OF keys, of set] by simp
    show ?thesis
      unfolding lines_ok_def
    proof (intro conjI ballI)
      fix l assume "l \<in> set (jlines s')"
      then show "jl_journal l \<in> je_id ` set (journals s')"
        using lines unfolding ks s'(1) lines_ok_def by simp
    next
      fix k assume "k \<in> set (journals s')"
      then have "je_id k \<in> je_id ` set (journals s)" unfolding ks [symmetric] by (rule imageI)
      then show "lines_of s' (je_id k) \<noteq> []"
        using lines by (auto simp: lines_ok_def lines_of_cong [OF s'(1)])
    qed
  qed
  moreover have "posted_ok s' (f j)"
  proof -
    have "ledger_of s ?jid = []" using bspec [OF posted jm(1)] nl jm(2) by (simp add: posted_ok_def)
    then have "map ledger_view (ledger_of s' ?jid) = map line_view (lines_of s ?jid)"
      using ledger_view_of_lines [of s req j pid bid u "lines_of s (je_id j)"]
      by (simp add: led_of load_journal_lines_def jm(2))
    moreover have "load_journal_lines s' (f j) = ?es"
      by (rule load_journal_lines_cong) (simp add: f lines_of_cong [OF s'(1)])
    ultimately show ?thesis
      using v by (simp add: posted_ok_def f in_ledger_def jm(2) lines_of_cong [OF s'(1)])
  qed
  moreover have "posted_ok s' k" if "k \<in> set (journals s)" "k \<noteq> j" for k
    by (rule posted_ok_cong [OF bspec [OF posted that(1)] refl refl refl lines_of_cong [OF s'(1)]])
      (simp add: led_of other [OF that])
  moreover have "ledger_ok s'"
    unfolding ledger_ok_def
  proof (intro conjI ballI)
    have "\<forall>x \<in> set (ledger s). ll_journal x \<noteq> ?jid"
      using bspec [OF posted jm(1)] nl jm(2) by (auto simp: posted_ok_def ledger_of_def filter_empty_conv)
    then show "balanced_ledger (ledger s')"
      unfolding s'(5) using led newj
      by (intro balanced_ledger.posting posting_chunk_lines_from [OF v(1)]) (simp_all add: ledger_ok_def)
  next
    fix l assume l: "l \<in> set (ledger s')"
    show "\<exists>k \<in> set (journals s'). je_id k = ll_journal l \<and> je_org k = ll_org l \<and> je_posting_batch_id k = Some (ll_batch l)"
    proof (cases "l \<in> set ?new")
      case True
      have "f j \<in> set (journals s')" using jm(1) by (simp add: js)
      then show ?thesis using newj [OF True] jm(2) j(2) f by (intro bexI [of _ "f j"]) simp_all
    next
      case False
      then obtain k where k: "k \<in> set (journals s)" "je_id k = ll_journal l" "je_org k = ll_org l"
          "je_posting_batch_id k = Some (ll_batch l)" using l led by (auto simp: s'(5) ledger_ok_def)
      then have "k \<noteq> j" using bspec [OF posted k(1)] nl by (auto simp: posted_ok_def)
      then have "k \<in> set (journals s')" using k(1) by (auto simp: js)
      then show ?thesis using k by (intro bexI [of _ k]) simp_all
    qed
    show "\<exists>p \<in> set (periods s'). fp_id p = ll_period l \<and> named_for (ll_org l) (ll_posting_date l) p"
    proof (cases "l \<in> set ?new")
      case True
      then show ?thesis using newj [OF True] per by (intro bexI [of _ per]) simp_all
    next
      case False
      then have "l \<in> set (ledger s)" using l by (simp add: s'(5))
      then show ?thesis using led fresh(3) unfolding ledger_ok_def by blast
    qed
  qed
  ultimately show "gl_inv s'" by (auto simp: gl_inv_def js)
  have "appends s s'"
    unfolding appends_def
  proof (intro exI [of _ ?new] conjI ballI impI)
    fix l q assume "l \<in> set ?new" "q \<in> set (periods s)" "fp_id q = ll_period l"
    then have "q = per" using newj per(1,2) fresh(3) ids_ok_period_unique [OF \<open>ids_ok s'\<close>, of q per] by auto
    then show "fp_status q \<noteq> P_HARD_CLOSED" using per(4) by simp
  qed (rule s'(5))
  moreover have "traces s s'"
    unfolding traces_def
  proof
    fix k' assume "k' \<in> set (journals s')"
    then obtain k where k: "k \<in> set (journals s)" "k' = (if k = j then f k else k)" by (auto simp: js)
    have "journal_step\<^sup>*\<^sup>* (je_status k) (je_status k')"
      using k(2) j(3) journal_step.posted by (simp add: f r_into_rtranclp)
    then show "next_uuid s \<le> je_id k' \<or> (\<exists>k \<in> set (journals s). je_id k = je_id k' \<and> je_org k = je_org k'
        \<and> journal_step\<^sup>*\<^sup>* (je_status k) (je_status k'))"
      using k by (intro disjI2 bexI [of _ k]) (simp_all add: f)
  qed
  moreover have "keeps_posted s s'"
    unfolding keeps_posted_def
  proof (intro ballI impI)
    fix k assume k: "k \<in> set (journals s)" "in_ledger k"
    then have "k \<noteq> j" using nl by auto
    with k show "(\<exists>j' \<in> set (journals s'). je_id j' = je_id k \<and> in_ledger j'
        \<and> je_posting_batch_id j' = je_posting_batch_id k) \<and> lines_of s' (je_id k) = lines_of s (je_id k)"
      by (intro conjI bexI [of _ k]) (auto simp: js lines_of_cong [OF s'(1)])
  qed
  ultimately show "evolves s s'"
    using s'(2) fresh(3) by (auto simp: evolves_def keeps_closed_def)
qed

text \<open>A move of a period.\<close>

lemma gl_inv_moves_period:
  assumes inv: "gl_inv s" and m: "moves_period pid s s'"
  shows "gl_inv s' \<and> evolves s s'"
proof
  have ids: "ids_ok s" and lines: "lines_ok s" and posted: "\<forall>j \<in> set (journals s). posted_ok s j"
    and led: "ledger_ok s" using inv by (simp_all add: gl_inv_def)
  from m obtain f p where p: "get_row fp_id pid (periods s) = Some p"
    and ps: "periods s' = set_row fp_id pid f (periods s)"
    and f: "\<And>q. fp_id (f q) = fp_id q" "\<And>q. fp_org (f q) = fp_org q"
      "\<And>q. fp_start_date (f q) = fp_start_date q" "\<And>q. fp_end_date (f q) = fp_end_date q"
    and st: "period_step (fp_status p) (fp_status (f p))"
    and same: "journals s' = journals s" "jlines s' = jlines s" "ledger s' = ledger s" "batches s' = batches s"
      "next_uuid s \<le> next_uuid s'"
    unfolding moves_period_def by auto
  have pm: "p \<in> set (periods s)" "fp_id p = pid" using get_row_SomeD [OF p] by simp_all
  have ps': "periods s' = map (\<lambda>q. if fp_id q = pid then f q else q) (periods s)"
    using ps by (simp add: set_row_def)
  have keys: "map fp_id (periods s') = map fp_id (periods s)" by (simp add: ps' f)
  have "batches_ok s'" using batches_ok_same [of s s'] ids same by (simp add: ids_ok_def)
  then have "ids_ok s'" unfolding ids_ok_def keys same(1) using ids same(5)
    by (fastforce simp: ids_ok_def ps' f)
  moreover have "lines_ok s'" using lines by (simp add: lines_ok_def same lines_of_cong [OF same(2)])
  moreover have "\<forall>j \<in> set (journals s'). posted_ok s' j"
    using posted posted_ok_cong [OF _ refl refl refl lines_of_cong [OF same(2)] ledger_of_cong [OF same(3)]]
    by (auto simp: same(1))
  moreover have "ledger_ok s'"
    unfolding ledger_ok_def same
  proof (intro conjI ballI)
    fix l assume "l \<in> set (ledger s)"
    then obtain q where q: "q \<in> set (periods s)" "fp_id q = ll_period l" "named_for (ll_org l) (ll_posting_date l) q"
      using led by (auto simp: ledger_ok_def)
    show "\<exists>p \<in> set (periods s'). fp_id p = ll_period l \<and> named_for (ll_org l) (ll_posting_date l) p"
      by (rule bexI [of _ "if fp_id q = pid then f q else q"])
        (use q named_for_cong [of "f q" q] in \<open>simp_all add: ps' f\<close>)
  qed (use led in \<open>simp_all add: ledger_ok_def\<close>)
  ultimately show "gl_inv s'" by (simp add: gl_inv_def)
  have "keeps_closed s s'"
    unfolding keeps_closed_def
  proof (intro ballI impI)
    fix q assume q: "q \<in> set (periods s)" "fp_status q = P_HARD_CLOSED"
    then have "fp_id q \<noteq> pid" using ids_ok_period_unique [OF ids q(1) pm(1)] pm(2) st by auto
    then show "q \<in> set (periods s')" unfolding ps' set_map
      by (intro image_eqI [of _ _ q] q(1)) simp
  qed
  then show "evolves s s'"
    using same lines_of_cong [OF same(2)]
    by (auto simp: evolves_def appends_def traces_def keeps_posted_def)
qed

end
