(* ===== verification/Gl_Safety.thy ===== *)
theory Gl_Safety
  imports Gl_Invariant
begin

text \<open>
  The contract every operation of the ledger meets, as the locale \<open>gl_operation\<close>: it keeps
  \<open>gl_inv\<close> and takes nothing back (\<open>evolves\<close>), whether it returns or raises, except when the
  database has refused a flush (then the request is rolled back). The operations of the period
  guard, the journal service, the reversal service and the posting adapter each interpret it.
\<close>

locale gl_operation =
  fixes exec :: "gldb \<Rightarrow> (gl_error, 'a, gldb) tx"
  assumes contract: "gl_inv s \<Longrightarrow> exec s = (r, s') \<Longrightarrow> (\<And>k. r \<noteq> Inl (IntegrityError k)) \<Longrightarrow>
    gl_inv s' \<and> evolves s s'"
begin

text \<open>A request that runs the operation commits it whole or leaves the books as they were.\<close>

lemma request_contract:
  assumes "gl_inv s" and "request exec s = (r, s')"
  shows "gl_inv s' \<and> evolves s s'"
proof (rule request_cases [of exec s])
  fix v t assume "exec s = (Inr v, t)" and "request exec s = (Inr v, t)"
  then show ?thesis using contract [OF assms(1), of "Inr v" t] assms(2) by simp
qed (use assms in auto)

lemma returns: "gl_inv s \<Longrightarrow> exec s = (Inr v, s') \<Longrightarrow> gl_inv s' \<and> evolves s s'"
  by (erule (1) contract) simp

end

section \<open>Composition\<close>

lemma gl_operationI:
  assumes "\<And>s v s'. gl_inv s \<Longrightarrow> f s = (Inr v, s') \<Longrightarrow> gl_inv s' \<and> evolves s s'"
    and "\<And>s c d s'. gl_inv s \<Longrightarrow> f s = (Inl (HTTPException c d), s') \<Longrightarrow> gl_inv s' \<and> evolves s s'"
  shows "gl_operation f"
proof
  fix s r s' assume "gl_inv s" "f s = (r, s')" "\<And>k. r \<noteq> Inl (IntegrityError k)"
  then show "gl_inv s' \<and> evolves s s'"
  proof (cases r)
    case (Inl e)
    then show ?thesis using assms(2) \<open>gl_inv s\<close> \<open>f s = (r, s')\<close> \<open>\<And>k. r \<noteq> Inl (IntegrityError k)\<close>
      by (cases e) blast+
  qed (use assms(1) in blast)
qed

lemma gl_operation_return: "gl_operation (return v)"
  by (rule gl_operationI) (auto simp: return_def)

lemma gl_operation_raise: "gl_operation (raise e)"
  by (rule gl_operationI) (auto simp: raise_def)

lemma gl_operation_bind:
  assumes f: "gl_operation f" and k: "\<And>v. gl_operation (k v)"
  shows "gl_operation (\<lambda>s. bind_tx (f s) k)"
proof
  fix s r s' assume inv: "gl_inv s" and b: "bind_tx (f s) k = (r, s')"
    and r: "\<And>n. r \<noteq> Inl (IntegrityError n)"
  obtain r1 t where fs: "f s = (r1, t)" by fastforce
  show "gl_inv s' \<and> evolves s s'"
  proof (cases r1)
    case (Inl e)
    then show ?thesis using gl_operation.contract [OF f inv fs] b r fs by auto
  next
    case (Inr v)
    have t: "gl_inv t \<and> evolves s t" by (rule gl_operation.contract [OF f inv fs]) (simp add: Inr)
    have "k v t = (r, s')" using b by (simp add: fs Inr)
    then have "gl_inv s' \<and> evolves t s'" using gl_operation.contract [OF k, of t v r s'] t r by simp
    then show ?thesis using t evolves_trans by blast
  qed
qed

text \<open>An exception handler of an operation: it sees the session as the failed call left it.\<close>

lemma gl_operation_catch:
  assumes f: "gl_operation f" and k: "\<And>v. gl_operation (k v)" and h: "\<And>c d. gl_operation (h c d)"
  shows "gl_operation (\<lambda>s. case f s of (Inr v, s') \<Rightarrow> k v s' | (Inl (HTTPException c d), s') \<Rightarrow> h c d s'
     | (Inl (IntegrityError n), s') \<Rightarrow> raise (IntegrityError n) s')"
proof
  fix s r s' assume inv: "gl_inv s" and r: "\<And>n. r \<noteq> Inl (IntegrityError n)"
    and b: "(case f s of (Inr v, s') \<Rightarrow> k v s' | (Inl (HTTPException c d), s') \<Rightarrow> h c d s'
       | (Inl (IntegrityError n), s') \<Rightarrow> raise (IntegrityError n) s') = (r, s')"
  obtain r1 t where fs: "f s = (r1, t)" by fastforce
  have "(\<exists>v. r1 = Inr v \<and> k v t = (r, s')) \<or> (\<exists>c d. r1 = Inl (HTTPException c d) \<and> h c d t = (r, s'))"
    using b r by (auto simp: fs raise_def split: sum.splits gl_error.splits)
  then show "gl_inv s' \<and> evolves s s'"
  proof (elim disjE exE conjE)
    fix v assume v: "r1 = Inr v" "k v t = (r, s')"
    have t: "gl_inv t \<and> evolves s t" by (rule gl_operation.contract [OF f inv fs]) (simp add: v)
    then have "gl_inv s' \<and> evolves t s'" using gl_operation.contract [OF k _ v(2) r] by simp
    then show ?thesis using t evolves_trans by blast
  next
    fix c d assume v: "r1 = Inl (HTTPException c d)" "h c d t = (r, s')"
    have t: "gl_inv t \<and> evolves s t" by (rule gl_operation.contract [OF f inv fs]) (simp add: v)
    then have "gl_inv s' \<and> evolves t s'" using gl_operation.contract [OF h _ v(2) r] by simp
    then show ?thesis using t evolves_trans by blast
  qed
qed

text \<open>Changes outside the books: the audit log, the hooks, the queues.\<close>

lemma gl_inv_outside:
  assumes "gl_inv s" and "journals s' = journals s" "jlines s' = jlines s" "ledger s' = ledger s"
    "periods s' = periods s" "batches s' = batches s" "accounts s' = accounts s" "next_uuid s' = next_uuid s"
  shows "gl_inv s' \<and> evolves s s'"
proof (rule gl_inv_books_kept [OF assms(1)])
  show "books_kept s s'" using assms by (intro books_keptI) simp_all
  show "batches_ok s'" using assms batches_ok_same [of s s'] by (simp add: gl_inv_def ids_ok_def)
qed

lemma gl_operation_audit: "gl_operation (\<lambda>s. return v (audit org jid a old new u s))"
proof (rule gl_operationI)
  fix s v' s' assume "gl_inv s" "return v (audit org jid a old new u s) = (Inr v', s')"
  then show "gl_inv s' \<and> evolves s s'" by (intro gl_inv_outside) auto
qed (simp add: return_def)

section \<open>The period guard\<close>

lemma gl_operation_period:
  assumes "\<And>s v s'. f s = (Inr v, s') \<Longrightarrow> moves_period pid s s'" and "\<And>s e s'. f s = (Inl e, s') \<Longrightarrow> s' = s"
  shows "gl_operation f"
  by (rule gl_operationI) (use assms gl_inv_moves_period in blast)+

interpretation period_opening: gl_operation "open_period org pid u" for org pid u
  by (rule gl_operation_period) (fact open_period_step period_op_refused)+

interpretation soft_closing: gl_operation "soft_close_period org pid u now" for org pid u now
  by (rule gl_operation_period) (fact soft_close_period_step period_op_refused)+

interpretation hard_closing: gl_operation "hard_close_period org pid u now" for org pid u now
  by (rule gl_operation_period) (fact hard_close_period_step period_op_refused)+

interpretation reopening: gl_operation "reopen_period org pid u" for org pid u
  by (rule gl_operation_period) (fact reopen_period_step period_op_refused)+

interpretation session_closing: gl_operation "close_reopen_session org pid sess u now" for org pid sess u now
  by (rule gl_operation_period) (fact close_reopen_session_step period_op_refused)+

lemma require_open_period_contract:
  assumes inv: "gl_inv s" and g: "require_open_period org d adj sess s = (r, s')"
  shows "gl_inv s' \<and> evolves s s'"
proof (rule gl_inv_books_kept [OF inv require_open_period_kept [OF g]])
  show "batches_ok s'"
    using batches_ok_same [of s s'] gate_keeps_batches [OF g] inv
      books_keptD(5) [OF require_open_period_kept [OF g]] by (simp add: gl_inv_def ids_ok_def)
qed

interpretation gating: gl_operation "require_open_period org d adj sess" for org d adj sess
  by unfold_locales (rule require_open_period_contract)

section \<open>Posting\<close>

lemma post_seeing_contract:
  assumes inv: "gl_inv s" and p: "post_seeing fl req now s = (r, s')" and e: "rq_entries req = []"
    and r: "\<And>k. r \<noteq> Inl (IntegrityError k)"
  shows "gl_inv s' \<and> evolves s s'"
proof -
  have "batches_ok s" using inv by (simp add: gl_inv_def ids_ok_def)
  from post_seeing_ok [OF p this] have bat: "batches_ok s'" .
  from p show ?thesis
  proof (cases rule: post_seeing_cases)
    case (refused e)
    then show ?thesis using gl_inv_books_kept [OF inv _ bat] r by auto
  next
    case (replayed b)
    then show ?thesis using inv by simp
  next
    case (posted res j pid bid)
    then obtain q where "q \<in> set (periods s')" "fp_id q = pid"
        "named_for (rq_organization_id req) (rq_posting_date req) q" "fp_status q \<noteq> P_HARD_CLOSED"
      by (auto simp: open_for_def)
    with gl_inv_posts [OF inv posted(2) e bat] show ?thesis by blast
  qed
qed

lemma gl_operation_post:
  assumes "rq_entries req = []"
  shows "gl_operation (post_journal_entry req now)"
  by unfold_locales (rule post_seeing_contract [OF _ post_journal_entry_seeing assms])

interpretation posting: gl_operation "post_journal_entry (req\<lparr>rq_entries := []\<rparr>) now" for req now
  by (rule gl_operation_post) simp

section \<open>The journal service\<close>

text \<open>An operation that raises only before it has changed anything.\<close>

lemma gl_operation_atomic:
  assumes "\<And>s v s'. gl_inv s \<Longrightarrow> f s = (Inr v, s') \<Longrightarrow> gl_inv s' \<and> evolves s s'"
    and "\<And>s e s'. f s = (Inl e, s') \<Longrightarrow> s' = s"
  shows "gl_operation f"
  by (rule gl_operationI) (use assms in blast)+

lemma new_lines_nonempty [simp]: "new_lines i jid u n ls = [] \<longleftrightarrow> ls = []"
  by (cases ls) simp_all

lemma in_new_lines: "l \<in> set (new_lines i jid u n ls) \<Longrightarrow> jl_journal l = jid"
  by (induction ls arbitrary: u n) (auto simp: new_line_def)

lemma insert_journal_frame [simp]:
  "journals (insert_journal j ls n s) = journals s @ [j]" "jlines (insert_journal j ls n s) = jlines s @ ls"
  "ledger (insert_journal j ls n s) = ledger s" "periods (insert_journal j ls n s) = periods s"
  "batches (insert_journal j ls n s) = batches s" "accounts (insert_journal j ls n s) = accounts s"
  "next_uuid (insert_journal j ls n s) = n" "outbox (insert_journal j ls n s) = outbox s"
  by (simp_all add: insert_journal_def add_row_def)

interpretation creating: gl_operation "create_journal org i user number" for org i user number
proof (rule gl_operation_atomic)
  fix s v s' assume inv: "gl_inv s" and "create_journal org i user number s = (Inr v, s')"
  from this(2) show "gl_inv s' \<and> evolves s s'"
  proof (rule create_journal_InrE)
    fix p td assume "ji_lines i \<noteq> []" and "s' = audit org (next_uuid s) INSERT None None (Some user)
      (insert_journal (new_journal (next_uuid s) org number (fp_id p) i td td user)
         (new_lines i (next_uuid s) (next_uuid s + 1) 0 (ji_lines i)) (next_uuid s + 1 + length (ji_lines i)) s)"
    then show ?thesis
      by (intro gl_inv_insert [OF inv]) (auto simp: new_journal_def in_ledger_def dest: in_new_lines)
  qed
qed (rule journal_ops_refused)

text \<open>A change of the status of one journal in the organisation's scope.\<close>

lemma status_edit_contract:
  assumes inv: "gl_inv s" and j: "scoped_journal org jid s = Some j"
    and s': "s' = audit org jid a old new u (set_journal jid f s)"
    and f: "\<And>j. je_id (f j) = je_id j" "\<And>j. je_org (f j) = je_org j"
      "\<And>j. je_posting_batch_id (f j) = je_posting_batch_id j"
    and st: "\<not> in_ledger j" "\<not> in_ledger (f j)" "journal_step (je_status j) (je_status (f j))"
  shows "gl_inv s' \<and> evolves s s'"
proof -
  have "j \<in> set (journals s)" "je_id j = jid" using scoped_journal_SomeD [OF j] by simp_all
  then show ?thesis by (rule gl_inv_set_journal [OF inv, where f = f]) (simp_all add: s' f st r_into_rtranclp)
qed

interpretation submitting: gl_operation "submit_journal org jid user now" for org jid user now
proof (rule gl_operation_atomic)
  fix s v s' assume inv: "gl_inv s" and "submit_journal org jid user now s = (Inr v, s')"
  then obtain j where j: "scoped_journal org jid s = Some j" "je_status j = J_DRAFT"
    and s': "s' = audit org jid UPDATE (Some J_DRAFT) (Some J_SUBMITTED) (Some user)
        (set_journal jid (\<lambda>j. j\<lparr>je_status := J_SUBMITTED, je_submitted_by := Some user,
           je_submitted_at := Some now\<rparr>) s)"
    by (auto simp: submit_journal_def split: option.splits if_splits)
  show "gl_inv s' \<and> evolves s s'"
    by (rule status_edit_contract [OF inv j(1) s']) (simp_all add: in_ledger_def j journal_step.submitted)
qed (rule journal_ops_refused)

interpretation approving: gl_operation "approve_journal org jid user now" for org jid user now
proof (rule gl_operation_atomic)
  fix s v s' assume inv: "gl_inv s" and "approve_journal org jid user now s = (Inr v, s')"
  then obtain j where j: "scoped_journal org jid s = Some j" "je_status j = J_SUBMITTED"
    and s': "s' = audit org jid UPDATE (Some J_SUBMITTED) (Some J_APPROVED) (Some user)
        (set_journal jid (\<lambda>j. j\<lparr>je_status := J_APPROVED, je_approved_by := Some user,
           je_approved_at := Some now\<rparr>) s)"
    by (auto simp: approve_journal_def split: option.splits if_splits)
  show "gl_inv s' \<and> evolves s s'"
    by (rule status_edit_contract [OF inv j(1) s']) (simp_all add: in_ledger_def j journal_step.approved)
qed (rule journal_ops_refused)

interpretation voiding: gl_operation "void_journal org jid user" for org jid user
proof (rule gl_operation_atomic)
  fix s v s' assume inv: "gl_inv s" and "void_journal org jid user s = (Inr v, s')"
  then obtain j where j: "scoped_journal org jid s = Some j" "je_status j \<notin> {J_POSTED, J_REVERSED}"
    and s': "s' = audit org jid UPDATE (Some (je_status j)) (Some J_VOID) (Some user)
        (set_journal jid (\<lambda>j. j\<lparr>je_status := J_VOID\<rparr>) s)"
    by (auto simp: void_journal_def split: option.splits if_splits)
  show "gl_inv s' \<and> evolves s s'"
    by (rule status_edit_contract [OF inv j(1) s']) (use j(2) in \<open>simp_all add: in_ledger_def journal_step.voided\<close>)
qed (rule journal_ops_refused)

interpretation deleting: gl_operation "delete_journal org jid" for org jid
proof (rule gl_operation_atomic)
  fix s v s' assume inv: "gl_inv s" and "delete_journal org jid s = (Inr v, s')"
  then obtain j where j: "scoped_journal org jid s = Some j" "je_status j = J_DRAFT"
    and s': "s' = s\<lparr>journals := del_row je_id jid (journals s),
        jlines := filter (\<lambda>l. jl_journal l \<noteq> jid) (jlines s)\<rparr>"
    by (auto simp: delete_journal_def split: option.splits if_splits)
  have jm: "j \<in> set (journals s)" "je_id j = jid" using scoped_journal_SomeD [OF j(1)] by simp_all
  show "gl_inv s' \<and> evolves s s'"
    by (rule gl_inv_delete [OF inv jm]) (simp_all add: s' in_ledger_def j)
qed (rule journal_ops_refused)

interpretation updating: gl_operation "update_journal org jid i user" for org jid i user
proof (rule gl_operation_atomic)
  fix s v s' assume inv: "gl_inv s" and "update_journal org jid i user s = (Inr v, s')"
  from this(2) show "gl_inv s' \<and> evolves s s'"
  proof (rule update_journal_InrE)
    fix j p td assume j: "scoped_journal org jid s = Some j" "je_status j = J_DRAFT" and ls: "ji_lines i \<noteq> []"
      and s': "s' = (set_journal jid (updated_journal i (fp_id p) td td) s)\<lparr>
        jlines := filter (\<lambda>l. jl_journal l \<noteq> jid) (jlines s) @ new_lines i jid (next_uuid s) 0 (ji_lines i),
        next_uuid := next_uuid s + length (ji_lines i)\<rparr>"
    let ?f = "updated_journal i (fp_id p) td td" and ?t = "set_journal jid (updated_journal i (fp_id p) td td) s"
    have f: "je_id (?f k) = je_id k" "je_org (?f k) = je_org k" "je_status (?f k) = je_status k"
      "je_posting_batch_id (?f k) = je_posting_batch_id k" for k by (simp_all add: updated_journal_def)
    have jm: "j \<in> set (journals s)" "je_id j = jid" using scoped_journal_SomeD [OF j(1)] by simp_all
    have t: "gl_inv ?t \<and> evolves s ?t"
      by (rule gl_inv_set_journal [OF inv jm, where f = ?f]) (simp_all add: f in_ledger_def)
    have fj: "?f j \<in> set (journals ?t)" using jm by (auto simp: set_set_row)
    have "gl_inv s' \<and> evolves ?t s'"
      by (rule gl_inv_replace_lines [OF conjunct1 [OF t] fj, where jid = jid])
        (use jm j(2) ls in \<open>auto simp: s' f in_ledger_def dest: in_new_lines\<close>)
    then show ?thesis using t evolves_trans by blast
  qed
qed (rule journal_ops_refused)

section \<open>Posting through the journal service\<close>

text \<open>A choice made on what the operation reads first.\<close>

lemma gl_operation_option:
  assumes "gl_operation f" and "\<And>x. gl_operation (g x)"
  shows "gl_operation (\<lambda>s. case h s of None \<Rightarrow> f s | Some x \<Rightarrow> g x s)"
proof
  fix s r s' assume "gl_inv s" and "(case h s of None \<Rightarrow> f s | Some x \<Rightarrow> g x s) = (r, s')"
    and "\<And>k. r \<noteq> Inl (IntegrityError k)"
  then show "gl_inv s' \<and> evolves s s'"
  proof (cases "h s")
    case None
    with \<open>(case h s of None \<Rightarrow> f s | Some x \<Rightarrow> g x s) = (r, s')\<close> have "f s = (r, s')" by simp
    then show ?thesis by (rule gl_operation.contract [OF assms(1) \<open>gl_inv s\<close>]) fact
  next
    case (Some x)
    with \<open>(case h s of None \<Rightarrow> f s | Some x \<Rightarrow> g x s) = (r, s')\<close> have "g x s = (r, s')" by simp
    then show ?thesis by (rule gl_operation.contract [OF assms(2) \<open>gl_inv s\<close>]) fact
  qed
qed

lemma gl_operation_if: "gl_operation f \<Longrightarrow> gl_operation g \<Longrightarrow> gl_operation (\<lambda>s. if b then f s else g s)"
  by (cases b) simp_all

lemmas gl_operation_intros = gl_operation_option gl_operation_if gl_operation_bind gl_operation_catch
  gl_operation_return gl_operation_raise gl_operation_audit gl_operation_post

interpretation journal_posting: gl_operation "post_journal org jid user key adj sess now" for org jid user key adj sess now
  unfolding post_journal_def
  by (intro gl_operation_intros) (simp add: journal_request_def)

interpretation entry_posting: gl_operation "post_entry org jid user now" for org jid user now
  unfolding post_entry_def
  by (intro gl_operation_intros) (rule journal_posting.gl_operation_axioms)

lemma post_seeing_success: "post_seeing fl req now s = (Inr r, s') \<Longrightarrow> res_success r"
  by (erule post_seeing_cases) (simp_all add: replay_result_def)

section \<open>Reversal\<close>

lemma reversal_lines_nonempty [simp]: "reversal_lines jid u ls = [] \<longleftrightarrow> ls = []"
  by (cases ls) simp_all

lemma in_reversal_lines: "l \<in> set (reversal_lines jid u ls) \<Longrightarrow> jl_journal l = jid"
  by (induction ls arbitrary: u) (auto simp: reversal_line_def)

text \<open>The reversal's rows and the link from the original, whatever the original's books.\<close>

lemma insert_reversal_contract:
  assumes inv: "gl_inv s" and o: "original \<in> set (journals s)"
    and rvl: "rvl = reversal_of (next_uuid s) number pid d user reason auto_post now original"
  shows "gl_inv (insert_reversal original rvl s) \<and> evolves s (insert_reversal original rvl s)"
proof -
  let ?ls = "reversal_lines (je_id rvl) (je_id rvl + 1) (lines_of s (je_id original))"
  let ?t = "insert_journal rvl ?ls (je_id rvl + 1 + length ?ls) s"
  let ?f = "\<lambda>j. j\<lparr>je_reversal_journal_id := Some (je_id rvl)\<rparr>"
  have "lines_of s (je_id original) \<noteq> []" using inv o by (simp add: gl_inv_def lines_ok_def)
  moreover have "je_id rvl = next_uuid s" "je_status rvl \<in> {J_APPROVED, J_DRAFT}" "je_posting_batch_id rvl = None"
    by (simp_all add: rvl reversal_of_def)
  ultimately have t: "gl_inv ?t \<and> evolves s ?t"
    by (intro gl_inv_insert [OF inv, where j = rvl and ls = ?ls]) (auto simp: in_ledger_def dest: in_reversal_lines)
  have e: "insert_reversal original rvl s = set_journal (je_id original) ?f ?t"
    by (simp add: insert_reversal_def Let_def)
  have ot: "original \<in> set (journals ?t)" using o by simp
  have "gl_inv (set_journal (je_id original) ?f ?t) \<and> evolves ?t (set_journal (je_id original) ?f ?t)"
    by (rule gl_inv_set_journal [OF conjunct1 [OF t] ot refl, where f = ?f]) (simp_all add: in_ledger_def)
  then show ?thesis unfolding e using t evolves_trans by blast
qed

lemma insert_reversal_original:
  assumes "original \<in> set (journals s)"
  shows "original\<lparr>je_reversal_journal_id := Some (je_id rvl)\<rparr> \<in> set (journals (insert_reversal original rvl s))"
  using assms by (auto simp: insert_reversal_def Let_def set_set_row)

lemma post_reversal_contract:
  assumes inv: "gl_inv s" and before: "gl_inv b" "evolves b s"
    and o: "original' \<in> set (journals s)" "je_id original' = je_id original" "je_status original' = J_POSTED"
    and p: "post_reversal org original rvl d user key adj sess now b s = (r, s')"
    and r: "\<And>k. r \<noteq> Inl (IntegrityError k)"
  shows "gl_inv s' \<and> evolves b s'"
proof -
  let ?f = "\<lambda>j. j\<lparr>je_status := J_REVERSED\<rparr>"
  let ?t = "set_journal (je_id original) ?f s"
  let ?req = "reversal_request org original (je_id rvl) d user key adj sess"
  have t: "gl_inv ?t \<and> evolves s ?t"
    by (rule gl_inv_set_journal [OF inv o(1,2), where f = ?f])
      (simp_all add: in_ledger_def o(3) r_into_rtranclp journal_step.reversed)
  obtain r1 u where pj: "post_seeing s ?req now ?t = (r1, u)" by fastforce
  have u: "gl_inv u \<and> evolves ?t u" if "\<And>k. r1 \<noteq> Inl (IntegrityError k)"
    by (rule post_seeing_contract [OF conjunct1 [OF t] pj _ that]) (simp add: reversal_request_def)
  have "s' = u"
  proof (cases r1)
    case (Inr res)
    then show ?thesis using p pj post_seeing_success [of s ?req now ?t res u]
      by (simp add: post_reversal_def)
  qed (use p pj in \<open>simp add: post_reversal_def\<close>)
  moreover have "r1 \<noteq> Inl (IntegrityError k)" for k
  proof
    assume "r1 = Inl (IntegrityError k)"
    then have "r = Inl (IntegrityError k)" using p pj by (simp add: post_reversal_def)
    with r show False by blast
  qed
  ultimately show ?thesis using u t before evolves_trans by blast
qed

interpretation reversing: gl_operation "create_reversal org jid d user reason auto_post key adj sess number now"
  for org jid d user reason auto_post key adj sess number now
proof
  fix s r s' assume inv: "gl_inv s" and r: "\<And>k. r \<noteq> Inl (IntegrityError k)"
    and c: "create_reversal org jid d user reason auto_post key adj sess number now s = (r, s')"
  show "gl_inv s' \<and> evolves s s'"
  proof (cases "\<exists>j p. scoped_journal org jid s = Some j \<and> je_status j = J_POSTED
      \<and> je_reversal_journal_id j = None \<and> get_period_for_date s org d = Some p")
    case False
    then have "s' = s" using c
      by (auto simp: create_reversal_def raise_def split: option.splits if_splits)
    then show ?thesis using inv by simp
  next
    case True
    then obtain j p where j: "scoped_journal org jid s = Some j" "je_status j = J_POSTED"
        "je_reversal_journal_id j = None" and per: "get_period_for_date s org d = Some p" by blast
    have jm: "j \<in> set (journals s)" using scoped_journal_SomeD [OF j(1)] by simp
    obtain r1 s1 where g: "(if auto_post then require_open_period org d adj sess s else return (fp_id p) s) = (r1, s1)"
      by fastforce
    have s1: "gl_inv s1 \<and> evolves s s1" "journals s1 = journals s"
      using g inv require_open_period_contract [OF inv] books_keptD(1) [OF require_open_period_kept]
      by (auto split: if_splits)
    note c = c [unfolded create_reversal_def j(1) option.case per g Let_def]
    show ?thesis
    proof (cases r1)
      case (Inl e)
      then show ?thesis using c j s1 by simp
    next
      case (Inr pid)
      define rvl where "rvl = reversal_of (next_uuid s1) number pid d user reason auto_post now j"
      let ?s2 = "insert_reversal j rvl s1"
      have s2: "gl_inv ?s2 \<and> evolves s1 ?s2"
        by (rule insert_reversal_contract [OF conjunct1 [OF s1(1)] _ rvl_def]) (simp add: s1 jm)
      have ev: "evolves s ?s2" using s1 s2 evolves_trans by blast
      have oj: "j\<lparr>je_reversal_journal_id := Some (je_id rvl)\<rparr> \<in> set (journals ?s2)"
        by (rule insert_reversal_original) (simp add: s1 jm)
      have nt: "\<not> number_taken s1 org number"
      proof
        assume "number_taken s1 org number"
        then have "r = Inl (IntegrityError ''uq_journal_number'')" using c Inr j by (simp add: raise_def)
        with r show False by blast
      qed
      show ?thesis
      proof (cases auto_post)
        case False
        then show ?thesis using c Inr j nt s2 ev by (simp add: rvl_def)
      next
        case True
        then have "post_reversal org j rvl d user key adj sess now s ?s2 = (r, s')"
          using c Inr j nt by (simp add: rvl_def)
        from post_reversal_contract [OF conjunct1 [OF s2] inv ev oj _ _ this r]
        show ?thesis by (simp add: j(2))
      qed
    qed
  qed
qed

lemma gl_operation_audited:
  "gl_operation (\<lambda>s'. if b \<or> scoped_journal org rid s' = None then raise e s'
     else return v (audit org jid x o1 n1 u1 (audit org rid y o2 n2 u2 s')))"
proof (rule gl_operation_atomic)
  fix s w s' assume "gl_inv s" and "(if b \<or> scoped_journal org rid s = None then raise e s
     else return v (audit org jid x o1 n1 u1 (audit org rid y o2 n2 u2 s))) = (Inr w, s')"
  then show "gl_inv s' \<and> evolves s s'" by (intro gl_inv_outside) (auto split: if_splits)
qed (simp split: if_splits)

interpretation entry_reversing: gl_operation "reverse_entry org jid d user number now" for org jid d user number now
  unfolding reverse_entry_def
  by (intro gl_operation_option gl_operation_if gl_operation_bind gl_operation_raise gl_operation_audited
      reversing.gl_operation_axioms)

section \<open>The posting adapter\<close>

lemma revert_unposted_contract:
  assumes inv: "gl_inv s"
  shows "gl_inv (revert_unposted_journal jid s) \<and> evolves s (revert_unposted_journal jid s)"
proof (cases "\<exists>j. get_row je_id jid (journals s) = Some j \<and> je_status j = J_APPROVED \<and> je_posting_batch_id j = None")
  case True
  then obtain j where j: "get_row je_id jid (journals s) = Some j" "je_status j = J_APPROVED" "je_posting_batch_id j = None"
    by blast
  let ?f = "\<lambda>j. j\<lparr>je_status := J_DRAFT, je_approved_by := None, je_approved_at := None\<rparr>"
  have e: "revert_unposted_journal jid s = set_journal jid ?f s"
    by (simp add: revert_unposted_journal_def j)
  have "j \<in> set (journals s)" "je_id j = jid" using get_row_SomeD [OF j(1)] by simp_all
  then show ?thesis unfolding e
    by (rule gl_inv_set_journal [OF inv, where f = ?f])
      (simp_all add: in_ledger_def j r_into_rtranclp journal_step.reverted)
next
  case False
  then have "revert_unposted_journal jid s = s"
    by (auto simp: revert_unposted_journal_def split: option.split)
  then show ?thesis using inv by simp
qed

lemma gl_operation_reverting: "gl_operation (\<lambda>s. return v (revert_unposted_journal jid s))"
proof (rule gl_operation_atomic)
  fix s w s' assume "gl_inv s" "return v (revert_unposted_journal jid s) = (Inr w, s')"
  then show "gl_inv s' \<and> evolves s s'" using revert_unposted_contract by auto
qed (simp add: return_def)

interpretation adapter_posting: gl_operation "post_to_ledger org jid d key src corr user now"
  for org jid d key src corr user now
  unfolding post_to_ledger_def
  by (intro gl_operation_catch gl_operation_if gl_operation_reverting gl_operation_return gl_operation_post)
    (simp add: adapter_request_def)

text \<open>Approving as the system: the approval is forced when segregation of duties refuses it.\<close>

lemma approve_journal_refusedD:
  assumes "approve_journal org jid user now s = (Inl (HTTPException 403 SegregationOfDuties), s')"
  shows "s' = s" and "\<exists>j. scoped_journal org jid s = Some j \<and> je_status j = J_SUBMITTED"
  using assms by (auto simp: approve_journal_def split: option.splits if_splits)

interpretation system_approving: gl_operation "submit_and_approve_as_system org jid user now" for org jid user now
  unfolding submit_and_approve_as_system_def
proof (intro gl_operation_bind submitting.gl_operation_axioms)
  let ?f = "\<lambda>j. j\<lparr>je_status := J_APPROVED, je_approved_by := Some user, je_approved_at := Some now\<rparr>"
  show "gl_operation (\<lambda>s1. case approve_journal org jid user now s1 of (Inl e, s2) \<Rightarrow>
      if e \<noteq> HTTPException 403 SegregationOfDuties then raise e s2
      else return () (set_journal jid ?f s2) | (Inr _, s2) \<Rightarrow> return () s2)" (is "gl_operation ?op")
  proof (rule gl_operationI)
    fix s v s' assume inv: "gl_inv s" and op: "?op s = (Inr v, s')"
    obtain r t where a: "approve_journal org jid user now s = (r, t)" by fastforce
    show "gl_inv s' \<and> evolves s s'"
    proof (cases r)
      case (Inr u)
      then show ?thesis using op a approving.returns [OF inv] by auto
    next
      case (Inl e)
      with op a have e: "e = HTTPException 403 SegregationOfDuties" and s': "s' = set_journal jid ?f t"
        by (auto split: if_splits)
      note ref = approve_journal_refusedD [OF a [unfolded Inl e]]
      then obtain j where j: "scoped_journal org jid s = Some j" "je_status j = J_SUBMITTED" by blast
      have "j \<in> set (journals s)" "je_id j = jid" using scoped_journal_SomeD [OF j(1)] by simp_all
      then show ?thesis unfolding s' ref(1)
        by (rule gl_inv_set_journal [OF inv, where f = ?f])
          (simp_all add: in_ledger_def j r_into_rtranclp journal_step.approved)
    qed
  next
    fix s c d s' assume inv: "gl_inv s" and op: "?op s = (Inl (HTTPException c d), s')"
    obtain r t where a: "approve_journal org jid user now s = (r, t)" by fastforce
    then have "s' = s" using op journal_ops_refused(5) [of org jid user now s _ t]
      by (cases r) (auto split: if_splits)
    then show "gl_inv s' \<and> evolves s s'" using inv by simp
  qed
qed

interpretation adapter_creating: gl_operation "create_and_approve_journal org i user number now"
  for org i user number now
  unfolding create_and_approve_journal_def
  by (intro gl_operation_catch gl_operation_bind gl_operation_return creating.gl_operation_axioms
      system_approving.gl_operation_axioms)

lemma gl_operation_sum: "(\<And>a. gl_operation (f a)) \<Longrightarrow> (\<And>b. gl_operation (g b)) \<Longrightarrow>
    gl_operation (\<lambda>s. case x of Inl a \<Rightarrow> f a s | Inr b \<Rightarrow> g b s)"
  by (cases x) simp_all

interpretation adapter: gl_operation
  "create_approve_and_post_journal org i user number d key src corr now"
  for org i user number d key src corr now
  unfolding create_approve_and_post_journal_def
  by (intro gl_operation_bind gl_operation_sum gl_operation_return adapter_creating.gl_operation_axioms
      adapter_posting.gl_operation_axioms)

end
