(* ===== verification/Gl_Books.thy ===== *)
theory Gl_Books
  imports Gl_Safety
begin

text \<open>
  The ledger as a system: the commands its callers issue, requests that run a sequence of them
  in one transaction, and the states they reach from books with no journal. The properties at
  the end hold in every reachable state; they follow from the contract of \<open>Gl_Safety\<close>.
\<close>

section \<open>Commands and requests\<close>

datatype gl_cmd =
  CreateJournal uuid journal_input uuid string
| UpdateJournal uuid uuid journal_input uuid
| DeleteJournal uuid uuid
| SubmitJournal uuid uuid uuid timestamp
| ApproveJournal uuid uuid uuid timestamp
| VoidJournal uuid uuid uuid
| PostJournal uuid uuid uuid "string option" bool "uuid option" timestamp
| PostEntry uuid uuid uuid timestamp
| CreateReversal uuid uuid date uuid string bool "string option" bool "uuid option" string timestamp
| ReverseEntry uuid uuid date uuid string timestamp
| PostToLedger uuid uuid date string string "string option" uuid timestamp
| CreateApproveAndPost uuid journal_input uuid string date string string "string option" timestamp
| OpenPeriod uuid uuid uuid
| SoftClosePeriod uuid uuid uuid timestamp
| HardClosePeriod uuid uuid uuid timestamp
| ReopenPeriod uuid uuid uuid
| CloseReopenSession uuid uuid uuid uuid timestamp

definition done_tx :: "('e, 'a, 's) tx \<Rightarrow> ('e, unit, 's) tx" where
  "done_tx m = bind_tx m (\<lambda>_. return ())"

fun exec :: "gl_cmd \<Rightarrow> gldb \<Rightarrow> (gl_error, unit, gldb) tx" where
  "exec (CreateJournal org i user n) s = done_tx (create_journal org i user n s)"
| "exec (UpdateJournal org jid i user) s = done_tx (update_journal org jid i user s)"
| "exec (DeleteJournal org jid) s = done_tx (delete_journal org jid s)"
| "exec (SubmitJournal org jid user now) s = done_tx (submit_journal org jid user now s)"
| "exec (ApproveJournal org jid user now) s = done_tx (approve_journal org jid user now s)"
| "exec (VoidJournal org jid user) s = done_tx (void_journal org jid user s)"
| "exec (PostJournal org jid user k a r now) s = done_tx (post_journal org jid user k a r now s)"
| "exec (PostEntry org jid user now) s = done_tx (post_entry org jid user now s)"
| "exec (CreateReversal org jid d user why p k a r n now) s =
     done_tx (create_reversal org jid d user why p k a r n now s)"
| "exec (ReverseEntry org jid d user n now) s = done_tx (reverse_entry org jid d user n now s)"
| "exec (PostToLedger org jid d k src c user now) s = done_tx (post_to_ledger org jid d k src c user now s)"
| "exec (CreateApproveAndPost org i user n d k src c now) s =
     done_tx (create_approve_and_post_journal org i user n d k src c now s)"
| "exec (OpenPeriod org pid user) s = done_tx (open_period org pid user s)"
| "exec (SoftClosePeriod org pid user now) s = done_tx (soft_close_period org pid user now s)"
| "exec (HardClosePeriod org pid user now) s = done_tx (hard_close_period org pid user now s)"
| "exec (ReopenPeriod org pid user) s = done_tx (reopen_period org pid user s)"
| "exec (CloseReopenSession org pid sess user now) s =
     done_tx (close_reopen_session org pid sess user now s)"

fun exec_all :: "gl_cmd list \<Rightarrow> gldb \<Rightarrow> (gl_error, unit, gldb) tx" where
  "exec_all [] s = return () s"
| "exec_all (c # cs) s = bind_tx (exec c s) (\<lambda>_. exec_all cs)"

lemma gl_operation_done: "gl_operation f \<Longrightarrow> gl_operation (\<lambda>s. done_tx (f s))"
  unfolding done_tx_def by (intro gl_operation_bind gl_operation_return)

lemmas command_contracts = creating.gl_operation_axioms updating.gl_operation_axioms
  deleting.gl_operation_axioms submitting.gl_operation_axioms approving.gl_operation_axioms
  voiding.gl_operation_axioms journal_posting.gl_operation_axioms entry_posting.gl_operation_axioms
  reversing.gl_operation_axioms entry_reversing.gl_operation_axioms adapter_posting.gl_operation_axioms
  adapter.gl_operation_axioms period_opening.gl_operation_axioms soft_closing.gl_operation_axioms
  hard_closing.gl_operation_axioms reopening.gl_operation_axioms session_closing.gl_operation_axioms

interpretation command: gl_operation "exec c" for c
proof -
  have "gl_operation (\<lambda>s. exec c s)"
    by (cases c) (simp_all only: exec.simps gl_operation_done command_contracts)
  then show "gl_operation (exec c)" .
qed

interpretation script: gl_operation "exec_all cs" for cs
proof (induction cs)
  case Nil
  have "exec_all [] = return ()" by (rule ext) simp
  then show ?case by (simp only: gl_operation_return)
next
  case (Cons c cs)
  have "exec_all (c # cs) = (\<lambda>s. bind_tx (exec c s) (\<lambda>_. exec_all cs))" by (rule ext) simp
  then show ?case by (simp only:) (intro gl_operation_bind command.gl_operation_axioms Cons.IH)
qed

section \<open>Reachable books\<close>

text \<open>Books without journals: any accounts, years and periods, and no posting yet.\<close>

definition initial :: "gldb \<Rightarrow> bool" where
  "initial s \<longleftrightarrow> journals s = [] \<and> jlines s = [] \<and> batches s = [] \<and> ledger s = []
     \<and> distinct (map fp_id (periods s)) \<and> (\<forall>p \<in> set (periods s). fp_id p < next_uuid s)"

text \<open>A request runs its commands in one transaction; the chart of accounts and the
  segregation-of-duties flags are maintained elsewhere.\<close>

inductive gl_step :: "gldb \<Rightarrow> gldb \<Rightarrow> bool" where
  request: "request (exec_all cs) s = (r, s') \<Longrightarrow> gl_step s s'"
| masters: "gl_step s (s\<lparr>accounts := as, sod_orgs := os\<rparr>)"

inductive reachable :: "gldb \<Rightarrow> bool" where
  start: "initial s \<Longrightarrow> reachable s"
| step: "reachable s \<Longrightarrow> gl_step s s' \<Longrightarrow> reachable s'"

lemma gl_inv_initial: "initial s \<Longrightarrow> gl_inv s"
  by (auto simp: initial_def gl_inv_def ids_ok_def batches_ok_def lines_ok_def ledger_ok_def
      intro: balanced_ledger.no_lines)

lemma gl_step_contract:
  assumes "gl_inv s" and "gl_step s s'"
  shows "gl_inv s' \<and> evolves s s'"
  using assms(2)
proof cases
  case (request cs r)
  then show ?thesis using script.request_contract assms(1) by blast
next
  case (masters as os)
  have "gl_inv s \<Longrightarrow> batches_ok s'" by (auto simp: masters gl_inv_def ids_ok_def elim: batches_ok_same)
  then show ?thesis
    using gl_inv_headers [where h = "\<lambda>j. j" and s = s and s' = s', OF assms(1) _ _ _ fresh_periods_same] assms(1)
    by (simp add: masters)
qed

lemma gl_inv_reachable: "reachable s \<Longrightarrow> gl_inv s"
  by (induction rule: reachable.induct) (auto simp: gl_inv_initial dest: gl_step_contract)

lemma gl_steps_contract: "gl_step\<^sup>*\<^sup>* s s' \<Longrightarrow> gl_inv s \<Longrightarrow> gl_inv s' \<and> evolves s s'"
  by (induction rule: rtranclp_induct) (auto dest: gl_step_contract intro: evolves_trans)

lemma reachable_steps: "gl_step\<^sup>*\<^sup>* s s' \<Longrightarrow> reachable s \<Longrightarrow> reachable s'"
  by (induction rule: rtranclp_induct) (auto intro: reachable.step)

section \<open>A sample run\<close>

definition sample_start :: gldb where
  "sample_start = (sample_books P_OPEN J_DRAFT)\<lparr>journals := [], jlines := []\<rparr>"

definition sample_input :: journal_input where
  "sample_input = \<lparr>ji_type = STANDARD, ji_entry_date = Date 6 1 15, ji_posting_date = Date 6 1 15,
     ji_description = ''Rent'',
     ji_lines = [\<lparr>li_account = 2, li_debit = 2, li_credit = 0, li_description = None,
         li_debit_functional = Some 2, li_credit_functional = Some 0, li_currency_code = None,
         li_exchange_rate = None, li_dims = no_dims\<rparr>,
       \<lparr>li_account = 3, li_debit = 0, li_credit = 2, li_description = None,
         li_debit_functional = Some 0, li_credit_functional = Some 2, li_currency_code = None,
         li_exchange_rate = None, li_dims = no_dims\<rparr>],
     ji_reference = None, ji_currency_code = ''NGN'', ji_exchange_rate = 1, ji_exchange_rate_type_id = None,
     ji_source_module = None, ji_source_document_type = None, ji_source_document_id = None,
     ji_auto_reverse_date = None, ji_correlation_id = None\<rparr>"

text \<open>Post a journal through the adapter; close the month; reverse the journal instead.\<close>

definition sample_posted :: gldb where
  "sample_posted = snd (request (exec_all [CreateApproveAndPost 1 sample_input 7 ''JE1''
     (Date 6 1 15) ''1:AR:5:post:v1'' ''AR'' None 5]) sample_start)"

definition sample_closed :: gldb where
  "sample_closed = snd (request (exec_all [HardClosePeriod 1 10 7 6]) sample_posted)"

definition sample_reversed :: gldb where
  "sample_reversed = snd (request (exec_all [ReverseEntry 1 30 (Date 6 1 20) 7 ''JE2'' 6]) sample_posted)"

lemma sample_runs:
  "gl_step sample_start sample_posted" "gl_step sample_posted sample_closed" "gl_step sample_posted sample_reversed"
  unfolding sample_posted_def sample_closed_def sample_reversed_def
  by (metis gl_step.request prod.collapse)+

lemma sample_reachable: "reachable sample_start" "reachable sample_posted" "reachable sample_closed" "reachable sample_reversed"
proof -
  have "initial sample_start" by (simp add: initial_def sample_start_def sample_defs)
  then show 1: "reachable sample_start" by (rule reachable.start)
  show 2: "reachable sample_posted" by (rule reachable.step [OF 1 sample_runs(1)])
  show "reachable sample_closed" "reachable sample_reversed"
    by (rule reachable.step [OF 2], rule sample_runs)+
qed

text \<open>The books after each run, read off in one evaluation.\<close>

definition books_summary :: "gldb \<Rightarrow> (uuid \<times> journal_status) list \<times> (uuid \<times> uuid \<times> decimal) list
    \<times> (uuid \<times> period_status) list" where
  "books_summary s = (map (\<lambda>j. (je_id j, je_status j)) (journals s),
     map (\<lambda>l. (ll_journal l, ll_period l, ll_debit l)) (ledger s),
     map (\<lambda>p. (fp_id p, fp_status p)) (periods s))"

lemma sample_posted_summary:
  "books_summary sample_posted = ([(30, J_POSTED)], [(30, 10, 2), (30, 10, 0)], [(10, P_OPEN)])"
  by code_simp

lemma sample_closed_summary:
  "books_summary sample_closed = ([(30, J_POSTED)], [(30, 10, 2), (30, 10, 0)], [(10, P_HARD_CLOSED)])"
  by code_simp

lemma sample_reversed_summary:
  "map (\<lambda>j. (je_id j, je_status j)) (journals sample_reversed) = [(30, J_REVERSED), (38, J_POSTED)]"
  by code_simp

lemma sample_posted_lines:
  "\<exists>l \<in> set (ledger sample_posted). ll_journal l = 30 \<and> ll_period l = 10 \<and> ll_debit l = 2"
  "\<exists>j \<in> set (journals sample_posted). je_id j = 30 \<and> je_status j = J_POSTED"
  using sample_posted_summary by (auto simp: books_summary_def)

lemma sample_closed_period:
  "\<exists>p \<in> set (periods sample_closed). fp_id p = 10 \<and> fp_status p = P_HARD_CLOSED"
  using sample_closed_summary by (auto simp: books_summary_def)

section \<open>Properties of the books\<close>

text \<open>C1: the trial balance is zero. In every reachable state, for every organisation and period,
  the debits of the ledger equal its credits exactly.\<close>

theorem trial_balance_zero:
  assumes "reachable s"
  shows "(\<Sum>l\<leftarrow>filter (\<lambda>l. ll_org l = org \<and> ll_period l = pid) (ledger s). ll_debit l)
    = (\<Sum>l\<leftarrow>filter (\<lambda>l. ll_org l = org \<and> ll_period l = pid) (ledger s). ll_credit l)"
proof -
  have "net (filter (\<lambda>l. ll_org l = org \<and> ll_period l = pid) (ledger s)) = 0"
    using gl_inv_reachable [OF assms]
    by (intro balanced_ledger_selection) (auto simp: gl_inv_def ledger_ok_def selects_postings_def)
  then show ?thesis by (simp add: net_def sum_list_subtractf)
qed

theorem trial_balance_zero_witness:
  "ledger sample_posted \<noteq> []
    \<and> (\<Sum>l\<leftarrow>filter (\<lambda>l. ll_org l = 1 \<and> ll_period l = 10) (ledger sample_posted). ll_debit l)
      = (\<Sum>l\<leftarrow>filter (\<lambda>l. ll_org l = 1 \<and> ll_period l = 10) (ledger sample_posted). ll_credit l)"
  using trial_balance_zero [OF sample_reachable(2)] sample_posted_lines(1) by auto

text \<open>C2: a journal is in the ledger exactly once, or not at all. In every reachable state the
  ledger lines of a journal are, in order, its own lines (account, functional debit and credit
  at the persisted scale) when its status is POSTED or REVERSED, and there are none otherwise.\<close>

theorem journal_in_ledger_exactly:
  assumes "reachable s" and "j \<in> set (journals s)"
  shows "map ledger_view (filter (\<lambda>l. ll_journal l = je_id j) (ledger s)) =
    (if je_status j = J_POSTED \<or> je_status j = J_REVERSED
     then map line_view (lines_of s (je_id j)) else [])"
  using gl_inv_reachable [OF assms(1)] assms(2)
  by (simp add: gl_inv_def posted_ok_def in_ledger_def ledger_of_def)

theorem journal_in_ledger_exactly_witness:
  "\<exists>j \<in> set (journals sample_posted). je_status j = J_POSTED
    \<and> map ledger_view (filter (\<lambda>l. ll_journal l = je_id j) (ledger sample_posted)) =
      (if je_status j = J_POSTED \<or> je_status j = J_REVERSED
       then map line_view (lines_of sample_posted (je_id j)) else [])"
  using journal_in_ledger_exactly [OF sample_reachable(2)] sample_posted_lines(2) by blast

text \<open>C10: the ledger is append-only and a refused request changes nothing. From a reachable
  state, a request that raises leaves the session as it was; one that returns has only
  appended lines to the ledger.\<close>

theorem ledger_append_only:
  assumes "reachable s" and "request (exec_all cs) s = (r, s')"
  shows "case r of Inl e \<Rightarrow> s' = s | Inr _ \<Rightarrow> \<exists>new. ledger s' = ledger s @ new"
proof (rule request_cases [of "exec_all cs" s])
  fix v t assume t: "exec_all cs s = (Inr v, t)" "request (exec_all cs) s = (Inr v, t)"
  have "evolves s t" using script.returns [OF gl_inv_reachable [OF assms(1)] t(1)] by simp
  then show ?thesis using assms(2) t(2) by (auto simp: evolves_def appends_def)
qed (use assms(2) in auto)

theorem ledger_append_only_witness:
  "case fst (request (exec_all [HardClosePeriod 1 10 7 6]) sample_posted) of
     Inl e \<Rightarrow> snd (request (exec_all [HardClosePeriod 1 10 7 6]) sample_posted) = sample_posted
   | Inr _ \<Rightarrow> \<exists>new. ledger (snd (request (exec_all [HardClosePeriod 1 10 7 6]) sample_posted)) =
        ledger sample_posted @ new"
  by (rule ledger_append_only [OF sample_reachable(2)]) simp

text \<open>C4: a hard-closed period is final. Whatever requests follow, its row does not change and
  the ledger gains no line in it.\<close>

theorem hard_closed_is_final:
  assumes "reachable s" and "gl_step\<^sup>*\<^sup>* s s'" and "p \<in> set (periods s)" and "fp_status p = P_HARD_CLOSED"
  shows "p \<in> set (periods s')
    \<and> filter (\<lambda>l. ll_period l = fp_id p) (ledger s') = filter (\<lambda>l. ll_period l = fp_id p) (ledger s)"
proof -
  have "evolves s s'" using gl_steps_contract [OF assms(2)] gl_inv_reachable [OF assms(1)] by simp
  then obtain new where "ledger s' = ledger s @ new" "keeps_closed s s'"
    and "\<forall>l \<in> set new. \<forall>p \<in> set (periods s). fp_id p = ll_period l \<longrightarrow> fp_status p \<noteq> P_HARD_CLOSED"
    by (auto simp: evolves_def appends_def)
  moreover from this(3) assms(3,4) have "filter (\<lambda>l. ll_period l = fp_id p) new = []"
    by (auto simp: filter_empty_conv)
  ultimately show ?thesis using assms(3,4) by (simp add: keeps_closed_def)
qed

theorem hard_closed_is_final_witness:
  "\<exists>p \<in> set (periods sample_closed). fp_status p = P_HARD_CLOSED \<and> p \<in> set (periods sample_closed)
    \<and> filter (\<lambda>l. ll_period l = fp_id p) (ledger sample_closed) =
      filter (\<lambda>l. ll_period l = fp_id p) (ledger sample_closed)"
  using hard_closed_is_final [OF sample_reachable(3) rtranclp.rtrancl_refl] sample_closed_period by blast

text \<open>C3: a posted journal is final. Whatever requests follow, the journal is still there, POSTED
  or REVERSED, under the same posting batch, with the same lines and the same ledger lines.\<close>

theorem posted_journal_is_final:
  assumes "reachable s" and "gl_step\<^sup>*\<^sup>* s s'" and "j \<in> set (journals s)"
    and "je_status j \<in> {J_POSTED, J_REVERSED}"
  shows "\<exists>j' \<in> set (journals s'). je_id j' = je_id j \<and> je_status j' \<in> {J_POSTED, J_REVERSED}
    \<and> je_posting_batch_id j' = je_posting_batch_id j
    \<and> lines_of s' (je_id j) = lines_of s (je_id j)
    \<and> map ledger_view (ledger_of s' (je_id j)) = map ledger_view (ledger_of s (je_id j))"
proof -
  have inv: "gl_inv s" "gl_inv s'" "evolves s s'"
    using gl_steps_contract [OF assms(2)] gl_inv_reachable [OF assms(1)] by simp_all
  have j: "in_ledger j" using assms(4) by (simp add: in_ledger_def)
  with inv(3) assms(3) obtain j' where j': "j' \<in> set (journals s')" "je_id j' = je_id j" "in_ledger j'"
      "je_posting_batch_id j' = je_posting_batch_id j" and l: "lines_of s' (je_id j) = lines_of s (je_id j)"
    unfolding evolves_def keeps_posted_def by blast
  have "posted_ok s j" "posted_ok s' j'" using inv assms(3) j'(1) by (simp_all add: gl_inv_def)
  then have "map ledger_view (ledger_of s' (je_id j)) = map ledger_view (ledger_of s (je_id j))"
    using j j'(2,3) l by (simp add: posted_ok_def)
  with j' l show ?thesis by (intro bexI [of _ j']) (auto simp: in_ledger_def)
qed

theorem posted_journal_is_final_witness:
  "\<exists>j \<in> set (journals sample_posted). je_status j = J_POSTED
    \<and> (\<exists>j' \<in> set (journals sample_reversed). je_id j' = je_id j \<and> je_status j' \<in> {J_POSTED, J_REVERSED}
      \<and> je_posting_batch_id j' = je_posting_batch_id j
      \<and> lines_of sample_reversed (je_id j) = lines_of sample_posted (je_id j)
      \<and> map ledger_view (ledger_of sample_reversed (je_id j)) = map ledger_view (ledger_of sample_posted (je_id j)))"
proof -
  obtain j where j: "j \<in> set (journals sample_posted)" "je_status j = J_POSTED"
    using sample_posted_lines(2) by blast
  show ?thesis
    using posted_journal_is_final [OF sample_reachable(2) r_into_rtranclp [where r = gl_step, OF sample_runs(3)] j(1)] j by auto
qed

text \<open>C9: a journal's status moves along the lifecycle graph. Between two states of a run, the
  status of a journal changes by steps of DRAFT to SUBMITTED to APPROVED to POSTED to REVERSED,
  from a status outside the ledger to VOID, and from APPROVED back to DRAFT; so VOID and
  REVERSED are terminal.\<close>

theorem journal_lifecycle:
  assumes "reachable s" and "gl_step\<^sup>*\<^sup>* s s'" and "j \<in> set (journals s)" and "j' \<in> set (journals s')"
    and "je_id j' = je_id j"
  shows "journal_step\<^sup>*\<^sup>* (je_status j) (je_status j') \<and> je_org j' = je_org j
    \<and> (je_status j \<in> {J_VOID, J_REVERSED} \<longrightarrow> je_status j' = je_status j)"
proof -
  have inv: "gl_inv s" "evolves s s'"
    using gl_steps_contract [OF assms(2)] gl_inv_reachable [OF assms(1)] by simp_all
  have ids: "ids_ok s" using inv(1) by (simp add: gl_inv_def)
  then have "je_id j' < next_uuid s" using assms(3,5) by (auto simp: ids_ok_def)
  then obtain k where k: "k \<in> set (journals s)" "je_id k = je_id j'" "je_org k = je_org j'"
      "journal_step\<^sup>*\<^sup>* (je_status k) (je_status j')"
    using inv(2) assms(4) unfolding evolves_def traces_def by (auto simp: not_le [symmetric])
  then have "k = j" using ids_ok_unique [OF ids k(1) assms(3)] assms(5) by simp
  with k show ?thesis using journal_steps_void journal_steps_reversed by auto
qed

theorem journal_lifecycle_witness:
  "\<exists>j \<in> set (journals sample_posted). \<exists>j' \<in> set (journals sample_reversed).
    je_status j = J_POSTED \<and> je_id j' = je_id j
    \<and> journal_step\<^sup>*\<^sup>* (je_status j) (je_status j') \<and> je_org j' = je_org j
    \<and> (je_status j \<in> {J_VOID, J_REVERSED} \<longrightarrow> je_status j' = je_status j)"
proof -
  obtain j where j: "j \<in> set (journals sample_posted)" "je_id j = 30" "je_status j = J_POSTED"
    using sample_posted_lines(2) by blast
  obtain j' where j': "j' \<in> set (journals sample_reversed)" "je_id j' = 30"
    using arg_cong [OF sample_reversed_summary, of "\<lambda>xs. 30 \<in> fst ` set xs"] by auto
  show ?thesis
    using journal_lifecycle [OF sample_reachable(2) r_into_rtranclp [where r = gl_step, OF sample_runs(3)] j(1) j'(1)] j j'
    by (intro bexI [of _ j] bexI [of _ j']) simp_all
qed

text \<open>Every ledger line lies in a period of its organisation, and its posting date between
  that period's first and last day.\<close>

theorem ledger_lines_in_their_period:
  assumes "reachable s" and "l \<in> set (ledger s)" and "valid_date (ll_posting_date l)"
  shows "\<exists>p \<in> set (periods s). fp_id p = ll_period l \<and> fp_org p = ll_org l
    \<and> fp_start_date p \<le> ll_posting_date l \<and> ll_posting_date l \<le> fp_end_date p"
  using gl_inv_reachable [OF assms(1)] assms(2,3)
  by (auto simp: gl_inv_def ledger_ok_def named_for_def covers_def)

theorem ledger_lines_in_their_period_witness:
  "\<exists>l \<in> set (ledger sample_posted). \<exists>p \<in> set (periods sample_posted). fp_id p = ll_period l \<and> fp_org p = ll_org l
    \<and> fp_start_date p \<le> ll_posting_date l \<and> ll_posting_date l \<le> fp_end_date p"
proof -
  obtain l where l: "l \<in> set (ledger sample_posted)" using sample_posted_lines(1) by blast
  have "\<forall>l \<in> set (ledger sample_posted). valid_date (ll_posting_date l)" by code_simp
  with l show ?thesis using ledger_lines_in_their_period [OF sample_reachable(2) l] by blast
qed

end
