(* ===== verification/Reversal_Facts.thy ===== *)
theory Reversal_Facts
  imports Gl_Books
begin

text \<open>
  What a reversal does to the books: the reversed journal and its reversal cancel account by
  account, and a posted journal can always be reversed into an open period.
\<close>

section \<open>Account balances of a set of ledger lines\<close>

definition view_net :: "uuid \<Rightarrow> (uuid \<times> decimal \<times> decimal) list \<Rightarrow> decimal" where
  "view_net a vs = (\<Sum>(x, d, c)\<leftarrow>vs. if x = a then d - c else 0)"

definition account_net :: "uuid \<Rightarrow> ledger_line list \<Rightarrow> decimal" where
  "account_net a ls = (\<Sum>l\<leftarrow>filter (\<lambda>l. ll_account l = a) ls. ll_debit l - ll_credit l)"

lemma account_net_view: "account_net a ls = view_net a (map ledger_view ls)"
  by (induction ls) (simp_all add: account_net_def view_net_def ledger_view_def)

lemma view_net_reversal:
  "view_net a (map line_view (reversal_lines rid u ls)) = - view_net a (map line_view ls)"
  by (induction ls arbitrary: u) (simp_all add: view_net_def line_view_def reversal_line_def)

section \<open>The validations on reversed lines\<close>

definition entry_ok :: "posting_entry \<Rightarrow> bool" where
  "entry_ok e \<longleftrightarrow> 0 \<le> pe_debit_functional e \<and> 0 \<le> pe_credit_functional e
     \<and> (pe_debit_functional e = 0) \<noteq> (pe_credit_functional e = 0)
     \<and> 0 \<le> pe_debit_amount e \<and> 0 \<le> pe_credit_amount e
     \<and> (pe_debit_amount e = 0 \<or> pe_credit_amount e = 0)"

lemma validate_functional_None_iff:
  "validate_functional_amounts i es = None \<longleftrightarrow> (\<forall>e \<in> set es. entry_ok e)"
  by (induction es arbitrary: i) (auto simp: entry_ok_def not_less)

lemma validate_balance_None_iff:
  "validate_balance es = None \<longleftrightarrow>
     (\<Sum>e\<leftarrow>es. numeric6 (pe_debit_functional e)) = (\<Sum>e\<leftarrow>es. numeric6 (pe_credit_functional e))"
  by (simp add: validate_balance_def Let_def sum_at_persisted_scale_map)

lemma reversal_lines_validate:
  assumes "validate_balance (map entry_of_line ls) = None"
    and "validate_functional_amounts 0 (map entry_of_line ls) = None"
  shows "validate_balance (map entry_of_line (reversal_lines rid u ls)) = None"
    and "validate_functional_amounts 0 (map entry_of_line (reversal_lines rid u ls)) = None"
proof -
  have d: "map pe_debit_functional (map entry_of_line (reversal_lines rid u ls)) = map jl_credit_functional ls"
    and c: "map pe_credit_functional (map entry_of_line (reversal_lines rid u ls)) = map jl_debit_functional ls"
    by (induction ls arbitrary: u) (simp_all add: entry_of_line_def reversal_line_def)
  have o: "map pe_debit_functional (map entry_of_line ls) = map jl_debit_functional ls"
    "map pe_credit_functional (map entry_of_line ls) = map jl_credit_functional ls"
    by (simp_all add: entry_of_line_def)
  show "validate_balance (map entry_of_line (reversal_lines rid u ls)) = None"
    using assms(1) unfolding validate_balance_def Let_def d c o by (simp split: if_splits)
  have "entry_ok (entry_of_line (reversal_line rid u l)) = entry_ok (entry_of_line l)" for u l
    by (auto simp: entry_ok_def entry_of_line_def reversal_line_def)
  then have "\<forall>l \<in> set ls. entry_ok (entry_of_line l) \<Longrightarrow>
      \<forall>l \<in> set (reversal_lines rid u ls). entry_ok (entry_of_line l)"
    by (induction ls arbitrary: u) auto
  then show "validate_functional_amounts 0 (map entry_of_line (reversal_lines rid u ls)) = None"
    using assms(2) by (simp add: validate_functional_None_iff)
qed

section \<open>The reversal's lines\<close>

lemma length_reversal_lines [simp]: "length (reversal_lines rid u ls) = length ls"
  by (induction ls arbitrary: u) simp_all

lemma sorted_reversal_lines:
  "sorted (map jl_line_number ls) \<Longrightarrow> sort_key jl_line_number (reversal_lines rid u ls) = reversal_lines rid u ls"
proof -
  have "map jl_line_number (reversal_lines rid u ls) = map jl_line_number ls"
    by (induction ls arbitrary: u) (simp_all add: reversal_line_def)
  then show "sorted (map jl_line_number ls) \<Longrightarrow> sort_key jl_line_number (reversal_lines rid u ls) = reversal_lines rid u ls"
    by (simp add: sort_key_id_if_sorted)
qed

lemma lines_of_insert_reversal:
  assumes inv: "gl_inv s" and rvl: "je_id rvl = next_uuid s"
  shows "lines_of (insert_reversal original rvl s) (je_id rvl)
      = reversal_lines (je_id rvl) (je_id rvl + 1) (lines_of s (je_id original))"
proof -
  let ?ls = "reversal_lines (je_id rvl) (je_id rvl + 1) (lines_of s (je_id original))"
  have js: "jlines (insert_reversal original rvl s) = jlines s @ ?ls"
    by (simp add: insert_reversal_def Let_def)
  have "\<forall>l \<in> set (jlines s). jl_journal l \<noteq> je_id rvl"
    using inv rvl by (fastforce simp: gl_inv_def lines_ok_def ids_ok_def)
  from lines_of_append(2) [OF js _ this]
  have "lines_of (insert_reversal original rvl s) (je_id rvl) = sort_key jl_line_number ?ls"
    using in_reversal_lines by blast
  also have "\<dots> = ?ls" by (rule sorted_reversal_lines) (simp add: lines_of_def)
  finally show ?thesis .
qed

text \<open>What a returned posting leaves alone.\<close>

lemma post_seeing_jlines: "post_seeing fl req now s = (Inr r, s') \<Longrightarrow> jlines s' = jlines s"
  by (erule post_seeing_cases) (simp_all add: posts_def)

text \<open>When some period covers the date, the gate decides without touching the session.\<close>

lemma gate_reads_only:
  assumes "get_period_for_date s org d \<noteq> None" and "periods t = periods s"
    and "require_open_period org d adj sess s = (r, s')"
  shows "s' = s" and "require_open_period org d adj sess t = (r, t)"
proof -
  have cand: "candidates t org d = candidates s org d" using assms(2) by (simp add: candidates_def)
  have "resolve_period s org d True adj \<noteq> None"
    using assms(1) unfolding get_period_for_date_def resolve_period_None_iff .
  then obtain p where p: "resolve_period s org d True adj = Some p" by blast
  then have pt: "resolve_period t org d True adj = Some p" by (simp add: resolve_period_eq cand)
  show "s' = s" and "require_open_period org d adj sess t = (r, t)"
    using assms(3) by (auto simp: require_open_period_def can_post_to_date_def p pt raise_def return_def
        split: if_splits option.splits)
qed

text \<open>An automatic reversal that has returned, step by step.\<close>

lemma create_reversal_posted:
  assumes inv: "gl_inv s"
    and c: "create_reversal org jid d user reason True key adj sess number now s = (Inr res, s')"
  obtains j rvl r where "scoped_journal org jid s = Some j" "je_status j = J_POSTED"
    "rr_journal_id res = Some (je_id rvl)" "je_id rvl = next_uuid s"
    "post_seeing (insert_reversal j rvl s) (reversal_request org j (je_id rvl) d user key adj sess) now
       (set_journal (je_id j) (\<lambda>j. j\<lparr>je_status := J_REVERSED\<rparr>) (insert_reversal j rvl s)) = (Inr r, s')"
proof -
  from c obtain j p where j: "scoped_journal org jid s = Some j" "je_status j = J_POSTED"
      "je_reversal_journal_id j = None" and per: "get_period_for_date s org d = Some p"
    by (auto simp: create_reversal_def split: option.splits if_splits)
  obtain r1 s1 where g: "require_open_period org d adj sess s = (r1, s1)" by fastforce
  have s1: "s1 = s" using gate_reads_only(1) [OF _ refl g] per by simp
  from c obtain pid where pid: "r1 = Inr pid" "\<not> number_taken s org number"
    by (cases r1) (auto simp: create_reversal_def j per g s1 Let_def split: if_splits)
  define rvl where "rvl = reversal_of (next_uuid s) number pid d user reason True now j"
  have "post_reversal org j rvl d user key adj sess now s (insert_reversal j rvl s) = (Inr res, s')"
    using c by (simp add: create_reversal_def j per g s1 pid Let_def rvl_def)
  then obtain r where pj: "post_seeing (insert_reversal j rvl s) (reversal_request org j (je_id rvl) d user key adj sess) now
       (set_journal (je_id j) (\<lambda>j. j\<lparr>je_status := J_REVERSED\<rparr>) (insert_reversal j rvl s)) = (Inr r, s')"
    and "rr_journal_id res = Some (je_id rvl)"
    by (auto simp: post_reversal_def bind_Inr split: if_splits dest: post_seeing_success)
  moreover have "je_id rvl = next_uuid s" by (simp add: rvl_def reversal_of_def)
  ultimately show thesis using that j pj by blast
qed

section \<open>Properties\<close>

text \<open>C6: a reversal undoes its journal account by account. When an automatic reversal has been
  posted, the ledger lines of the original and those of the reversal net to zero on every
  account, and the original is REVERSED.\<close>

theorem reversal_nets_to_zero:
  assumes "reachable s"
    and "create_reversal org jid d user reason True key adj sess number now s = (Inr res, s')"
    and "rr_journal_id res = Some rid"
    and "r \<in> set (journals s')" and "je_id r = rid" and "je_status r = J_POSTED"
  shows "account_net a (ledger_of s' jid) + account_net a (ledger_of s' rid) = 0"
proof -
  have inv: "gl_inv s" by (rule gl_inv_reachable [OF assms(1)])
  have inv': "gl_inv s' \<and> evolves s s'" by (rule reversing.returns [OF inv assms(2)])
  from create_reversal_posted [OF inv assms(2)] obtain j rvl pr where j: "scoped_journal org jid s = Some j"
      "je_status j = J_POSTED" and rid: "rr_journal_id res = Some (je_id rvl)" "je_id rvl = next_uuid s"
    and p: "post_seeing (insert_reversal j rvl s) (reversal_request org j (je_id rvl) d user key adj sess) now
       (set_journal (je_id j) (\<lambda>j. j\<lparr>je_status := J_REVERSED\<rparr>) (insert_reversal j rvl s)) = (Inr pr, s')"
    by blast
  have jm: "j \<in> set (journals s)" "je_id j = jid" using scoped_journal_SomeD [OF j(1)] by simp_all
  have "in_ledger j" using j(2) by (simp add: in_ledger_def)
  with inv' jm obtain j' where j': "j' \<in> set (journals s')" "je_id j' = jid" "in_ledger j'"
      "lines_of s' jid = lines_of s jid" unfolding evolves_def keeps_posted_def by blast
  have "jlines s' = jlines (insert_reversal j rvl s)" using post_seeing_jlines [OF p] by simp
  then have "lines_of s' rid = lines_of (insert_reversal j rvl s) rid" by (rule lines_of_cong)
  then have l: "lines_of s' rid = reversal_lines rid (rid + 1) (lines_of s jid)"
    using lines_of_insert_reversal [OF inv rid(2), of j] rid(1) assms(3) jm(2) by simp
  have "posted_ok s' j'" "posted_ok s' r" using inv' j'(1) assms(4) by (simp_all add: gl_inv_def)
  then have "map ledger_view (ledger_of s' jid) = map line_view (lines_of s jid)"
    and "map ledger_view (ledger_of s' rid) = map line_view (reversal_lines rid (rid + 1) (lines_of s jid))"
    using j' assms(5,6) l by (simp_all add: posted_ok_def in_ledger_def)
  then show ?thesis by (simp add: account_net_view view_net_reversal)
qed

lemma sample_reversal:
  "case create_reversal 1 30 (Date 6 1 20) 7 ''Error'' True None False None ''JE2'' 6 sample_posted of
     (Inr res, s') \<Rightarrow> rr_journal_id res = Some 38
       \<and> (\<exists>r \<in> set (journals s'). je_id r = 38 \<and> je_status r = J_POSTED)
   | _ \<Rightarrow> False"
  by code_simp

theorem reversal_nets_to_zero_witness:
  "\<exists>res s'. create_reversal 1 30 (Date 6 1 20) 7 ''Error'' True None False None ''JE2'' 6 sample_posted = (Inr res, s')
    \<and> account_net 2 (ledger_of s' 30) + account_net 2 (ledger_of s' 38) = 0"
proof -
  obtain res s' r where c: "create_reversal 1 30 (Date 6 1 20) 7 ''Error'' True None False None ''JE2'' 6 sample_posted
      = (Inr res, s')" and "rr_journal_id res = Some 38" "r \<in> set (journals s')" "je_id r = 38" "je_status r = J_POSTED"
    using sample_reversal by (auto split: prod.splits sum.splits)
  then show ?thesis
    using reversal_nets_to_zero [OF sample_reachable(2) c] by blast
qed

lemma set_row_other: "x \<in> set rs \<Longrightarrow> key x \<noteq> k \<Longrightarrow> x \<in> set (set_row key k f rs)"
  unfolding set_set_row by (rule image_eqI [of _ _ x]) simp_all

text \<open>The posting of a fresh reversal, given that the gate opens and the keys are free.\<close>

lemma post_fresh_journal:
  assumes j: "get_row je_id (rq_journal_entry_id req) (journals s) = Some j"
      "je_org j = rq_organization_id req" "je_status j = J_APPROVED"
    and gate: "require_open_period (rq_organization_id req) (rq_posting_date req)
        (rq_allow_adjustment_period req) (rq_reopen_session_id req) s = (Inr pid, s)"
    and key: "rq_idempotency_key req \<noteq> []"
      "\<forall>b \<in> set (batches s). pb_idempotency_key b \<noteq> rq_idempotency_key req"
    and ok: "validate_balance (entries_to_post s req j) = None"
      "validate_functional_amounts 0 (entries_to_post s req j) = None"
    and ev: "''posting:'' @ uuid_str (next_uuid s) \<notin> ob_idempotency_key ` set (outbox s)"
  shows "\<exists>res s'. post_seeing fl req now s = (Inr res, s') \<and> \<not> res_idempotent_replay res"
proof -
  let ?es = "entries_to_post s req j"
  have "find_batch s (rq_organization_id req) (rq_idempotency_key req) = None"
    using key(2) by (auto simp: find_batch_def find_None_iff)
  then have cb: "claim_batch fl req now s = (Inr NewBatch, s)"
    using key(1) by (simp add: claim_batch_def return_def)
  define s2 where "s2 = s\<lparr>batches := add_row (new_batch (next_uuid s) req j pid (length ?es) now) (batches s),
      next_uuid := Suc (next_uuid s)\<rparr>"
  have "\<not> key_taken s (next_uuid s) (rq_idempotency_key req)" using key(2) by (auto simp: key_taken_def)
  then have ob: "obtain_batch NewBatch req j pid (length ?es) now s = (Inr (next_uuid s), s2)"
    by (simp add: obtain_batch_def insert_batch_def Let_def return_def s2_def)
  have w: "\<exists>res s'. write_posting req j pid (next_uuid s) ?es now s2 = (Inr res, s') \<and> \<not> res_idempotent_replay res"
    using ev by (auto simp: write_posting_def Let_def publish_posting_event_def posting_event_def return_def s2_def)
  have "post_approved NewBatch req j now s = write_posting req j pid (next_uuid s) ?es now s2"
    using gate ok ob by (simp add: post_approved_def Let_def entries_to_post_def [symmetric])
  then have "post_seeing fl req now s = write_posting req j pid (next_uuid s) ?es now s2"
    using j cb by (simp add: post_seeing_def)
  with w show ?thesis by simp
qed

text \<open>The session the automatic posting starts from: the reversal is added and linked, the original
  is already marked REVERSED.\<close>

abbreviation marked_original :: "uuid \<Rightarrow> journal_entry \<Rightarrow> journal_entry \<Rightarrow> gldb \<Rightarrow> gldb" where
  "marked_original jid j rvl s \<equiv> set_journal jid (\<lambda>j. j\<lparr>je_status := J_REVERSED\<rparr>) (insert_reversal j rvl s)"

lemma marked_original_rows:
  assumes "gl_inv s" and "scoped_journal org jid s = Some j" and "je_id rvl = next_uuid s"
  shows "jid \<noteq> next_uuid s" and "get_row je_id (next_uuid s) (journals (marked_original jid j rvl s)) = Some rvl"
    and "\<exists>y \<in> set (journals (marked_original jid j rvl s)). je_id y = jid \<and> je_status y = J_REVERSED"
proof -
  have jm: "j \<in> set (journals s)" "je_id j = jid" using scoped_journal_SomeD [OF assms(2)] by simp_all
  show new: "jid \<noteq> next_uuid s" using assms(1) jm by (auto simp: gl_inv_def ids_ok_def)
  have fresh: "get_row je_id (next_uuid s) (journals s) = None"
    using assms(1) by (auto simp: get_row_None_iff gl_inv_def ids_ok_def)
  let ?linked = "set_row je_id jid (\<lambda>j. j\<lparr>je_reversal_journal_id := Some (next_uuid s)\<rparr>) (journals s @ [rvl])"
  have js: "journals (marked_original jid j rvl s) = set_row je_id jid (\<lambda>j. j\<lparr>je_status := J_REVERSED\<rparr>) ?linked"
    by (simp add: insert_reversal_def Let_def jm assms(3))
  show "get_row je_id (next_uuid s) (journals (marked_original jid j rvl s)) = Some rvl"
    unfolding js using new fresh assms(3) by (simp add: get_set_row get_row_append)
  have "\<exists>x \<in> set ?linked. je_id x = jid"
    by (rule set_row_updated [where r = j]) (simp_all add: jm)
  then obtain x where x: "x \<in> set ?linked" "je_id x = jid" by blast
  then show "\<exists>y \<in> set (journals (marked_original jid j rvl s)). je_id y = jid \<and> je_status y = J_REVERSED"
    unfolding js by (rule set_row_updated) (simp add: x(2))
qed

text \<open>The entries of the reversal pass both of the ledger's checks.\<close>

lemma reversal_entries_validate:
  assumes "gl_inv s" and "scoped_journal org jid s = Some j" and "je_status j = J_POSTED" and "je_id rvl = next_uuid s"
  shows "validate_balance (entries_to_post (marked_original jid j rvl s)
      (reversal_request org j (next_uuid s) d user key adj sess) rvl) = None"
    and "validate_functional_amounts 0 (entries_to_post (marked_original jid j rvl s)
      (reversal_request org j (next_uuid s) d user key adj sess) rvl) = None"
proof -
  have jm: "j \<in> set (journals s)" "je_id j = jid" using scoped_journal_SomeD [OF assms(2)] by simp_all
  have "lines_of (marked_original jid j rvl s) (next_uuid s) = lines_of (insert_reversal j rvl s) (next_uuid s)"
    by (rule lines_of_cong) simp
  also have "\<dots> = reversal_lines (next_uuid s) (next_uuid s + 1) (lines_of s jid)"
    using lines_of_insert_reversal [OF assms(1), of rvl j] assms(4) jm(2) by simp
  finally have es: "entries_to_post (marked_original jid j rvl s) (reversal_request org j (next_uuid s) d user key adj sess) rvl
      = map entry_of_line (reversal_lines (next_uuid s) (next_uuid s + 1) (lines_of s jid))"
    by (simp add: entries_to_post_def reversal_request_def load_journal_lines_def assms(4))
  have "posted_ok s j" "in_ledger j" using assms(1,3) jm by (simp_all add: gl_inv_def in_ledger_def)
  then have "validate_balance (map entry_of_line (lines_of s jid)) = None"
      "validate_functional_amounts 0 (map entry_of_line (lines_of s jid)) = None"
    using jm(2) by (simp_all add: posted_ok_def load_journal_lines_def)
  then show "validate_balance (entries_to_post (marked_original jid j rvl s)
      (reversal_request org j (next_uuid s) d user key adj sess) rvl) = None" and "validate_functional_amounts 0 (entries_to_post (marked_original jid j rvl s)
      (reversal_request org j (next_uuid s) d user key adj sess) rvl) = None"
    unfolding es by (rule reversal_lines_validate)+
qed

lemma reversal_posting_returns:
  assumes inv: "gl_inv s" and j: "scoped_journal org jid s = Some j" "je_status j = J_POSTED"
    and rvl: "je_id rvl = next_uuid s" "je_org rvl = org" "je_status rvl = J_APPROVED"
    and gate: "get_period_for_date s org d = Some p" "require_open_period org d adj sess s = (Inr pid, s)"
    and key: "\<forall>b \<in> set (batches s). pb_idempotency_key b \<noteq> given_or (reversal_key org (next_uuid s)) key"
    and event: "''posting:'' @ uuid_str (next_uuid s + 1 + length (lines_of s jid))
      \<notin> ob_idempotency_key ` set (outbox s)"
  shows "\<exists>r s'. post_seeing (insert_reversal j rvl s) (reversal_request org j (next_uuid s) d user key adj sess) now
    (marked_original jid j rvl s) = (Inr r, s') \<and> \<not> res_idempotent_replay r"
proof (rule post_fresh_journal)
  let ?t = "marked_original jid j rvl s" and ?req = "reversal_request org j (next_uuid s) d user key adj sess"
  have rq: "rq_organization_id ?req = org" "rq_journal_entry_id ?req = next_uuid s" "rq_posting_date ?req = d"
    "rq_allow_adjustment_period ?req = adj" "rq_reopen_session_id ?req = sess"
    "rq_idempotency_key ?req = given_or (reversal_key org (next_uuid s)) key" by (simp_all add: reversal_request_def)
  have same: "periods ?t = periods s" "batches ?t = batches s" "outbox ?t = outbox s"
    "next_uuid ?t = next_uuid s + 1 + length (lines_of s jid)"
    using scoped_journal_SomeD [OF j(1)] by (simp_all add: insert_reversal_def Let_def rvl)
  show "get_row je_id (rq_journal_entry_id ?req) (journals ?t) = Some rvl"
    unfolding rq by (rule marked_original_rows(2) [OF inv j(1) rvl(1)])
  show "je_org rvl = rq_organization_id ?req" unfolding rq by (rule rvl(2))
  show "je_status rvl = J_APPROVED" by (rule rvl(3))
  have "require_open_period org d adj sess ?t = (Inr pid, ?t)"
    by (rule gate_reads_only(2) [OF _ same(1) gate(2)]) (simp add: gate(1))
  then show "require_open_period (rq_organization_id ?req) (rq_posting_date ?req)
      (rq_allow_adjustment_period ?req) (rq_reopen_session_id ?req) ?t = (Inr pid, ?t)" unfolding rq .
  show "rq_idempotency_key ?req \<noteq> []"
    unfolding rq by (simp add: given_or_def reversal_key_def split: option.split)
  show "\<forall>b \<in> set (batches ?t). pb_idempotency_key b \<noteq> rq_idempotency_key ?req"
    unfolding rq same by (rule key)
  show "validate_balance (entries_to_post ?t ?req rvl) = None"
    and "validate_functional_amounts 0 (entries_to_post ?t ?req rvl) = None"
    by (rule reversal_entries_validate [OF inv j rvl(1)])+
  show "''posting:'' @ uuid_str (next_uuid ?t) \<notin> ob_idempotency_key ` set (outbox ?t)"
    unfolding same(3,4) by (rule event)
qed

text \<open>The rows such a posting leaves.\<close>

lemma reversal_posting_rows:
  assumes "post_seeing fl (reversal_request org j rid d user key adj sess) now t = (Inr r, s')"
    and "\<not> res_idempotent_replay r" and "get_row je_id rid (journals t) = Some rvl"
    and "y \<in> set (journals t)" and "je_id y \<noteq> rid"
  shows "\<exists>r \<in> set (journals s'). je_id r = rid \<and> je_status r = J_POSTED" and "y \<in> set (journals s')"
proof -
  have "\<exists>bid k. journals s' = set_row je_id rid (\<lambda>j'. j'\<lparr>je_status := J_POSTED, je_posting_batch_id := Some bid,
      je_posted_at := Some now, je_posted_by := k\<rparr>) (journals t)"
    using assms(1)
  proof (cases rule: post_seeing_cases)
    case (posted res j' pid' bid)
    then show ?thesis by (auto simp: posts_def reversal_request_def)
  qed (use assms(2) in \<open>simp_all add: replay_result_def\<close>)
  then obtain bid k where s': "journals s' = set_row je_id rid (\<lambda>j'. j'\<lparr>je_status := J_POSTED,
      je_posting_batch_id := Some bid, je_posted_at := Some now, je_posted_by := k\<rparr>) (journals t)" by blast
  show "\<exists>r \<in> set (journals s'). je_id r = rid \<and> je_status r = J_POSTED"
    unfolding s' using get_row_SomeD [OF assms(3)] by (intro set_row_updated [where r = rvl]) simp_all
  show "y \<in> set (journals s')" unfolding s' using assms(4,5) by (rule set_row_other)
qed

text \<open>C7: a posted journal can be reversed. In a reachable state, if the journal is POSTED and not
  yet reversed, the gate opens for the reversal date, and the journal number, the idempotency
  key and the event key of the batch to come are free, then the automatic reversal
  returns, the reversal journal is POSTED and the original REVERSED.\<close>

theorem reversal_succeeds:
  assumes "reachable s" and "scoped_journal org jid s = Some j" and "je_status j = J_POSTED"
    and "je_reversal_journal_id j = None" and "get_period_for_date s org d = Some p"
    and "require_open_period org d adj sess s = (Inr pid, s)" and "\<not> number_taken s org number"
    and "\<forall>b \<in> set (batches s). pb_idempotency_key b \<noteq> given_or (reversal_key org (next_uuid s)) key"
    and "''posting:'' @ uuid_str (next_uuid s + 1 + length (lines_of s jid))
      \<notin> ob_idempotency_key ` set (outbox s)"
  shows "\<exists>res s'. create_reversal org jid d user reason True key adj sess number now s = (Inr res, s')
    \<and> rr_journal_id res = Some (next_uuid s)
    \<and> (\<exists>r \<in> set (journals s'). je_id r = next_uuid s \<and> je_status r = J_POSTED)
    \<and> (\<exists>j' \<in> set (journals s'). je_id j' = jid \<and> je_status j' = J_REVERSED)"
proof -
  have inv: "gl_inv s" by (rule gl_inv_reachable [OF assms(1)])
  have jm: "je_id j = jid" "je_org j = org" using scoped_journal_SomeD [OF assms(2)] by simp_all
  define rvl where "rvl = reversal_of (next_uuid s) number pid d user reason True now j"
  have rvl: "je_id rvl = next_uuid s" "je_org rvl = org" "je_status rvl = J_APPROVED"
    by (simp_all add: rvl_def reversal_of_def jm)
  note rows = marked_original_rows [OF inv assms(2) rvl(1)]
  obtain r s' where p: "post_seeing (insert_reversal j rvl s) (reversal_request org j (next_uuid s) d user key adj sess) now
      (marked_original jid j rvl s) = (Inr r, s')" "\<not> res_idempotent_replay r"
    using reversal_posting_returns [OF inv assms(2,3) rvl assms(5,6,8,9)] by blast
  obtain y where y: "y \<in> set (journals (marked_original jid j rvl s))" "je_id y = jid" "je_status y = J_REVERSED"
    using rows(3) by blast
  have "post_reversal org j rvl d user key adj sess now s (insert_reversal j rvl s) = (Inr \<lparr>rr_success = True,
      rr_journal_id = Some (next_uuid s), rr_number = Some (je_journal_number rvl), rr_posted = True\<rparr>, s')"
    using p post_seeing_success [OF p(1)] by (simp add: post_reversal_def rvl jm return_def)
  then have "create_reversal org jid d user reason True key adj sess number now s = (Inr \<lparr>rr_success = True,
      rr_journal_id = Some (next_uuid s), rr_number = Some (je_journal_number rvl), rr_posted = True\<rparr>, s')"
    by (simp add: create_reversal_def assms Let_def rvl_def)
  moreover have "y \<in> set (journals s')" "\<exists>r \<in> set (journals s'). je_id r = next_uuid s \<and> je_status r = J_POSTED"
    using reversal_posting_rows [OF p rows(2) y(1)] y(2) rows(1) by simp_all
  ultimately show ?thesis using y by auto
qed

lemma sample_reversible:
  "case scoped_journal 1 30 sample_posted of None \<Rightarrow> False
     | Some j \<Rightarrow> je_status j = J_POSTED \<and> je_reversal_journal_id j = None"
  "case get_period_for_date sample_posted 1 (Date 6 1 20) of None \<Rightarrow> False | Some p \<Rightarrow> True"
  "fst (require_open_period 1 (Date 6 1 20) False None sample_posted) = Inr 10"
  "\<not> number_taken sample_posted 1 ''JE2''" "next_uuid sample_posted = 38"
  "\<forall>b \<in> set (batches sample_posted). pb_idempotency_key b \<noteq> ''reverse-30''"
  "''posting:'' @ uuid_str (38 + 1 + length (lines_of sample_posted 30))
     \<notin> ob_idempotency_key ` set (outbox sample_posted)"
  by code_simp+

theorem reversal_succeeds_witness:
  "\<exists>res s'. create_reversal 1 30 (Date 6 1 20) 7 ''Error'' True (Some ''reverse-30'') False None ''JE2'' 6 sample_posted
      = (Inr res, s')
    \<and> rr_journal_id res = Some (next_uuid sample_posted)
    \<and> (\<exists>r \<in> set (journals s'). je_id r = next_uuid sample_posted \<and> je_status r = J_POSTED)
    \<and> (\<exists>j' \<in> set (journals s'). je_id j' = 30 \<and> je_status j' = J_REVERSED)"
proof -
  obtain j where j: "scoped_journal 1 30 sample_posted = Some j" "je_status j = J_POSTED" "je_reversal_journal_id j = None"
    using sample_reversible(1) by (auto split: option.splits)
  obtain p where p: "get_period_for_date sample_posted 1 (Date 6 1 20) = Some p"
    using sample_reversible(2) by (auto split: option.splits)
  obtain t where t: "require_open_period 1 (Date 6 1 20) False None sample_posted = (Inr 10, t)"
    using sample_reversible(3) by (metis prod.collapse)
  have "t = sample_posted" using gate_reads_only(1) [OF _ refl t] p by simp
  with t have g: "require_open_period 1 (Date 6 1 20) False None sample_posted = (Inr 10, sample_posted)" by simp
  show ?thesis
    by (rule reversal_succeeds [OF sample_reachable(2) j p g sample_reversible(4)])
      (use sample_reversible(5,6,7) in \<open>simp_all add: given_or_def\<close>)
qed

end
