(* ===== verification/Journal_Facts.thy ===== *)
theory Journal_Facts
  imports Reversal_Facts
begin

text \<open>
  Functional behaviour of the gate, of the journal service and of the posting adapter on their
  branches, and the concrete runs behind the findings.
\<close>

section \<open>The gate\<close>

text \<open>C11: the gate names only open periods. When \<open>require_open_period\<close> returns a period for a
  date, that period is the organisation's, contains the date, is not an adjustment period unless
  the caller allows one, and is OPEN, or REOPENED under the session the caller presents.\<close>

theorem gate_names_open_period:
  assumes "require_open_period org d adj sess s = (Inr pid, s')" and "valid_date d"
  shows "\<exists>p \<in> set (periods s'). fp_id p = pid \<and> fp_org p = org
    \<and> fp_start_date p \<le> d \<and> d \<le> fp_end_date p
    \<and> (\<not> fp_is_adjustment_period p \<or> adj)
    \<and> (fp_status p = P_OPEN \<or> fp_status p = P_REOPENED \<and> sess \<noteq> None \<and> fp_last_reopen_session_id p = sess)"
  using require_open_period_names [OF assms(1)] assms(2)
  by (fastforce simp: named_for_def covers_def open_for_def)

theorem gate_names_open_period_witness:
  "\<exists>p \<in> set (periods sample_posted). fp_id p = 10 \<and> fp_org p = 1
    \<and> fp_start_date p \<le> Date 6 1 20 \<and> Date 6 1 20 \<le> fp_end_date p
    \<and> (\<not> fp_is_adjustment_period p \<or> False)
    \<and> (fp_status p = P_OPEN \<or> fp_status p = P_REOPENED \<and> (None :: uuid option) \<noteq> None
        \<and> fp_last_reopen_session_id p = None)"
proof -
  obtain p where p: "get_period_for_date sample_posted 1 (Date 6 1 20) = Some p"
    using sample_reversible(2) by (auto split: option.splits)
  obtain t where t: "require_open_period 1 (Date 6 1 20) False None sample_posted = (Inr 10, t)"
    using sample_reversible(3) by (metis prod.collapse)
  have "t = sample_posted" using gate_reads_only(1) [OF _ refl t] p by simp
  with gate_names_open_period [OF t] show ?thesis by (simp add: valid_date_def days_in_month_def)
qed

text \<open>The gate refuses closed periods. When some period contains the date and none that does
  is open for the caller, \<open>require_open_period\<close> raises a 400 and creates nothing.\<close>

theorem gate_refuses_closed:
  assumes "p \<in> set (periods s)" and "covers org d p"
    and "\<forall>q \<in> set (periods s). covers org d q \<longrightarrow> \<not> open_for adj sess q"
  shows "\<exists>msg. require_open_period org d adj sess s = (Inl (HTTPException 400 (Guard msg)), s)"
proof -
  have "resolve_period s org d True adj \<noteq> None"
    using assms(1,2) unfolding resolve_period_None_iff by blast
  then obtain q where q: "resolve_period s org d True adj = Some q" by blast
  then have "\<not> open_for adj sess q" using resolve_period_SomeD assms(3) by blast
  then have "\<not> is_allowed (check_period q adj sess)" by (simp add: check_period_allowed_iff)
  then show ?thesis by (simp add: require_open_period_def can_post_to_date_def q raise_def)
qed

theorem gate_refuses_closed_witness:
  "\<exists>msg. require_open_period 1 (Date 6 1 20) True None (sample_books P_HARD_CLOSED J_APPROVED)
     = (Inl (HTTPException 400 (Guard msg)), sample_books P_HARD_CLOSED J_APPROVED)"
  by (rule gate_refuses_closed [of "sample_period P_HARD_CLOSED"])
    (simp_all add: sample_defs covers_def open_for_def)

section \<open>Creation\<close>

lemma lines_of_create:
  assumes inv: "gl_inv s" and c: "create_journal org i user number s = (Inr jid, s')"
  shows "lines_of s' jid = new_lines i jid (jid + 1) 0 (ji_lines i)"
  using c
proof (rule create_journal_InrE)
  fix p td assume jid: "jid = next_uuid s" and s': "s' = audit org (next_uuid s) INSERT None None (Some user)
      (insert_journal (new_journal (next_uuid s) org number (fp_id p) i td td user)
         (new_lines i (next_uuid s) (next_uuid s + 1) 0 (ji_lines i)) (next_uuid s + 1 + length (ji_lines i)) s)"
  let ?ls = "new_lines i jid (jid + 1) 0 (ji_lines i)"
  have js: "jlines s' = jlines s @ ?ls" by (simp add: s' jid)
  have "\<forall>l \<in> set (jlines s). jl_journal l \<noteq> jid"
    using inv jid by (fastforce simp: gl_inv_def lines_ok_def ids_ok_def)
  from lines_of_append(2) [OF js _ this] have "lines_of s' jid = sort_key jl_line_number ?ls"
    using in_new_lines by blast
  also have "\<dots> = ?ls"
  proof (rule sort_key_id_if_sorted)
    have "sorted (map jl_line_number (new_lines i j u n ls)) \<and> (\<forall>l \<in> set (new_lines i j u n ls). n < jl_line_number l)"
      for j u n ls by (induction ls arbitrary: u n) (force simp: new_line_def)+
    then show "sorted (map jl_line_number ?ls)" by blast
  qed
  finally show ?thesis .
qed

lemma map_new_lines:
  assumes "\<And>j u n l. f (new_line i j u n l) = g l"
  shows "map f (new_lines i jid u n ls) = map g ls"
  by (induction ls arbitrary: u n) (simp_all add: assms)

text \<open>A created journal is balanced as stored. The rows of a journal that
  \<open>create_journal\<close> returns have equal debit and credit totals in the journal's currency, the
  totals on its header are those of its rows, there is a row per input line, numbered from 1,
  and the journal is a draft of the organisation.\<close>

theorem created_journal_balances:
  assumes "reachable s" and "create_journal org i user number s = (Inr jid, s')"
  shows "\<exists>j \<in> set (journals s'). je_id j = jid \<and> je_org j = org \<and> je_status j = J_DRAFT
    \<and> je_created_by j = user
    \<and> (\<Sum>l\<leftarrow>lines_of s' jid. jl_debit l) = je_total_debit j
    \<and> (\<Sum>l\<leftarrow>lines_of s' jid. jl_credit l) = je_total_debit j
    \<and> je_total_credit j = je_total_debit j
    \<and> map jl_account (lines_of s' jid) = map li_account (ji_lines i)
    \<and> map jl_line_number (lines_of s' jid) = [1..<length (ji_lines i) + 1]"
proof -
  have inv: "gl_inv s" by (rule gl_inv_reachable [OF assms(1)])
  note lines = lines_of_create [OF inv assms(2)]
  have n: "map jl_line_number (new_lines i jid u n ls) = [Suc n..<Suc (n + length ls)]" for u n ls
    by (induction ls arbitrary: u n) (simp_all add: new_line_def upt_conv_Cons del: upt_Suc)
  have d: "map jl_debit (lines_of s' jid) = map (\<lambda>l. numeric6 (li_debit l)) (ji_lines i)"
    "map jl_credit (lines_of s' jid) = map (\<lambda>l. numeric6 (li_credit l)) (ji_lines i)"
    "map jl_account (lines_of s' jid) = map li_account (ji_lines i)"
    unfolding lines by (rule map_new_lines, simp add: new_line_def)+
  from assms(2) show ?thesis
  proof (rule create_journal_InrE)
    fix p td assume b: "require_balanced (ji_lines i) = Inr (td, td)" and jid: "jid = next_uuid s"
      and s': "s' = audit org (next_uuid s) INSERT None None (Some user)
      (insert_journal (new_journal (next_uuid s) org number (fp_id p) i td td user)
         (new_lines i (next_uuid s) (next_uuid s + 1) 0 (ji_lines i)) (next_uuid s + 1 + length (ji_lines i)) s)"
    have "td = sum_at_persisted_scale (map li_debit (ji_lines i))" "td = sum_at_persisted_scale (map li_credit (ji_lines i))"
      using b by (auto simp: require_balanced_def Let_def split: if_splits)
    then have t: "(\<Sum>l\<leftarrow>lines_of s' jid. jl_debit l) = td" "(\<Sum>l\<leftarrow>lines_of s' jid. jl_credit l) = td"
      using d by (simp_all add: sum_at_persisted_scale_map)
    have nn: "map jl_line_number (lines_of s' jid) = [1..<length (ji_lines i) + 1]"
      using n [of "jid + 1" 0 "ji_lines i"] by (simp add: lines del: upt_Suc)
    show ?thesis
      by (rule bexI [of _ "new_journal (next_uuid s) org number (fp_id p) i td td user"])
        (use t nn d(3) in \<open>simp_all add: s' jid new_journal_def del: upt_Suc\<close>)
  qed
qed

lemma sample_creation: "fst (create_journal 1 sample_input 7 ''JE2'' sample_posted) = Inr 38"
  by code_simp

theorem created_journal_balances_witness:
  "\<exists>s'. create_journal 1 sample_input 7 ''JE2'' sample_posted = (Inr 38, s')
    \<and> (\<exists>j \<in> set (journals s'). je_id j = 38 \<and> je_org j = 1 \<and> je_status j = J_DRAFT
      \<and> je_created_by j = 7
      \<and> (\<Sum>l\<leftarrow>lines_of s' 38. jl_debit l) = je_total_debit j
      \<and> (\<Sum>l\<leftarrow>lines_of s' 38. jl_credit l) = je_total_debit j
      \<and> je_total_credit j = je_total_debit j
      \<and> map jl_account (lines_of s' 38) = map li_account (ji_lines sample_input)
      \<and> map jl_line_number (lines_of s' 38) = [1..<length (ji_lines sample_input) + 1])"
proof -
  obtain s' where c: "create_journal 1 sample_input 7 ''JE2'' sample_posted = (Inr 38, s')"
    using sample_creation by (metis prod.collapse)
  show ?thesis using created_journal_balances [OF sample_reachable(2) c] c by blast
qed

section \<open>Posting a journal in the functional currency\<close>

text \<open>A line whose amounts the columns store unchanged, and whose functional amounts the service
  computes.\<close>

definition plain_line :: "line_input \<Rightarrow> bool" where
  "plain_line l \<longleftrightarrow> li_debit_functional l = None \<and> li_credit_functional l = None
     \<and> at_scale 6 (li_debit l) \<and> at_scale 6 (li_credit l) \<and> 0 \<le> li_debit l \<and> 0 \<le> li_credit l
     \<and> li_debit l < 10 ^ 14 \<and> li_credit l < 10 ^ 14 \<and> (li_debit l = 0) \<noteq> (li_credit l = 0)"

lemma plain_functional:
  assumes "plain_line l" and "ji_exchange_rate i = 1"
  shows "functional_debit i l = li_debit l" and "functional_credit i l = li_credit l"
proof -
  have "(10::rat) ^ 14 \<le> 10 ^ 21" by simp
  with assms show "functional_debit i l = li_debit l" and "functional_credit i l = li_credit l"
    by (simp_all add: plain_line_def functional_debit_def functional_credit_def functional_def
        dec_mul_def dec28_persisted)
qed

text \<open>A balanced journal in the functional currency passes the ledger's validation. When the
  rate is 1 and every line has one positive side below the column's capacity, the rows that
  \<open>create_journal\<close> stores pass both checks that \<open>post_journal_entry\<close> makes of them.\<close>

theorem functional_journal_validates:
  assumes "reachable s" and "create_journal org i user number s = (Inr jid, s')"
    and "ji_exchange_rate i = 1" and "\<forall>l \<in> set (ji_lines i). plain_line l"
  shows "validate_balance (map entry_of_line (lines_of s' jid)) = None
    \<and> validate_functional_amounts 0 (map entry_of_line (lines_of s' jid)) = None"
proof -
  have inv: "gl_inv s" by (rule gl_inv_reachable [OF assms(1)])
  note lines = lines_of_create [OF inv assms(2)]
  have stored: "numeric6 (li_debit l) = li_debit l" "numeric6 (li_credit l) = li_credit l"
      "functional_debit i l = li_debit l" "functional_credit i l = li_credit l"
    if "l \<in> set (ji_lines i)" for l
    using that assms(3,4) plain_functional [of l i] by (simp_all add: plain_line_def quantize_at_scale)
  have d: "map pe_debit_functional (map entry_of_line (lines_of s' jid)) = map li_debit (ji_lines i)"
    and c: "map pe_credit_functional (map entry_of_line (lines_of s' jid)) = map li_credit (ji_lines i)"
  proof -
    have "map (\<lambda>l. pe_debit_functional (entry_of_line l)) (lines_of s' jid) =
        map (\<lambda>l. numeric6 (functional_debit i l)) (ji_lines i)"
      and "map (\<lambda>l. pe_credit_functional (entry_of_line l)) (lines_of s' jid) =
        map (\<lambda>l. numeric6 (functional_credit i l)) (ji_lines i)"
      unfolding lines by (rule map_new_lines, simp add: new_line_def entry_of_line_def)+
    then show "map pe_debit_functional (map entry_of_line (lines_of s' jid)) = map li_debit (ji_lines i)"
      and "map pe_credit_functional (map entry_of_line (lines_of s' jid)) = map li_credit (ji_lines i)"
      using stored by (simp_all cong: map_cong)
  qed
  have "validate_balance (map entry_of_line (lines_of s' jid)) = None"
    using assms(2)
  proof (rule create_journal_InrE)
    fix p td assume "require_balanced (ji_lines i) = Inr (td, td)"
    then show ?thesis unfolding validate_balance_def Let_def d c
      by (auto simp: require_balanced_def Let_def split: if_splits)
  qed
  moreover have "entry_ok (entry_of_line (new_line i j u n l))" if "l \<in> set (ji_lines i)" for j u n l
    using stored [OF that] assms(4) that by (auto simp: entry_ok_def entry_of_line_def new_line_def plain_line_def)
  then have all: "\<forall>l \<in> set (new_lines i j u n ls). entry_ok (entry_of_line l)" if "set ls \<subseteq> set (ji_lines i)" for j u n ls
    using that by (induction ls arbitrary: u n) auto
  have "validate_functional_amounts 0 (map entry_of_line (lines_of s' jid)) = None"
    unfolding lines validate_functional_None_iff using all [of "ji_lines i" jid "jid + 1" 0] by simp
  ultimately show ?thesis by blast
qed

text \<open>The sample input with its functional amounts left to the service.\<close>

definition plain_input :: journal_input where
  "plain_input = sample_input\<lparr>ji_lines := map (\<lambda>l. l\<lparr>li_debit_functional := None,
     li_credit_functional := None\<rparr>) (ji_lines sample_input)\<rparr>"

lemma plain_creation: "fst (create_journal 1 plain_input 7 ''JE2'' sample_posted) = Inr 38"
  by code_simp

theorem functional_journal_validates_witness:
  "\<exists>s'. create_journal 1 plain_input 7 ''JE2'' sample_posted = (Inr 38, s')
    \<and> validate_balance (map entry_of_line (lines_of s' 38)) = None
    \<and> validate_functional_amounts 0 (map entry_of_line (lines_of s' 38)) = None"
proof -
  obtain s' where c: "create_journal 1 plain_input 7 ''JE2'' sample_posted = (Inr 38, s')"
    using plain_creation by (metis prod.collapse)
  have "ji_exchange_rate plain_input = 1" "\<forall>l \<in> set (ji_lines plain_input). plain_line l"
    by (simp_all add: plain_input_def sample_input_def plain_line_def at_scale_def)
  from functional_journal_validates [OF sample_reachable(2) c this] c show ?thesis by blast
qed

section \<open>Approval\<close>

text \<open>Segregation of duties. A submitted journal is approved by anyone but its creator; its
  creator is refused with a 403, and nothing changes, exactly when the organisation's flag is
  on. After an approval the journal is APPROVED by that user and the trail records it.\<close>

theorem approval_segregates_duties:
  assumes "reachable s" and "scoped_journal org jid s = Some j" and "je_status j = J_SUBMITTED"
  shows "if je_created_by j = user \<and> org \<in> set (sod_orgs s)
    then approve_journal org jid user now s = (Inl (HTTPException 403 SegregationOfDuties), s)
    else \<exists>s'. approve_journal org jid user now s = (Inr jid, s')
      \<and> (\<exists>j'. scoped_journal org jid s' = Some j' \<and> je_status j' = J_APPROVED
           \<and> je_approved_by j' = Some user \<and> je_created_by j' = je_created_by j)
      \<and> ledger s' = ledger s
      \<and> (\<exists>row. audit_log s' = audit_log s @ [row] \<and> au_record_id row = jid \<and> au_user row = Some user
           \<and> au_old_status row = Some J_SUBMITTED \<and> au_new_status row = Some J_APPROVED)"
proof (cases "je_created_by j = user \<and> org \<in> set (sod_orgs s)")
  case True
  then show ?thesis using assms(2,3) by (simp add: approve_journal_def raise_def)
next
  case False
  let ?s' = "audit org jid UPDATE (Some J_SUBMITTED) (Some J_APPROVED) (Some user)
        (set_journal jid (\<lambda>j. j\<lparr>je_status := J_APPROVED, je_approved_by := Some user,
           je_approved_at := Some now\<rparr>) s)"
  have "approve_journal org jid user now s = (Inr jid, ?s')"
    using False assms(2,3) by (simp add: approve_journal_def return_def)
  moreover have "scoped_journal org jid ?s' = Some (j\<lparr>je_status := J_APPROVED, je_approved_by := Some user,
           je_approved_at := Some now\<rparr>)"
    using assms(2) by (auto simp: scoped_journal_def get_set_row split: option.splits if_splits)
  moreover have "\<exists>row. audit_log ?s' = audit_log s @ [row] \<and> au_record_id row = jid \<and> au_user row = Some user
           \<and> au_old_status row = Some J_SUBMITTED \<and> au_new_status row = Some J_APPROVED"
    by (simp add: audit_def)
  ultimately show ?thesis unfolding if_not_P [OF False] by auto
qed

definition sample_submitted :: gldb where
  "sample_submitted = snd (request (exec_all [CreateJournal 1 sample_input 7 ''JE1'',
     SubmitJournal 1 30 7 5]) sample_start)"

lemma sample_submitted_facts:
  "case scoped_journal 1 30 sample_submitted of None \<Rightarrow> False
     | Some j \<Rightarrow> je_status j = J_SUBMITTED \<and> je_created_by j = 7"
  "1 \<in> set (sod_orgs sample_submitted)"
  by code_simp+

lemma sample_submitted_reachable: "reachable sample_submitted"
  unfolding sample_submitted_def
  by (metis gl_step.request prod.collapse reachable.step sample_reachable(1))

theorem approval_segregates_duties_witness:
  "approve_journal 1 30 7 6 sample_submitted = (Inl (HTTPException 403 SegregationOfDuties), sample_submitted)
   \<and> (\<exists>s'. approve_journal 1 30 8 6 sample_submitted = (Inr 30, s'))"
proof -
  obtain j where j: "scoped_journal 1 30 sample_submitted = Some j" "je_status j = J_SUBMITTED" "je_created_by j = 7"
    using sample_submitted_facts(1) by (auto split: option.splits)
  note a = approval_segregates_duties [OF sample_submitted_reachable j(1,2)]
  show ?thesis
    using a [of 7 6] a [of 8 6] j(3) sample_submitted_facts(2) by (auto split: if_splits)
qed

section \<open>The posting adapter\<close>

lemma get_row_set_journal:
  assumes "get_row je_id jid (journals s) = Some j" and "\<And>j. je_id (f j) = je_id j"
  shows "get_row je_id jid (journals (set_journal jid f s)) = Some (f j)"
  using assms by (simp add: get_set_row)

lemma system_approval_result:
  assumes j: "get_row je_id jid (journals s) = Some j" "je_org j = org" "je_status j = J_DRAFT"
    and a: "submit_and_approve_as_system org jid user now s = (Inr u, s')"
  shows "\<exists>j'. get_row je_id jid (journals s') = Some j' \<and> je_org j' = je_org j \<and> je_status j' = J_APPROVED
    \<and> je_posting_batch_id j' = je_posting_batch_id j" and "ledger s' = ledger s"
    and "jlines s' = jlines s" and "batches s' = batches s"
proof -
  define sub where "sub = (\<lambda>j. j\<lparr>je_status := J_SUBMITTED, je_submitted_by := Some user, je_submitted_at := Some now\<rparr> :: journal_entry)"
  define app where "app = (\<lambda>j. j\<lparr>je_status := J_APPROVED, je_approved_by := Some user, je_approved_at := Some now\<rparr> :: journal_entry)"
  let ?s1 = "audit org jid UPDATE (Some J_DRAFT) (Some J_SUBMITTED) (Some user) (set_journal jid sub s)"
  have sc: "scoped_journal org jid s = Some j" using j by (simp add: scoped_journal_def)
  have s1: "submit_journal org jid user now s = (Inr jid, ?s1)"
    using j by (simp add: submit_journal_def sc return_def sub_def)
  have r1: "get_row je_id jid (journals ?s1) = Some (sub j)"
    using get_row_set_journal [OF j(1), of sub] by (simp add: sub_def)
  then have sc1: "scoped_journal org jid ?s1 = Some (sub j)" using j by (simp add: scoped_journal_def sub_def)
  have st: "je_status (sub j) = J_SUBMITTED" by (simp add: sub_def)
  let ?audited = "audit org jid UPDATE (Some J_SUBMITTED) (Some J_APPROVED) (Some user) (set_journal jid app ?s1)"
  have ap: "approve_journal org jid user now ?s1 = (if je_created_by (sub j) = user \<and> org \<in> set (sod_orgs s)
      then (Inl (HTTPException 403 SegregationOfDuties), ?s1) else (Inr jid, ?audited))"
    using sc1 st by (simp add: approve_journal_def raise_def return_def app_def)
  have "s' = set_journal jid app ?s1 \<or> s' = ?audited"
    using a by (auto simp: submit_and_approve_as_system_def s1 ap app_def [symmetric] split: if_splits)
  moreover have "get_row je_id jid (journals (set_journal jid app ?s1)) = Some (app (sub j))"
    by (rule get_row_set_journal [OF r1]) (simp add: app_def)
  ultimately show "\<exists>j'. get_row je_id jid (journals s') = Some j' \<and> je_org j' = je_org j \<and> je_status j' = J_APPROVED
      \<and> je_posting_batch_id j' = je_posting_batch_id j" and "ledger s' = ledger s"
      and "jlines s' = jlines s" and "batches s' = batches s"
    by (auto simp: app_def sub_def)
qed

lemma create_and_approve_result:
  assumes inv: "gl_inv s" and c: "create_and_approve_journal org i user number now s = (Inr (Inr jid), s')"
  shows "\<exists>j. get_row je_id jid (journals s') = Some j \<and> je_org j = org \<and> je_status j = J_APPROVED
    \<and> je_posting_batch_id j = None" and "ledger s' = ledger s"
proof -
  obtain s1 where cr: "create_journal org i user number s = (Inr jid, s1)"
    and ap: "submit_and_approve_as_system org jid user now s1 = (Inr (), s')"
    using c by (auto simp: create_and_approve_journal_def bind_Inr raise_def return_def
        split: prod.splits sum.splits gl_error.splits)
  have "(\<exists>j. get_row je_id jid (journals s1) = Some j \<and> je_org j = org \<and> je_status j = J_DRAFT
      \<and> je_posting_batch_id j = None) \<and> ledger s1 = ledger s"
    using cr
  proof (rule create_journal_InrE)
    fix p td assume jid: "jid = next_uuid s" and s1: "s1 = audit org (next_uuid s) INSERT None None (Some user)
      (insert_journal (new_journal (next_uuid s) org number (fp_id p) i td td user)
         (new_lines i (next_uuid s) (next_uuid s + 1) 0 (ji_lines i)) (next_uuid s + 1 + length (ji_lines i)) s)"
    have "get_row je_id jid (journals s) = None"
      using inv jid by (auto simp: get_row_None_iff gl_inv_def ids_ok_def)
    then show ?thesis by (simp add: s1 jid get_row_append) (simp add: new_journal_def)
  qed
  then obtain j where j: "get_row je_id jid (journals s1) = Some j" "je_org j = org" "je_status j = J_DRAFT"
      "je_posting_batch_id j = None" and l: "ledger s1 = ledger s" by blast
  from system_approval_result [OF j(1,2,3) ap] j l
  show "\<exists>j. get_row je_id jid (journals s') = Some j \<and> je_org j = org \<and> je_status j = J_APPROVED
      \<and> je_posting_batch_id j = None" and "ledger s' = ledger s" by auto
qed

text \<open>What the adapter makes of the three outcomes of the posting.\<close>

lemma refused_posting_reverted:
  assumes "get_row je_id jid (journals s) = Some j" and "je_status j = J_APPROVED" and "je_posting_batch_id j = None"
    and "post_journal_entry (adapter_request org jid d key src corr user) now s = (Inl e, t)"
    and "(\<exists>k. e = IntegrityError k) \<or> books_kept s t"
    and "post_to_ledger org jid d key src corr user now s = (Inr r, s')"
  shows "\<not> ar_success r" and "get_row je_id jid (journals s')
      = Some (j\<lparr>je_status := J_DRAFT, je_approved_by := None, je_approved_at := None\<rparr>)" and "ledger s' = ledger s"
proof -
  obtain c e' where e: "e = HTTPException c e'" using assms(4,6) by (cases e) (auto simp: post_to_ledger_def raise_def)
  then have k: "books_kept s t" using assms(5) by simp
  have rt: "get_row je_id jid (journals t) = Some j" using assms(1) books_keptD(1) [OF k] by simp
  have r: "r = failed_result (Some jid) e'" "s' = revert_unposted_journal jid t"
    using assms(4,6) e by (auto simp: post_to_ledger_def)
  then have s': "s' = set_journal jid (\<lambda>j. j\<lparr>je_status := J_DRAFT, je_approved_by := None, je_approved_at := None\<rparr>) t"
    using rt assms(2,3) by (simp add: revert_unposted_journal_def)
  show "\<not> ar_success r" by (simp add: r(1) failed_result_def)
  show "get_row je_id jid (journals s')
      = Some (j\<lparr>je_status := J_DRAFT, je_approved_by := None, je_approved_at := None\<rparr>)"
    unfolding s' by (rule get_row_set_journal [OF rt]) simp
  show "ledger s' = ledger s" using s' books_keptD(3) [OF k] by simp
qed

lemma posted_row:
  assumes "posts (adapter_request org jid d key src corr user) j' pid bid now s t"
    and "get_row je_id jid (journals s) = Some j"
  shows "\<exists>x \<in> set (journals t). je_id x = jid \<and> je_org x = je_org j \<and> je_status x = J_POSTED
    \<and> je_posting_batch_id x = Some bid"
proof -
  have "journals t = set_row je_id jid (\<lambda>k. k\<lparr>je_status := J_POSTED, je_posting_batch_id := Some bid,
      je_posted_at := Some now, je_posted_by := Some user\<rparr>) (journals s)"
    using assms(1) by (simp add: posts_def adapter_request_def)
  moreover have "j \<in> set (journals s)" "je_id j = jid" using get_row_SomeD [OF assms(2)] by simp_all
  ultimately show ?thesis by (simp only:) (rule set_row_updated [where r = j], simp_all)
qed

text \<open>C8: an adapter leaves no journal stranded by a refusal. When
  \<open>create_approve_and_post_journal\<close> has created a journal, then afterwards the journal is
  POSTED under the batch the result names; or, when the posting was refused, back in DRAFT
  with no approver and no batch; or, when the idempotency key had been used before, still
  APPROVED and outside the ledger, which the result reports as a replay.\<close>

theorem adapter_never_strands:
  assumes "reachable s"
    and "create_approve_and_post_journal org i user number d key src corr now s = (Inr (Some jid, r), s')"
  shows "\<exists>j \<in> set (journals s'). je_id j = jid \<and> je_org j = org
    \<and> (if \<not> ar_success r then je_status j = J_DRAFT \<and> je_approved_by j = None
           \<and> je_posting_batch_id j = None \<and> ledger s' = ledger s
       else if ar_idempotent_replay r then je_status j = J_APPROVED \<and> je_posting_batch_id j = None
           \<and> ledger s' = ledger s
       else je_status j = J_POSTED \<and> je_posting_batch_id j = ar_posting_batch_id r
           \<and> je_posting_batch_id j \<noteq> None)"
proof -
  have inv: "gl_inv s" by (rule gl_inv_reachable [OF assms(1)])
  obtain s1 where c: "create_and_approve_journal org i user number now s = (Inr (Inr jid), s1)"
    and p: "post_to_ledger org jid d key src corr user now s1 = (Inr r, s')"
  proof -
    obtain cr s1 where "create_and_approve_journal org i user number now s = (Inr cr, s1)"
      and "(case cr of Inl e \<Rightarrow> return (None, e) s1 | Inr jid \<Rightarrow>
          bind_tx (post_to_ledger org jid d key src corr user now s1) (\<lambda>r s2. return (Some jid, r) s2))
        = (Inr (Some jid, r), s')"
      using assms(2) unfolding create_approve_and_post_journal_def by (rule bind_InrE)
    then show thesis using that by (cases cr) (auto simp: bind_Inr)
  qed
  obtain j where j: "get_row je_id jid (journals s1) = Some j" "je_org j = org" "je_status j = J_APPROVED"
      "je_posting_batch_id j = None" and l: "ledger s1 = ledger s"
    using create_and_approve_result [OF inv c] by blast
  obtain r1 t where pj: "post_journal_entry (adapter_request org jid d key src corr user) now s1 = (r1, t)" by fastforce
  from pj show ?thesis
  proof (cases rule: post_journal_entry_cases)
    case (refused e)
    note reverted = refused_posting_reverted [OF j(1,3,4) pj [unfolded refused(1)] refused(2) p]
    show ?thesis
      using reverted j(2,4) l get_row_SomeD [OF reverted(2)]
      by (intro bexI [of _ "j\<lparr>je_status := J_DRAFT, je_approved_by := None, je_approved_at := None\<rparr>"]) simp_all
  next
    case (replayed b)
    then have "s' = s1" "ar_success r" "ar_idempotent_replay r"
      using p pj by (auto simp: post_to_ledger_def replay_result_def)
    then show ?thesis using j get_row_SomeD [OF j(1)] l by (intro bexI [of _ j]) simp_all
  next
    case (posted res j' pid bid)
    have r: "s' = t" "ar_success r" "\<not> ar_idempotent_replay r" "ar_posting_batch_id r = Some bid"
      using p pj posted by (auto simp: post_to_ledger_def)
    then show ?thesis using posted_row [OF posted(2) j(1)] j(2) by auto
  qed
qed

lemma sample_adapter_runs:
  "case fst (create_approve_and_post_journal 1 sample_input 7 ''JE2'' (Date 6 1 15) ''k2'' ''AR'' None 6 sample_closed) of
     Inr (jo, r) \<Rightarrow> jo = Some 38 \<and> \<not> ar_success r | _ \<Rightarrow> False"
  by code_simp

theorem adapter_never_strands_witness:
  "\<exists>r s'. create_approve_and_post_journal 1 sample_input 7 ''JE2'' (Date 6 1 15) ''k2'' ''AR'' None 6 sample_closed
       = (Inr (Some 38, r), s')
    \<and> \<not> ar_success r \<and> (\<exists>j \<in> set (journals s'). je_id j = 38 \<and> je_status j = J_DRAFT
        \<and> je_approved_by j = None \<and> je_posting_batch_id j = None \<and> ledger s' = ledger sample_closed)"
proof -
  obtain r s' where c: "create_approve_and_post_journal 1 sample_input 7 ''JE2'' (Date 6 1 15) ''k2'' ''AR'' None 6 sample_closed
       = (Inr (Some 38, r), s')" and "\<not> ar_success r"
    using sample_adapter_runs
    by (cases "create_approve_and_post_journal 1 sample_input 7 ''JE2'' (Date 6 1 15) ''k2'' ''AR'' None 6 sample_closed")
      (auto split: sum.splits)
  then show ?thesis using adapter_never_strands [OF sample_reachable(3) c] by auto
qed

section \<open>Findings\<close>

text \<open>An invoice of 1.00 in a foreign currency, split in three lines, at the rate 1.00001.\<close>

definition fx_line :: "uuid \<Rightarrow> decimal \<Rightarrow> decimal \<Rightarrow> line_input" where
  "fx_line a d c = \<lparr>li_account = a, li_debit = d, li_credit = c, li_description = None,
     li_debit_functional = None, li_credit_functional = None, li_currency_code = None,
     li_exchange_rate = None, li_dims = no_dims\<rparr>"

definition fx_input :: journal_input where
  "fx_input = sample_input\<lparr>ji_currency_code := ''USD'', ji_exchange_rate := 100001 / 100000,
     ji_lines := [fx_line 2 (33 / 100) 0, fx_line 2 (33 / 100) 0, fx_line 2 (34 / 100) 0, fx_line 3 0 1]\<rparr>"

lemma fx_functional:
  "dec28 (3300033 / 10000000) = 3300033 / 10000000" "dec28 (1700017 / 5000000) = 1700017 / 5000000"
  "dec28 (100001 / 100000) = 100001 / 100000"
  by (rule dec28_exact [where d = 7 and e = 1]; simp add: at_scale_def)+

text \<open>C17: balanced in its own currency, refused by the ledger. A foreign-currency journal that
  \<open>create_journal\<close> accepts as balanced can have stored rows that the ledger's balance check
  refuses, here by one micro-unit, because each functional line is rounded by itself.\<close>

theorem fx_journal_refused_by_ledger:
  assumes "reachable s" and "create_journal org fx_input user number s = (Inr jid, s')"
  shows "validate_balance (map entry_of_line (lines_of s' jid))
    = Some (Unbalanced (1000009 / 1000000) (100001 / 100000))"
proof -
  have "lines_of s' jid = new_lines fx_input jid (jid + 1) 0 (ji_lines fx_input)"
    by (rule lines_of_create [OF gl_inv_reachable [OF assms(1)] assms(2)])
  moreover have "map jl_debit_functional (new_lines fx_input jid u n (ji_lines fx_input))
      = map numeric6 [3300033 / 10000000, 3300033 / 10000000, 3400034 / 10000000, 0]"
    and "map jl_credit_functional (new_lines fx_input jid u n (ji_lines fx_input))
      = map numeric6 [0, 0, 0, 100001 / 100000]" for u n
    by (simp_all add: fx_input_def fx_line_def new_line_def functional_debit_def functional_credit_def
        functional_def dec_mul_def fx_functional)
  ultimately have "map jl_debit_functional (lines_of s' jid)
      = map numeric6 [3300033 / 10000000, 3300033 / 10000000, 3400034 / 10000000, 0]"
    and "map jl_credit_functional (lines_of s' jid) = map numeric6 [0, 0, 0, 100001 / 100000]"
    by simp_all
  moreover have "map pe_debit_functional (map entry_of_line ls) = map jl_debit_functional ls"
    "map pe_credit_functional (map entry_of_line ls) = map jl_credit_functional ls" for ls
    by (simp_all add: entry_of_line_def)
  ultimately show ?thesis
    unfolding validate_balance_def Let_def
    by (simp only:) (simp add: sum_at_persisted_scale_def quantize_half_up_def half_up_def)
qed

lemma fx_creation: "fst (create_journal 1 fx_input 7 ''JE2'' sample_posted) = Inr 38"
proof -
  have "require_balanced (ji_lines fx_input) = Inr (1, 1)"
    by (simp add: require_balanced_def fx_input_def fx_line_def Let_def sum_at_persisted_scale_def
        quantize_half_up_def half_up_def)
  moreover have "blocked_accounts sample_posted (ji_lines fx_input) = []"
    by (simp add: fx_input_def fx_line_def blocked_accounts_def) code_simp
  moreover have "ji_lines fx_input \<noteq> []" "ji_posting_date fx_input = Date 6 1 15"
    by (simp_all add: fx_input_def sample_input_def)
  moreover have "case get_period_for_date sample_posted 1 (Date 6 1 15) of None \<Rightarrow> False | Some p \<Rightarrow> True"
    by code_simp
  ultimately show ?thesis
    using sample_reversible(4,5) by (auto simp: create_journal_def Let_def return_def split: option.splits)
qed

theorem fx_journal_refused_by_ledger_witness:
  "\<exists>s'. create_journal 1 fx_input 7 ''JE2'' sample_posted = (Inr 38, s')
    \<and> validate_balance (map entry_of_line (lines_of s' 38))
      = Some (Unbalanced (1000009 / 1000000) (100001 / 100000))"
proof -
  obtain s' where c: "create_journal 1 fx_input 7 ''JE2'' sample_posted = (Inr 38, s')"
    using fx_creation by (metis prod.collapse)
  then show ?thesis using fx_journal_refused_by_ledger [OF sample_reachable(2) c] by blast
qed

lemma create_draft_reversal:
  assumes inv: "gl_inv s"
    and c: "create_reversal org jid d user reason False key adj sess number now s = (Inr res, s')"
  obtains j rvl where "scoped_journal org jid s = Some j" "je_status j = J_POSTED"
    "rr_journal_id res = Some (je_id rvl)" "je_id rvl = next_uuid s" "s' = insert_reversal j rvl s"
proof -
  from c obtain j p where j: "scoped_journal org jid s = Some j" "je_status j = J_POSTED"
      "je_reversal_journal_id j = None" and per: "get_period_for_date s org d = Some p"
    by (auto simp: create_reversal_def split: option.splits if_splits)
  define rvl where "rvl = reversal_of (next_uuid s) number (fp_id p) d user reason False now j"
  have id: "je_id rvl = next_uuid s" by (simp add: rvl_def reversal_of_def)
  have "\<not> number_taken s org number"
    using c by (auto simp: create_reversal_def j per Let_def split: if_splits)
  then have "rr_journal_id res = Some (je_id rvl)" "s' = insert_reversal j rvl s"
    using c by (auto simp: create_reversal_def j per Let_def rvl_def)
  then show thesis using that j id by blast
qed

text \<open>C16: voiding a draft reversal leaves its original unreversible. After a reversal that was not
  posted has been voided, the original is still POSTED, the ledger is as it was, and the
  original is refused as already reversed.\<close>

theorem voided_reversal_blocks_original:
  assumes "reachable s"
    and "create_reversal org jid d user reason False key adj sess number now s = (Inr res, s1)"
    and "rr_journal_id res = Some rid" and "void_journal org rid u s1 = (Inr v, s2)"
  shows "(\<exists>j. scoped_journal org jid s2 = Some j \<and> je_status j = J_POSTED)
    \<and> (\<exists>r. get_row je_id rid (journals s2) = Some r \<and> je_status r = J_VOID)
    \<and> ledger s2 = ledger s
    \<and> can_reverse org jid s2 = (False, Some AlreadyReversed)"
proof -
  have inv: "gl_inv s" by (rule gl_inv_reachable [OF assms(1)])
  obtain j rvl where j: "scoped_journal org jid s = Some j" "je_status j = J_POSTED"
    and rid: "rid = je_id rvl" "rid = next_uuid s" and s1: "s1 = insert_reversal j rvl s"
    using assms(3) by (metis create_draft_reversal [OF inv assms(2)] option.inject)
  have jm: "get_row je_id jid (journals s) = Some j" "je_org j = org" "je_id j = jid"
    using j(1) scoped_journal_SomeD [OF j(1)] by (auto simp: scoped_journal_def split: option.splits if_splits)
  have "j \<in> set (journals s)" using get_row_SomeD [OF jm(1)] by simp
  then have new: "jid \<noteq> rid" using inv rid(2) jm(3) by (auto simp: gl_inv_def ids_ok_def)
  have js1: "journals s1 = set_row je_id jid (\<lambda>j. j\<lparr>je_reversal_journal_id := Some rid\<rparr>) (journals s @ [rvl])"
    by (simp add: s1 insert_reversal_def Let_def jm rid(1))
  have r1: "get_row je_id jid (journals s1) = Some (j\<lparr>je_reversal_journal_id := Some rid\<rparr>)"
    unfolding js1 using jm by (simp add: get_set_row get_row_append)
  have l1: "ledger s1 = ledger s" by (simp add: s1 insert_reversal_def Let_def)
  from assms(4) obtain k where k: "scoped_journal org rid s1 = Some k"
    and s2: "s2 = audit org rid UPDATE (Some (je_status k)) (Some J_VOID) (Some u)
        (set_journal rid (\<lambda>j. j\<lparr>je_status := J_VOID\<rparr>) s1)"
    by (auto simp: void_journal_def split: option.splits if_splits)
  have rk: "get_row je_id rid (journals s1) = Some k"
    using k by (auto simp: scoped_journal_def split: option.splits if_splits)
  have r2: "get_row je_id jid (journals s2) = Some (j\<lparr>je_reversal_journal_id := Some rid\<rparr>)"
    using r1 new by (simp add: s2 get_set_row)
  have "get_row je_id rid (journals s2) = Some (k\<lparr>je_status := J_VOID\<rparr>)"
    using rk by (simp add: s2 get_set_row)
  moreover have "scoped_journal org jid s2 = Some (j\<lparr>je_reversal_journal_id := Some rid\<rparr>)"
    using r2 jm by (simp add: scoped_journal_def)
  ultimately show ?thesis using j(2) l1 by (simp add: can_reverse_def s2)
qed

lemma sample_void_run:
  "fst (exec_all [CreateReversal 1 30 (Date 6 1 20) 7 ''Error'' False None False None ''JE2'' 6, VoidJournal 1 38 7]
      sample_posted) = Inr ()"
  "case fst (create_reversal 1 30 (Date 6 1 20) 7 ''Error'' False None False None ''JE2'' 6 sample_posted) of
     Inr res \<Rightarrow> rr_journal_id res = Some 38 | _ \<Rightarrow> False"
  by code_simp+

theorem voided_reversal_blocks_original_witness:
  "\<exists>s2. exec_all [CreateReversal 1 30 (Date 6 1 20) 7 ''Error'' False None False None ''JE2'' 6, VoidJournal 1 38 7]
       sample_posted = (Inr (), s2)
    \<and> ledger s2 = ledger sample_posted \<and> can_reverse 1 30 s2 = (False, Some AlreadyReversed)"
proof -
  obtain s2 where run: "exec_all [CreateReversal 1 30 (Date 6 1 20) 7 ''Error'' False None False None ''JE2'' 6,
      VoidJournal 1 38 7] sample_posted = (Inr (), s2)"
    using sample_void_run(1) by (metis prod.collapse)
  then obtain res s1 v where c: "create_reversal 1 30 (Date 6 1 20) 7 ''Error'' False None False None ''JE2'' 6 sample_posted
       = (Inr res, s1)" and vo: "void_journal 1 38 7 s1 = (Inr v, s2)"
    by (auto simp: done_tx_def bind_Inr)
  have "rr_journal_id res = Some 38" using sample_void_run(2) c by simp
  from voided_reversal_blocks_original [OF sample_reachable(2) c this vo] run show ?thesis by blast
qed

end
