(* ===== verification/Saga_Engine.thy ===== *)
theory Saga_Engine
  imports Erp_Prelude
begin

text \<open>
  \<open>app/services/finance/platform/saga_orchestrator.py\<close>, its rows
  \<open>app/models/finance/platform/saga_execution.py\<close>, and the recovery operations of
  \<open>saga_recovery.py\<close>: multi-step transactions whose steps are committed one by one and are
  compensated in reverse order when one of them fails.

  \<^item> The base class is abstract in its steps. An \<open>orchestrator\<close> record is an instance: its
    steps are functions on the \<open>world\<close>, the part of the database the sagas do not own. A step
    reads the payload and the context it is given; a step's outcome is the \<open>StepResult\<close> it
    returns, the exception it raises, or \<open>Interrupted\<close>: the process dies in the step, or its
    session cannot commit any more, and what is left is what had been committed.
  \<^item> JSON objects are maps from strings; \<open>context.update(d)\<close> is \<open>context ++ d\<close>.
  \<^item> Every \<open>db.commit()\<close> of the orchestrator directly follows the assignments it makes
    durable, so the session between two calls of step functions is the committed database, and
    a step that raises leaves its own uncommitted changes in it: nothing rolls them back, and
    the commit that records the failure writes them.
\<close>

type_synonym 'v json = "string \<rightharpoonup> 'v"

datatype saga_status = SG_PENDING | SG_EXECUTING | SG_COMPLETED | SG_COMPENSATING
  | SG_COMPENSATED | SG_FAILED

datatype step_status = ST_PENDING | ST_EXECUTING | ST_COMPLETED | ST_FAILED | ST_COMPENSATING
  | ST_COMPENSATED

record 'v saga_execution =
  sg_id :: uuid
  sg_org :: uuid
  sg_type :: string
  sg_idempotency_key :: string
  sg_correlation_id :: "string option"
  sg_status :: saga_status
  sg_current_step :: nat
  sg_payload :: "'v json"
  sg_context :: "'v json"
  sg_result :: "'v json option"
  sg_error_message :: "string option"
  sg_started_at :: timestamp
  sg_completed_at :: "timestamp option"
  sg_created_by :: uuid

record 'v saga_step =
  ss_saga :: uuid
  ss_number :: nat
  ss_name :: string
  ss_status :: step_status
  ss_input :: "('v json \<times> 'v json) option"
  ss_output :: "'v json option"
  ss_compensation :: "'v json option"
  ss_started_at :: "timestamp option"
  ss_completed_at :: "timestamp option"
  ss_error_message :: "string option"
  ss_retry_count :: nat

record 'v step_result =
  sp_success :: bool
  sp_output :: "'v json"
  sp_compensation :: "'v json"
  sp_error :: "string option"

datatype 'v step_outcome = Finished "'v step_result" | Raised string | Interrupted

datatype undo_outcome = Undone bool | Undo_raised string | Undo_interrupted

record ('w, 'v) step_def =
  sd_name :: string
  sd_execute :: "'w \<Rightarrow> 'v json \<Rightarrow> 'v json \<Rightarrow> 'v step_outcome \<times> 'w"
  sd_compensate :: "('w \<Rightarrow> 'v json \<Rightarrow> 'v json \<Rightarrow> undo_outcome \<times> 'w) option"

record ('w, 'v) orchestrator =
  oc_type :: string
  oc_steps :: "('w, 'v) step_def list"
  oc_build_result :: "'v json \<Rightarrow> 'v json \<Rightarrow> 'v json"

record 'v saga_result =
  sr_success :: bool
  sr_saga_id :: uuid
  sr_result :: "'v json"
  sr_error :: "string option"
  sr_was_compensated :: bool

record ('w, 'v) saga_db =
  sagas :: "'v saga_execution list"
  saga_steps :: "'v saga_step list"
  world :: 'w
  next_saga :: uuid

datatype saga_error = Session_lost | No_result_found | Index_error | Saga_not_found
  | No_orchestrator string

section \<open>Rows\<close>

abbreviation step_key :: "'v saga_step \<Rightarrow> uuid \<times> nat" where
  "step_key r \<equiv> (ss_saga r, ss_number r)"

definition get_saga :: "uuid \<Rightarrow> ('w, 'v) saga_db \<Rightarrow> 'v saga_execution option" where
  "get_saga sid s = get_row sg_id sid (sagas s)"

definition get_saga_by_idempotency_key :: "string \<Rightarrow> ('w, 'v) saga_db \<Rightarrow> 'v saga_execution option" where
  "get_saga_by_idempotency_key key s = get_row sg_idempotency_key key (sagas s)"

definition get_step :: "uuid \<Rightarrow> nat \<Rightarrow> ('w, 'v) saga_db \<Rightarrow> 'v saga_step option" where
  "get_step sid i s = get_row step_key (sid, i) (saga_steps s)"

definition set_saga :: "uuid \<Rightarrow> ('v saga_execution \<Rightarrow> 'v saga_execution) \<Rightarrow> ('w, 'v) saga_db
    \<Rightarrow> ('w, 'v) saga_db" where
  "set_saga sid f s = s\<lparr>sagas := set_row sg_id sid f (sagas s)\<rparr>"

definition set_step :: "uuid \<Rightarrow> nat \<Rightarrow> ('v saga_step \<Rightarrow> 'v saga_step) \<Rightarrow> ('w, 'v) saga_db
    \<Rightarrow> ('w, 'v) saga_db" where
  "set_step sid i f s = s\<lparr>saga_steps := set_row step_key (sid, i) f (saga_steps s)\<rparr>"

definition json_or_empty :: "'v json option \<Rightarrow> 'v json" where
  "json_or_empty d = (case d of Some m \<Rightarrow> m | None \<Rightarrow> Map.empty)"

section \<open>Compensation\<close>

text \<open>The loop of \<open>_compensate_steps\<close> over \<open>range(current_step - 1, -1, -1)\<close>: \<open>n\<close> steps are left,
  the next one is \<open>n - 1\<close>. The boolean is \<open>compensation_failed\<close>.\<close>

fun compensate_from :: "('w, 'v) orchestrator \<Rightarrow> uuid \<Rightarrow> timestamp \<Rightarrow> 'v json \<Rightarrow> nat \<Rightarrow> bool
    \<Rightarrow> ('w, 'v) saga_db \<Rightarrow> (saga_error, bool, ('w, 'v) saga_db) tx" where
  "compensate_from orc sid now payload 0 failed s = return failed s"
| "compensate_from orc sid now payload (Suc i) failed s =
    (if length (oc_steps orc) \<le> i then raise Index_error s
     else case get_step sid i s of
       None \<Rightarrow> raise No_result_found s
     | Some step \<Rightarrow>
         if ss_status step \<noteq> ST_COMPLETED then compensate_from orc sid now payload i failed s
         else (case sd_compensate (oc_steps orc ! i) of
           None \<Rightarrow> compensate_from orc sid now payload i failed
             (set_step sid i (\<lambda>r. r\<lparr>ss_status := ST_COMPENSATED, ss_completed_at := Some now\<rparr>) s)
         | Some undo \<Rightarrow>
             (let s1 = set_step sid i (\<lambda>r. r\<lparr>ss_status := ST_COMPENSATING\<rparr>) s in
              case undo (world s1) payload (json_or_empty (ss_compensation step)) of
                (Undo_interrupted, w) \<Rightarrow> raise Session_lost (s1\<lparr>world := w\<rparr>)
              | (Undone True, w) \<Rightarrow> compensate_from orc sid now payload i failed
                  (set_step sid i (\<lambda>r. r\<lparr>ss_status := ST_COMPENSATED, ss_completed_at := Some now\<rparr>)
                    (s1\<lparr>world := w\<rparr>))
              | (Undone False, w) \<Rightarrow> compensate_from orc sid now payload i True
                  (set_step sid i (\<lambda>r. r\<lparr>ss_retry_count := ss_retry_count r + 1\<rparr>) (s1\<lparr>world := w\<rparr>))
              | (Undo_raised m, w) \<Rightarrow> compensate_from orc sid now payload i True
                  (set_step sid i (\<lambda>r. r\<lparr>ss_error_message := Some (''Compensation failed: '' @ m),
                     ss_retry_count := ss_retry_count r + 1\<rparr>) (s1\<lparr>world := w\<rparr>)))))"

definition error_or :: "string \<Rightarrow> string option \<Rightarrow> string" where
  "error_or d e = (case e of Some m \<Rightarrow> if m = [] then d else m | None \<Rightarrow> d)"

definition close_compensation :: "bool \<Rightarrow> timestamp \<Rightarrow> 'v saga_execution \<Rightarrow> 'v saga_execution" where
  "close_compensation failed now g = (if failed
     then g\<lparr>sg_status := SG_FAILED, sg_error_message := Some (error_or ''Compensation failed'' (sg_error_message g)),
        sg_completed_at := Some now\<rparr>
     else g\<lparr>sg_status := SG_COMPENSATED, sg_completed_at := Some now\<rparr>)"

definition compensate_steps :: "('w, 'v) orchestrator \<Rightarrow> 'v saga_execution \<Rightarrow> timestamp
    \<Rightarrow> ('w, 'v) saga_db \<Rightarrow> (saga_error, 'v saga_result, ('w, 'v) saga_db) tx" where
  "compensate_steps orc g now s =
    bind_tx (compensate_from orc (sg_id g) now (sg_payload g) (sg_current_step g) False
        (set_saga (sg_id g) (\<lambda>g. g\<lparr>sg_status := SG_COMPENSATING\<rparr>) s)) (\<lambda>failed s1.
      let s2 = set_saga (sg_id g) (close_compensation failed now) s1
      in return \<lparr>sr_success = False, sr_saga_id = sg_id g, sr_result = Map.empty,
           sr_error = sg_error_message (close_compensation failed now g),
           sr_was_compensated = \<not> failed\<rparr> s2)"

section \<open>Execution\<close>

definition step_failure :: "string \<Rightarrow> string option \<Rightarrow> string" where
  "step_failure name e = ''Step '' @ [CHR 0x27] @ name @ [CHR 0x27] @ '' failed: ''
     @ (case e of Some m \<Rightarrow> m | None \<Rightarrow> ''None'')"

definition begin_step :: "uuid \<Rightarrow> nat \<Rightarrow> timestamp \<Rightarrow> 'v json \<Rightarrow> 'v json \<Rightarrow> ('w, 'v) saga_db
    \<Rightarrow> ('w, 'v) saga_db" where
  "begin_step sid i now payload ctx = set_step sid i (\<lambda>r. r\<lparr>ss_status := ST_EXECUTING,
     ss_started_at := Some now, ss_input := Some (payload, ctx)\<rparr>)"

definition complete_step :: "uuid \<Rightarrow> nat \<Rightarrow> timestamp \<Rightarrow> 'v step_result \<Rightarrow> 'v json \<Rightarrow> ('w, 'v) saga_db
    \<Rightarrow> ('w, 'v) saga_db" where
  "complete_step sid i now r ctx s =
    set_saga sid (\<lambda>g. g\<lparr>sg_context := ctx, sg_current_step := i + 1\<rparr>)
      (set_step sid i (\<lambda>t. t\<lparr>ss_status := ST_COMPLETED, ss_completed_at := Some now,
         ss_output := Some (sp_output r), ss_compensation := Some (sp_compensation r)\<rparr>) s)"

definition fail_step :: "uuid \<Rightarrow> nat \<Rightarrow> timestamp \<Rightarrow> string \<Rightarrow> string option \<Rightarrow> ('w, 'v) saga_db
    \<Rightarrow> ('w, 'v) saga_db" where
  "fail_step sid i now name e s =
    set_saga sid (\<lambda>g. g\<lparr>sg_error_message := Some (step_failure name e)\<rparr>)
      (set_step sid i (\<lambda>t. t\<lparr>ss_status := ST_FAILED, ss_completed_at := Some now,
         ss_error_message := e\<rparr>) s)"

text \<open>The compensation of the saga as its row now stands.\<close>

definition compensate_now :: "('w, 'v) orchestrator \<Rightarrow> uuid \<Rightarrow> timestamp \<Rightarrow> ('w, 'v) saga_db
    \<Rightarrow> (saga_error, 'v saga_result, ('w, 'v) saga_db) tx" where
  "compensate_now orc sid now s = (case get_saga sid s of
     None \<Rightarrow> raise Saga_not_found s | Some g \<Rightarrow> compensate_steps orc g now s)"

fun run_steps :: "('w, 'v) orchestrator \<Rightarrow> uuid \<Rightarrow> timestamp \<Rightarrow> 'v json \<Rightarrow> nat
    \<Rightarrow> ('w, 'v) step_def list \<Rightarrow> 'v json \<Rightarrow> ('w, 'v) saga_db
    \<Rightarrow> (saga_error, 'v saga_result, ('w, 'v) saga_db) tx" where
  "run_steps orc sid now payload i [] ctx s =
     return \<lparr>sr_success = True, sr_saga_id = sid, sr_result = oc_build_result orc payload ctx,
        sr_error = None, sr_was_compensated = False\<rparr>
      (set_saga sid (\<lambda>g. g\<lparr>sg_status := SG_COMPLETED, sg_completed_at := Some now,
         sg_result := Some (oc_build_result orc payload ctx)\<rparr>) s)"
| "run_steps orc sid now payload i (d # ds) ctx s = (case get_step sid i s of
     None \<Rightarrow> raise No_result_found s
   | Some step \<Rightarrow>
       if ss_status step = ST_COMPLETED
       then run_steps orc sid now payload (i + 1) ds (ctx ++ json_or_empty (ss_output step)) s
       else (let s1 = begin_step sid i now payload ctx s in
         case sd_execute d (world s1) payload ctx of
           (Interrupted, w) \<Rightarrow> raise Session_lost (s1\<lparr>world := w\<rparr>)
         | (Raised m, w) \<Rightarrow> compensate_now orc sid now
             (fail_step sid i now (sd_name d) (Some m) (s1\<lparr>world := w\<rparr>))
         | (Finished r, w) \<Rightarrow>
             if sp_success r
             then run_steps orc sid now payload (i + 1) ds (ctx ++ sp_output r)
               (complete_step sid i now r (ctx ++ sp_output r) (s1\<lparr>world := w\<rparr>))
             else compensate_now orc sid now
               (fail_step sid i now (sd_name d) (sp_error r) (s1\<lparr>world := w\<rparr>))))"

definition execute_steps :: "('w, 'v) orchestrator \<Rightarrow> 'v saga_execution \<Rightarrow> timestamp
    \<Rightarrow> ('w, 'v) saga_db \<Rightarrow> (saga_error, 'v saga_result, ('w, 'v) saga_db) tx" where
  "execute_steps orc g now s =
     run_steps orc (sg_id g) now (sg_payload g) (sg_current_step g)
       (drop (sg_current_step g) (oc_steps orc)) (sg_context g)
       (set_saga (sg_id g) (\<lambda>g. g\<lparr>sg_status := SG_EXECUTING\<rparr>) s)"

definition handle_existing_saga :: "('w, 'v) orchestrator \<Rightarrow> 'v saga_execution \<Rightarrow> timestamp
    \<Rightarrow> ('w, 'v) saga_db \<Rightarrow> (saga_error, 'v saga_result, ('w, 'v) saga_db) tx" where
  "handle_existing_saga orc g now s =
    (if sg_status g = SG_COMPLETED
     then return \<lparr>sr_success = True, sr_saga_id = sg_id g, sr_result = json_or_empty (sg_result g),
       sr_error = None, sr_was_compensated = False\<rparr> s
     else if sg_status g = SG_COMPENSATED
     then return \<lparr>sr_success = False, sr_saga_id = sg_id g, sr_result = Map.empty,
       sr_error = Some (error_or ''Saga was compensated'' (sg_error_message g)),
       sr_was_compensated = True\<rparr> s
     else if sg_status g = SG_FAILED
     then return \<lparr>sr_success = False, sr_saga_id = sg_id g, sr_result = Map.empty,
       sr_error = Some (error_or ''Saga failed'' (sg_error_message g)), sr_was_compensated = False\<rparr> s
     else if sg_status g = SG_COMPENSATING then compensate_steps orc g now s
     else execute_steps orc g now s)"

definition new_saga :: "('w, 'v) orchestrator \<Rightarrow> uuid \<Rightarrow> uuid \<Rightarrow> 'v json \<Rightarrow> string \<Rightarrow> uuid
    \<Rightarrow> string option \<Rightarrow> timestamp \<Rightarrow> 'v saga_execution" where
  "new_saga orc sid org payload key user correlation now = \<lparr>sg_id = sid, sg_org = org,
     sg_type = oc_type orc, sg_idempotency_key = key, sg_correlation_id = correlation,
     sg_status = SG_PENDING, sg_current_step = 0, sg_payload = payload, sg_context = Map.empty,
     sg_result = None, sg_error_message = None, sg_started_at = now, sg_completed_at = None,
     sg_created_by = user\<rparr>"

definition new_step :: "uuid \<Rightarrow> nat \<Rightarrow> string \<Rightarrow> 'v saga_step" where
  "new_step sid i name = \<lparr>ss_saga = sid, ss_number = i, ss_name = name, ss_status = ST_PENDING,
     ss_input = None, ss_output = None, ss_compensation = None, ss_started_at = None,
     ss_completed_at = None, ss_error_message = None, ss_retry_count = 0\<rparr>"

fun new_steps :: "uuid \<Rightarrow> nat \<Rightarrow> ('w, 'v) step_def list \<Rightarrow> 'v saga_step list" where
  "new_steps sid i [] = []"
| "new_steps sid i (d # ds) = new_step sid i (sd_name d) # new_steps sid (i + 1) ds"

definition execute :: "('w, 'v) orchestrator \<Rightarrow> uuid \<Rightarrow> 'v json \<Rightarrow> string \<Rightarrow> uuid \<Rightarrow> string option
    \<Rightarrow> timestamp \<Rightarrow> ('w, 'v) saga_db \<Rightarrow> (saga_error, 'v saga_result, ('w, 'v) saga_db) tx" where
  "execute orc org payload key user correlation now s =
    (case get_saga_by_idempotency_key key s of
       Some g \<Rightarrow> handle_existing_saga orc g now s
     | None \<Rightarrow>
        (let g = new_saga orc (next_saga s) org payload key user correlation now in
         execute_steps orc g now (s\<lparr>sagas := add_row g (sagas s),
           saga_steps := saga_steps s @ new_steps (next_saga s) 0 (oc_steps orc),
           next_saga := Suc (next_saga s)\<rparr>)))"

section \<open>Recovery\<close>

text \<open>\<open>SagaRecoveryService\<close>; the registry \<open>saga_factory\<close> is a map from saga types.\<close>

definition recover_saga :: "(string \<rightharpoonup> ('w, 'v) orchestrator) \<Rightarrow> uuid \<Rightarrow> bool \<Rightarrow> timestamp
    \<Rightarrow> ('w, 'v) saga_db \<Rightarrow> (saga_error, bool, ('w, 'v) saga_db) tx" where
  "recover_saga factory sid force_compensate now s = (case get_saga sid s of
     None \<Rightarrow> return False s
   | Some g \<Rightarrow>
       if sg_status g \<in> {SG_COMPLETED, SG_COMPENSATED, SG_FAILED} then return True s
       else (case factory (sg_type g) of
         None \<Rightarrow> return False s
       | Some orc \<Rightarrow>
           if force_compensate \<or> sg_status g = SG_COMPENSATING
           then bind_tx (compensate_steps orc g now s) (\<lambda>r. return (sr_was_compensated r))
           else bind_tx (execute_steps orc g now s) (\<lambda>r. return (sr_success r))))"

definition mark_failed :: "uuid \<Rightarrow> string \<Rightarrow> timestamp \<Rightarrow> ('w, 'v) saga_db
    \<Rightarrow> (saga_error, uuid, ('w, 'v) saga_db) tx" where
  "mark_failed sid reason now s = (case get_saga sid s of
     None \<Rightarrow> raise Saga_not_found s
   | Some g \<Rightarrow> return sid (set_saga sid (\<lambda>g. g\<lparr>sg_status := SG_FAILED,
       sg_error_message := Some reason, sg_completed_at := Some now\<rparr>) s))"

definition retry_compensation :: "(string \<rightharpoonup> ('w, 'v) orchestrator) \<Rightarrow> uuid \<Rightarrow> timestamp
    \<Rightarrow> ('w, 'v) saga_db \<Rightarrow> (saga_error, bool, ('w, 'v) saga_db) tx" where
  "retry_compensation factory sid now s = (case get_saga sid s of
     None \<Rightarrow> raise Saga_not_found s
   | Some g \<Rightarrow>
       if sg_status g \<noteq> SG_FAILED then return False s
       else if \<not> (\<exists>r \<in> set (saga_steps s). ss_saga r = sid \<and> ss_status r = ST_COMPLETED)
       then return True (set_saga sid (\<lambda>g. g\<lparr>sg_status := SG_COMPENSATED\<rparr>) s)
       else (case factory (sg_type g) of
         None \<Rightarrow> raise (No_orchestrator (sg_type g)) s
       | Some orc \<Rightarrow>
           bind_tx (compensate_steps orc g now (set_saga sid (\<lambda>g. g\<lparr>sg_status := SG_COMPENSATING\<rparr>) s))
             (\<lambda>r. return (sr_was_compensated r))))"

text \<open>Terminal sagas past their retention are deleted with their steps (the foreign key cascades);
  \<open>limit\<close> takes rows in table order, which the query leaves open.\<close>

definition cleanup_old_completed_sagas :: "timestamp \<Rightarrow> nat \<Rightarrow> ('w, 'v) saga_db
    \<Rightarrow> (saga_error, nat, ('w, 'v) saga_db) tx" where
  "cleanup_old_completed_sagas cutoff batch_size s =
    (let ids = take batch_size (map sg_id (filter (\<lambda>g. sg_status g \<in> {SG_COMPLETED, SG_COMPENSATED, SG_FAILED}
         \<and> (case sg_completed_at g of Some t \<Rightarrow> t < cutoff | None \<Rightarrow> False)) (sagas s)))
     in if ids = [] then return 0 s
        else return (length ids) (s\<lparr>sagas := filter (\<lambda>g. sg_id g \<notin> set ids) (sagas s),
          saga_steps := filter (\<lambda>r. ss_saga r \<notin> set ids) (saga_steps s)\<rparr>))"

end
