(* ===== verification/Saga_Facts.thy ===== *)
theory Saga_Facts
  imports Saga_Engine
begin

text \<open>
  What the saga engine promises. The abstract saga (\<open>saga_spec\<close>) has no rows and no statuses:
  it runs the steps on the world in order and, when one fails, undoes the completed ones
  in reverse order. The engine refines it, resumes an interrupted run from its rows, and
  answers a repeated request from them.
\<close>

section \<open>Rows\<close>

lemma get_saga_set_saga:
  assumes "\<And>g. sg_id (f g) = sg_id g"
  shows "get_saga sid (set_saga sid' f s) = (if sid = sid' then map_option f (get_saga sid s) else get_saga sid s)"
  by (simp add: get_saga_def set_saga_def get_set_row assms)

lemma get_step_set_step:
  assumes "\<And>r. ss_saga (f r) = ss_saga r" and "\<And>r. ss_number (f r) = ss_number r"
  shows "get_step sid i (set_step sid' k f s)
    = (if sid = sid' \<and> i = k then map_option f (get_step sid i s) else get_step sid i s)"
  by (simp add: get_step_def set_step_def get_set_row assms)

lemma row_frames [simp]:
  "get_saga sid (set_step a i f s) = get_saga sid s" "get_step sid k (set_saga a h s) = get_step sid k s"
  "get_saga sid (s\<lparr>world := w\<rparr>) = get_saga sid s" "get_step sid k (s\<lparr>world := w\<rparr>) = get_step sid k s"
  "world (set_saga a h s) = world s" "world (set_step a i f s) = world s"
  "next_saga (set_saga a h s) = next_saga s" "next_saga (set_step a i f s) = next_saga s"
  by (simp_all add: get_saga_def get_step_def set_saga_def set_step_def)

lemma begin_step_rows [simp]:
  "get_saga sid (begin_step a i now p c s) = get_saga sid s" "world (begin_step a i now p c s) = world s"
  "next_saga (begin_step a i now p c s) = next_saga s"
  "get_step sid k (begin_step a i now p c s) = (if sid = a \<and> k = i
     then map_option (\<lambda>r. r\<lparr>ss_status := ST_EXECUTING, ss_started_at := Some now, ss_input := Some (p, c)\<rparr>)
       (get_step sid k s) else get_step sid k s)"
  by (simp_all add: begin_step_def get_step_set_step)

lemma complete_step_rows [simp]:
  "get_saga sid (complete_step a i now r c s) = (if sid = a
     then map_option (\<lambda>g. g\<lparr>sg_context := c, sg_current_step := i + 1\<rparr>) (get_saga sid s) else get_saga sid s)"
  "get_step sid k (complete_step a i now r c s) = (if sid = a \<and> k = i
     then map_option (\<lambda>t. t\<lparr>ss_status := ST_COMPLETED, ss_completed_at := Some now,
         ss_output := Some (sp_output r), ss_compensation := Some (sp_compensation r)\<rparr>) (get_step sid k s)
     else get_step sid k s)"
  "world (complete_step a i now r c s) = world s"
  "next_saga (complete_step a i now r c s) = next_saga s"
  by (simp_all add: complete_step_def get_step_set_step get_saga_set_saga)

lemma fail_step_rows [simp]:
  "get_saga sid (fail_step a i now n e s) = (if sid = a
     then map_option (\<lambda>g. g\<lparr>sg_error_message := Some (step_failure n e)\<rparr>) (get_saga sid s) else get_saga sid s)"
  "get_step sid k (fail_step a i now n e s) = (if sid = a \<and> k = i
     then map_option (\<lambda>t. t\<lparr>ss_status := ST_FAILED, ss_completed_at := Some now, ss_error_message := e\<rparr>)
       (get_step sid k s) else get_step sid k s)"
  "world (fail_step a i now n e s) = world s"
  "next_saga (fail_step a i now n e s) = next_saga s"
  by (simp_all add: fail_step_def get_step_set_step get_saga_set_saga)

section \<open>The abstract saga\<close>

text \<open>The completed steps with their compensation data, the failure if one failed, the context and
  the world. \<open>None\<close> stands for a run that is interrupted.\<close>

fun forward :: "'v json \<Rightarrow> ('w, 'v) step_def list \<Rightarrow> 'v json \<Rightarrow> 'w
    \<Rightarrow> ((('w, 'v) step_def \<times> 'v json) list \<times> string option \<times> 'v json \<times> 'w) option" where
  "forward p [] ctx w = Some ([], None, ctx, w)"
| "forward p (d # ds) ctx w = (case sd_execute d w p ctx of
     (Interrupted, w') \<Rightarrow> None
   | (Raised m, w') \<Rightarrow> Some ([], Some (step_failure (sd_name d) (Some m)), ctx, w')
   | (Finished r, w') \<Rightarrow>
       if sp_success r
       then map_option (\<lambda>(cs, e, c, w''). ((d, sp_compensation r) # cs, e, c, w''))
         (forward p ds (ctx ++ sp_output r) w')
       else Some ([], Some (step_failure (sd_name d) (sp_error r)), ctx, w'))"

fun backward :: "'v json \<Rightarrow> (('w, 'v) step_def \<times> 'v json) list \<Rightarrow> 'w \<Rightarrow> (bool \<times> 'w) option" where
  "backward p [] w = Some (False, w)"
| "backward p ((d, c) # cs) w = (case sd_compensate d of
     None \<Rightarrow> backward p cs w
   | Some undo \<Rightarrow> (case undo w p c of
       (Undo_interrupted, w') \<Rightarrow> None
     | (Undone True, w') \<Rightarrow> backward p cs w'
     | (_, w') \<Rightarrow> map_option (\<lambda>(f, w''). (True, w'')) (backward p cs w')))"

datatype 'v saga_outcome = Completed "'v json" | Compensated string | Failed string

definition finish :: "('w, 'v) orchestrator \<Rightarrow> 'v json \<Rightarrow> (('w, 'v) step_def \<times> 'v json) list
    \<Rightarrow> string option \<Rightarrow> 'v json \<Rightarrow> 'w \<Rightarrow> ('v saga_outcome \<times> 'w) option" where
  "finish orc p cs e ctx w = (case e of
     None \<Rightarrow> Some (Completed (oc_build_result orc p ctx), w)
   | Some m \<Rightarrow> map_option (\<lambda>(failed, w'). (if failed then Failed m else Compensated m, w'))
       (backward p (rev cs) w))"

definition saga_from :: "('w, 'v) orchestrator \<Rightarrow> 'v json \<Rightarrow> (('w, 'v) step_def \<times> 'v json) list
    \<Rightarrow> ('w, 'v) step_def list \<Rightarrow> 'v json \<Rightarrow> 'w \<Rightarrow> ('v saga_outcome \<times> 'w) option" where
  "saga_from orc p done ds ctx w = (case forward p ds ctx w of
     None \<Rightarrow> None | Some (cs, e, c, w') \<Rightarrow> finish orc p (done @ cs) e c w')"

definition saga_spec :: "('w, 'v) orchestrator \<Rightarrow> 'v json \<Rightarrow> 'w \<Rightarrow> ('v saga_outcome \<times> 'w) option" where
  "saga_spec orc p w = saga_from orc p [] (oc_steps orc) Map.empty w"

text \<open>What the engine reports of an outcome, and the status the saga's row ends with.\<close>

fun outcome_status :: "'v saga_outcome \<Rightarrow> saga_status" where
  "outcome_status (Completed r) = SG_COMPLETED"
| "outcome_status (Compensated m) = SG_COMPENSATED"
| "outcome_status (Failed m) = SG_FAILED"

fun outcome_result :: "uuid \<Rightarrow> 'v saga_outcome \<Rightarrow> 'v saga_result" where
  "outcome_result sid (Completed r) = \<lparr>sr_success = True, sr_saga_id = sid, sr_result = r, sr_error = None,
     sr_was_compensated = False\<rparr>"
| "outcome_result sid (Compensated m) = \<lparr>sr_success = False, sr_saga_id = sid, sr_result = Map.empty,
     sr_error = Some m, sr_was_compensated = True\<rparr>"
| "outcome_result sid (Failed m) = \<lparr>sr_success = False, sr_saga_id = sid, sr_result = Map.empty,
     sr_error = Some m, sr_was_compensated = False\<rparr>"

section \<open>The rows of a saga that has got so far\<close>

definition steps_done :: "uuid \<Rightarrow> (('w, 'v) step_def \<times> 'v json) list \<Rightarrow> ('w, 'v) saga_db \<Rightarrow> bool" where
  "steps_done sid done s \<longleftrightarrow> (\<forall>k < length done. \<exists>r. get_step sid k s = Some r
     \<and> ss_status r = ST_COMPLETED \<and> ss_compensation r = Some (snd (done ! k)))"

definition steps_left :: "uuid \<Rightarrow> nat \<Rightarrow> nat \<Rightarrow> ('w, 'v) saga_db \<Rightarrow> bool" where
  "steps_left sid i n s \<longleftrightarrow> (\<forall>k. i \<le> k \<and> k < n \<longrightarrow>
     (\<exists>r. get_step sid k s = Some r \<and> ss_status r \<noteq> ST_COMPLETED))"

definition at_step :: "('w, 'v) orchestrator \<Rightarrow> 'v saga_execution \<Rightarrow> (('w, 'v) step_def \<times> 'v json) list
    \<Rightarrow> ('w, 'v) saga_db \<Rightarrow> bool" where
  "at_step orc g done s \<longleftrightarrow> get_saga (sg_id g) s = Some g \<and> sg_current_step g = length done
     \<and> map fst done = take (length done) (oc_steps orc) \<and> length done \<le> length (oc_steps orc)
     \<and> steps_done (sg_id g) done s \<and> steps_left (sg_id g) (length done) (length (oc_steps orc)) s"

lemma steps_doneD:
  assumes "steps_done sid done s" and "k < length done"
  obtains r where "get_step sid k s = Some r" "ss_status r = ST_COMPLETED" "ss_compensation r = Some (snd (done ! k))"
  using assms unfolding steps_done_def by blast

lemma steps_done_cong:
  "steps_done sid done s \<Longrightarrow> (\<And>k. k < length done \<Longrightarrow> get_step sid k s' = get_step sid k s) \<Longrightarrow> steps_done sid done s'"
  by (simp add: steps_done_def)

lemma steps_done_append:
  "steps_done sid (xs @ [(d, c)]) s \<longleftrightarrow> steps_done sid xs s \<and> (\<exists>r. get_step sid (length xs) s = Some r
     \<and> ss_status r = ST_COMPLETED \<and> ss_compensation r = Some c)"
  by (auto simp: steps_done_def nth_append less_Suc_eq)

lemma steps_done_butlast: "steps_done sid (xs @ [x]) s \<Longrightarrow> steps_done sid xs s"
  by (cases x) (simp add: steps_done_append)

text \<open>No run adds or removes a row, or changes a key.\<close>

definition same_rows :: "('w, 'v) saga_db \<Rightarrow> ('w, 'v) saga_db \<Rightarrow> bool" where
  "same_rows s s' \<longleftrightarrow> map sg_id (sagas s') = map sg_id (sagas s)
     \<and> map sg_idempotency_key (sagas s') = map sg_idempotency_key (sagas s)
     \<and> map step_key (saga_steps s') = map step_key (saga_steps s) \<and> next_saga s' = next_saga s"

lemma same_rows_refl [simp]: "same_rows s s"
  by (simp add: same_rows_def)

lemma same_rows_trans: "same_rows s t \<Longrightarrow> same_rows t u \<Longrightarrow> same_rows s u"
  by (simp add: same_rows_def)

lemma same_rows_set_saga:
  assumes "\<And>g. sg_id (f g) = sg_id g" and "\<And>g. sg_idempotency_key (f g) = sg_idempotency_key g"
  shows "same_rows s (set_saga sid f t) \<longleftrightarrow> same_rows s t"
proof -
  have "map sg_idempotency_key (set_row sg_id sid f (sagas t)) = map sg_idempotency_key (sagas t)"
    by (simp add: set_row_def assms)
  then show ?thesis by (simp add: same_rows_def set_saga_def map_key_set_row assms)
qed

lemma same_rows_set_step:
  assumes "\<And>r. ss_saga (f r) = ss_saga r" and "\<And>r. ss_number (f r) = ss_number r"
  shows "same_rows s (set_step sid i f t) \<longleftrightarrow> same_rows s t"
  by (simp add: same_rows_def set_step_def map_key_set_row assms)

lemma same_rows_simps [simp]:
  "same_rows s (t\<lparr>world := w\<rparr>) = same_rows s t" "same_rows s (begin_step a i now p c t) = same_rows s t"
  "same_rows s (complete_step a i now r c t) = same_rows s t" "same_rows s (fail_step a i now n e t) = same_rows s t"
  by (simp_all add: begin_step_def complete_step_def fail_step_def same_rows_set_saga same_rows_set_step)
    (simp add: same_rows_def)

section \<open>Compensation\<close>

lemma backward_Cons:
  "backward p (x # cs) w = Some (f, w') \<longleftrightarrow>
    (\<exists>f1 w1 f2. backward p [x] w = Some (f1, w1) \<and> backward p cs w1 = Some (f2, w') \<and> f = (f1 \<or> f2))"
  by (cases x) (auto split: option.splits prod.splits undo_outcome.splits bool.splits)

text \<open>One round of the loop of \<open>_compensate_steps\<close>.\<close>

lemma compensate_one:
  assumes r: "get_step sid i s = Some r" "ss_status r = ST_COMPLETED" "ss_compensation r = Some c"
    and i: "i < length (oc_steps orc)" "oc_steps orc ! i = d"
    and b: "backward p [(d, c)] (world s) = Some (f, w)"
  obtains t where "\<And>failed. compensate_from orc sid now p (Suc i) failed s = compensate_from orc sid now p i (failed \<or> f) t"
    and "world t = w" "sagas t = sagas s" "same_rows s t"
    and "\<And>a k. a \<noteq> sid \<or> k \<noteq> i \<Longrightarrow> get_step a k t = get_step a k s"
    and "\<exists>r. get_step sid i t = Some r \<and> ss_status r \<in> {ST_COMPENSATED, ST_COMPENSATING}"
proof -
  note result = that
  note i = i i(1) [unfolded not_le [symmetric]]
  have moves: thesis
    if "\<And>failed. compensate_from orc sid now p (Suc i) failed s
        = compensate_from orc sid now p i (failed \<or> f) (set_step sid i h (t\<lparr>world := w\<rparr>))"
      and "sagas t = sagas s" "same_rows s t"
      and "\<And>a k. a \<noteq> sid \<or> k \<noteq> i \<Longrightarrow> get_step a k t = get_step a k s"
      and "\<exists>r. get_step sid i t = Some r \<and> ss_status (h r) \<in> {ST_COMPENSATED, ST_COMPENSATING}"
      and h: "\<And>r. ss_saga (h r) = ss_saga r" "\<And>r. ss_number (h r) = ss_number r" for t h
    by (rule result [OF that(1)])
      (use that(2-5) in \<open>auto simp: get_step_set_step [of h, OF h] same_rows_set_step [of h, OF h], simp_all add: set_step_def\<close>)
  show thesis
  proof (cases "sd_compensate d")
    case None
    then have "f = False" "w = world s" using b by simp_all
    with None show thesis
      by (intro moves [of "\<lambda>r. r\<lparr>ss_status := ST_COMPENSATED, ss_completed_at := Some now\<rparr>" s]) (simp_all add: r i)
  next
    case (Some undo)
    obtain o1 w1 where u: "undo (world s) p c = (o1, w1)" by fastforce
    let ?s1 = "set_step sid i (\<lambda>r. r\<lparr>ss_status := ST_COMPENSATING\<rparr>) s"
    have c: "json_or_empty (Some c) = c" by (simp add: json_or_empty_def)
    have s1: "sagas ?s1 = sagas s" "same_rows s ?s1"
      "\<And>a k. a \<noteq> sid \<or> k \<noteq> i \<Longrightarrow> get_step a k ?s1 = get_step a k s"
      "get_step sid i ?s1 = Some (r\<lparr>ss_status := ST_COMPENSATING\<rparr>)"
      by (auto simp: get_step_set_step same_rows_set_step r(1)) (simp add: set_step_def)
    show thesis
    proof (cases o1)
      case (Undone ok)
      show thesis
      proof (cases ok)
        case True
        then have "f = False" "w = w1" using b by (simp_all add: Some u Undone)
        then show thesis
          by (intro moves [of "\<lambda>r. r\<lparr>ss_status := ST_COMPENSATED, ss_completed_at := Some now\<rparr>" ?s1])
            (simp_all add: Let_def s1 r i c u Some Undone True)
      next
        case False
        then have "f = True" "w = w1" using b by (simp_all add: Some u Undone)
        then show thesis
          by (intro moves [of "\<lambda>r. r\<lparr>ss_retry_count := ss_retry_count r + 1\<rparr>" ?s1])
            (simp_all add: Let_def s1 r i c u Some Undone False)
      qed
    next
      case (Undo_raised m)
      then have "f = True" "w = w1" using b by (simp_all add: Some u)
      then show thesis
        by (intro moves [of "\<lambda>r. r\<lparr>ss_error_message := Some (''Compensation failed: '' @ m),
             ss_retry_count := ss_retry_count r + 1\<rparr>" ?s1]) (simp_all add: Let_def s1 r i c u Some Undo_raised)
    qed (use b u Some in simp)
  qed
qed

text \<open>The whole loop.\<close>

lemma compensate_from_refines:
  assumes "steps_done sid done s" and "map fst done = take (length done) (oc_steps orc)"
    and "length done \<le> length (oc_steps orc)" and "backward p (rev done) (world s) = Some (f, w)"
  shows "\<exists>s'. compensate_from orc sid now p (length done) failed s = (Inr (failed \<or> f), s')
    \<and> world s' = w \<and> sagas s' = sagas s \<and> same_rows s s'
    \<and> (\<forall>k < length done. \<exists>r. get_step sid k s' = Some r \<and> ss_status r \<in> {ST_COMPENSATED, ST_COMPENSATING})
    \<and> (\<forall>a k. a \<noteq> sid \<or> length done \<le> k \<longrightarrow> get_step a k s' = get_step a k s)"
  using assms
proof (induction "done" arbitrary: s f failed rule: rev_induct)
  case Nil
  then show ?case by simp
next
  case (snoc x xs)
  obtain d c where x: "x = (d, c)" by (cases x)
  have len: "length xs < length (oc_steps orc)" using snoc.prems(3) by simp
  have "fst ((xs @ [x]) ! length xs) = oc_steps orc ! length xs"
    using arg_cong [OF snoc.prems(2), of "\<lambda>ys. ys ! length xs"] len by (simp add: nth_append)
  then have d: "oc_steps orc ! length xs = d" by (simp add: x)
  have pre: "map fst xs = take (length xs) (oc_steps orc)"
    using arg_cong [OF snoc.prems(2), of "take (length xs)"] by (simp add: min_def)
  obtain r where r: "get_step sid (length xs) s = Some r" "ss_status r = ST_COMPLETED" "ss_compensation r = Some c"
    using snoc.prems(1) by (rule steps_doneD [where k = "length xs"]) (simp_all add: x)
  obtain f1 w1 f2 where b: "backward p [(d, c)] (world s) = Some (f1, w1)" "backward p (rev xs) w1 = Some (f2, w)"
      "f = (f1 \<or> f2)"
    using snoc.prems(4) backward_Cons [of p x "rev xs" "world s" f w] by (auto simp: x)
  obtain t where t: "\<And>failed. compensate_from orc sid now p (Suc (length xs)) failed s
      = compensate_from orc sid now p (length xs) (failed \<or> f1) t"
      "world t = w1" "sagas t = sagas s" "same_rows s t"
      "\<And>a k. a \<noteq> sid \<or> k \<noteq> length xs \<Longrightarrow> get_step a k t = get_step a k s"
      "\<exists>r. get_step sid (length xs) t = Some r \<and> ss_status r \<in> {ST_COMPENSATED, ST_COMPENSATING}"
    by (rule compensate_one [OF r len d b(1), where now = now]) (rule that)
  have "steps_done sid xs t"
    by (rule steps_done_cong [OF steps_done_butlast [OF snoc.prems(1)]]) (simp add: t(5))
  from snoc.IH [OF this pre _ b(2) [folded t(2)], of "failed \<or> f1"] len obtain s' where
    s': "compensate_from orc sid now p (length xs) (failed \<or> f1) t = (Inr ((failed \<or> f1) \<or> f2), s')"
      "world s' = w" "sagas s' = sagas t" "same_rows t s'"
      "\<forall>k < length xs. \<exists>r. get_step sid k s' = Some r \<and> ss_status r \<in> {ST_COMPENSATED, ST_COMPENSATING}"
      "\<forall>a k. a \<noteq> sid \<or> length xs \<le> k \<longrightarrow> get_step a k s' = get_step a k t"
    by auto
  have "\<exists>r. get_step sid k s' = Some r \<and> ss_status r \<in> {ST_COMPENSATED, ST_COMPENSATING}" if "k < Suc (length xs)" for k
    using that s'(5,6) t(6) by (cases "k = length xs") simp_all
  moreover have "compensate_from orc sid now p (length (xs @ [x])) failed s = (Inr (failed \<or> f), s')"
    using t(1) [of failed] s'(1) by (simp add: b(3) disj_assoc del: compensate_from.simps)
  ultimately show ?case
    using s'(2-4,6) t(3-5) same_rows_trans [OF t(4) s'(4)] by (intro exI [of _ s']) auto
qed

section \<open>Settled sagas\<close>

definition records :: "'v saga_outcome \<Rightarrow> 'v saga_execution \<Rightarrow> bool" where
  "records out g \<longleftrightarrow> sg_status g = outcome_status out \<and> (case out of
     Completed r \<Rightarrow> sg_result g = Some r
   | Compensated m \<Rightarrow> sg_error_message g = Some m \<and> m \<noteq> []
   | Failed m \<Rightarrow> sg_error_message g = Some m \<and> m \<noteq> [])"

definition settled :: "('w, 'v) orchestrator \<Rightarrow> 'v saga_execution \<Rightarrow> 'v saga_outcome \<Rightarrow> ('w, 'v) saga_db
    \<Rightarrow> ('w, 'v) saga_db \<Rightarrow> bool" where
  "settled orc g out s s' \<longleftrightarrow>
     (\<exists>g'. get_saga (sg_id g) s' = Some g' \<and> records out g' \<and> sg_idempotency_key g' = sg_idempotency_key g)
   \<and> (\<forall>k < length (oc_steps orc). \<exists>r. get_step (sg_id g) k s' = Some r
        \<and> (ss_status r = ST_COMPLETED \<longleftrightarrow> outcome_status out = SG_COMPLETED))
   \<and> (\<forall>a. a \<noteq> sg_id g \<longrightarrow> get_saga a s' = get_saga a s \<and> (\<forall>k. get_step a k s' = get_step a k s))
   \<and> same_rows s s'"

lemma settled_trans:
  assumes "settled orc g' out t s'" and "sg_id g' = sg_id g" and "sg_idempotency_key g' = sg_idempotency_key g"
    and "\<And>a. a \<noteq> sg_id g \<Longrightarrow> get_saga a t = get_saga a s" and "\<And>a k. a \<noteq> sg_id g \<Longrightarrow> get_step a k t = get_step a k s"
    and "same_rows s t"
  shows "settled orc g out s s'"
  using assms by (simp add: settled_def same_rows_def)

lemma step_failure_nonempty [simp]: "step_failure n e \<noteq> []"
  by (simp add: step_failure_def)

text \<open>Steps that are not COMPLETED are passed over.\<close>

lemma compensate_from_skip:
  assumes "i \<le> n" and "n \<le> length (oc_steps orc)" and "steps_left sid i n s"
  shows "compensate_from orc sid now p n failed s = compensate_from orc sid now p i failed s"
  using assms
proof (induction n rule: dec_induct)
  case (step n)
  then have "steps_left sid i n s" and "\<exists>r. get_step sid n s = Some r \<and> ss_status r \<noteq> ST_COMPLETED"
    by (auto simp: steps_left_def)
  with step show ?case by auto
qed simp

lemma compensate_steps_refines:
  assumes g: "get_saga (sg_id g) s = Some g" "length done \<le> sg_current_step g"
      "sg_current_step g \<le> length (oc_steps orc)" "sg_error_message g = Some m" "m \<noteq> []"
    and rows: "map fst done = take (length done) (oc_steps orc)" "length done \<le> length (oc_steps orc)"
      "steps_done (sg_id g) done s" "steps_left (sg_id g) (length done) (length (oc_steps orc)) s"
    and out: "finish orc (sg_payload g) done (Some m) ctx (world s) = Some (out, w)"
  shows "\<exists>s'. compensate_steps orc g now s = (Inr (outcome_result (sg_id g) out), s')
    \<and> world s' = w \<and> settled orc g out s s'"
proof -
  let ?s1 = "set_saga (sg_id g) (\<lambda>g. g\<lparr>sg_status := SG_COMPENSATING\<rparr>) s"
  have skip: "compensate_from orc (sg_id g) now (sg_payload g) (sg_current_step g) False ?s1
      = compensate_from orc (sg_id g) now (sg_payload g) (length done) False ?s1"
    by (rule compensate_from_skip [OF g(2,3)]) (use rows(4) g(3) in \<open>simp add: steps_left_def\<close>)
  obtain f where b: "backward (sg_payload g) (rev done) (world ?s1) = Some (f, w)"
    and o: "out = (if f then Failed m else Compensated m)"
    using out by (auto simp: finish_def)
  have "steps_done (sg_id g) done ?s1" using rows(3) by (simp add: steps_done_def)
  from compensate_from_refines [OF this rows(1,2) b, of now False] obtain t where
    t: "compensate_from orc (sg_id g) now (sg_payload g) (length done) False ?s1 = (Inr f, t)"
      "world t = w" "sagas t = sagas ?s1" "same_rows ?s1 t"
      "\<forall>k < length done. \<exists>r. get_step (sg_id g) k t = Some r \<and> ss_status r \<in> {ST_COMPENSATED, ST_COMPENSATING}"
      "\<forall>a k. a \<noteq> sg_id g \<or> length done \<le> k \<longrightarrow> get_step a k t = get_step a k s"
    by auto
  have rows_t: "same_rows s t" by (rule same_rows_trans [OF _ t(4)]) (simp add: same_rows_set_saga)
  let ?c = "close_compensation f now"
  let ?s' = "set_saga (sg_id g) ?c t"
  have idc: "sg_id (?c h) = sg_id h" "sg_idempotency_key (?c h) = sg_idempotency_key h" for h
    by (simp_all add: close_compensation_def)
  have "get_saga a t = get_saga a ?s1" for a using t(3) by (simp add: get_saga_def)
  then have gs: "get_saga a ?s' = (if a = sg_id g then Some (?c (g\<lparr>sg_status := SG_COMPENSATING\<rparr>)) else get_saga a s)" for a
    using g(1) by (simp add: get_saga_set_saga idc)
  have rec: "records out (?c (g\<lparr>sg_status := SG_COMPENSATING\<rparr>))"
    using g(4,5) by (simp add: o records_def close_compensation_def error_or_def)
  have key: "sg_idempotency_key (?c (g\<lparr>sg_status := SG_COMPENSATING\<rparr>)) = sg_idempotency_key g"
    by (simp add: idc)
  have "\<exists>r. get_step (sg_id g) k ?s' = Some r \<and> ss_status r \<noteq> ST_COMPLETED" if "k < length (oc_steps orc)" for k
    using t(5,6) rows(4) that unfolding steps_left_def by (cases "k < length done") force+
  then have "settled orc g out s ?s'"
    using gs rec key t(6) rows_t unfolding settled_def by (auto simp: o same_rows_set_saga idc)
  moreover have "compensate_steps orc g now s = (Inr (outcome_result (sg_id g) out), ?s')"
    using t(1) g(4,5) by (simp add: compensate_steps_def skip o close_compensation_def error_or_def return_def)
  ultimately show ?thesis using t(2) by auto
qed

section \<open>Execution\<close>

lemma at_step_compensates:
  assumes "at_step orc g done s" and "sg_error_message g = Some m" and "m \<noteq> []"
    and "finish orc (sg_payload g) done (Some m) ctx (world s) = Some (out, w)"
  shows "\<exists>s'. compensate_now orc (sg_id g) now s = (Inr (outcome_result (sg_id g) out), s')
    \<and> world s' = w \<and> settled orc g out s s'"
  using compensate_steps_refines [of g s "done" orc m ctx out w now] assms
  by (simp add: at_step_def compensate_now_def)

text \<open>The step that fails and the step that succeeds, as the rows record them.\<close>

lemma at_step_failed:
  assumes "at_step orc g done s" and "length done < length (oc_steps orc)"
  shows "at_step orc (g\<lparr>sg_error_message := Some (step_failure n e)\<rparr>) done
    (fail_step (sg_id g) (length done) now n e
      ((begin_step (sg_id g) (length done) now p ctx s)\<lparr>world := w\<rparr>))"
  using assms by (auto simp: at_step_def steps_left_def steps_done_def)

lemma at_step_completed:
  assumes a: "at_step orc g done s" and len: "length done < length (oc_steps orc)"
    and d: "oc_steps orc ! length done = d"
  shows "at_step orc (g\<lparr>sg_context := c, sg_current_step := length done + 1\<rparr>) (done @ [(d, sp_compensation r)])
    (complete_step (sg_id g) (length done) now r c
      ((begin_step (sg_id g) (length done) now p ctx s)\<lparr>world := w\<rparr>))"
proof -
  let ?t = "complete_step (sg_id g) (length done) now r c
      ((begin_step (sg_id g) (length done) now p ctx s)\<lparr>world := w\<rparr>)"
  have "\<exists>x. get_step (sg_id g) (length done) s = Some x \<and> ss_status x \<noteq> ST_COMPLETED"
    using a len by (simp add: at_step_def steps_left_def)
  then have "steps_done (sg_id g) (done @ [(d, sp_compensation r)]) ?t"
    using a by (auto simp: at_step_def steps_done_append intro!: steps_done_cong [of _ _ s])
  moreover have "steps_left (sg_id g) (length done + 1) (length (oc_steps orc)) ?t"
    using a by (auto simp: at_step_def steps_left_def)
  ultimately show ?thesis
    using a len d by (simp add: at_step_def take_Suc_conv_app_nth)
qed

lemma failing_step_settles:
  assumes a: "at_step orc g done s" and len: "length done < length (oc_steps orc)"
    and f: "finish orc (sg_payload g) done (Some (step_failure n e)) ctx w1 = Some (out, w)"
  shows "\<exists>s'. compensate_now orc (sg_id g) now (fail_step (sg_id g) (length done) now n e
        ((begin_step (sg_id g) (length done) now p ctx s)\<lparr>world := w1\<rparr>)) = (Inr (outcome_result (sg_id g) out), s')
    \<and> world s' = w \<and> settled orc g out s s'"
proof -
  let ?m = "step_failure n e"
  let ?t = "fail_step (sg_id g) (length done) now n e ((begin_step (sg_id g) (length done) now p ctx s)\<lparr>world := w1\<rparr>)"
  obtain s' where s': "compensate_now orc (sg_id g) now ?t = (Inr (outcome_result (sg_id g) out), s')"
      "world s' = w" "settled orc (g\<lparr>sg_error_message := Some ?m\<rparr>) out ?t s'"
    using at_step_compensates [OF at_step_failed [OF a len, where n = n and e = e and now = now and p = p and ctx = ctx and w = w1],
        of ?m ctx out w now] f by auto
  have "settled orc g out s s'" by (rule settled_trans [OF s'(3)]) simp_all
  with s'(1,2) show ?thesis by blast
qed

lemma saga_from_Cons:
  assumes "saga_from orc p done (d # ds) ctx w = Some ow"
  obtains (completed) r w1 where "sd_execute d w p ctx = (Finished r, w1)" "sp_success r"
      "saga_from orc p (done @ [(d, sp_compensation r)]) ds (ctx ++ sp_output r) w1 = Some ow"
  | (refused) r w1 where "sd_execute d w p ctx = (Finished r, w1)" "\<not> sp_success r"
      "finish orc p done (Some (step_failure (sd_name d) (sp_error r))) ctx w1 = Some ow"
  | (raised) m w1 where "sd_execute d w p ctx = (Raised m, w1)"
      "finish orc p done (Some (step_failure (sd_name d) (Some m))) ctx w1 = Some ow"
  using assms
  by (cases "sd_execute d w p ctx"; cases "fst (sd_execute d w p ctx)")
    (auto simp: saga_from_def split: if_splits option.splits)

lemma run_steps_refines:
  assumes "at_step orc g done s" and "saga_from orc (sg_payload g) done ds ctx (world s) = Some (out, w)"
    and "ds = drop (length done) (oc_steps orc)"
  shows "\<exists>s'. run_steps orc (sg_id g) now (sg_payload g) (length done) ds ctx s
      = (Inr (outcome_result (sg_id g) out), s')
    \<and> world s' = w \<and> settled orc g out s s'"
  using assms
proof (induction ds arbitrary: "done" ctx s g)
  case Nil
  let ?r = "oc_build_result orc (sg_payload g) ctx"
  have o: "out = Completed ?r" "w = world s"
    using Nil.prems(2) by (simp_all add: saga_from_def finish_def)
  have "length done = length (oc_steps orc)" using Nil.prems(1,3) by (simp add: at_step_def)
  then show ?case
    using Nil.prems(1)
    by (auto simp: o settled_def at_step_def get_saga_set_saga same_rows_set_saga records_def steps_done_def return_def)
next
  case (Cons d ds)
  have len: "length done < length (oc_steps orc)" using Cons.prems(3) by (metis drop_all list.discI not_le)
  then have d: "oc_steps orc ! length done = d" and ds: "ds = drop (length done + 1) (oc_steps orc)"
    using Cons.prems(3) by (simp_all add: Cons_nth_drop_Suc [symmetric])
  obtain st where st: "get_step (sg_id g) (length done) s = Some st" "ss_status st \<noteq> ST_COMPLETED"
    using Cons.prems(1) len by (auto simp: at_step_def steps_left_def)
  let ?b = "begin_step (sg_id g) (length done) now (sg_payload g) ctx s"
  from Cons.prems(2) show ?case
  proof (cases rule: saga_from_Cons)
    case (completed r w1)
    let ?g = "g\<lparr>sg_context := ctx ++ sp_output r, sg_current_step := length done + 1\<rparr>"
    let ?t = "complete_step (sg_id g) (length done) now r (ctx ++ sp_output r) (?b\<lparr>world := w1\<rparr>)"
    have run: "run_steps orc (sg_id g) now (sg_payload g) (length done) (d # ds) ctx s
        = run_steps orc (sg_id g) now (sg_payload g) (length done + 1) ds (ctx ++ sp_output r) ?t"
      using st completed(1,2) by (simp add: Let_def)
    have "\<exists>s'. run_steps orc (sg_id ?g) now (sg_payload ?g) (length (done @ [(d, sp_compensation r)])) ds
          (ctx ++ sp_output r) ?t = (Inr (outcome_result (sg_id ?g) out), s')
        \<and> world s' = w \<and> settled orc ?g out ?t s'"
      by (rule Cons.IH [OF at_step_completed [OF Cons.prems(1) len d]]) (use completed(3) ds in simp_all)
    then obtain s' where s': "run_steps orc (sg_id g) now (sg_payload g) (length done + 1) ds (ctx ++ sp_output r) ?t
        = (Inr (outcome_result (sg_id g) out), s')" "world s' = w" "settled orc ?g out ?t s'" by auto
    have "settled orc g out s s'"
      by (rule settled_trans [OF s'(3)]) simp_all
    with s'(1,2) show ?thesis unfolding run by blast
  next
    case (refused r w1)
    then show ?thesis
      using st failing_step_settles [OF Cons.prems(1) len refused(3), where now = now and p = "sg_payload g"]
      by (simp add: Let_def)
  next
    case (raised m w1)
    then show ?thesis
      using st failing_step_settles [OF Cons.prems(1) len raised(2), where now = now and p = "sg_payload g"]
      by (simp add: Let_def)
  qed
qed

end
