(* ===== verification/Saga_Properties.thy ===== *)
theory Saga_Properties
  imports Saga_Facts
begin

text \<open>
  The properties of the saga engine: refinement of the abstract saga, replay of a repeated
  request, resumption of an interrupted one, and two cases in which a saga is reported as
  compensated although the work of a completed step is still there.
\<close>

definition saga_ids_ok :: "('w, 'v) saga_db \<Rightarrow> bool" where
  "saga_ids_ok s \<longleftrightarrow> (\<forall>g \<in> set (sagas s). sg_id g < next_saga s)
     \<and> (\<forall>r \<in> set (saga_steps s). ss_saga r < next_saga s) \<and> distinct (map step_key (saga_steps s))"

section \<open>A new saga\<close>

lemma get_new_steps:
  "get_row step_key (sid, k) (new_steps sid i ds)
    = (if i \<le> k \<and> k < i + length ds then Some (new_step sid k (sd_name (ds ! (k - i)))) else None)"
proof (induction ds arbitrary: i)
  case (Cons d ds)
  show ?case
  proof (cases "i = k")
    case False
    then have "k - i = Suc (k - Suc i)" if "Suc i \<le> k" using that by simp
    with False show ?thesis by (auto simp: Cons.IH new_step_def)
  qed (simp add: new_step_def)
qed simp

lemma new_steps_keys: "map step_key (new_steps sid i ds) = map (Pair sid) [i ..< i + length ds]"
  by (induction ds arbitrary: i) (simp_all add: new_step_def upt_rec)

definition insert_saga :: "('w, 'v) orchestrator \<Rightarrow> 'v saga_execution \<Rightarrow> ('w, 'v) saga_db \<Rightarrow> ('w, 'v) saga_db" where
  "insert_saga orc g s = s\<lparr>sagas := add_row g (sagas s),
     saga_steps := saga_steps s @ new_steps (next_saga s) 0 (oc_steps orc), next_saga := Suc (next_saga s)\<rparr>"

lemma execute_fresh:
  assumes "get_saga_by_idempotency_key key s = None"
    and "g = new_saga orc (next_saga s) org payload key user correlation now"
  shows "execute orc org payload key user correlation now s
    = run_steps orc (next_saga s) now payload 0 (oc_steps orc) Map.empty
        (set_saga (next_saga s) (\<lambda>g. g\<lparr>sg_status := SG_EXECUTING\<rparr>) (insert_saga orc g s))"
  using assms by (simp add: execute_def execute_steps_def insert_saga_def Let_def new_saga_def)

lemma saga_ids_fresh:
  assumes "saga_ids_ok s"
  shows "get_saga (next_saga s) s = None" and "get_step (next_saga s) k s = None"
  using assms by (auto simp: saga_ids_ok_def get_saga_def get_step_def get_row_None_iff)

lemma insert_saga_rows:
  assumes "saga_ids_ok s" and "sg_id g = next_saga s"
  shows "get_saga (next_saga s) (insert_saga orc g s) = Some g"
    and "get_step (next_saga s) k (insert_saga orc g s) = (if k < length (oc_steps orc)
      then Some (new_step (next_saga s) k (sd_name (oc_steps orc ! k))) else None)"
    and "world (insert_saga orc g s) = world s" and "saga_ids_ok (insert_saga orc g s)"
proof -
  note none = saga_ids_fresh [OF assms(1), unfolded get_saga_def get_step_def]
  show "get_saga (next_saga s) (insert_saga orc g s) = Some g"
    and "get_step (next_saga s) k (insert_saga orc g s) = (if k < length (oc_steps orc)
      then Some (new_step (next_saga s) k (sd_name (oc_steps orc ! k))) else None)"
    and "world (insert_saga orc g s) = world s"
    using none assms(2)
    by (simp_all add: insert_saga_def get_saga_def get_step_def get_add_row get_row_append get_new_steps)
  have "ss_saga r = next_saga s" if "r \<in> set (new_steps (next_saga s) 0 (oc_steps orc))" for r
    using that arg_cong [OF new_steps_keys [of "next_saga s" 0 "oc_steps orc"], of set] by auto
  then show "saga_ids_ok (insert_saga orc g s)"
    using assms by (fastforce simp: saga_ids_ok_def insert_saga_def new_steps_keys distinct_map inj_on_def)
qed

lemma saga_ids_ok_keys:
  "saga_ids_ok s \<longleftrightarrow> list_all (\<lambda>i. i < next_saga s) (map sg_id (sagas s))
     \<and> list_all (\<lambda>k. fst k < next_saga s) (map step_key (saga_steps s)) \<and> distinct (map step_key (saga_steps s))"
  by (simp add: saga_ids_ok_def list_all_iff)

lemma same_rows_ids_ok: "same_rows s s' \<Longrightarrow> saga_ids_ok s \<Longrightarrow> saga_ids_ok s'"
  by (simp only: saga_ids_ok_keys same_rows_def)

text \<open>The row of the new saga is found under its key, before and after a run.\<close>

lemma found_by_key:
  assumes ok: "saga_ids_ok s" and none: "get_saga_by_idempotency_key key s = None"
    and g: "sg_id g = next_saga s" "sg_idempotency_key g = key"
    and same: "same_rows (insert_saga orc g s) s'"
  shows "get_saga_by_idempotency_key key s' = get_saga (next_saga s) s'"
proof -
  from same have ids: "map sg_id (sagas s') = map sg_id (sagas s) @ [next_saga s]"
    and keys: "map sg_idempotency_key (sagas s') = map sg_idempotency_key (sagas s) @ [key]"
    using g by (simp_all add: same_rows_def insert_saga_def map_add_row)
  from ids obtain xs h where s': "sagas s' = xs @ [h]" by (cases "sagas s'" rule: rev_cases) auto
  have "map sg_id xs = map sg_id (sagas s)" "map sg_idempotency_key xs = map sg_idempotency_key (sagas s)"
    and h: "sg_id h = next_saga s" "sg_idempotency_key h = key"
    using ids keys by (simp_all add: s')
  then have "sg_id ` set xs = sg_id ` set (sagas s)"
    "sg_idempotency_key ` set xs = sg_idempotency_key ` set (sagas s)"
    by (metis set_map)+
  then have "next_saga s \<notin> sg_id ` set xs" "key \<notin> sg_idempotency_key ` set xs"
    using ok none by (auto simp: saga_ids_ok_def get_saga_by_idempotency_key_def get_row_None_iff)
  with h show ?thesis
    by (simp add: get_saga_by_idempotency_key_def get_saga_def s' get_row_append get_row_None_iff [THEN iffD2])
qed

text \<open>Where a new saga starts.\<close>

lemma starts_at_step:
  assumes "saga_ids_ok s" and "g = new_saga orc (next_saga s) org payload key user correlation now"
  shows "at_step orc (g\<lparr>sg_status := SG_EXECUTING\<rparr>) []
    (set_saga (next_saga s) (\<lambda>g. g\<lparr>sg_status := SG_EXECUTING\<rparr>) (insert_saga orc g s))"
  using insert_saga_rows [OF assms(1), where g = g and orc = orc] assms(2)
  by (auto simp: at_step_def steps_done_def steps_left_def get_saga_set_saga new_saga_def new_step_def)

lemma execute_fresh_refines:
  assumes ok: "saga_ids_ok s" and none: "get_saga_by_idempotency_key key s = None"
    and spec: "saga_spec orc payload (world s) = Some (out, w)"
  shows "\<exists>s'. execute orc org payload key user correlation now s = (Inr (outcome_result (next_saga s) out), s')
    \<and> world s' = w \<and> (\<exists>g. get_saga (next_saga s) s' = Some g \<and> records out g)
    \<and> get_saga_by_idempotency_key key s' = get_saga (next_saga s) s'
    \<and> saga_ids_ok s' \<and> next_saga s' = Suc (next_saga s)
    \<and> map step_key (saga_steps s') = map step_key (saga_steps s) @ map (Pair (next_saga s)) [0 ..< length (oc_steps orc)]
    \<and> (\<forall>k < length (oc_steps orc). \<exists>r. get_step (next_saga s) k s' = Some r
        \<and> (ss_status r = ST_COMPLETED \<longleftrightarrow> outcome_status out = SG_COMPLETED))"
proof -
  define g where "g = new_saga orc (next_saga s) org payload key user correlation now"
  let ?g = "g\<lparr>sg_status := SG_EXECUTING\<rparr>"
  let ?t = "set_saga (next_saga s) (\<lambda>g. g\<lparr>sg_status := SG_EXECUTING\<rparr>) (insert_saga orc g s)"
  have g: "sg_id g = next_saga s" "sg_idempotency_key g = key" "sg_payload g = payload"
    by (simp_all add: g_def new_saga_def)
  have "world ?t = world s" by (simp add: insert_saga_def)
  with run_steps_refines [OF starts_at_step [OF ok g_def], where ctx = Map.empty and out = out and w = w
      and ds = "oc_steps orc" and now = now] spec g
  obtain s' where s': "run_steps orc (next_saga s) now payload 0 (oc_steps orc) Map.empty ?t
      = (Inr (outcome_result (next_saga s) out), s')" "world s' = w" "settled orc ?g out ?t s'"
    by (auto simp: saga_spec_def)
  have same: "same_rows (insert_saga orc g s) s'"
  proof (rule same_rows_trans)
    show "same_rows (insert_saga orc g s) ?t" by (simp add: same_rows_set_saga)
    show "same_rows ?t s'" using s'(3) by (simp add: settled_def)
  qed
  have "map step_key (saga_steps s') = map step_key (saga_steps s) @ map (Pair (next_saga s)) [0 ..< length (oc_steps orc)]"
    and "next_saga s' = Suc (next_saga s)"
    using same by (simp_all add: same_rows_def insert_saga_def new_steps_keys)
  moreover have "\<exists>g. get_saga (next_saga s) s' = Some g \<and> records out g"
    and "\<forall>k < length (oc_steps orc). \<exists>r. get_step (next_saga s) k s' = Some r
        \<and> (ss_status r = ST_COMPLETED \<longleftrightarrow> outcome_status out = SG_COMPLETED)"
    using s'(3) g(1) by (auto simp: settled_def)
  ultimately show ?thesis
    using s'(1,2) g found_by_key [OF ok none g(1,2) same]
      same_rows_ids_ok [OF same insert_saga_rows(4) [OF ok g(1)]]
    by (simp add: execute_fresh [OF none g_def])
qed

section \<open>A run that gets so far\<close>

lemma forward_Cons_None:
  assumes "forward p (d # ds) ctx w = Some (cs, None, c', w')"
  obtains r w1 cs' where "sd_execute d w p ctx = (Finished r, w1)" "sp_success r"
    "forward p ds (ctx ++ sp_output r) w1 = Some (cs', None, c', w')" "cs = (d, sp_compensation r) # cs'"
  using assms
  by (cases "sd_execute d w p ctx"; cases "fst (sd_execute d w p ctx)") (auto split: if_splits)

lemma run_prefix:
  assumes "at_step orc g done s" and "sg_context g = ctx"
    and "forward (sg_payload g) ds ctx (world s) = Some (cs, None, ctx', w)"
    and "drop (length done) (oc_steps orc) = ds @ rest"
  shows "\<exists>t g'. at_step orc g' (done @ cs) t \<and> sg_id g' = sg_id g \<and> sg_payload g' = sg_payload g
    \<and> sg_status g' = sg_status g \<and> sg_context g' = ctx' \<and> world t = w \<and> same_rows s t
    \<and> length cs = length ds \<and> sg_type g' = sg_type g
    \<and> run_steps orc (sg_id g) now (sg_payload g) (length done) (ds @ rest) ctx s
      = run_steps orc (sg_id g) now (sg_payload g) (length (done @ cs)) rest ctx' t"
  using assms
proof (induction ds arbitrary: "done" ctx s g cs)
  case Nil
  then show ?case by (intro exI [of _ s] exI [of _ g]) simp
next
  case (Cons d ds)
  from Cons.prems(3) obtain r w1 cs' where r: "sd_execute d (world s) (sg_payload g) ctx = (Finished r, w1)" "sp_success r"
    "forward (sg_payload g) ds (ctx ++ sp_output r) w1 = Some (cs', None, ctx', w)" "cs = (d, sp_compensation r) # cs'"
    by (rule forward_Cons_None)
  have len: "length done < length (oc_steps orc)" using Cons.prems(4) by (metis append_Cons drop_all list.discI not_le)
  then have d: "oc_steps orc ! length done = d" and ds: "drop (length done + 1) (oc_steps orc) = ds @ rest"
    using Cons.prems(4) by (simp_all add: Cons_nth_drop_Suc [symmetric])
  obtain st where st: "get_step (sg_id g) (length done) s = Some st" "ss_status st \<noteq> ST_COMPLETED"
    using Cons.prems(1) len by (auto simp: at_step_def steps_left_def)
  let ?g = "g\<lparr>sg_context := ctx ++ sp_output r, sg_current_step := length done + 1\<rparr>"
  let ?t = "complete_step (sg_id g) (length done) now r (ctx ++ sp_output r)
      ((begin_step (sg_id g) (length done) now (sg_payload g) ctx s)\<lparr>world := w1\<rparr>)"
  have "\<exists>t g'. at_step orc g' ((done @ [(d, sp_compensation r)]) @ cs') t \<and> sg_id g' = sg_id ?g \<and> sg_payload g' = sg_payload ?g
    \<and> sg_status g' = sg_status ?g \<and> sg_context g' = ctx' \<and> world t = w \<and> same_rows ?t t
    \<and> length cs' = length ds \<and> sg_type g' = sg_type ?g
    \<and> run_steps orc (sg_id ?g) now (sg_payload ?g) (length (done @ [(d, sp_compensation r)])) (ds @ rest) (ctx ++ sp_output r) ?t
      = run_steps orc (sg_id ?g) now (sg_payload ?g) (length ((done @ [(d, sp_compensation r)]) @ cs')) rest ctx' t"
    by (rule Cons.IH [OF at_step_completed [OF Cons.prems(1) len d]]) (use r(3) ds in simp_all)
  moreover have "run_steps orc (sg_id g) now (sg_payload g) (length done) (d # ds @ rest) ctx s
      = run_steps orc (sg_id g) now (sg_payload g) (length done + 1) (ds @ rest) (ctx ++ sp_output r) ?t"
    using st r(1,2) by (simp add: Let_def)
  moreover have "same_rows s ?t" by simp
  ultimately show ?case
    unfolding r(4) by (auto dest: same_rows_trans [OF \<open>same_rows s ?t\<close>])
qed

lemma fresh_prefix:
  assumes ok: "saga_ids_ok s" and none: "get_saga_by_idempotency_key key s = None"
    and steps: "oc_steps orc = ds @ rest"
    and fwd: "forward payload ds Map.empty (world s) = Some (cs, None, ctx, w0)"
  obtains t h where "at_step orc h cs t" "sg_id h = next_saga s" "sg_payload h = payload"
    "sg_status h = SG_EXECUTING" "sg_context h = ctx" "world t = w0" "length cs = length ds"
    "sg_type h = oc_type orc" "\<And>s'. same_rows t s' \<Longrightarrow> get_saga_by_idempotency_key key s' = get_saga (next_saga s) s'"
    "execute orc org payload key user correlation now s = run_steps orc (next_saga s) now payload (length cs) rest ctx t"
proof -
  define g where "g = new_saga orc (next_saga s) org payload key user correlation now"
  let ?t = "set_saga (next_saga s) (\<lambda>g. g\<lparr>sg_status := SG_EXECUTING\<rparr>) (insert_saga orc g s)"
  have g: "sg_id g = next_saga s" "sg_idempotency_key g = key" "sg_payload g = payload" "sg_context g = Map.empty"
      "sg_type g = oc_type orc"
    by (simp_all add: g_def new_saga_def)
  have "world ?t = world s" by (simp add: insert_saga_def)
  then obtain t h where h: "at_step orc h cs t" "sg_id h = next_saga s" "sg_payload h = payload" "sg_status h = SG_EXECUTING"
      "sg_context h = ctx" "world t = w0" "same_rows ?t t" "length cs = length ds" "sg_type h = oc_type orc"
      "run_steps orc (next_saga s) now payload 0 (oc_steps orc) Map.empty ?t
        = run_steps orc (next_saga s) now payload (length cs) rest ctx t"
    using run_prefix [OF starts_at_step [OF ok g_def], where ctx = Map.empty and ds = ds and cs = cs
        and ctx' = ctx and w = w0 and rest = rest and now = now] steps fwd g
    by (auto simp del: run_steps.simps)
  have "get_saga_by_idempotency_key key s' = get_saga (next_saga s) s'" if "same_rows t s'" for s'
    using found_by_key [OF ok none g(1,2)] same_rows_trans [OF same_rows_trans [OF _ h(7)] that, of "insert_saga orc g s"]
    by (simp add: same_rows_set_saga)
  with h show thesis using that execute_fresh [OF none g_def] by metis
qed

lemma forward_failed:
  assumes "forward p ds ctx w = Some (cs, Some m, ctx', w')"
  obtains ds1 d ds2 w1 e where "ds = ds1 @ d # ds2" "forward p ds1 ctx w = Some (cs, None, ctx', w1)"
    "m = step_failure (sd_name d) e"
    "sd_execute d w1 p ctx' = (Raised (the e), w') \<and> e \<noteq> None
     \<or> (\<exists>r. sd_execute d w1 p ctx' = (Finished r, w') \<and> \<not> sp_success r \<and> sp_error r = e)"
  using assms
proof (induction ds arbitrary: ctx w cs thesis)
  case (Cons d ds)
  obtain o1 w1 where x: "sd_execute d w p ctx = (o1, w1)" by fastforce
  show ?case
  proof (cases o1)
    case (Finished r)
    show ?thesis
    proof (cases "sp_success r")
      case True
      with Cons.prems(2) x Finished obtain cs' where cs': "forward p ds (ctx ++ sp_output r) w1 = Some (cs', Some m, ctx', w')"
        "cs = (d, sp_compensation r) # cs'" by auto
      show ?thesis
        by (rule Cons.IH [OF _ cs'(1)], rule Cons.prems(1) [of "d # _"]) (use x Finished True cs'(2) in auto)
    next
      case False
      then show ?thesis using Cons.prems x Finished by (intro Cons.prems(1) [of "[]" d ds w "sp_error r"]) auto
    qed
  next
    case (Raised e)
    then show ?thesis using Cons.prems x by (intro Cons.prems(1) [of "[]" d ds w "Some e"]) auto
  qed (use Cons.prems(2) x in simp)
qed simp

text \<open>The same when a step fails: the run goes on with the compensation of what was done.\<close>

lemma fresh_failure:
  assumes ok: "saga_ids_ok s" and none: "get_saga_by_idempotency_key key s = None"
    and fwd: "forward payload (oc_steps orc) Map.empty (world s) = Some (cs, Some m, ctx, w0)"
  obtains t h where "at_step orc h cs t" "sg_id h = next_saga s" "sg_payload h = payload"
    "sg_error_message h = Some m" "m \<noteq> []" "world t = w0"
    "\<And>s'. same_rows t s' \<Longrightarrow> get_saga_by_idempotency_key key s' = get_saga (next_saga s) s'"
    "execute orc org payload key user correlation now s = compensate_now orc (next_saga s) now t"
proof -
  note result = that
  obtain ds1 d ds2 w' e where steps: "oc_steps orc = ds1 @ d # ds2"
    and pre: "forward payload ds1 Map.empty (world s) = Some (cs, None, ctx, w')" and m: "m = step_failure (sd_name d) e"
    and fails: "sd_execute d w' payload ctx = (Raised (the e), w0) \<and> e \<noteq> None
      \<or> (\<exists>r. sd_execute d w' payload ctx = (Finished r, w0) \<and> \<not> sp_success r \<and> sp_error r = e)"
    by (rule forward_failed [OF fwd])
  obtain t h where h: "at_step orc h cs t" "sg_id h = next_saga s" "sg_payload h = payload"
      "world t = w'" "length cs = length ds1"
    and key: "\<And>s'. same_rows t s' \<Longrightarrow> get_saga_by_idempotency_key key s' = get_saga (next_saga s) s'"
    and run: "execute orc org payload key user correlation now s
        = run_steps orc (next_saga s) now payload (length cs) (d # ds2) ctx t"
    by (rule fresh_prefix [OF ok none steps pre, where org = org and user = user and correlation = correlation and now = now])
      (rule that)
  have len: "length cs < length (oc_steps orc)" using h(5) steps by simp
  then obtain st where st: "get_step (next_saga s) (length cs) t = Some st" "ss_status st \<noteq> ST_COMPLETED"
    using h(1,2) by (auto simp: at_step_def steps_left_def)
  let ?t = "fail_step (next_saga s) (length cs) now (sd_name d) e
    ((begin_step (next_saga s) (length cs) now payload ctx t)\<lparr>world := w0\<rparr>)"
  have at: "at_step orc (h\<lparr>sg_error_message := Some m\<rparr>) cs ?t"
    using at_step_failed [OF h(1) len, where n = "sd_name d" and e = e and now = now and p = payload
        and ctx = ctx and w = w0] by (simp add: h(2) m)
  have first: "execute orc org payload key user correlation now s = compensate_now orc (next_saga s) now ?t"
    using st fails h(4) by (auto simp: run Let_def)
  have kt: "get_saga_by_idempotency_key key s' = get_saga (next_saga s) s'" if "same_rows ?t s'" for s'
    by (rule key, rule same_rows_trans [OF _ that]) simp
  show thesis
    by (rule result [OF at _ _ _ _ _ kt first]) (use h(2,3) in \<open>simp_all add: m\<close>)
qed

text \<open>The last completed step, and the compensation that dies in it.\<close>

lemma at_step_last:
  assumes "at_step orc g (cs @ [(d, c)]) s"
  obtains r where "oc_steps orc ! length cs = d" "length cs < length (oc_steps orc)"
    "map fst cs = take (length cs) (oc_steps orc)" "steps_done (sg_id g) cs s"
    "get_step (sg_id g) (length cs) s = Some r" "ss_status r = ST_COMPLETED" "ss_compensation r = Some c"
proof -
  have pre: "map fst cs @ [d] = take (Suc (length cs)) (oc_steps orc)" and len: "length cs < length (oc_steps orc)"
    using assms by (simp_all add: at_step_def)
  have "(map fst cs @ [d]) ! length cs = oc_steps orc ! length cs" unfolding pre by simp
  then have "oc_steps orc ! length cs = d" by (simp add: nth_append)
  moreover have "map fst cs = take (length cs) (oc_steps orc)"
    using arg_cong [OF pre, of "take (length cs)"] by (simp add: min_def)
  ultimately show thesis
    using that len assms unfolding at_step_def steps_done_append by blast
qed

lemma undo_interrupted:
  assumes at: "at_step orc g (cs @ [(d, c)]) s" and m: "sg_error_message g = Some m" "m \<noteq> []"
    and undo: "sd_compensate d = Some undo" "undo (world s) (sg_payload g) c = (Undo_interrupted, w1)"
    and rest: "finish orc (sg_payload g) cs (Some m) ctx w1 = Some (out, w2)"
  shows "\<exists>s1 g1 s2. compensate_now orc (sg_id g) now s = (Inl Session_lost, s1) \<and> same_rows s s1
    \<and> get_saga (sg_id g) s1 = Some g1 \<and> sg_status g1 = SG_COMPENSATING
    \<and> compensate_steps orc g1 later s1 = (Inr (outcome_result (sg_id g) out), s2) \<and> world s2 = w2"
proof -
  obtain r where d: "oc_steps orc ! length cs = d" and len: "length cs < length (oc_steps orc)"
    and pre: "map fst cs = take (length cs) (oc_steps orc)" "steps_done (sg_id g) cs s"
    and r: "get_step (sg_id g) (length cs) s = Some r" "ss_status r = ST_COMPLETED" "ss_compensation r = Some c"
    by (rule at_step_last [OF at])
  let ?u = "set_step (sg_id g) (length cs) (\<lambda>r. r\<lparr>ss_status := ST_COMPENSATING\<rparr>)
    (set_saga (sg_id g) (\<lambda>g. g\<lparr>sg_status := SG_COMPENSATING\<rparr>) s)"
  let ?s1 = "?u\<lparr>world := w1\<rparr>"
  let ?g1 = "g\<lparr>sg_status := SG_COMPENSATING\<rparr>"
  have g: "get_saga (sg_id g) s = Some g" "sg_current_step g = Suc (length cs)"
    using at by (simp_all add: at_step_def)
  have "compensate_now orc (sg_id g) now s = (Inl Session_lost, ?s1)"
    using r d undo g
    by (simp add: compensate_now_def compensate_steps_def Let_def json_or_empty_def raise_def len [unfolded not_le [symmetric]])
  moreover have s1: "get_saga (sg_id ?g1) ?s1 = Some ?g1" using g(1) by (simp add: get_saga_set_saga)
  moreover have "steps_done (sg_id ?g1) cs ?s1"
    using pre(2) by (auto simp: get_step_set_step intro: steps_done_cong)
  moreover have "steps_left (sg_id ?g1) (length cs) (length (oc_steps orc)) ?s1"
    unfolding steps_left_def
  proof (intro allI impI)
    fix k assume k: "length cs \<le> k \<and> k < length (oc_steps orc)"
    show "\<exists>r. get_step (sg_id ?g1) k ?s1 = Some r \<and> ss_status r \<noteq> ST_COMPLETED"
      using at k r(1) by (cases "k = length cs") (auto simp: at_step_def steps_left_def get_step_set_step)
  qed
  moreover have "same_rows s ?s1" by (simp add: same_rows_set_saga same_rows_set_step)
  moreover have "finish orc (sg_payload ?g1) cs (Some m) ctx (world ?s1) = Some (out, w2)" using rest by simp
  moreover have "length cs \<le> sg_current_step ?g1" "sg_current_step ?g1 \<le> length (oc_steps orc)"
    "sg_error_message ?g1 = Some m" using g(2) len m by simp_all
  ultimately have one: "compensate_now orc (sg_id g) now s = (Inl Session_lost, ?s1)" "same_rows s ?s1"
      "get_saga (sg_id ?g1) ?s1 = Some ?g1"
    and two: "\<exists>s2. compensate_steps orc ?g1 later ?s1 = (Inr (outcome_result (sg_id ?g1) out), s2)
      \<and> world s2 = w2 \<and> settled orc ?g1 out ?s1 s2"
    using compensate_steps_refines [of ?g1 ?s1 cs orc m ctx out w2 later] m(2) pre(1) len by simp_all
  from two obtain s2 where "compensate_steps orc ?g1 later ?s1 = (Inr (outcome_result (sg_id ?g1) out), s2)" "world s2 = w2"
    by blast
  with one show ?thesis
    by (intro exI [of _ ?s1] exI [of _ ?g1] exI [of _ s2]) simp
qed

lemma execute_again:
  assumes "get_saga_by_idempotency_key key s = Some g"
  shows "execute orc org payload key user correlation now s = handle_existing_saga orc g now s"
  using assms by (simp add: execute_def)

lemma records_replayed:
  "records out g \<Longrightarrow> handle_existing_saga orc g now s = (Inr (outcome_result (sg_id g) out), s)"
  by (cases out) (auto simp: records_def handle_existing_saga_def json_or_empty_def error_or_def return_def)

lemma at_step_status:
  "at_step orc g done s \<Longrightarrow> at_step orc (g\<lparr>sg_status := x\<rparr>) done (set_saga (sg_id g) (\<lambda>g. g\<lparr>sg_status := x\<rparr>) s)"
  by (simp add: at_step_def get_saga_set_saga steps_done_def steps_left_def)

lemma execute_steps_refines:
  assumes "at_step orc g done s"
    and "saga_from orc (sg_payload g) done (drop (length done) (oc_steps orc)) (sg_context g) (world s) = Some (out, w)"
  shows "\<exists>s'. execute_steps orc g now s = (Inr (outcome_result (sg_id g) out), s') \<and> world s' = w"
  using run_steps_refines [OF at_step_status [OF assms(1), where x = SG_EXECUTING], where ctx = "sg_context g"
      and out = out and w = w and ds = "drop (length done) (oc_steps orc)" and now = now] assms
  by (auto simp: execute_steps_def at_step_def)

lemma fresh_interrupted:
  assumes "saga_ids_ok s" and "get_saga_by_idempotency_key key s = None"
    and "oc_steps orc = ds @ d # rest"
    and "forward payload ds Map.empty (world s) = Some (cs, None, ctx, w0)"
    and "sd_execute d w0 payload ctx = (Interrupted, w1)"
  obtains s1 h where "execute orc org payload key user correlation now s = (Inl Session_lost, s1)" "world s1 = w1"
    "at_step orc h cs s1" "sg_id h = next_saga s" "sg_payload h = payload" "sg_status h = SG_EXECUTING" "sg_context h = ctx"
    "get_saga_by_idempotency_key key s1 = Some h" "drop (length cs) (oc_steps orc) = d # rest" "sg_type h = oc_type orc"
proof -
  obtain t h where h: "at_step orc h cs t" "sg_id h = next_saga s" "sg_payload h = payload" "sg_status h = SG_EXECUTING"
      "sg_context h = ctx" "world t = w0" "length cs = length ds" "sg_type h = oc_type orc"
    and key: "\<And>s'. same_rows t s' \<Longrightarrow> get_saga_by_idempotency_key key s' = get_saga (next_saga s) s'"
    and run: "execute orc org payload key user correlation now s
        = run_steps orc (next_saga s) now payload (length cs) (d # rest) ctx t"
    by (rule fresh_prefix [OF assms(1-4), where org = org and user = user and correlation = correlation and now = now])
      (rule that)
  have drop: "drop (length cs) (oc_steps orc) = d # rest" and len: "length cs < length (oc_steps orc)"
    using h(7) assms(3) by simp_all
  then obtain st where st: "get_step (next_saga s) (length cs) t = Some st" "ss_status st \<noteq> ST_COMPLETED"
    using h(1,2) by (auto simp: at_step_def steps_left_def)
  let ?s1 = "(begin_step (next_saga s) (length cs) now payload ctx t)\<lparr>world := w1\<rparr>"
  have first: "execute orc org payload key user correlation now s = (Inl Session_lost, ?s1)"
    using st h(6) assms(5) by (simp add: run Let_def raise_def)
  have at: "at_step orc h cs ?s1" using h(1,2) st by (auto simp: at_step_def steps_done_def steps_left_def)
  have found: "get_saga_by_idempotency_key key ?s1 = Some h"
    using key [of ?s1] at h(2) by (simp add: at_step_def)
  show thesis by (rule that [OF first _ at h(2-5) found drop h(8)]) simp
qed

section \<open>Properties\<close>

text \<open>C12: the engine refines the abstract saga. A saga with a new key runs its steps on the world
  in order, stops at the first one that fails, then undoes the completed ones in reverse
  order, and reports and records exactly the abstract outcome: COMPLETED with the result,
  COMPENSATED when every undo succeeded, FAILED when one did not.\<close>

theorem saga_refines_spec:
  assumes "saga_ids_ok s" and "get_saga_by_idempotency_key key s = None"
    and "saga_spec orc payload (world s) = Some (out, w)"
  shows "\<exists>s' g. execute orc org payload key user correlation now s = (Inr (outcome_result (next_saga s) out), s')
    \<and> world s' = w \<and> get_saga (next_saga s) s' = Some g \<and> sg_status g = outcome_status out"
  using execute_fresh_refines [OF assms] unfolding records_def by blast

text \<open>A repeated request is answered from the saga's row. Once a saga has come to an end, any
  later request with its key, whatever its payload, returns the same result and changes
  nothing: no step is run or undone a second time.\<close>

theorem saga_request_replayed:
  assumes "saga_ids_ok s" and "get_saga_by_idempotency_key key s = None"
    and "saga_spec orc payload (world s) = Some (out, w)"
  shows "\<exists>r s'. execute orc org payload key user correlation now s = (Inr r, s')
    \<and> execute orc org' payload' key user' correlation' later s' = (Inr r, s')"
proof -
  obtain s' g where s': "execute orc org payload key user correlation now s = (Inr (outcome_result (next_saga s) out), s')"
      "get_saga_by_idempotency_key key s' = get_saga (next_saga s) s'"
    and g: "get_saga (next_saga s) s' = Some g" "records out g"
    using execute_fresh_refines [OF assms] by blast
  have "sg_id g = next_saga s" using g(1) by (auto simp: get_saga_def dest: get_row_SomeD)
  then have "execute orc org' payload' key user' correlation' later s' = (Inr (outcome_result (next_saga s) out), s')"
    using s'(2) g by (simp add: execute_again records_replayed)
  with s'(1) show ?thesis by blast
qed

text \<open>C13: an interrupted saga resumes where it stopped. If the process dies in step \<open>i\<close> after the
  steps before it were completed, the database keeps them, and the next request with the
  same key goes on with step \<open>i\<close> in the saved context, on the original payload, without
  running the completed steps again; if it then fails, they are still compensated.\<close>

theorem interrupted_saga_resumes:
  assumes "saga_ids_ok s" and "get_saga_by_idempotency_key key s = None"
    and "oc_steps orc = ds @ d # rest"
    and "forward payload ds Map.empty (world s) = Some (cs, None, ctx, w0)"
    and "sd_execute d w0 payload ctx = (Interrupted, w1)"
    and "saga_from orc payload cs (d # rest) ctx w1 = Some (out, w2)"
  shows "\<exists>s1 s2. execute orc org payload key user correlation now s = (Inl Session_lost, s1) \<and> world s1 = w1
    \<and> execute orc org' payload' key user' correlation' later s1 = (Inr (outcome_result (next_saga s) out), s2)
    \<and> world s2 = w2"
proof -
  obtain s1 h where h: "execute orc org payload key user correlation now s = (Inl Session_lost, s1)" "world s1 = w1"
      "at_step orc h cs s1" "sg_id h = next_saga s" "sg_payload h = payload" "sg_status h = SG_EXECUTING" "sg_context h = ctx"
      "get_saga_by_idempotency_key key s1 = Some h" and drop: "drop (length cs) (oc_steps orc) = d # rest"
    and "sg_type h = oc_type orc"
    using fresh_interrupted [OF assms(1-5), where org = org and user = user and correlation = correlation and now = now] .
  then have "execute orc org' payload' key user' correlation' later s1 = execute_steps orc h later s1"
    by (simp add: execute_again handle_existing_saga_def)
  then show ?thesis
    using h execute_steps_refines [OF h(3), where now = later and out = out and w = w2] assms(6) drop by auto
qed

text \<open>C14: a failed compensation is never retried. When an undo has failed the saga is FAILED, and
  its step stays COMPENSATING; \<open>retry_compensation\<close> counts COMPLETED steps, finds none,
  marks the saga COMPENSATED and reports success without calling any compensation.\<close>

theorem failed_compensation_not_retried:
  assumes "saga_ids_ok s" and "get_saga_by_idempotency_key key s = None"
    and "saga_spec orc payload (world s) = Some (Failed m, w)"
  shows "\<exists>r s1 s2 g. execute orc org payload key user correlation now s = (Inr r, s1) \<and> \<not> sr_was_compensated r
    \<and> retry_compensation factory (next_saga s) later s1 = (Inr True, s2)
    \<and> world s2 = world s1 \<and> saga_steps s2 = saga_steps s1
    \<and> get_saga (next_saga s) s2 = Some g \<and> sg_status g = SG_COMPENSATED"
proof -
  obtain s1 g where s1: "execute orc org payload key user correlation now s = (Inr (outcome_result (next_saga s) (Failed m)), s1)"
      "saga_ids_ok s1"
      "map step_key (saga_steps s1) = map step_key (saga_steps s) @ map (Pair (next_saga s)) [0 ..< length (oc_steps orc)]"
      "\<And>k. k < length (oc_steps orc) \<Longrightarrow> \<exists>r. get_step (next_saga s) k s1 = Some r \<and> ss_status r \<noteq> ST_COMPLETED"
    and g: "get_saga (next_saga s) s1 = Some g" "sg_status g = SG_FAILED"
    using execute_fresh_refines [OF assms, of org user correlation now] by (auto simp: records_def)
  have "ss_status r \<noteq> ST_COMPLETED" if r: "r \<in> set (saga_steps s1)" "ss_saga r = next_saga s" for r
  proof -
    have "step_key r \<in> set (map step_key (saga_steps s1))" using r(1) by simp
    then have "ss_number r < length (oc_steps orc)"
      using r(2) assms(1) by (auto simp: s1(3) saga_ids_ok_def)
    moreover have "get_step (next_saga s) (ss_number r) s1 = Some r"
      using get_row_distinct [of step_key, OF _ r(1)] s1(2) r(2) by (simp add: get_step_def saga_ids_ok_def)
    ultimately show ?thesis using s1(4) by fastforce
  qed
  then have "retry_compensation factory (next_saga s) later s1
      = (Inr True, set_saga (next_saga s) (\<lambda>g. g\<lparr>sg_status := SG_COMPENSATED\<rparr>) s1)"
    using g by (auto simp: retry_compensation_def return_def)
  with s1(1) g(1) show ?thesis
    by (intro exI [of _ "outcome_result (next_saga s) (Failed m)"] exI [of _ s1]
        exI [of _ "set_saga (next_saga s) (\<lambda>g. g\<lparr>sg_status := SG_COMPENSATED\<rparr>) s1"])
      (simp add: get_saga_set_saga, simp add: set_saga_def)
qed

text \<open>C22: an interrupted undo is skipped. If the process dies while the last completed step is
  being compensated, the step is left COMPENSATING; the resumed compensation passes over every
  step that is not COMPLETED, undoes the earlier ones only, and reports the saga as
  COMPENSATED although that step was never undone.\<close>

theorem interrupted_undo_skipped:
  assumes "saga_ids_ok s" and "get_saga_by_idempotency_key key s = None"
    and "forward payload (oc_steps orc) Map.empty (world s) = Some (cs @ [(d, c)], Some m, ctx, w0)"
    and "sd_compensate d = Some undo" and "undo w0 payload c = (Undo_interrupted, w1)"
    and "backward payload (rev cs) w1 = Some (False, w2)"
  shows "\<exists>s1 s2 r. execute orc org payload key user correlation now s = (Inl Session_lost, s1)
    \<and> execute orc org' payload' key user' correlation' later s1 = (Inr r, s2)
    \<and> sr_was_compensated r \<and> world s2 = w2"
proof -
  obtain t h where h: "at_step orc h (cs @ [(d, c)]) t" "sg_id h = next_saga s" "sg_payload h = payload"
      "sg_error_message h = Some m" "m \<noteq> []" "world t = w0"
    and key: "\<And>s'. same_rows t s' \<Longrightarrow> get_saga_by_idempotency_key key s' = get_saga (next_saga s) s'"
    and run: "execute orc org payload key user correlation now s = compensate_now orc (next_saga s) now t"
    by (rule fresh_failure [OF assms(1-3), where org = org and user = user and correlation = correlation and now = now])
      (rule that)
  have "finish orc (sg_payload h) cs (Some m) ctx w1 = Some (Compensated m, w2)"
    using assms(6) h(3) by (simp add: finish_def)
  with undo_interrupted [OF h(1,4,5) assms(4), of w1 ctx "Compensated m" w2 now later] assms(5) h
  obtain s1 g1 s2 where s1: "compensate_now orc (next_saga s) now t = (Inl Session_lost, s1)" "same_rows t s1"
      "get_saga (next_saga s) s1 = Some g1" "sg_status g1 = SG_COMPENSATING"
    and s2: "compensate_steps orc g1 later s1 = (Inr (outcome_result (next_saga s) (Compensated m)), s2)" "world s2 = w2"
    by auto
  have "execute orc org' payload' key user' correlation' later s1
      = (Inr (outcome_result (next_saga s) (Compensated m)), s2)"
    using key [OF s1(2)] s1(3,4) s2(1) by (simp add: execute_again handle_existing_saga_def)
  with run s1(1) s2(2) show ?thesis by auto
qed

end
