(* ===== verification/Saga_Samples.thy ===== *)
theory Saga_Samples
  imports Saga_Properties
begin

text \<open>
  Witnesses for the saga properties. The world is a list of bookings; a booking step adds one,
  its compensation takes it out again. The other steps refuse, die once, or cannot be undone.
\<close>

definition booked :: "nat \<Rightarrow> nat step_result" where
  "booked n = \<lparr>sp_success = True, sp_output = [''last'' \<mapsto> n], sp_compensation = [''booking'' \<mapsto> n], sp_error = None\<rparr>"

definition take_out :: "nat list \<Rightarrow> nat json \<Rightarrow> nat json \<Rightarrow> undo_outcome \<times> nat list" where
  "take_out w p c = (case c ''booking'' of None \<Rightarrow> (Undone True, w) | Some n \<Rightarrow> (Undone True, remove1 n w))"

definition book :: "nat \<Rightarrow> (nat list, nat) step_def" where
  "book n = \<lparr>sd_name = ''book'', sd_execute = (\<lambda>w p c. (Finished (booked n), n # w)), sd_compensate = Some take_out\<rparr>"

definition book_for_good :: "nat \<Rightarrow> (nat list, nat) step_def" where
  "book_for_good n = (book n)\<lparr>sd_compensate := Some (\<lambda>w p c. (Undone False, w))\<rparr>"

definition book_dying_undo :: "nat \<Rightarrow> (nat list, nat) step_def" where
  "book_dying_undo n = (book n)\<lparr>sd_compensate := Some (\<lambda>w p c. (Undo_interrupted, w))\<rparr>"

text \<open>Dies after a first booking of 9 was committed, and finds it at the second attempt.\<close>

definition book_dying :: "(nat list, nat) step_def" where
  "book_dying = (book 9)\<lparr>sd_execute := (\<lambda>w p c. if 9 \<in> set w then (Finished (booked 9), w) else (Interrupted, 9 # w))\<rparr>"

definition refuse :: "(nat list, nat) step_def" where
  "refuse = \<lparr>sd_name = ''refuse'', sd_execute = (\<lambda>w p c. (Finished \<lparr>sp_success = False,
     sp_output = Map.empty, sp_compensation = Map.empty, sp_error = Some ''no''\<rparr>, w)), sd_compensate = None\<rparr>"

definition saga_of :: "(nat list, nat) step_def list \<Rightarrow> (nat list, nat) orchestrator" where
  "saga_of ds = \<lparr>oc_type = ''BOOKING'', oc_steps = ds, oc_build_result = (\<lambda>p c. c)\<rparr>"

definition no_sagas :: "(nat list, nat) saga_db" where
  "no_sagas = \<lparr>sagas = [], saga_steps = [], world = [], next_saga = 1\<rparr>"

lemmas sample_defs = booked_def take_out_def book_def book_for_good_def book_dying_undo_def book_dying_def
  refuse_def saga_of_def

lemma no_sagas_ok: "saga_ids_ok no_sagas" "get_saga_by_idempotency_key k no_sagas = None" "world no_sagas = []"
  "next_saga no_sagas = 1"
  by (simp_all add: saga_ids_ok_def no_sagas_def get_saga_by_idempotency_key_def)

lemma sample_specs:
  "saga_spec (saga_of [book 1, book 2]) Map.empty [] = Some (Completed [''last'' \<mapsto> 2], [2, 1])"
  "saga_spec (saga_of [book 1, book 2, refuse]) Map.empty []
     = Some (Compensated (step_failure ''refuse'' (Some ''no'')), [])"
  "saga_spec (saga_of [book 1, book_for_good 2, refuse]) Map.empty []
     = Some (Failed (step_failure ''refuse'' (Some ''no'')), [2])"
  by (simp_all add: saga_spec_def saga_from_def finish_def sample_defs)

theorem saga_refines_spec_witness:
  "\<exists>s' g. execute (saga_of [book 1, book 2, refuse]) 1 Map.empty ''k'' 7 None 5 no_sagas
      = (Inr (outcome_result 1 (Compensated (step_failure ''refuse'' (Some ''no'')))), s')
    \<and> world s' = [] \<and> get_saga 1 s' = Some g \<and> sg_status g = SG_COMPENSATED"
  using saga_refines_spec [OF no_sagas_ok(1,2), of "saga_of [book 1, book 2, refuse]" Map.empty _ _ 1 "''k''" 7 None 5]
    sample_specs(2) by (auto simp: no_sagas_ok)

theorem saga_request_replayed_witness:
  "\<exists>r s'. execute (saga_of [book 1, book 2]) 1 Map.empty ''k'' 7 None 5 no_sagas = (Inr r, s')
    \<and> execute (saga_of [book 1, book 2]) 2 [''last'' \<mapsto> 3] ''k'' 8 None 6 s' = (Inr r, s')"
  by (rule saga_request_replayed [OF no_sagas_ok(1,2)]) (subst no_sagas_ok(3), rule sample_specs(1))

theorem interrupted_saga_resumes_witness:
  "\<exists>s1 s2. execute (saga_of [book 1, book_dying, book 2]) 1 Map.empty ''k'' 7 None 5 no_sagas = (Inl Session_lost, s1)
    \<and> world s1 = [9, 1]
    \<and> execute (saga_of [book 1, book_dying, book 2]) 2 [''last'' \<mapsto> 3] ''k'' 8 None 6 s1
        = (Inr (outcome_result (next_saga no_sagas) (Completed [''last'' \<mapsto> 2])), s2)
    \<and> world s2 = [2, 9, 1]"
  by (rule interrupted_saga_resumes [OF no_sagas_ok(1,2), where ds = "[book 1]" and d = book_dying and rest = "[book 2]"
        and cs = "[(book 1, [''booking'' \<mapsto> 1])]" and ctx = "[''last'' \<mapsto> 1]" and ?w0.0 = "[1]"])
    (simp_all add: no_sagas_ok saga_from_def finish_def sample_defs)

theorem failed_compensation_not_retried_witness:
  "\<exists>r s1 s2 g. execute (saga_of [book 1, book_for_good 2, refuse]) 1 Map.empty ''k'' 7 None 5 no_sagas = (Inr r, s1)
    \<and> \<not> sr_was_compensated r
    \<and> retry_compensation [''BOOKING'' \<mapsto> saga_of [book 1, book_for_good 2, refuse]] (next_saga no_sagas) 6 s1 = (Inr True, s2)
    \<and> world s2 = world s1 \<and> saga_steps s2 = saga_steps s1
    \<and> get_saga (next_saga no_sagas) s2 = Some g \<and> sg_status g = SG_COMPENSATED"
  by (rule failed_compensation_not_retried [OF no_sagas_ok(1,2)]) (subst no_sagas_ok(3), rule sample_specs(3))

theorem interrupted_undo_skipped_witness:
  "\<exists>s1 s2 r. execute (saga_of [book 1, book_dying_undo 2, refuse]) 1 Map.empty ''k'' 7 None 5 no_sagas = (Inl Session_lost, s1)
    \<and> execute (saga_of [book 1, book_dying_undo 2, refuse]) 1 Map.empty ''k'' 7 None 6 s1 = (Inr r, s2)
    \<and> sr_was_compensated r \<and> world s2 = [2]"
  by (rule interrupted_undo_skipped [OF no_sagas_ok(1,2), where cs = "[(book 1, [''booking'' \<mapsto> 1])]"
        and d = "book_dying_undo 2" and c = "[''booking'' \<mapsto> 2]" and m = "step_failure ''refuse'' (Some ''no'')"
        and ?w0.0 = "[2, 1]" and ?w1.0 = "[2, 1]" and ctx = "[''last'' \<mapsto> 2]"])
    (simp_all add: no_sagas_ok sample_defs)

end
