(* ===== verification/Ipsas_Model.thy ===== *)
theory Ipsas_Model
  imports Decimals Dates
begin

text \<open>
  Budget control of the public-sector module: \<open>app/services/finance/ipsas/\<close> (funds,
  appropriations, allotments, commitments, virements and the available balance) over its rows
  in \<open>app/models/finance/ipsas/\<close>.

  Amounts are \<open>NUMERIC(20, 6)\<close> columns: what a service assigns is rounded to six places when
  the session is flushed (\<open>stored\<close>). Sums and differences of such amounts have fewer than 28
  digits, so the arithmetic of \<open>Decimal\<close> on them is exact. Columns that no operation reads are
  left out, as are foreign keys, the parsing of enum names and the listings.
\<close>

datatype fund_type = FT_GENERAL | FT_CAPITAL | FT_SPECIAL | FT_DONOR | FT_TRUST | FT_REVOLVING
  | FT_CONSOLIDATED

datatype fund_status = FS_ACTIVE | FS_FROZEN | FS_CLOSED

datatype appropriation_type = AT_ORIGINAL | AT_SUPPLEMENTARY | AT_VIREMENT_IN | AT_VIREMENT_OUT
  | AT_REDUCTION

datatype appropriation_status = AS_DRAFT | AS_SUBMITTED | AS_APPROVED | AS_ACTIVE | AS_LAPSED | AS_CLOSED

datatype commitment_type = CT_PURCHASE_ORDER | CT_CONTRACT | CT_PAYROLL | CT_OTHER

datatype commitment_status = CS_PENDING | CS_COMMITTED | CS_OBLIGATED | CS_PARTIALLY_PAID | CS_EXPENDED
  | CS_CANCELLED | CS_LAPSED

datatype virement_status = VS_DRAFT | VS_SUBMITTED | VS_APPROVED | VS_APPLIED | VS_REJECTED

record fund =
  fu_id :: uuid
  fu_org :: uuid
  fu_code :: string
  fu_name :: string
  fu_type :: fund_type
  fu_status :: fund_status
  fu_is_restricted :: bool
  fu_created_by :: uuid

record appropriation =
  ap_id :: uuid
  ap_org :: uuid
  ap_fiscal_year :: uuid
  ap_fund :: uuid
  ap_code :: string
  ap_name :: string
  ap_type :: appropriation_type
  ap_status :: appropriation_status
  ap_approved_amount :: decimal
  ap_revised_amount :: decimal
  ap_currency_code :: string
  ap_account :: "uuid option"
  ap_created_by :: uuid
  ap_approved_by :: "uuid option"
  ap_approved_at :: "timestamp option"

record allotment =
  al_id :: uuid
  al_appropriation :: uuid
  al_org :: uuid
  al_code :: string
  al_name :: string
  al_allotted_amount :: decimal

record commitment =
  cm_id :: uuid
  cm_org :: uuid
  cm_number :: string
  cm_type :: commitment_type
  cm_status :: commitment_status
  cm_fund :: uuid
  cm_appropriation :: "uuid option"
  cm_source_type :: string
  cm_source_id :: uuid
  cm_account :: uuid
  cm_fiscal_year :: uuid
  cm_fiscal_period :: uuid
  cm_currency_code :: string
  cm_committed_amount :: decimal
  cm_obligated_amount :: decimal
  cm_expended_amount :: decimal
  cm_cancelled_amount :: decimal
  cm_commitment_date :: date
  cm_obligation_date :: "date option"
  cm_expenditure_date :: "date option"
  cm_created_by :: uuid

record virement =
  vi_id :: uuid
  vi_org :: uuid
  vi_fiscal_year :: uuid
  vi_number :: string
  vi_status :: virement_status
  vi_from :: uuid
  vi_to :: uuid
  vi_amount :: decimal
  vi_currency_code :: string
  vi_created_by :: uuid
  vi_approved_by :: "uuid option"
  vi_approved_at :: "timestamp option"
  vi_applied_at :: "timestamp option"

text \<open>The functional currency of an organisation is another service's.\<close>

record ipsas_db =
  funds :: "fund list"
  appropriations :: "appropriation list"
  allotments :: "allotment list"
  commitments :: "commitment list"
  virements :: "virement list"
  functional_currency :: "uuid \<Rightarrow> string"
  next_ipsas :: uuid

datatype ipsas_error = Fund_not_found uuid | Appropriation_not_found uuid | Commitment_not_found uuid
  | Virement_not_found uuid | Forbidden | Amount_not_positive | Creator_cannot_approve
  | Cannot_commit_fund fund_status | Cannot_commit_appropriation appropriation_status
  | Exceeds_available decimal decimal | Cannot_approve_appropriation appropriation_status
  | Cannot_obligate commitment_status | Exceeds_committed decimal decimal
  | Cannot_expend commitment_status | Exceeds_obligated decimal decimal
  | Cannot_cancel commitment_status | Exceeds_cancellable decimal decimal
  | Same_appropriation | Cannot_approve_virement virement_status | Cannot_apply virement_status
  | Source_or_destination_missing | Other_organization | Other_fiscal_year | Other_currency
  | Other_fund | Insufficient_balance decimal decimal | Unique_violation string

definition stored :: "decimal \<Rightarrow> decimal" where
  "stored x = quantize_half_up 6 x"

section \<open>Funds\<close>

record fund_input =
  fi_code :: string
  fi_name :: string
  fi_type :: fund_type
  fi_is_restricted :: bool

definition create_fund :: "uuid \<Rightarrow> fund_input \<Rightarrow> uuid \<Rightarrow> ipsas_db \<Rightarrow> (ipsas_error, uuid, ipsas_db) tx" where
  "create_fund org i user s =
    (if \<exists>f \<in> set (funds s). fu_org f = org \<and> fu_code f = fi_code i then raise (Unique_violation ''uq_fund_code'') s
     else return (next_ipsas s) (s\<lparr>funds := add_row \<lparr>fu_id = next_ipsas s, fu_org = org, fu_code = fi_code i,
       fu_name = fi_name i, fu_type = fi_type i, fu_status = FS_ACTIVE, fu_is_restricted = fi_is_restricted i,
       fu_created_by = user\<rparr> (funds s), next_ipsas := Suc (next_ipsas s)\<rparr>))"

text \<open>\<open>FundUpdate\<close>: a field that is not sent is left as it is.\<close>

record fund_update =
  fc_name :: "string option"
  fc_status :: "fund_status option"
  fc_is_restricted :: "bool option"

definition set_given :: "'a option \<Rightarrow> 'a \<Rightarrow> 'a" where
  "set_given v old = (case v of Some x \<Rightarrow> x | None \<Rightarrow> old)"

definition update_fund :: "uuid \<Rightarrow> fund_update \<Rightarrow> ipsas_db \<Rightarrow> (ipsas_error, uuid, ipsas_db) tx" where
  "update_fund fid u s = (case get_row fu_id fid (funds s) of
     None \<Rightarrow> raise (Fund_not_found fid) s
   | Some f \<Rightarrow> return fid (s\<lparr>funds := set_row fu_id fid (\<lambda>f. f\<lparr>fu_name := set_given (fc_name u) (fu_name f),
       fu_status := set_given (fc_status u) (fu_status f),
       fu_is_restricted := set_given (fc_is_restricted u) (fu_is_restricted f)\<rparr>) (funds s)\<rparr>))"

section \<open>The available balance\<close>

record available_balance =
  ab_total_appropriated :: decimal
  ab_total_allotted :: decimal
  ab_total_committed :: decimal
  ab_total_obligated :: decimal
  ab_total_expended :: decimal
  ab_available_balance :: decimal
  ab_currency_code :: string

definition where_given :: "uuid option \<Rightarrow> uuid option \<Rightarrow> bool" where
  "where_given flt col \<longleftrightarrow> flt = None \<or> col = flt"

definition live_commitment :: "commitment \<Rightarrow> bool" where
  "live_commitment c \<longleftrightarrow> cm_status c \<notin> {CS_CANCELLED, CS_LAPSED}"

definition appropriations_in :: "uuid \<Rightarrow> uuid option \<Rightarrow> uuid option \<Rightarrow> uuid option \<Rightarrow> ipsas_db \<Rightarrow> appropriation list" where
  "appropriations_in org approp fund account s = filter (\<lambda>a. ap_org a = org \<and> where_given approp (Some (ap_id a))
     \<and> where_given fund (Some (ap_fund a)) \<and> where_given account (ap_account a)) (appropriations s)"

definition commitments_in :: "uuid \<Rightarrow> uuid option \<Rightarrow> uuid option \<Rightarrow> uuid option \<Rightarrow> ipsas_db \<Rightarrow> commitment list" where
  "commitments_in org approp fund account s = filter (\<lambda>c. cm_org c = org \<and> live_commitment c
     \<and> where_given fund (Some (cm_fund c)) \<and> where_given approp (cm_appropriation c)
     \<and> where_given account (Some (cm_account c))) (commitments s)"

definition calculate :: "uuid \<Rightarrow> uuid option \<Rightarrow> uuid option \<Rightarrow> uuid option \<Rightarrow> ipsas_db \<Rightarrow> available_balance" where
  "calculate org approp fund account s =
    (let scope = appropriations_in org approp fund account s;
         total_appropriated = (\<Sum>a\<leftarrow>filter (\<lambda>a. ap_status a \<in> {AS_APPROVED, AS_ACTIVE}) scope. ap_revised_amount a);
         cs = commitments_in org approp fund account s;
         total_committed = (\<Sum>c\<leftarrow>cs. cm_committed_amount c) - (\<Sum>c\<leftarrow>cs. cm_cancelled_amount c)
     in \<lparr>ab_total_appropriated = total_appropriated,
         ab_total_allotted = (\<Sum>l\<leftarrow>filter (\<lambda>l. al_org l = org \<and> where_given approp (Some (al_appropriation l))) (allotments s).
            al_allotted_amount l),
         ab_total_committed = total_committed,
         ab_total_obligated = (\<Sum>c\<leftarrow>cs. cm_obligated_amount c),
         ab_total_expended = (\<Sum>c\<leftarrow>cs. cm_expended_amount c),
         ab_available_balance = total_appropriated - total_committed,
         ab_currency_code = (case scope of a # _ \<Rightarrow> if ap_currency_code a = [] then functional_currency s org
             else ap_currency_code a | [] \<Rightarrow> functional_currency s org)\<rparr>)"

definition calculate_by_fund :: "uuid \<Rightarrow> uuid \<Rightarrow> ipsas_db \<Rightarrow> available_balance" where
  "calculate_by_fund org fund s = calculate org None (Some fund) None s"

text \<open>The balance of a fund counts all its appropriations and commitments, whatever their
  organisation; a fund is unknown or belongs to one.\<close>

definition get_fund_balance :: "uuid \<Rightarrow> uuid option \<Rightarrow> ipsas_db \<Rightarrow> (ipsas_error, decimal, ipsas_db) tx" where
  "get_fund_balance fund period s = (case get_row fu_id fund (funds s) of
     None \<Rightarrow> raise (Fund_not_found fund) s
   | Some _ \<Rightarrow>
      (let cs = filter (\<lambda>c. cm_fund c = fund \<and> live_commitment c \<and> where_given period (Some (cm_fiscal_period c))) (commitments s)
       in return ((\<Sum>a\<leftarrow>filter (\<lambda>a. ap_fund a = fund \<and> ap_status a \<in> {AS_APPROVED, AS_ACTIVE}) (appropriations s).
           ap_revised_amount a)
         - ((\<Sum>c\<leftarrow>cs. cm_committed_amount c) - (\<Sum>c\<leftarrow>cs. cm_cancelled_amount c))) s))"

section \<open>Appropriations and allotments\<close>

record appropriation_input =
  ai_fiscal_year :: uuid
  ai_fund :: uuid
  ai_code :: string
  ai_name :: string
  ai_type :: appropriation_type
  ai_approved_amount :: decimal
  ai_currency_code :: string
  ai_account :: "uuid option"

definition create_appropriation :: "uuid \<Rightarrow> appropriation_input \<Rightarrow> uuid \<Rightarrow> ipsas_db
    \<Rightarrow> (ipsas_error, uuid, ipsas_db) tx" where
  "create_appropriation org i user s =
    (if ai_approved_amount i \<le> 0 then raise Amount_not_positive s
     else if \<exists>a \<in> set (appropriations s). ap_org a = org \<and> ap_code a = ai_code i
     then raise (Unique_violation ''uq_appropriation_code'') s
     else return (next_ipsas s) (s\<lparr>appropriations := add_row \<lparr>ap_id = next_ipsas s, ap_org = org,
       ap_fiscal_year = ai_fiscal_year i, ap_fund = ai_fund i, ap_code = ai_code i, ap_name = ai_name i,
       ap_type = ai_type i, ap_status = AS_DRAFT, ap_approved_amount = stored (ai_approved_amount i),
       ap_revised_amount = stored (ai_approved_amount i), ap_currency_code = ai_currency_code i,
       ap_account = ai_account i, ap_created_by = user, ap_approved_by = None, ap_approved_at = None\<rparr>
       (appropriations s), next_ipsas := Suc (next_ipsas s)\<rparr>))"

definition approve_appropriation :: "uuid \<Rightarrow> uuid \<Rightarrow> timestamp \<Rightarrow> ipsas_db
    \<Rightarrow> (ipsas_error, uuid, ipsas_db) tx" where
  "approve_appropriation aid approver now s = (case get_row ap_id aid (appropriations s) of
     None \<Rightarrow> raise (Appropriation_not_found aid) s
   | Some a \<Rightarrow>
      if ap_status a \<notin> {AS_DRAFT, AS_SUBMITTED} then raise (Cannot_approve_appropriation (ap_status a)) s
      else if ap_created_by a = approver then raise Creator_cannot_approve s
      else return aid (s\<lparr>appropriations := set_row ap_id aid (\<lambda>a. a\<lparr>ap_status := AS_APPROVED,
        ap_approved_by := Some approver, ap_approved_at := Some now\<rparr>) (appropriations s)\<rparr>))"

record allotment_input =
  li_appropriation :: uuid
  li_code :: string
  li_name :: string
  li_allotted_amount :: decimal

definition create_allotment :: "uuid \<Rightarrow> allotment_input \<Rightarrow> ipsas_db \<Rightarrow> (ipsas_error, uuid, ipsas_db) tx" where
  "create_allotment org i s = (case get_row ap_id (li_appropriation i) (appropriations s) of
     None \<Rightarrow> raise (Appropriation_not_found (li_appropriation i)) s
   | Some a \<Rightarrow>
      if ap_org a \<noteq> org then raise Forbidden s
      else if li_allotted_amount i \<le> 0 then raise Amount_not_positive s
      else if \<exists>l \<in> set (allotments s). al_appropriation l = li_appropriation i \<and> al_code l = li_code i
      then raise (Unique_violation ''uq_allotment_code'') s
      else return (next_ipsas s) (s\<lparr>allotments := add_row \<lparr>al_id = next_ipsas s,
        al_appropriation = li_appropriation i, al_org = org, al_code = li_code i, al_name = li_name i,
        al_allotted_amount = stored (li_allotted_amount i)\<rparr> (allotments s), next_ipsas := Suc (next_ipsas s)\<rparr>))"

section \<open>Commitments\<close>

record commitment_input =
  ci_number :: string
  ci_fund :: uuid
  ci_account :: uuid
  ci_fiscal_year :: uuid
  ci_fiscal_period :: uuid
  ci_amount :: decimal
  ci_currency_code :: string
  ci_created_by :: uuid
  ci_appropriation :: "uuid option"

definition validate_new_commitment :: "uuid \<Rightarrow> uuid \<Rightarrow> uuid option \<Rightarrow> decimal \<Rightarrow> ipsas_db \<Rightarrow> ipsas_error option" where
  "validate_new_commitment org fund approp amount s =
    (if amount \<le> 0 then Some Amount_not_positive
     else case get_row fu_id fund (funds s) of
       None \<Rightarrow> Some (Fund_not_found fund)
     | Some f \<Rightarrow>
        if fu_org f \<noteq> org then Some (Fund_not_found fund)
        else if fu_status f \<noteq> FS_ACTIVE then Some (Cannot_commit_fund (fu_status f))
        else (case approp of None \<Rightarrow> None
          | Some aid \<Rightarrow> (case get_row ap_id aid (appropriations s) of
              None \<Rightarrow> Some (Appropriation_not_found aid)
            | Some a \<Rightarrow>
               if ap_org a \<noteq> org then Some (Appropriation_not_found aid)
               else if ap_status a \<notin> {AS_APPROVED, AS_ACTIVE} then Some (Cannot_commit_appropriation (ap_status a))
               else (let available = ab_available_balance (calculate org (Some aid) None None s)
                 in if available < amount then Some (Exceeds_available amount available) else None))))"

definition new_commitment :: "uuid \<Rightarrow> uuid \<Rightarrow> commitment_type \<Rightarrow> string \<Rightarrow> uuid \<Rightarrow> commitment_input \<Rightarrow> date
    \<Rightarrow> commitment" where
  "new_commitment u org kind source_type source_id i today = \<lparr>cm_id = u, cm_org = org, cm_number = ci_number i,
     cm_type = kind, cm_status = CS_COMMITTED, cm_fund = ci_fund i, cm_appropriation = ci_appropriation i,
     cm_source_type = source_type, cm_source_id = source_id, cm_account = ci_account i,
     cm_fiscal_year = ci_fiscal_year i, cm_fiscal_period = ci_fiscal_period i,
     cm_currency_code = ci_currency_code i, cm_committed_amount = stored (ci_amount i),
     cm_obligated_amount = 0, cm_expended_amount = 0, cm_cancelled_amount = 0,
     cm_commitment_date = today, cm_obligation_date = None, cm_expenditure_date = None,
     cm_created_by = ci_created_by i\<rparr>"

definition commit_funds :: "commitment_type \<Rightarrow> string \<Rightarrow> uuid \<Rightarrow> uuid \<Rightarrow> commitment_input \<Rightarrow> date \<Rightarrow> ipsas_db
    \<Rightarrow> (ipsas_error, uuid, ipsas_db) tx" where
  "commit_funds kind source_type source_id org i today s =
    (case validate_new_commitment org (ci_fund i) (ci_appropriation i) (ci_amount i) s of
       Some e \<Rightarrow> raise e s
     | None \<Rightarrow>
        if \<exists>c \<in> set (commitments s). cm_org c = org \<and> cm_number c = ci_number i
        then raise (Unique_violation ''uq_commitment_number'') s
        else return (next_ipsas s) (s\<lparr>commitments := add_row
          (new_commitment (next_ipsas s) org kind source_type source_id i today) (commitments s),
          next_ipsas := Suc (next_ipsas s)\<rparr>))"

definition create_commitment :: "commitment_type \<Rightarrow> uuid \<Rightarrow> commitment_input \<Rightarrow> date \<Rightarrow> ipsas_db
    \<Rightarrow> (ipsas_error, uuid, ipsas_db) tx" where
  "create_commitment kind org = commit_funds kind ''manual'' org org"

definition create_commitment_from_po :: "uuid \<Rightarrow> uuid \<Rightarrow> commitment_input \<Rightarrow> date \<Rightarrow> ipsas_db
    \<Rightarrow> (ipsas_error, uuid, ipsas_db) tx" where
  "create_commitment_from_po po org = commit_funds CT_PURCHASE_ORDER ''purchase_order'' po org"

definition create_commitment_from_contract :: "uuid \<Rightarrow> uuid \<Rightarrow> commitment_input \<Rightarrow> date \<Rightarrow> ipsas_db
    \<Rightarrow> (ipsas_error, uuid, ipsas_db) tx" where
  "create_commitment_from_contract contract org = commit_funds CT_CONTRACT ''contract'' contract org"

definition set_commitment :: "uuid \<Rightarrow> (commitment \<Rightarrow> commitment) \<Rightarrow> ipsas_db \<Rightarrow> ipsas_db" where
  "set_commitment cid f s = s\<lparr>commitments := set_row cm_id cid f (commitments s)\<rparr>"

definition record_obligation :: "uuid \<Rightarrow> decimal \<Rightarrow> date \<Rightarrow> ipsas_db \<Rightarrow> (ipsas_error, uuid, ipsas_db) tx" where
  "record_obligation cid amount today s = (case get_row cm_id cid (commitments s) of
     None \<Rightarrow> raise (Commitment_not_found cid) s
   | Some c \<Rightarrow>
      if cm_status c \<notin> {CS_COMMITTED, CS_OBLIGATED} then raise (Cannot_obligate (cm_status c)) s
      else (let remaining = cm_committed_amount c - cm_obligated_amount c - cm_cancelled_amount c in
        if remaining < amount then raise (Exceeds_committed amount remaining) s
        else return cid (set_commitment cid (\<lambda>c. c\<lparr>cm_obligated_amount := stored (cm_obligated_amount c + amount),
          cm_obligation_date := Some today, cm_status := CS_OBLIGATED\<rparr>) s)))"

definition record_expenditure :: "uuid \<Rightarrow> decimal \<Rightarrow> date \<Rightarrow> ipsas_db \<Rightarrow> (ipsas_error, uuid, ipsas_db) tx" where
  "record_expenditure cid amount today s = (case get_row cm_id cid (commitments s) of
     None \<Rightarrow> raise (Commitment_not_found cid) s
   | Some c \<Rightarrow>
      if cm_status c \<notin> {CS_OBLIGATED, CS_PARTIALLY_PAID} then raise (Cannot_expend (cm_status c)) s
      else (let remaining = cm_obligated_amount c - cm_expended_amount c in
        if remaining < amount then raise (Exceeds_obligated amount remaining) s
        else return cid (set_commitment cid (\<lambda>c. c\<lparr>cm_expended_amount := stored (cm_expended_amount c + amount),
          cm_expenditure_date := Some today,
          cm_status := (if cm_obligated_amount c \<le> cm_expended_amount c + amount then CS_EXPENDED
            else CS_PARTIALLY_PAID)\<rparr>) s)))"

definition cancel_commitment :: "uuid \<Rightarrow> decimal option \<Rightarrow> ipsas_db \<Rightarrow> (ipsas_error, uuid, ipsas_db) tx" where
  "cancel_commitment cid amount s = (case get_row cm_id cid (commitments s) of
     None \<Rightarrow> raise (Commitment_not_found cid) s
   | Some c \<Rightarrow>
      if cm_status c \<in> {CS_EXPENDED, CS_CANCELLED, CS_LAPSED} then raise (Cannot_cancel (cm_status c)) s
      else (case amount of
        None \<Rightarrow> return cid (set_commitment cid (\<lambda>c. c\<lparr>cm_cancelled_amount :=
            cm_committed_amount c - cm_obligated_amount c - cm_expended_amount c, cm_status := CS_CANCELLED\<rparr>) s)
      | Some x \<Rightarrow>
         (let available = cm_committed_amount c - cm_obligated_amount c - cm_expended_amount c - cm_cancelled_amount c in
          if available < x then raise (Exceeds_cancellable x available) s
          else return cid (set_commitment cid (\<lambda>c. c\<lparr>cm_cancelled_amount := stored (cm_cancelled_amount c + x)\<rparr>) s))))"

section \<open>Virements\<close>

record virement_input =
  wi_fiscal_year :: uuid
  wi_from :: uuid
  wi_to :: uuid
  wi_amount :: decimal
  wi_currency_code :: string

definition create_virement :: "uuid \<Rightarrow> virement_input \<Rightarrow> uuid \<Rightarrow> string \<Rightarrow> ipsas_db
    \<Rightarrow> (ipsas_error, uuid, ipsas_db) tx" where
  "create_virement org i user number s =
    (if wi_from i = wi_to i then raise Same_appropriation s
     else if wi_amount i \<le> 0 then raise Amount_not_positive s
     else if \<exists>v \<in> set (virements s). vi_org v = org \<and> vi_number v = number
     then raise (Unique_violation ''uq_virement_number'') s
     else return (next_ipsas s) (s\<lparr>virements := add_row \<lparr>vi_id = next_ipsas s, vi_org = org,
       vi_fiscal_year = wi_fiscal_year i, vi_number = number, vi_status = VS_DRAFT, vi_from = wi_from i,
       vi_to = wi_to i, vi_amount = stored (wi_amount i), vi_currency_code = wi_currency_code i,
       vi_created_by = user, vi_approved_by = None, vi_approved_at = None, vi_applied_at = None\<rparr>
       (virements s), next_ipsas := Suc (next_ipsas s)\<rparr>))"

definition approve_virement :: "uuid \<Rightarrow> uuid \<Rightarrow> timestamp \<Rightarrow> ipsas_db \<Rightarrow> (ipsas_error, uuid, ipsas_db) tx" where
  "approve_virement vid approver now s = (case get_row vi_id vid (virements s) of
     None \<Rightarrow> raise (Virement_not_found vid) s
   | Some v \<Rightarrow>
      if vi_status v \<notin> {VS_DRAFT, VS_SUBMITTED} then raise (Cannot_approve_virement (vi_status v)) s
      else if vi_created_by v = approver then raise Creator_cannot_approve s
      else return vid (s\<lparr>virements := set_row vi_id vid (\<lambda>v. v\<lparr>vi_status := VS_APPROVED,
        vi_approved_by := Some approver, vi_approved_at := Some now\<rparr>) (virements s)\<rparr>))"

definition transfer :: "uuid \<Rightarrow> uuid \<Rightarrow> decimal \<Rightarrow> ipsas_db \<Rightarrow> ipsas_db" where
  "transfer src dst amount s = s\<lparr>appropriations :=
     set_row ap_id dst (\<lambda>a. a\<lparr>ap_revised_amount := ap_revised_amount a + amount\<rparr>)
       (set_row ap_id src (\<lambda>a. a\<lparr>ap_revised_amount := ap_revised_amount a - amount\<rparr>) (appropriations s))\<rparr>"

definition apply_virement :: "uuid \<Rightarrow> timestamp \<Rightarrow> ipsas_db \<Rightarrow> (ipsas_error, uuid, ipsas_db) tx" where
  "apply_virement vid now s = (case get_row vi_id vid (virements s) of
     None \<Rightarrow> raise (Virement_not_found vid) s
   | Some v \<Rightarrow>
      if vi_status v \<noteq> VS_APPROVED then raise (Cannot_apply (vi_status v)) s
      else (case (get_row ap_id (vi_from v) (appropriations s), get_row ap_id (vi_to v) (appropriations s)) of
        (Some a, Some b) \<Rightarrow>
          if ap_org a \<noteq> vi_org v \<or> ap_org b \<noteq> vi_org v then raise Other_organization s
          else if ap_fiscal_year a \<noteq> vi_fiscal_year v \<or> ap_fiscal_year b \<noteq> vi_fiscal_year v
          then raise Other_fiscal_year s
          else if ap_currency_code a \<noteq> vi_currency_code v \<or> ap_currency_code b \<noteq> vi_currency_code v
          then raise Other_currency s
          else if ap_fund a \<noteq> ap_fund b then raise Other_fund s
          else (let available = ab_available_balance (calculate (vi_org v) (Some (ap_id a)) None None s) in
            if available < vi_amount v then raise (Insufficient_balance available (vi_amount v)) s
            else return vid ((transfer (ap_id a) (ap_id b) (vi_amount v) s)\<lparr>virements :=
              set_row vi_id vid (\<lambda>v. v\<lparr>vi_status := VS_APPLIED, vi_applied_at := Some now\<rparr>) (virements s)\<rparr>))
      | _ \<Rightarrow> raise Source_or_destination_missing s))"

end
