(* ===== verification/Ipsas_Control.thy ===== *)
theory Ipsas_Control
  imports Ipsas_Model
begin

text \<open>
  Encumbrance control: the invariant every budget operation keeps when the amounts it is given
  are not negative, and what the operations do when they are.

  \<open>budget_inv\<close> says that identifiers are unique, that amounts are at the stored scale, that
  the amounts of a live commitment are ordered, and that no approved appropriation is
  committed beyond its revised amount; an appropriation that is not approved yet carries no
  commitment. The locale \<open>budget_operation\<close> is the contract; every operation interprets it.
\<close>

section \<open>Net commitments\<close>

definition net_of :: "uuid \<Rightarrow> uuid \<Rightarrow> commitment \<Rightarrow> decimal" where
  "net_of org aid c = (if cm_org c = org \<and> cm_appropriation c = Some aid \<and> live_commitment c
     then cm_committed_amount c - cm_cancelled_amount c else 0)"

definition net_committed :: "uuid \<Rightarrow> uuid \<Rightarrow> ipsas_db \<Rightarrow> decimal" where
  "net_committed org aid s = (\<Sum>c\<leftarrow>commitments s. net_of org aid c)"

lemma sum_list_all_zero: "(\<And>x. x \<in> set xs \<Longrightarrow> f x = 0) \<Longrightarrow> (\<Sum>x\<leftarrow>xs. f x) = (0::rat)"
  by (induction xs) auto

lemma sum_filter_diff:
  "(\<Sum>c\<leftarrow>filter P cs. f c) - (\<Sum>c\<leftarrow>filter P cs. g c) = (\<Sum>c\<leftarrow>cs. if P c then f c - g c else (0::rat))"
  by (induction cs) auto

lemma total_committed_net:
  "(\<Sum>c\<leftarrow>commitments_in org (Some aid) None None s. cm_committed_amount c)
    - (\<Sum>c\<leftarrow>commitments_in org (Some aid) None None s. cm_cancelled_amount c) = net_committed org aid s"
  unfolding commitments_in_def sum_filter_diff net_committed_def
  by (rule arg_cong [of _ _ sum_list], rule map_cong) (auto simp: net_of_def where_given_def)

definition approved :: "appropriation \<Rightarrow> bool" where
  "approved a \<longleftrightarrow> ap_status a \<in> {AS_APPROVED, AS_ACTIVE}"

lemma sum_list_unique:
  assumes "distinct (map key rs)" and "r \<in> set rs" and "\<And>x. x \<in> set rs \<Longrightarrow> P x \<longleftrightarrow> key x = key r \<and> Q x"
  shows "(\<Sum>x\<leftarrow>filter P rs. f x) = (if Q r then f r else (0::rat))"
  using assms
proof (induction rs)
  case (Cons x rs)
  show ?case
  proof (cases "x = r")
    case True
    then have "filter P rs = []"
      using Cons.prems by (auto simp: filter_empty_conv image_iff)
    then show ?thesis using True Cons.prems(3) [of r] by simp
  next
    case False
    then have r: "r \<in> set rs" and "key x \<noteq> key r" using Cons.prems by (auto simp: image_iff)
    then have "\<not> P x" using Cons.prems(3) [of x] by simp
    moreover have "(\<Sum>x\<leftarrow>filter P rs. f x) = (if Q r then f r else 0)"
      by (rule Cons.IH [OF _ r]) (use Cons.prems(1,3) in auto)
    ultimately show ?thesis by simp
  qed
qed simp

text \<open>The available balance of one appropriation.\<close>

lemma available_of:
  assumes "distinct (map ap_id (appropriations s))" and "a \<in> set (appropriations s)"
  shows "ab_available_balance (calculate (ap_org a) (Some (ap_id a)) None None s)
    = (if approved a then ap_revised_amount a else 0) - net_committed (ap_org a) (ap_id a) s"
proof -
  have "ap_org x = ap_org a" if "x \<in> set (appropriations s)" "ap_id x = ap_id a" for x
    using that assms by (auto simp: distinct_map inj_on_def)
  then have "(\<Sum>x\<leftarrow>filter (\<lambda>x. ap_status x \<in> {AS_APPROVED, AS_ACTIVE}) (appropriations_in (ap_org a) (Some (ap_id a)) None None s).
      ap_revised_amount x) = (if approved a then ap_revised_amount a else 0)"
    unfolding appropriations_in_def filter_filter
    by (intro sum_list_unique [where key = ap_id, OF assms]) (auto simp: where_given_def approved_def)
  then show ?thesis
    by (simp add: calculate_def Let_def total_committed_net)
qed

section \<open>The invariant\<close>

definition commitment_ok :: "commitment \<Rightarrow> bool" where
  "commitment_ok c \<longleftrightarrow> at_scale 6 (cm_committed_amount c) \<and> at_scale 6 (cm_obligated_amount c)
     \<and> at_scale 6 (cm_expended_amount c) \<and> at_scale 6 (cm_cancelled_amount c)
     \<and> (live_commitment c \<longrightarrow> 0 \<le> cm_expended_amount c \<and> cm_expended_amount c \<le> cm_obligated_amount c
          \<and> 0 \<le> cm_cancelled_amount c
          \<and> cm_obligated_amount c + cm_cancelled_amount c \<le> cm_committed_amount c)"

definition appropriation_ok :: "ipsas_db \<Rightarrow> appropriation \<Rightarrow> bool" where
  "appropriation_ok s a \<longleftrightarrow> at_scale 6 (ap_revised_amount a) \<and> 0 \<le> ap_revised_amount a
     \<and> (if approved a then net_committed (ap_org a) (ap_id a) s \<le> ap_revised_amount a
        else ap_status a \<in> {AS_DRAFT, AS_SUBMITTED} \<and> net_committed (ap_org a) (ap_id a) s = 0)"

definition budget_ids :: "ipsas_db \<Rightarrow> bool" where
  "budget_ids s \<longleftrightarrow> distinct (map ap_id (appropriations s)) \<and> distinct (map cm_id (commitments s))
     \<and> (\<forall>a \<in> set (appropriations s). ap_id a < next_ipsas s) \<and> (\<forall>c \<in> set (commitments s). cm_id c < next_ipsas s)
     \<and> (\<forall>c \<in> set (commitments s). \<forall>aid. cm_appropriation c = Some aid \<longrightarrow> aid < next_ipsas s)"

definition budget_inv :: "ipsas_db \<Rightarrow> bool" where
  "budget_inv s \<longleftrightarrow> budget_ids s \<and> (\<forall>c \<in> set (commitments s). commitment_ok c)
     \<and> (\<forall>a \<in> set (appropriations s). appropriation_ok s a)
     \<and> (\<forall>v \<in> set (virements s). 0 \<le> vi_amount v \<and> at_scale 6 (vi_amount v))"

lemma stored_at_scale [simp]: "at_scale 6 (stored x)"
  by (simp add: stored_def)

lemma stored_mono_fixed: "x \<le> y \<Longrightarrow> at_scale 6 y \<Longrightarrow> stored x \<le> y"
  unfolding stored_def using quantize_mono [of x y 6] by (simp add: quantize_at_scale)

lemma stored_between:
  assumes "lo \<le> x" and "x \<le> hi" and "at_scale 6 lo" and "at_scale 6 hi"
  shows "lo \<le> stored x" and "stored x \<le> hi"
  using quantize_mono [OF assms(1), of 6] quantize_mono [OF assms(2), of 6] assms(3,4)
  by (simp_all add: stored_def quantize_at_scale)

lemma stored_nonneg: "0 \<le> x \<Longrightarrow> 0 \<le> stored x"
  using quantize_mono [of 0 x 6] by (simp add: stored_def quantize_at_scale)

lemma at_scale_net: "(\<And>c. c \<in> set (commitments s) \<Longrightarrow> commitment_ok c) \<Longrightarrow> at_scale 6 (net_committed org aid s)"
  unfolding net_committed_def
  by (rule at_scale_sum_list) (auto simp: net_of_def commitment_ok_def intro: at_scale_diff)

lemma commitments_unique:
  assumes "budget_ids s" and "get_row cm_id cid (commitments s) = Some c" and "r \<in> set (commitments s)" and "cm_id r = cid"
  shows "r = c"
  using assms get_row_distinct [of cm_id "commitments s" r] by (auto simp: budget_ids_def)

lemma net_of_nonneg: "commitment_ok c \<Longrightarrow> 0 \<le> net_of org aid c"
  by (auto simp: commitment_ok_def net_of_def)

lemma net_committed_nonneg:
  assumes "\<And>c. c \<in> set (commitments s) \<Longrightarrow> commitment_ok c"
  shows "0 \<le> net_committed org aid s"
  unfolding net_committed_def by (rule sum_list_nonneg) (auto simp: net_of_nonneg assms)

lemma budget_invI:
  assumes "budget_ids s" and "\<And>c. c \<in> set (commitments s) \<Longrightarrow> commitment_ok c"
    and "\<And>a. a \<in> set (appropriations s) \<Longrightarrow> appropriation_ok s a"
    and "\<And>v. v \<in> set (virements s) \<Longrightarrow> 0 \<le> vi_amount v \<and> at_scale 6 (vi_amount v)"
  shows "budget_inv s"
  using assms by (simp add: budget_inv_def)

lemma budget_invD:
  assumes "budget_inv s"
  shows "budget_ids s" and "\<And>c. c \<in> set (commitments s) \<Longrightarrow> commitment_ok c"
    and "\<And>a. a \<in> set (appropriations s) \<Longrightarrow> appropriation_ok s a"
    and "\<And>v. v \<in> set (virements s) \<Longrightarrow> 0 \<le> vi_amount v \<and> at_scale 6 (vi_amount v)"
  using assms by (simp_all add: budget_inv_def)

lemma appropriation_ok_same:
  "(\<And>org aid. net_committed org aid s' = net_committed org aid s) \<Longrightarrow> appropriation_ok s' a = appropriation_ok s a"
  by (simp add: appropriation_ok_def)

lemma appropriation_ok_net:
  assumes "appropriation_ok s a"
    and "net_committed (ap_org a) (ap_id a) s' \<le> net_committed (ap_org a) (ap_id a) s"
    and "net_committed (ap_org a) (ap_id a) s = 0 \<Longrightarrow> net_committed (ap_org a) (ap_id a) s' = 0"
  shows "appropriation_ok s' a"
  using assms by (auto simp: appropriation_ok_def split: if_splits)

text \<open>A change of one commitment that keeps it in order and does not raise its net amount.\<close>

lemma inv_set_commitment:
  assumes inv: "budget_inv s" and c: "get_row cm_id cid (commitments s) = Some c"
    and f: "cm_id (f c) = cm_id c" "cm_appropriation (f c) = cm_appropriation c"
    and ok: "commitment_ok (f c)" and net: "\<And>org aid. net_of org aid (f c) \<le> net_of org aid c"
  shows "budget_inv (set_commitment cid f s)"
proof -
  let ?s = "set_commitment cid f s" and ?g = "\<lambda>r. if r = c then f c else r"
  note inv = budget_invD [OF inv]
  have key: "cm_id r = cid \<longleftrightarrow> r = c" if "r \<in> set (commitments s)" for r
    using commitments_unique [OF inv(1) c that] get_row_SomeD [OF c] by blast
  have rows: "commitments ?s = map ?g (commitments s)"
    unfolding set_commitment_def set_row_def by (simp add: key cong: map_cong)
  have same: "appropriations ?s = appropriations s" "virements ?s = virements s" "next_ipsas ?s = next_ipsas s"
    by (simp_all add: set_commitment_def)
  have cm: "c \<in> set (commitments s)" using get_row_SomeD [OF c] by simp
  have ok': "commitment_ok r" if "r \<in> set (commitments ?s)" for r
    using that inv(2) ok unfolding rows by auto
  have le: "net_committed org aid ?s \<le> net_committed org aid s" for org aid
    unfolding net_committed_def rows map_map by (rule sum_list_mono) (auto simp: net)
  show ?thesis
  proof (rule budget_invI)
    have "map cm_id (commitments ?s) = map cm_id (commitments s)" unfolding rows by (auto simp: f)
    moreover have "\<forall>r \<in> set (commitments ?s). cm_id r < next_ipsas s
        \<and> (\<forall>aid. cm_appropriation r = Some aid \<longrightarrow> aid < next_ipsas s)"
      using inv(1) cm unfolding rows budget_ids_def by (auto simp: f)
    ultimately show "budget_ids ?s"
      using inv(1) unfolding budget_ids_def same by simp
  next
    fix a assume a: "a \<in> set (appropriations ?s)"
    have "net_committed (ap_org a) (ap_id a) ?s = 0" if "net_committed (ap_org a) (ap_id a) s = 0"
      using le [of "ap_org a" "ap_id a"] that net_committed_nonneg [where s = ?s and org = "ap_org a" and aid = "ap_id a", OF ok']
      by (simp only: eq_iff)
    with a inv(3) le show "appropriation_ok ?s a" by (auto intro: appropriation_ok_net simp: same)
  qed (use ok' inv(4) in \<open>simp_all add: same\<close>)
qed

section \<open>The contract of a budget operation\<close>

locale budget_operation =
  fixes f :: "ipsas_db \<Rightarrow> (ipsas_error, 'a, ipsas_db) tx"
  assumes keeps: "budget_inv s \<Longrightarrow> f s = (Inr v, s') \<Longrightarrow> budget_inv s'"
    and refuses: "f s = (Inl e, s') \<Longrightarrow> s' = s"
begin

lemma keeps_inv: "budget_inv s \<Longrightarrow> f s = (r, s') \<Longrightarrow> budget_inv s'"
  by (cases r) (auto dest: keeps refuses)

lemma keeps_ceiling:
  assumes "budget_inv s" and "f s = (r, s')" and "a \<in> set (appropriations s')" and "approved a"
  shows "0 \<le> ab_available_balance (calculate (ap_org a) (Some (ap_id a)) None None s')"
proof -
  have "budget_inv s'" by (rule keeps_inv [OF assms(1,2)])
  then have "distinct (map ap_id (appropriations s'))" and "appropriation_ok s' a"
    using assms(3) by (simp_all add: budget_inv_def budget_ids_def)
  then show ?thesis using assms(3,4) by (simp add: available_of appropriation_ok_def)
qed

end

lemma inv_outside:
  assumes "budget_inv s" and "appropriations s' = appropriations s" and "commitments s' = commitments s"
    and "next_ipsas s \<le> next_ipsas s'"
    and "\<And>v. v \<in> set (virements s') \<Longrightarrow> (\<exists>u \<in> set (virements s). vi_amount v = vi_amount u)
      \<or> 0 \<le> vi_amount v \<and> at_scale 6 (vi_amount v)"
  shows "budget_inv s'"
  using assms(1) unfolding budget_inv_def budget_ids_def appropriation_ok_def net_committed_def assms(2,3)
  by (auto dest!: assms(5) intro: less_le_trans [OF _ assms(4)])

interpretation fund_creation: budget_operation "create_fund org i user" for org i user
  by unfold_locales
    (auto simp: create_fund_def return_def raise_def elim!: inv_outside split: if_splits)

interpretation fund_change: budget_operation "update_fund fid u" for fid u
  by unfold_locales
    (auto simp: update_fund_def return_def raise_def elim!: inv_outside split: option.splits)

interpretation allotting: budget_operation "create_allotment org i" for org i
  by unfold_locales
    (auto simp: create_allotment_def return_def raise_def elim!: inv_outside
      split: if_splits option.splits)

interpretation virement_creation: budget_operation "create_virement org i user number" for org i user number
  by unfold_locales
    (auto simp: create_virement_def return_def raise_def stored_nonneg elim!: inv_outside
      split: if_splits)

lemma virement_amounts_kept:
  assumes "\<And>v. vi_amount (f v) = vi_amount v" and "v \<in> set (set_row vi_id vid f vs)"
  shows "\<exists>u \<in> set vs. vi_amount v = vi_amount u"
  using assms(2) by (auto simp: set_set_row assms(1))

interpretation virement_approval: budget_operation "approve_virement vid approver now" for vid approver now
proof
  fix s v s' assume inv: "budget_inv s" and "approve_virement vid approver now s = (Inr v, s')"
  then have "s' = s\<lparr>virements := set_row vi_id vid (\<lambda>v. v\<lparr>vi_status := VS_APPROVED,
      vi_approved_by := Some approver, vi_approved_at := Some now\<rparr>) (virements s)\<rparr>"
    by (auto simp: approve_virement_def raise_def return_def split: option.splits if_splits)
  then show "budget_inv s'" by (intro inv_outside [OF inv]) (auto dest: virement_amounts_kept [rotated])
qed (auto simp: approve_virement_def raise_def return_def split: option.splits if_splits)

text \<open>A new commitment must fit into the available balance; the others do not count there.\<close>

lemma validate_new_commitmentD:
  assumes "validate_new_commitment org fund approp amount s = None"
  shows "0 < amount"
    and "approp = Some aid \<Longrightarrow> \<exists>a. get_row ap_id aid (appropriations s) = Some a \<and> ap_org a = org \<and> approved a
      \<and> amount \<le> ab_available_balance (calculate org (Some aid) None None s)"
  using assms by (auto simp: validate_new_commitment_def approved_def Let_def split: if_splits option.splits)

lemma commit_funds_keeps:
  assumes "budget_inv s" and "commit_funds kind st sid org i today s = (Inr v, s')"
  shows "budget_inv s'"
proof -
  note inv = budget_invD [OF assms(1)]
  let ?c = "new_commitment (next_ipsas s) org kind st sid i today"
  have valid: "validate_new_commitment org (ci_fund i) (ci_appropriation i) (ci_amount i) s = None"
    and s': "s' = s\<lparr>commitments := add_row ?c (commitments s), next_ipsas := Suc (next_ipsas s)\<rparr>"
    using assms(2) by (auto simp: commit_funds_def raise_def return_def split: option.splits if_splits)
  have ids: "distinct (map ap_id (appropriations s))" using inv(1) by (simp add: budget_ids_def)
  have net: "net_committed o1 aid s' = net_committed o1 aid s
      + (if org = o1 \<and> ci_appropriation i = Some aid then stored (ci_amount i) else 0)" for o1 aid
    by (simp add: net_committed_def s' add_row_def net_of_def new_commitment_def live_commitment_def)
  show ?thesis
  proof (rule budget_invI)
    have "cm_id ?c = next_ipsas s" "cm_appropriation ?c = ci_appropriation i" by (simp_all add: new_commitment_def)
    moreover have "aid < next_ipsas s" if "ci_appropriation i = Some aid" for aid
      using validate_new_commitmentD(2) [OF valid that] inv(1) by (auto simp: budget_ids_def dest: get_row_SomeD)
    ultimately show "budget_ids s'"
      using inv(1) by (auto simp: budget_ids_def s' add_row_def less_Suc_eq)
  next
    fix c assume "c \<in> set (commitments s')"
    moreover have "commitment_ok ?c"
      using validate_new_commitmentD(1) [OF valid]
      by (simp add: commitment_ok_def new_commitment_def stored_nonneg)
    ultimately show "commitment_ok c" using inv(2) by (auto simp: s')
  next
    fix a assume "a \<in> set (appropriations s')"
    then have a: "a \<in> set (appropriations s)" by (simp add: s')
    show "appropriation_ok s' a"
    proof (cases "org = ap_org a \<and> ci_appropriation i = Some (ap_id a)")
      case True
      then have "approved a" and fits: "ci_amount i \<le> ap_revised_amount a - net_committed (ap_org a) (ap_id a) s"
        using validate_new_commitmentD(2) [OF valid, of "ap_id a"] get_row_distinct [OF ids a] available_of [OF ids a]
        by auto
      moreover have "at_scale 6 (ap_revised_amount a - net_committed (ap_org a) (ap_id a) s)"
        using inv(3) [OF a] at_scale_net [of s "ap_org a" "ap_id a"] inv(2) by (auto simp: appropriation_ok_def)
      ultimately show ?thesis
        using inv(3) [OF a] net True stored_mono_fixed [OF fits] by (simp add: appropriation_ok_def)
    next
      case False
      then have "net_committed (ap_org a) (ap_id a) s' = net_committed (ap_org a) (ap_id a) s" using net by auto
      then show ?thesis using inv(3) [OF a] by (auto simp: appropriation_ok_def split: if_splits)
    qed
  qed (use inv(4) in \<open>simp_all add: s'\<close>)
qed

lemma commit_funds_refuses: "commit_funds kind st sid org i today s = (Inl e, s') \<Longrightarrow> s' = s"
  by (auto simp: commit_funds_def raise_def return_def split: option.splits if_splits)

interpretation committing: budget_operation "commit_funds kind st sid org i today" for kind st sid org i today
  by unfold_locales (blast intro: commit_funds_keeps commit_funds_refuses)+

text \<open>Appropriations.\<close>

interpretation appropriating: budget_operation "create_appropriation org i user" for org i user
proof
  fix s v s' assume inv: "budget_inv s" and c: "create_appropriation org i user s = (Inr v, s')"
  note inv = budget_invD [OF inv]
  define a where "a = \<lparr>ap_id = next_ipsas s, ap_org = org,
       ap_fiscal_year = ai_fiscal_year i, ap_fund = ai_fund i, ap_code = ai_code i, ap_name = ai_name i,
       ap_type = ai_type i, ap_status = AS_DRAFT, ap_approved_amount = stored (ai_approved_amount i),
       ap_revised_amount = stored (ai_approved_amount i), ap_currency_code = ai_currency_code i,
       ap_account = ai_account i, ap_created_by = user, ap_approved_by = None, ap_approved_at = None\<rparr>"
  from c have pos: "0 < ai_approved_amount i"
    and s': "s' = s\<lparr>appropriations := add_row a (appropriations s), next_ipsas := Suc (next_ipsas s)\<rparr>"
    by (auto simp: create_appropriation_def raise_def return_def a_def split: if_splits)
  have net: "net_committed o1 aid s' = net_committed o1 aid s" for o1 aid by (simp add: net_committed_def s')
  show "budget_inv s'"
  proof (rule budget_invI)
    show "budget_ids s'" using inv(1) by (auto simp: budget_ids_def s' a_def add_row_def less_Suc_eq)
  next
    fix b assume b: "b \<in> set (appropriations s')"
    show "appropriation_ok s' b"
    proof (cases "b = a")
      case True
      have "net_committed org (next_ipsas s) s = 0"
        unfolding net_committed_def
        by (rule sum_list_all_zero) (use inv(1) in \<open>auto simp: budget_ids_def net_of_def\<close>)
      then show ?thesis using True pos by (simp add: appropriation_ok_def net a_def approved_def stored_nonneg)
    next
      case False
      then show ?thesis using b inv(3) appropriation_ok_same [OF net] by (simp add: s')
    qed
  qed (use inv in \<open>simp_all add: s'\<close>)
qed (auto simp: create_appropriation_def raise_def return_def split: if_splits)

interpretation appropriation_approval: budget_operation "approve_appropriation aid approver now" for aid approver now
proof
  fix s v s' assume inv: "budget_inv s" and c: "approve_appropriation aid approver now s = (Inr v, s')"
  note inv = budget_invD [OF inv]
  let ?f = "\<lambda>a. a\<lparr>ap_status := AS_APPROVED, ap_approved_by := Some approver, ap_approved_at := Some now\<rparr>"
  from c have s': "s' = s\<lparr>appropriations := set_row ap_id aid ?f (appropriations s)\<rparr>"
    and "\<exists>a. get_row ap_id aid (appropriations s) = Some a \<and> ap_status a \<in> {AS_DRAFT, AS_SUBMITTED}"
    by (auto simp: approve_appropriation_def raise_def return_def split: option.splits if_splits)
  then obtain a where a: "get_row ap_id aid (appropriations s) = Some a" "\<not> approved a"
    by (auto simp: approved_def)
  have net: "net_committed o1 i s' = net_committed o1 i s" for o1 i by (simp add: net_committed_def s')
  show "budget_inv s'"
  proof (rule budget_invI)
    show "budget_ids s'"
      using inv(1) by (auto simp: budget_ids_def s' map_key_set_row set_set_row)
  next
    fix b assume "b \<in> set (appropriations s')"
    then obtain x where x: "x \<in> set (appropriations s)" "b = (if ap_id x = aid then ?f x else x)"
      by (auto simp: s' set_set_row)
    show "appropriation_ok s' b"
    proof (cases "ap_id x = aid")
      case True
      then have "x = a" using x(1) a(1) inv(1) get_row_distinct [of ap_id "appropriations s" x] by (simp add: budget_ids_def)
      then show ?thesis using inv(3) [OF x(1)] a(2) x(2) True by (simp add: appropriation_ok_def net) (simp add: approved_def)
    next
      case False
      then show ?thesis using inv(3) [OF x(1)] x(2) appropriation_ok_same [OF net] by simp
    qed
  qed (use inv in \<open>simp_all add: s'\<close>)
qed (auto simp: approve_appropriation_def raise_def return_def split: option.splits if_splits)

text \<open>Obligations, expenditures and cancellations, of amounts that are not negative.\<close>

lemma set_commitment_keeps:
  assumes "budget_inv s" and "get_row cm_id cid (commitments s) = Some c"
    and "cm_id (f c) = cm_id c" and "cm_appropriation (f c) = cm_appropriation c" and "cm_org (f c) = cm_org c"
    and "commitment_ok c \<Longrightarrow> commitment_ok (f c)"
    and "live_commitment (f c) \<Longrightarrow> live_commitment c
      \<and> cm_committed_amount (f c) = cm_committed_amount c \<and> cm_cancelled_amount c \<le> cm_cancelled_amount (f c)"
  shows "budget_inv (set_commitment cid f s)"
proof (rule inv_set_commitment [where f = f, OF assms(1-4)])
  have ok: "commitment_ok c" using budget_invD(2) [OF assms(1)] get_row_SomeD [OF assms(2)] by simp
  then show "commitment_ok (f c)" by (rule assms(6))
  show "net_of org aid (f c) \<le> net_of org aid c" for org aid
    using net_of_nonneg [OF ok, of org aid] assms(4,5,7) by (auto simp: net_of_def)
qed

interpretation obligating: budget_operation "record_obligation cid \<bar>x\<bar> today" for cid x today
proof
  fix s v s' assume inv: "budget_inv s" and r: "record_obligation cid \<bar>x\<bar> today s = (Inr v, s')"
  then obtain c where c: "get_row cm_id cid (commitments s) = Some c" "cm_status c \<in> {CS_COMMITTED, CS_OBLIGATED}"
      and fits: "cm_obligated_amount c + \<bar>x\<bar> \<le> cm_committed_amount c - cm_cancelled_amount c"
    and s': "s' = set_commitment cid (\<lambda>c. c\<lparr>cm_obligated_amount := stored (cm_obligated_amount c + \<bar>x\<bar>),
        cm_obligation_date := Some today, cm_status := CS_OBLIGATED\<rparr>) s"
    by (auto simp: record_obligation_def raise_def return_def Let_def split: option.splits if_splits)
  show "budget_inv s'"
    unfolding s'
  proof (rule set_commitment_keeps [OF inv c(1)])
    assume ok: "commitment_ok c"
    then have "cm_expended_amount c \<le> cm_obligated_amount c + \<bar>x\<bar>" "at_scale 6 (cm_expended_amount c)"
      "at_scale 6 (cm_committed_amount c - cm_cancelled_amount c)"
      using c(2) by (auto simp: commitment_ok_def live_commitment_def intro: at_scale_diff)
    then have "cm_expended_amount c \<le> stored (cm_obligated_amount c + \<bar>x\<bar>)"
      "stored (cm_obligated_amount c + \<bar>x\<bar>) \<le> cm_committed_amount c - cm_cancelled_amount c"
      using fits by (auto intro: stored_between)
    then show "commitment_ok (c\<lparr>cm_obligated_amount := stored (cm_obligated_amount c + \<bar>x\<bar>),
        cm_obligation_date := Some today, cm_status := CS_OBLIGATED\<rparr>)"
      using ok c(2) by (auto simp: commitment_ok_def live_commitment_def)
  qed (use c(2) in \<open>auto simp: live_commitment_def\<close>)
qed (auto simp: record_obligation_def raise_def return_def Let_def split: option.splits if_splits)

interpretation expending: budget_operation "record_expenditure cid \<bar>x\<bar> today" for cid x today
proof
  fix s v s' assume inv: "budget_inv s" and r: "record_expenditure cid \<bar>x\<bar> today s = (Inr v, s')"
  define f :: "commitment \<Rightarrow> commitment" where "f = (\<lambda>c. c\<lparr>cm_expended_amount := stored (cm_expended_amount c + \<bar>x\<bar>),
      cm_expenditure_date := Some today,
      cm_status := (if cm_obligated_amount c \<le> cm_expended_amount c + \<bar>x\<bar> then CS_EXPENDED else CS_PARTIALLY_PAID)\<rparr>)"
  from r obtain c where c: "get_row cm_id cid (commitments s) = Some c" "cm_status c \<in> {CS_OBLIGATED, CS_PARTIALLY_PAID}"
      and fits: "cm_expended_amount c + \<bar>x\<bar> \<le> cm_obligated_amount c" and s': "s' = set_commitment cid f s"
    by (auto simp: record_expenditure_def raise_def return_def Let_def f_def split: option.splits if_splits)
  show "budget_inv s'"
    unfolding s'
  proof (rule set_commitment_keeps [OF inv c(1), where f = f])
    assume ok: "commitment_ok c"
    then have "0 \<le> cm_expended_amount c + \<bar>x\<bar>" "at_scale 6 (cm_obligated_amount c)"
      using c(2) by (auto simp: commitment_ok_def live_commitment_def)
    then have "0 \<le> stored (cm_expended_amount c + \<bar>x\<bar>)"
      "stored (cm_expended_amount c + \<bar>x\<bar>) \<le> cm_obligated_amount c"
      using fits by (auto intro: stored_between)
    then show "commitment_ok (f c)"
      using ok c(2) by (auto simp: f_def commitment_ok_def live_commitment_def)
  qed (use c(2) in \<open>auto simp: f_def live_commitment_def\<close>)
qed (auto simp: record_expenditure_def raise_def return_def Let_def split: option.splits if_splits)

interpretation cancelling: budget_operation "cancel_commitment cid (map_option abs x)" for cid x
proof
  fix s v s' assume inv: "budget_inv s" and r: "cancel_commitment cid (map_option abs x) s = (Inr v, s')"
  then obtain c where c: "get_row cm_id cid (commitments s) = Some c" "cm_status c \<notin> {CS_EXPENDED, CS_CANCELLED, CS_LAPSED}"
    by (auto simp: cancel_commitment_def raise_def split: option.splits if_splits)
  then have live: "live_commitment c" by (simp add: live_commitment_def)
  show "budget_inv s'"
  proof (cases x)
    case None
    let ?f = "\<lambda>c. c\<lparr>cm_cancelled_amount := cm_committed_amount c - cm_obligated_amount c - cm_expended_amount c,
        cm_status := CS_CANCELLED\<rparr>"
    have "s' = set_commitment cid ?f s" using r c None by (auto simp: cancel_commitment_def return_def)
    moreover have "budget_inv (set_commitment cid ?f s)"
      by (rule set_commitment_keeps [OF inv c(1), where f = ?f])
        (auto simp: commitment_ok_def live_commitment_def intro: at_scale_diff)
    ultimately show ?thesis by simp
  next
    case (Some y)
    define f :: "commitment \<Rightarrow> commitment" where "f = (\<lambda>c. c\<lparr>cm_cancelled_amount := stored (cm_cancelled_amount c + \<bar>y\<bar>)\<rparr>)"
    have fits: "cm_cancelled_amount c + \<bar>y\<bar> \<le> cm_committed_amount c - cm_obligated_amount c - cm_expended_amount c"
      and s': "s' = set_commitment cid f s"
      using r c Some by (auto simp: cancel_commitment_def return_def raise_def Let_def f_def split: if_splits)
    let ?hi = "cm_committed_amount c - cm_obligated_amount c - cm_expended_amount c"
    have bounds: "0 \<le> stored (cm_cancelled_amount c + \<bar>y\<bar>)" "cm_cancelled_amount c \<le> stored (cm_cancelled_amount c + \<bar>y\<bar>)"
      "stored (cm_cancelled_amount c + \<bar>y\<bar>) \<le> ?hi" if ok: "commitment_ok c"
    proof -
      have "at_scale 6 ?hi" and low: "at_scale 6 (cm_cancelled_amount c)" "0 \<le> cm_cancelled_amount c"
        using ok live by (auto simp: commitment_ok_def intro: at_scale_diff)
      then show "cm_cancelled_amount c \<le> stored (cm_cancelled_amount c + \<bar>y\<bar>)"
        and "stored (cm_cancelled_amount c + \<bar>y\<bar>) \<le> ?hi"
        using stored_between [of "cm_cancelled_amount c" _ ?hi] fits by simp_all
      then show "0 \<le> stored (cm_cancelled_amount c + \<bar>y\<bar>)" using low(2) by simp
    qed
    have okc: "commitment_ok c" using budget_invD(2) [OF inv] get_row_SomeD [OF c(1)] by simp
    show ?thesis
      unfolding s'
    proof (rule set_commitment_keeps [OF inv c(1), where f = f])
      show "commitment_ok (f c)"
        using bounds [OF okc] okc live by (auto simp: f_def commitment_ok_def live_commitment_def)
    qed (use bounds [OF okc] live in \<open>simp_all add: f_def\<close>)
  qed
qed (auto simp: cancel_commitment_def raise_def return_def Let_def split: option.splits if_splits)

text \<open>Virements move budget that is not committed.\<close>

lemma apply_virement_InrE:
  assumes "apply_virement vid now s = (Inr r, s')"
  obtains v a b where "get_row vi_id vid (virements s) = Some v" "vi_status v = VS_APPROVED"
    "get_row ap_id (vi_from v) (appropriations s) = Some a" "get_row ap_id (vi_to v) (appropriations s) = Some b"
    "ap_org a = vi_org v" "ap_org b = vi_org v" "ap_fund a = ap_fund b"
    "vi_amount v \<le> ab_available_balance (calculate (vi_org v) (Some (ap_id a)) None None s)"
    "s' = (transfer (ap_id a) (ap_id b) (vi_amount v) s)\<lparr>virements :=
       set_row vi_id vid (\<lambda>v. v\<lparr>vi_status := VS_APPLIED, vi_applied_at := Some now\<rparr>) (virements s)\<rparr>"
  using assms by (auto simp: apply_virement_def raise_def return_def Let_def split: option.splits if_splits)

lemma transfer_rows:
  "appropriations (transfer src dst amount s) = map (\<lambda>a. a\<lparr>ap_revised_amount := ap_revised_amount a
     - (if ap_id a = src then amount else 0) + (if ap_id a = dst then amount else 0)\<rparr>) (appropriations s)"
  by (simp add: transfer_def set_row_def)

interpretation viring: budget_operation "apply_virement vid now" for vid now
proof
  fix s r s' assume inv: "budget_inv s" and r: "apply_virement vid now s = (Inr r, s')"
  note inv = budget_invD [OF inv]
  from r show "budget_inv s'"
  proof (rule apply_virement_InrE)
    fix v a b assume v: "get_row vi_id vid (virements s) = Some v"
      and a: "get_row ap_id (vi_from v) (appropriations s) = Some a" "ap_org a = vi_org v"
      and fits: "vi_amount v \<le> ab_available_balance (calculate (vi_org v) (Some (ap_id a)) None None s)"
      and s': "s' = (transfer (ap_id a) (ap_id b) (vi_amount v) s)\<lparr>virements :=
        set_row vi_id vid (\<lambda>v. v\<lparr>vi_status := VS_APPLIED, vi_applied_at := Some now\<rparr>) (virements s)\<rparr>"
    let ?m = "\<lambda>x. (if ap_id x = ap_id b then vi_amount v else 0) - (if ap_id x = ap_id a then vi_amount v else 0)"
    have rows: "appropriations s' = map (\<lambda>x. x\<lparr>ap_revised_amount := ap_revised_amount x + ?m x\<rparr>) (appropriations s)"
      unfolding s' by (auto simp: transfer_rows)
    have same: "commitments s' = commitments s" "next_ipsas s' = next_ipsas s" by (simp_all add: s' transfer_def)
    have net: "net_committed o1 i s' = net_committed o1 i s" for o1 i by (simp add: net_committed_def same)
    have ids: "distinct (map ap_id (appropriations s))" using inv(1) by (simp add: budget_ids_def)
    have am: "a \<in> set (appropriations s)" "ap_id a = vi_from v" using get_row_SomeD [OF a(1)] by simp_all
    have amount: "0 \<le> vi_amount v" "at_scale 6 (vi_amount v)" using inv(4) get_row_SomeD [OF v] by auto
    have ok: "appropriation_ok s' (x\<lparr>ap_revised_amount := ap_revised_amount x + ?m x\<rparr>)"
      if x: "x \<in> set (appropriations s)" for x
    proof -
      have "0 \<le> net_committed (ap_org x) (ap_id x) s" by (rule net_committed_nonneg) (rule inv(2))
      moreover have "vi_amount v \<le> (if approved x then ap_revised_amount x else 0) - net_committed (ap_org x) (ap_id x) s"
        if "ap_id x = ap_id a"
      proof -
        have "x = a" using that x am ids by (auto simp: distinct_map inj_on_def)
        then show ?thesis using fits available_of [OF ids am(1)] a(2) by (simp only:)
      qed
      moreover have "at_scale 6 (ap_revised_amount x + ?m x)"
        using inv(3) [OF x] amount(2) by (auto simp: appropriation_ok_def intro: at_scale_add at_scale_diff)
      ultimately show ?thesis
        using inv(3) [OF x] amount(1) by (auto simp: appropriation_ok_def net approved_def split: if_splits)
    qed
    show ?thesis
    proof (rule budget_invI)
      show "budget_ids s'" using inv(1) by (simp add: budget_ids_def rows same o_def)
    next
      fix w assume "w \<in> set (virements s')"
      then have "w \<in> set (set_row vi_id vid (\<lambda>v. v\<lparr>vi_status := VS_APPLIED, vi_applied_at := Some now\<rparr>) (virements s))"
        by (simp add: s')
      from virement_amounts_kept [OF _ this] inv(4) show "0 \<le> vi_amount w \<and> at_scale 6 (vi_amount w)" by auto
    qed (use ok inv(2) in \<open>auto simp: rows same\<close>)
  qed
qed (auto simp: apply_virement_def raise_def return_def Let_def split: option.splits if_splits)

end
