(* ===== verification/Ipsas_Facts.thy ===== *)
theory Ipsas_Facts
  imports Ipsas_Control
begin

text \<open>
  The public-sector module as a state machine over its operations, and its properties. The
  services check upper bounds of obligations, expenditures and cancellations, but no sign:
  \<open>disciplined\<close> commands are those whose amounts are not negative.
\<close>

datatype ipsas_cmd = Create_fund uuid fund_input uuid
  | Update_fund uuid fund_update
  | Create_appropriation uuid appropriation_input uuid
  | Approve_appropriation uuid uuid timestamp
  | Create_allotment uuid allotment_input
  | Create_commitment commitment_type uuid commitment_input date
  | Commit_purchase_order uuid uuid commitment_input date
  | Commit_contract uuid uuid commitment_input date
  | Obligate uuid decimal date
  | Expend uuid decimal date
  | Cancel uuid "decimal option"
  | Create_virement uuid virement_input uuid string
  | Approve_virement uuid uuid timestamp
  | Apply_virement uuid timestamp

fun ipsas_exec :: "ipsas_cmd \<Rightarrow> ipsas_db \<Rightarrow> (ipsas_error, uuid, ipsas_db) tx" where
  "ipsas_exec (Create_fund org i user) s = create_fund org i user s"
| "ipsas_exec (Update_fund fid u) s = update_fund fid u s"
| "ipsas_exec (Create_appropriation org i user) s = create_appropriation org i user s"
| "ipsas_exec (Approve_appropriation aid approver now) s = approve_appropriation aid approver now s"
| "ipsas_exec (Create_allotment org i) s = create_allotment org i s"
| "ipsas_exec (Create_commitment kind org i today) s = create_commitment kind org i today s"
| "ipsas_exec (Commit_purchase_order po org i today) s = create_commitment_from_po po org i today s"
| "ipsas_exec (Commit_contract k org i today) s = create_commitment_from_contract k org i today s"
| "ipsas_exec (Obligate cid x today) s = record_obligation cid x today s"
| "ipsas_exec (Expend cid x today) s = record_expenditure cid x today s"
| "ipsas_exec (Cancel cid x) s = cancel_commitment cid x s"
| "ipsas_exec (Create_virement org i user number) s = create_virement org i user number s"
| "ipsas_exec (Approve_virement vid approver now) s = approve_virement vid approver now s"
| "ipsas_exec (Apply_virement vid now) s = apply_virement vid now s"

fun disciplined :: "ipsas_cmd \<Rightarrow> bool" where
  "disciplined (Obligate cid x today) \<longleftrightarrow> 0 \<le> x"
| "disciplined (Expend cid x today) \<longleftrightarrow> 0 \<le> x"
| "disciplined (Cancel cid (Some x)) \<longleftrightarrow> 0 \<le> x"
| "disciplined _ \<longleftrightarrow> True"

definition empty_budget :: "ipsas_db \<Rightarrow> bool" where
  "empty_budget s \<longleftrightarrow> appropriations s = [] \<and> commitments s = [] \<and> virements s = []"

inductive budget_reachable :: "ipsas_db \<Rightarrow> bool" where
  start: "empty_budget s \<Longrightarrow> budget_reachable s"
| step: "budget_reachable s \<Longrightarrow> disciplined cmd \<Longrightarrow> budget_reachable (snd (ipsas_exec cmd s))"

lemma disciplined_keeps:
  assumes "disciplined cmd" and "budget_inv s"
  shows "budget_inv (snd (ipsas_exec cmd s))"
proof -
  obtain r s' where e: "ipsas_exec cmd s = (r, s')" by fastforce
  have "budget_inv s'"
  proof (cases cmd)
    case (Obligate cid x today)
    then show ?thesis using obligating.keeps_inv [OF assms(2), of cid x today r s'] e assms(1) by simp
  next
    case (Expend cid x today)
    then show ?thesis using expending.keeps_inv [OF assms(2), of cid x today r s'] e assms(1) by simp
  next
    case (Cancel cid x)
    then show ?thesis using cancelling.keeps_inv [OF assms(2), of cid x r s'] e assms(1) by (cases x) simp_all
  qed (use e assms(2) in \<open>auto simp: create_commitment_def create_commitment_from_po_def create_commitment_from_contract_def
      intro: fund_creation.keeps_inv fund_change.keeps_inv allotting.keeps_inv virement_creation.keeps_inv
        virement_approval.keeps_inv committing.keeps_inv appropriating.keeps_inv appropriation_approval.keeps_inv
        viring.keeps_inv\<close>)
  then show ?thesis by (simp add: e)
qed

lemma budget_inv_reachable: "budget_reachable s \<Longrightarrow> budget_inv s"
proof (induction rule: budget_reachable.induct)
  case (start s)
  then show ?case by (simp add: empty_budget_def budget_inv_def budget_ids_def)
qed (rule disciplined_keeps)

definition run_cmds :: "ipsas_cmd list \<Rightarrow> ipsas_db \<Rightarrow> ipsas_db" where
  "run_cmds cmds s = fold (\<lambda>c s. snd (ipsas_exec c s)) cmds s"

lemma reachable_run: "budget_reachable s \<Longrightarrow> list_all disciplined cmds \<Longrightarrow> budget_reachable (run_cmds cmds s)"
  unfolding run_cmds_def by (induction cmds arbitrary: s) (auto intro: budget_reachable.step)

lemma sum_list_if_filter:
  "(\<Sum>x\<leftarrow>filter P xs. if Q x then c else 0) = (\<Sum>x\<leftarrow>filter (\<lambda>x. Q x \<and> P x) xs. (c :: rat))"
  by (induction xs) auto

text \<open>How one commitment moves the available balance.\<close>

lemma net_set_commitment:
  assumes "budget_ids s" and "get_row cm_id cid (commitments s) = Some c"
  shows "net_committed org aid (set_commitment cid f s)
    = net_committed org aid s - net_of org aid c + net_of org aid (f c)"
proof -
  have "(\<Sum>r\<leftarrow>map (\<lambda>r. if cm_id r = cid then f r else r) rs. net_of org aid r)
      = (\<Sum>r\<leftarrow>rs. net_of org aid r) - net_of org aid c + net_of org aid (f c)"
    if "get_row cm_id cid rs = Some c" "distinct (map cm_id rs)" for rs
    using that
  proof (induction rs)
    case (Cons r rs)
    show ?case
    proof (cases "cm_id r = cid")
      case True
      then have "map (\<lambda>r. if cm_id r = cid then f r else r) rs = rs"
        using Cons.prems(2) by (intro map_idI) (auto simp: image_iff)
      then show ?thesis using True Cons.prems by simp
    next
      case False
      then show ?thesis using Cons by simp
    qed
  qed simp
  then show ?thesis
    using assms by (simp add: net_committed_def set_commitment_def set_row_def budget_ids_def)
qed

section \<open>Properties\<close>

text \<open>C15: an appropriation is a hard ceiling. In every state reached by disciplined commands, the
  available balance of an approved appropriation is its revised amount less its net
  commitments, and it is never negative.\<close>

theorem appropriation_never_overcommitted:
  assumes "budget_reachable s" and "a \<in> set (appropriations s)" and "approved a"
  shows "ab_available_balance (calculate (ap_org a) (Some (ap_id a)) None None s)
      = ap_revised_amount a - net_committed (ap_org a) (ap_id a) s
    \<and> 0 \<le> ab_available_balance (calculate (ap_org a) (Some (ap_id a)) None None s)"
proof -
  have inv: "budget_inv s" using assms(1) by (rule budget_inv_reachable)
  then have "distinct (map ap_id (appropriations s))" by (simp add: budget_inv_def budget_ids_def)
  with budget_invD(3) [OF inv assms(2)] assms(2,3) show ?thesis by (simp add: available_of appropriation_ok_def)
qed

text \<open>The stages of a commitment are ordered. In every state reached by disciplined commands,
  a commitment that is neither cancelled nor lapsed has expended at most what is obligated,
  and obligated at most what is committed and not cancelled.\<close>

theorem commitment_stages_ordered:
  assumes "budget_reachable s" and "c \<in> set (commitments s)" and "live_commitment c"
  shows "0 \<le> cm_expended_amount c \<and> cm_expended_amount c \<le> cm_obligated_amount c
    \<and> 0 \<le> cm_cancelled_amount c \<and> cm_obligated_amount c \<le> cm_committed_amount c - cm_cancelled_amount c"
  using budget_invD(2) [OF budget_inv_reachable [OF assms(1)] assms(2)] assms(3) by (auto simp: commitment_ok_def)

text \<open>C16: a virement moves budget and makes none. Applying one leaves the total of the revised
  amounts of every fund as it was, and it cannot be applied a second time.\<close>

theorem virement_conserves_budget:
  assumes "budget_reachable s" and "apply_virement vid now s = (Inr r, s')"
  shows "(\<Sum>a\<leftarrow>filter (\<lambda>a. ap_fund a = fund) (appropriations s'). ap_revised_amount a)
      = (\<Sum>a\<leftarrow>filter (\<lambda>a. ap_fund a = fund) (appropriations s). ap_revised_amount a)
    \<and> apply_virement vid later s' = (Inl (Cannot_apply VS_APPLIED), s')"
  using assms(2)
proof (rule apply_virement_InrE)
  fix v a b assume v: "get_row vi_id vid (virements s) = Some v" "vi_status v = VS_APPROVED"
    and a: "get_row ap_id (vi_from v) (appropriations s) = Some a"
    and b: "get_row ap_id (vi_to v) (appropriations s) = Some b" and fund: "ap_fund a = ap_fund b"
    and s': "s' = (transfer (ap_id a) (ap_id b) (vi_amount v) s)\<lparr>virements :=
      set_row vi_id vid (\<lambda>v. v\<lparr>vi_status := VS_APPLIED, vi_applied_at := Some now\<rparr>) (virements s)\<rparr>"
  have ids: "distinct (map ap_id (appropriations s))"
    using budget_invD(1) [OF budget_inv_reachable [OF assms(1)]] by (simp add: budget_ids_def)
  have only: "(\<Sum>x\<leftarrow>filter (\<lambda>x. ap_fund x = fund) (appropriations s). if ap_id x = ap_id y then vi_amount v else 0)
      = (if ap_fund y = fund then vi_amount v else 0)" if y: "y \<in> set (appropriations s)" for y
  proof -
    have "(\<Sum>x\<leftarrow>filter (\<lambda>x. ap_fund x = fund) (appropriations s). if ap_id x = ap_id y then vi_amount v else 0)
        = (\<Sum>x\<leftarrow>filter (\<lambda>x. ap_id x = ap_id y \<and> ap_fund x = fund) (appropriations s). vi_amount v)"
      by (simp add: sum_list_if_filter)
    also have "\<dots> = (if ap_fund y = fund then vi_amount v else 0)"
      by (rule sum_list_unique [OF ids y]) simp
    finally show ?thesis .
  qed
  have "(\<Sum>x\<leftarrow>filter (\<lambda>x. ap_fund x = fund) (appropriations s'). ap_revised_amount x)
      = (\<Sum>x\<leftarrow>filter (\<lambda>x. ap_fund x = fund) (appropriations s). ap_revised_amount x
          - (if ap_id x = ap_id a then vi_amount v else 0) + (if ap_id x = ap_id b then vi_amount v else 0))"
    by (simp add: s' transfer_rows filter_map o_def)
  also have "\<dots> = (\<Sum>x\<leftarrow>filter (\<lambda>x. ap_fund x = fund) (appropriations s). ap_revised_amount x)"
    unfolding sum_list_addf sum_list_subtractf
    using only [of a] only [of b] get_row_SomeD [OF a] get_row_SomeD [OF b] fund by simp
  finally show ?thesis
    using v by (simp add: s' apply_virement_def raise_def get_set_row)
qed

text \<open>A negative cancellation breaks the ceiling. No sign is checked: a partial cancellation of
  \<open>- x\<close> always passes and lowers the available balance of the appropriation by \<open>x\<close>, past zero
  when \<open>x\<close> is more than was available.\<close>

theorem negative_cancellation_breaks_ceiling:
  assumes "budget_reachable s" and "c \<in> set (commitments s)"
    and "cm_status c \<in> {CS_COMMITTED, CS_OBLIGATED, CS_PARTIALLY_PAID}"
    and "a \<in> set (appropriations s)" and "cm_appropriation c = Some (ap_id a)" and "cm_org c = ap_org a"
    and "at_scale 6 x" and "0 \<le> x"
    and "cm_expended_amount c = 0"
  shows "\<exists>s'. cancel_commitment (cm_id c) (Some (- x)) s = (Inr (cm_id c), s')
    \<and> ab_available_balance (calculate (ap_org a) (Some (ap_id a)) None None s')
      = ab_available_balance (calculate (ap_org a) (Some (ap_id a)) None None s) - x"
proof -
  have inv: "budget_inv s" using assms(1) by (rule budget_inv_reachable)
  note inv = budget_invD [OF inv]
  have c: "get_row cm_id (cm_id c) (commitments s) = Some c"
    using inv(1) assms(2) by (intro get_row_distinct) (simp_all add: budget_ids_def)
  have live: "live_commitment c" using assms(3) by (auto simp: live_commitment_def)
  have ok: "commitment_ok c" by (rule inv(2) [OF assms(2)])
  let ?f = "\<lambda>c. c\<lparr>cm_cancelled_amount := stored (cm_cancelled_amount c + - x)\<rparr>"
  let ?s = "set_commitment (cm_id c) ?f s"
  have st: "stored (cm_cancelled_amount c + - x) = cm_cancelled_amount c - x"
    using ok assms(7) by (simp add: stored_def quantize_at_scale commitment_ok_def at_scale_diff)
  have run: "cancel_commitment (cm_id c) (Some (- x)) s = (Inr (cm_id c), ?s)"
    using c assms(3,8,9) ok live by (auto simp: cancel_commitment_def Let_def return_def raise_def commitment_ok_def)
  have same: "appropriations ?s = appropriations s" by (simp add: set_commitment_def)
  have ids: "distinct (map ap_id (appropriations s))" using inv(1) by (simp add: budget_ids_def)
  have "net_committed (ap_org a) (ap_id a) ?s = net_committed (ap_org a) (ap_id a) s + x"
    using net_set_commitment [OF inv(1) c, of "ap_org a" "ap_id a" ?f] assms(5,6) live st
    by (simp add: net_of_def live_commitment_def)
  then show ?thesis
    using run available_of [of ?s a] available_of [OF ids assms(4)] ids assms(4) same by simp
qed

text \<open>A full cancellation gives back what is already obligated. Cancelling an OBLIGATED
  commitment in full takes it out of the balance altogether: the appropriation's available
  balance grows by the whole net commitment, while the obligation stays on the record.\<close>

theorem full_cancellation_releases_obligation:
  assumes "budget_reachable s" and "c \<in> set (commitments s)" and "cm_status c = CS_OBLIGATED"
    and "a \<in> set (appropriations s)" and "cm_appropriation c = Some (ap_id a)" and "cm_org c = ap_org a"
  shows "\<exists>s' c'. cancel_commitment (cm_id c) None s = (Inr (cm_id c), s')
    \<and> c' \<in> set (commitments s') \<and> cm_id c' = cm_id c \<and> cm_obligated_amount c' = cm_obligated_amount c
    \<and> ab_available_balance (calculate (ap_org a) (Some (ap_id a)) None None s')
      = ab_available_balance (calculate (ap_org a) (Some (ap_id a)) None None s)
        + (cm_committed_amount c - cm_cancelled_amount c)"
proof -
  have inv: "budget_inv s" using assms(1) by (rule budget_inv_reachable)
  note inv = budget_invD [OF inv]
  have c: "get_row cm_id (cm_id c) (commitments s) = Some c"
    using inv(1) assms(2) by (intro get_row_distinct) (simp_all add: budget_ids_def)
  let ?f = "\<lambda>c. c\<lparr>cm_cancelled_amount := cm_committed_amount c - cm_obligated_amount c - cm_expended_amount c,
      cm_status := CS_CANCELLED\<rparr>"
  let ?s = "set_commitment (cm_id c) ?f s"
  have run: "cancel_commitment (cm_id c) None s = (Inr (cm_id c), ?s)"
    using c assms(3) by (simp add: cancel_commitment_def return_def)
  have ids: "distinct (map ap_id (appropriations s))" using inv(1) by (simp add: budget_ids_def)
  have "net_committed (ap_org a) (ap_id a) ?s
      = net_committed (ap_org a) (ap_id a) s - (cm_committed_amount c - cm_cancelled_amount c)"
    using net_set_commitment [OF inv(1) c, of "ap_org a" "ap_id a" ?f] assms(3,5,6)
    by (simp add: net_of_def live_commitment_def)
  then have "ab_available_balance (calculate (ap_org a) (Some (ap_id a)) None None ?s)
      = ab_available_balance (calculate (ap_org a) (Some (ap_id a)) None None s)
        + (cm_committed_amount c - cm_cancelled_amount c)"
    using available_of [of ?s a] available_of [OF ids assms(4)] ids assms(4) by (simp add: set_commitment_def)
  moreover have "?f c \<in> set (commitments ?s)"
    using assms(2) by (auto simp: set_commitment_def set_set_row)
  ultimately show ?thesis using run by (intro exI [of _ ?s] exI [of _ "?f c"]) simp
qed

end
