(* ===== verification/Ipsas_Samples.thy ===== *)
theory Ipsas_Samples
  imports Ipsas_Facts
begin

text \<open>
  Witnesses for the budget properties: organisation 1 with one fund, two approved
  appropriations of 100 and 50, a commitment of 60 on the first with 30 obligated, and an
  approved virement of 20 from the first to the second. User 7 creates, user 8 approves.
\<close>

definition no_budget :: ipsas_db where
  "no_budget = \<lparr>funds = [], appropriations = [], allotments = [], commitments = [], virements = [],
     functional_currency = (\<lambda>_. ''NGN''), next_ipsas = 1\<rparr>"

definition sample_appropriation :: "string \<Rightarrow> decimal \<Rightarrow> appropriation_input" where
  "sample_appropriation code x = \<lparr>ai_fiscal_year = 3, ai_fund = 1, ai_code = code, ai_name = code,
     ai_type = AT_ORIGINAL, ai_approved_amount = x, ai_currency_code = ''NGN'', ai_account = None\<rparr>"

definition sample_commitment :: commitment_input where
  "sample_commitment = \<lparr>ci_number = ''C1'', ci_fund = 1, ci_account = 4, ci_fiscal_year = 3, ci_fiscal_period = 5,
     ci_amount = 60, ci_currency_code = ''NGN'', ci_created_by = 7, ci_appropriation = Some 2\<rparr>"

definition sample_budget :: ipsas_db where
  "sample_budget = run_cmds [
     Create_fund 1 \<lparr>fi_code = ''F1'', fi_name = ''General'', fi_type = FT_GENERAL, fi_is_restricted = False\<rparr> 7,
     Create_appropriation 1 (sample_appropriation ''A1'' 100) 7, Approve_appropriation 2 8 1,
     Create_appropriation 1 (sample_appropriation ''A2'' 50) 7, Approve_appropriation 3 8 1,
     Create_commitment CT_OTHER 1 sample_commitment (Date 6 1 10), Obligate 4 30 (Date 6 1 11),
     Create_virement 1 \<lparr>wi_fiscal_year = 3, wi_from = 2, wi_to = 3, wi_amount = 20, wi_currency_code = ''NGN''\<rparr> 7 ''V1'',
     Approve_virement 5 8 2] no_budget"

lemma stored_numeral [simp]: "stored (numeral n) = numeral n"
proof -
  have "at_scale 6 (numeral n)" unfolding at_scale_iff by (rule exI [of _ "numeral n * 10 ^ 6"]) simp
  then show ?thesis by (simp add: stored_def quantize_at_scale)
qed

lemmas budget_ops = create_fund_def create_appropriation_def approve_appropriation_def create_commitment_def
  commit_funds_def validate_new_commitment_def record_obligation_def create_virement_def approve_virement_def
  new_commitment_def set_commitment_def sample_commitment_def sample_appropriation_def no_budget_def
  calculate_def appropriations_in_def commitments_in_def where_given_def live_commitment_def
  Let_def return_def raise_def add_row_def set_row_def

lemma sample_budget_rows:
  "map (\<lambda>a. (ap_id a, ap_org a, ap_fund a, ap_status a, ap_revised_amount a)) (appropriations sample_budget)
     = [(2, 1, 1, AS_APPROVED, 100), (3, 1, 1, AS_APPROVED, 50)]"
  "map (\<lambda>c. (cm_id c, cm_org c, cm_appropriation c, cm_status c)) (commitments sample_budget) = [(4, 1, Some 2, CS_OBLIGATED)]"
  "map (\<lambda>c. (cm_committed_amount c, cm_obligated_amount c, cm_expended_amount c, cm_cancelled_amount c))
     (commitments sample_budget) = [(60, 30, 0, 0)]"
  "fst (apply_virement 5 3 sample_budget) = Inr 5"
  "ab_available_balance (calculate 1 (Some 2) None None sample_budget) = 40"
  unfolding sample_budget_def run_cmds_def
  by (simp_all add: budget_ops) (simp add: apply_virement_def budget_ops)

lemma sample_budget_reachable: "budget_reachable sample_budget"
  unfolding sample_budget_def
  by (rule reachable_run, rule budget_reachable.start) (simp_all add: empty_budget_def no_budget_def)

lemma sample_appropriation_row:
  obtains a where "a \<in> set (appropriations sample_budget)" "approved a" "ap_org a = 1" "ap_id a = 2"
proof -
  obtain z za where "appropriations sample_budget = [z, za]" "ap_id z = 2" "ap_org z = 1" "ap_status z = AS_APPROVED"
    using sample_budget_rows(1) by (auto simp: map_eq_Cons_conv)
  then show thesis by (intro that [of z]) (simp_all add: approved_def)
qed

lemma sample_commitment_row:
  obtains c where "c \<in> set (commitments sample_budget)" "cm_id c = 4" "cm_org c = 1" "cm_appropriation c = Some 2"
    "cm_status c = CS_OBLIGATED" "cm_committed_amount c = 60" "cm_obligated_amount c = 30" "cm_expended_amount c = 0"
    "cm_cancelled_amount c = 0"
  using sample_budget_rows(2,3) that by (auto simp: map_eq_Cons_conv)

theorem appropriation_never_overcommitted_witness:
  "\<exists>a \<in> set (appropriations sample_budget). approved a
    \<and> 0 \<le> ab_available_balance (calculate (ap_org a) (Some (ap_id a)) None None sample_budget)"
  by (rule sample_appropriation_row) (use appropriation_never_overcommitted [OF sample_budget_reachable] in blast)

theorem commitment_stages_ordered_witness:
  "\<exists>c \<in> set (commitments sample_budget). cm_obligated_amount c = 30
    \<and> cm_obligated_amount c \<le> cm_committed_amount c - cm_cancelled_amount c"
proof (rule sample_commitment_row)
  fix c assume c: "c \<in> set (commitments sample_budget)" "cm_status c = CS_OBLIGATED" "cm_obligated_amount c = 30"
  show ?thesis
    using commitment_stages_ordered [OF sample_budget_reachable c(1)] c by (auto simp: live_commitment_def)
qed

theorem virement_conserves_budget_witness:
  "\<exists>s'. apply_virement 5 3 sample_budget = (Inr 5, s')
    \<and> (\<Sum>a\<leftarrow>filter (\<lambda>a. ap_fund a = 1) (appropriations s'). ap_revised_amount a)
      = (\<Sum>a\<leftarrow>filter (\<lambda>a. ap_fund a = 1) (appropriations sample_budget). ap_revised_amount a)
    \<and> apply_virement 5 4 s' = (Inl (Cannot_apply VS_APPLIED), s')"
proof -
  obtain s' where "apply_virement 5 3 sample_budget = (Inr 5, s')" using sample_budget_rows(4) by (metis prod.collapse)
  with virement_conserves_budget [OF sample_budget_reachable this] show ?thesis by blast
qed

theorem negative_cancellation_breaks_ceiling_witness:
  "\<exists>s'. cancel_commitment 4 (Some (- 1000)) sample_budget = (Inr 4, s')
    \<and> ab_available_balance (calculate 1 (Some 2) None None s') = - 960"
proof (rule sample_commitment_row, rule sample_appropriation_row)
  fix c a assume c: "c \<in> set (commitments sample_budget)" "cm_id c = 4" "cm_org c = 1" "cm_appropriation c = Some 2"
      "cm_status c = CS_OBLIGATED" "cm_expended_amount c = 0"
    and a: "a \<in> set (appropriations sample_budget)" "ap_org a = 1" "ap_id a = 2"
  have "at_scale 6 (1000 :: decimal)" unfolding at_scale_iff by (rule exI [of _ "1000 * 10 ^ 6"]) simp
  from negative_cancellation_breaks_ceiling [OF sample_budget_reachable c(1) _ a(1) _ _ this _ c(6)]
  show ?thesis using c a sample_budget_rows(5) by simp
qed

theorem full_cancellation_releases_obligation_witness:
  "\<exists>s' c'. cancel_commitment 4 None sample_budget = (Inr 4, s') \<and> c' \<in> set (commitments s')
    \<and> cm_obligated_amount c' = 30
    \<and> ab_available_balance (calculate 1 (Some 2) None None s') = 100"
proof (rule sample_commitment_row, rule sample_appropriation_row)
  fix c a assume c: "c \<in> set (commitments sample_budget)" "cm_id c = 4" "cm_org c = 1" "cm_appropriation c = Some 2"
      "cm_status c = CS_OBLIGATED" "cm_obligated_amount c = 30" "cm_committed_amount c = 60" "cm_cancelled_amount c = 0"
    and a: "a \<in> set (appropriations sample_budget)" "ap_org a = 1" "ap_id a = 2"
  from full_cancellation_releases_obligation [OF sample_budget_reachable c(1,5) a(1)]
  show ?thesis using c a sample_budget_rows(5) by simp blast
qed

end
