(* ===== verification/Paye.thy ===== *)
theory Paye
  imports Decimals Dates "HOL-Library.Multiset"
begin

text \<open>
  Income tax of the payroll: \<open>app/services/people/payroll/paye_calculator.py\<close> and
  \<open>tax_band_service.py\<close> over \<open>app/models/people/payroll/tax_band.py\<close> and
  \<open>employee_tax_profile.py\<close>. A taxable income is spread over the organisation's tax bands, each
  band's tax is rounded to the kobo, and the sum is prorated to a month.

  Salaries have at most four places, rates at most four (\<open>NUMERIC(5, 4)\<close>), so sums and products
  have fewer than 28 digits and are exact; the divisions go through \<open>dec_div\<close>. Rows are listed
  in table order, and an \<open>ORDER BY\<close> is a stable sort. The formatting of messages and the
  conversion to a dictionary are left out.
\<close>

record tax_band =
  tb_id :: uuid
  tb_org :: uuid
  tb_name :: string
  tb_min_amount :: decimal
  tb_max_amount :: "decimal option"
  tb_rate :: decimal
  tb_effective_from :: date
  tb_effective_to :: "date option"
  tb_sequence :: int
  tb_is_active :: bool

record tax_profile =
  tp_org :: uuid
  tp_employee :: uuid
  tp_tin :: "string option"
  tp_tax_state :: "string option"
  tp_annual_rent :: decimal
  tp_rent_receipt_verified :: bool
  tp_pension_rate :: decimal
  tp_nhf_rate :: decimal
  tp_nhis_rate :: decimal
  tp_is_tax_exempt :: bool
  tp_effective_from :: date
  tp_effective_to :: "date option"

record payroll_db =
  tax_bands :: "tax_band list"
  tax_profiles :: "tax_profile list"
  next_band :: uuid

record band_breakdown =
  bb_name :: string
  bb_min_amount :: decimal
  bb_max_amount :: "decimal option"
  bb_rate :: decimal
  bb_taxable_in_band :: decimal
  bb_tax_amount :: decimal

record paye_breakdown =
  py_annual_gross :: decimal
  py_annual_basic :: decimal
  py_annual_transport :: decimal
  py_annual_housing :: decimal
  py_annual_pension_base :: decimal
  py_annual_rent :: decimal
  py_pension_amount :: decimal
  py_pension_rate :: decimal
  py_employer_pension_amount :: decimal
  py_employer_pension_rate :: decimal
  py_nhf_amount :: decimal
  py_nhf_rate :: decimal
  py_nhis_amount :: decimal
  py_nhis_rate :: decimal
  py_total_statutory :: decimal
  py_rent_relief :: decimal
  py_taxable_income :: decimal
  py_band_breakdowns :: "band_breakdown list"
  py_annual_tax :: decimal
  py_monthly_tax :: decimal
  py_monthly_pension :: decimal
  py_monthly_employer_pension :: decimal
  py_monthly_nhf :: decimal
  py_monthly_nhis :: decimal
  py_effective_rate :: decimal
  py_employee :: "uuid option"
  py_tin :: "string option"
  py_tax_state :: "string option"
  py_is_tax_exempt :: bool

section \<open>One band\<close>

text \<open>\<open>TaxBand.calculate_tax\<close>.\<close>

definition calculate_tax :: "tax_band \<Rightarrow> decimal \<Rightarrow> decimal" where
  "calculate_tax b income =
    (if income \<le> tb_min_amount b then 0
     else let taxable_in_band = (case tb_max_amount b of None \<Rightarrow> income - tb_min_amount b
           | Some m \<Rightarrow> min income m - tb_min_amount b)
       in if taxable_in_band \<le> 0 then 0 else kobo (taxable_in_band * tb_rate b))"

text \<open>The portion of the income in the band, as the breakdown reports it.\<close>

definition taxable_in_band :: "tax_band \<Rightarrow> decimal \<Rightarrow> decimal" where
  "taxable_in_band b income =
    (if income \<le> tb_min_amount b then 0
     else case tb_max_amount b of None \<Rightarrow> income - tb_min_amount b
       | Some m \<Rightarrow> max (min income m - tb_min_amount b) 0)"

definition breakdown_of :: "tax_band \<Rightarrow> decimal \<Rightarrow> band_breakdown" where
  "breakdown_of b income = \<lparr>bb_name = tb_name b, bb_min_amount = tb_min_amount b,
     bb_max_amount = tb_max_amount b, bb_rate = tb_rate b,
     bb_taxable_in_band = taxable_in_band b income, bb_tax_amount = calculate_tax b income\<rparr>"

text \<open>The loop over the bands: the breakdowns so far and the tax so far.\<close>

fun tax_loop :: "decimal \<Rightarrow> tax_band list \<Rightarrow> band_breakdown list \<Rightarrow> decimal \<Rightarrow> band_breakdown list \<times> decimal" where
  "tax_loop income [] out tax = (out, tax)"
| "tax_loop income (b # bs) out tax =
    (if 0 < calculate_tax b income \<or> tb_min_amount b < income
     then tax_loop income bs (out @ [breakdown_of b income]) (tax + calculate_tax b income)
     else tax_loop income bs out tax)"

section \<open>The bands of an organisation\<close>

definition in_force :: "date \<Rightarrow> date \<Rightarrow> date option \<Rightarrow> bool" where
  "in_force as_of start end_date \<longleftrightarrow> start \<le> as_of \<and> (case end_date of None \<Rightarrow> True | Some e \<Rightarrow> as_of \<le> e)"

definition active_bands :: "uuid \<Rightarrow> date \<Rightarrow> payroll_db \<Rightarrow> tax_band list" where
  "active_bands org as_of s = filter (\<lambda>b. tb_org b = org \<and> tb_is_active b
     \<and> in_force as_of (tb_effective_from b) (tb_effective_to b)) (tax_bands s)"

text \<open>\<open>NTA_2025_BANDS\<close>: name, lower bound, upper bound, rate, sequence.\<close>

definition nta_2025_bands :: "(string \<times> decimal \<times> decimal option \<times> decimal \<times> int) list" where
  "nta_2025_bands = [
     (''NTA 2025 - 0%'', 0, Some 800000, 0, 1),
     (''NTA 2025 - 15%'', 800000, Some 3000000, 15/100, 2),
     (''NTA 2025 - 18%'', 3000000, Some 12000000, 18/100, 3),
     (''NTA 2025 - 21%'', 12000000, Some 25000000, 21/100, 4),
     (''NTA 2025 - 23%'', 25000000, Some 50000000, 23/100, 5),
     (''NTA 2025 - 25%'', 50000000, None, 25/100, 6)]"

fun create_band_from_def :: "uuid \<Rightarrow> uuid \<Rightarrow> date \<Rightarrow> string \<times> decimal \<times> decimal option \<times> decimal \<times> int \<Rightarrow> tax_band" where
  "create_band_from_def u org start (name, lo, hi, rate, seq) = \<lparr>tb_id = u, tb_org = org, tb_name = name,
     tb_min_amount = lo, tb_max_amount = hi, tb_rate = rate, tb_effective_from = start, tb_effective_to = None,
     tb_sequence = seq, tb_is_active = True\<rparr>"

text \<open>Default bands are not persisted and have no identifier yet; 0 stands for it.\<close>

definition default_bands :: "uuid \<Rightarrow> date \<Rightarrow> tax_band list" where
  "default_bands org as_of = map (create_band_from_def 0 org as_of) nta_2025_bands"

definition get_tax_bands :: "uuid \<Rightarrow> date \<Rightarrow> payroll_db \<Rightarrow> tax_band list" where
  "get_tax_bands org as_of s = (let bands = sort_key tb_sequence (active_bands org as_of s)
     in if bands = [] then default_bands org as_of else bands)"

text \<open>The public listing of an organisation's bands.\<close>

definition all_tax_bands :: "uuid \<Rightarrow> bool \<Rightarrow> payroll_db \<Rightarrow> tax_band list" where
  "all_tax_bands org active_only s = sort_key tb_sequence (filter (\<lambda>b. tb_org b = org
     \<and> (active_only \<longrightarrow> tb_is_active b)) (tax_bands s))"

fun persisted_bands :: "uuid \<Rightarrow> uuid \<Rightarrow> date \<Rightarrow> (string \<times> decimal \<times> decimal option \<times> decimal \<times> int) list \<Rightarrow> tax_band list" where
  "persisted_bands u org start [] = []"
| "persisted_bands u org start (d # ds) = create_band_from_def u org start d # persisted_bands (u + 1) org start ds"

definition seed_nta_2025_bands :: "uuid \<Rightarrow> date option \<Rightarrow> payroll_db \<Rightarrow> tax_band list \<times> payroll_db" where
  "seed_nta_2025_bands org effective_from s =
    (if \<exists>b \<in> set (tax_bands s). tb_org b = org \<and> tb_is_active b then ([], s)
     else let bands = persisted_bands (next_band s) org
            (case effective_from of Some d \<Rightarrow> d | None \<Rightarrow> Date 2026 1 1) nta_2025_bands
       in (bands, s\<lparr>tax_bands := tax_bands s @ bands, next_band := next_band s + length bands\<rparr>))"

definition get_tax_profile :: "uuid \<Rightarrow> uuid \<Rightarrow> date \<Rightarrow> payroll_db \<Rightarrow> tax_profile option" where
  "get_tax_profile org employee as_of s =
    (let ps = sort_key tp_effective_from (filter (\<lambda>p. tp_org p = org \<and> tp_employee p = employee
         \<and> in_force as_of (tp_effective_from p) (tp_effective_to p)) (tax_profiles s))
     in if ps = [] then None else Some (last ps))"

section \<open>The calculation\<close>

record paye_input =
  pi_gross_monthly :: decimal
  pi_basic_monthly :: decimal
  pi_employee :: "uuid option"
  pi_transport_monthly :: "decimal option"
  pi_housing_monthly :: "decimal option"
  pi_annual_rent :: "decimal option"
  pi_rent_verified :: bool
  pi_pension_rate :: "decimal option"
  pi_employer_pension_rate :: "decimal option"
  pi_nhf_rate :: "decimal option"
  pi_nhis_rate :: "decimal option"

text \<open>\<open>x if x is not None else (profile.y if profile else default)\<close>.\<close>

definition given_else :: "'a option \<Rightarrow> (tax_profile \<Rightarrow> 'a) \<Rightarrow> 'a \<Rightarrow> tax_profile option \<Rightarrow> 'a" where
  "given_else v f d profile = (case v of Some x \<Rightarrow> x
     | None \<Rightarrow> (case profile of Some p \<Rightarrow> f p | None \<Rightarrow> d))"

definition rent_relief_of :: "bool \<Rightarrow> decimal \<Rightarrow> decimal" where
  "rent_relief_of verified rent = (if verified \<and> 0 < rent then min (rent * (20/100)) 500000 else 0)"

definition calculate_paye :: "uuid \<Rightarrow> paye_input \<Rightarrow> date \<Rightarrow> payroll_db \<Rightarrow> paye_breakdown" where
  "calculate_paye org i as_of s =
    (let profile = (case pi_employee i of None \<Rightarrow> None | Some e \<Rightarrow> get_tax_profile org e as_of s);
         pension_rate = given_else (pi_pension_rate i) tp_pension_rate (8/100) profile;
         employer_rate = (case pi_employer_pension_rate i of Some r \<Rightarrow> r | None \<Rightarrow> 10/100);
         nhf_rate = given_else (pi_nhf_rate i) tp_nhf_rate (25/1000) profile;
         nhis_rate = given_else (pi_nhis_rate i) tp_nhis_rate 0 profile;
         rent = given_else (pi_annual_rent i) tp_annual_rent 0 profile;
         verified = (pi_rent_verified i \<or> (case profile of Some p \<Rightarrow> tp_rent_receipt_verified p | None \<Rightarrow> False));
         exempt = (case profile of Some p \<Rightarrow> tp_is_tax_exempt p | None \<Rightarrow> False);
         gross = pi_gross_monthly i * 12;
         basic = pi_basic_monthly i * 12;
         transport = (case pi_transport_monthly i of Some x \<Rightarrow> x | None \<Rightarrow> 0) * 12;
         housing = (case pi_housing_monthly i of Some x \<Rightarrow> x | None \<Rightarrow> 0) * 12;
         pension_base = basic + transport + housing;
         pension = pension_base * pension_rate;
         employer_pension = pension_base * employer_rate;
         nhf = basic * nhf_rate;
         nhis = basic * nhis_rate;
         statutory = pension + nhf + nhis;
         relief = rent_relief_of verified rent;
         taxable = max (gross - statutory - relief) 0;
         (breakdowns, tax) = (if exempt then ([], 0) else tax_loop taxable (get_tax_bands org as_of s) [] 0)
     in \<lparr>py_annual_gross = gross, py_annual_basic = basic, py_annual_transport = transport,
         py_annual_housing = housing, py_annual_pension_base = pension_base, py_annual_rent = rent,
         py_pension_amount = pension, py_pension_rate = pension_rate,
         py_employer_pension_amount = employer_pension, py_employer_pension_rate = employer_rate,
         py_nhf_amount = nhf, py_nhf_rate = nhf_rate, py_nhis_amount = nhis, py_nhis_rate = nhis_rate,
         py_total_statutory = statutory,
         py_rent_relief = relief, py_taxable_income = taxable, py_band_breakdowns = breakdowns,
         py_annual_tax = tax, py_monthly_tax = kobo (dec_div tax 12),
         py_monthly_pension = kobo (dec_div pension 12),
         py_monthly_employer_pension = kobo (dec_div employer_pension 12),
         py_monthly_nhf = kobo (dec_div nhf 12), py_monthly_nhis = kobo (dec_div nhis 12),
         py_effective_rate = (if 0 < gross then quantize_half_up 4 (dec_div tax gross) else 0),
         py_employee = pi_employee i,
         py_tin = (case profile of Some p \<Rightarrow> tp_tin p | None \<Rightarrow> None),
         py_tax_state = (case profile of Some p \<Rightarrow> tp_tax_state p | None \<Rightarrow> None),
         py_is_tax_exempt = exempt\<rparr>)"

section \<open>Validation of the bands\<close>

text \<open>An error carries the identifier of its band, \<open>None\<close> for a band that is not persisted.\<close>

datatype band_error = No_bands | Negative_min "uuid option" | Invalid_range "uuid option"
  | Negative_rate "uuid option" | Excessive_rate "uuid option" | Invalid_rate
  | Unbounded_not_last "uuid option" | Overlap "uuid option"

datatype band_warning = First_not_zero decimal | Last_bounded decimal | Gap decimal decimal
  | Duplicate_sequences

record band_validation =
  bv_is_valid :: bool
  bv_errors :: "band_error list"
  bv_warnings :: "band_warning list"

definition get_active_bands :: "uuid \<Rightarrow> date \<Rightarrow> payroll_db \<Rightarrow> tax_band list" where
  "get_active_bands org as_of s = sort_key tb_sequence (sort_key tb_min_amount (active_bands org as_of s))"

definition validate_band :: "tax_band \<Rightarrow> band_error list" where
  "validate_band b =
     (if tb_min_amount b < 0 then [Negative_min (Some (tb_id b))] else [])
   @ (case tb_max_amount b of Some m \<Rightarrow> if m \<le> tb_min_amount b then [Invalid_range (Some (tb_id b))] else [] | None \<Rightarrow> [])
   @ (if tb_rate b < 0 then [Negative_rate (Some (tb_id b))]
      else if 1 < tb_rate b then [Excessive_rate (Some (tb_id b))] else [])"

text \<open>Overlaps and gaps between neighbours: errors and warnings.\<close>

fun check_neighbours :: "tax_band list \<Rightarrow> band_error list \<times> band_warning list" where
  "check_neighbours (b # c # bs) = (let (es, ws) = check_neighbours (c # bs) in
     case tb_max_amount b of
       None \<Rightarrow> (Unbounded_not_last (Some (tb_id b)) # es, ws)
     | Some m \<Rightarrow> ((if tb_min_amount c < m then [Overlap (Some (tb_id b))] else []) @ es,
         (if m < tb_min_amount c then [Gap m (tb_min_amount c)] else []) @ ws))"
| "check_neighbours _ = ([], [])"

definition validate_band_set :: "uuid \<Rightarrow> date \<Rightarrow> payroll_db \<Rightarrow> band_validation" where
  "validate_band_set org as_of s = (let bands = get_active_bands org as_of s in
     if bands = [] then \<lparr>bv_is_valid = False, bv_errors = [No_bands], bv_warnings = []\<rparr>
     else let errors = concat (map validate_band bands) @ fst (check_neighbours bands);
              warnings = (if tb_min_amount (hd bands) \<noteq> 0 then [First_not_zero (tb_min_amount (hd bands))] else [])
                @ (case tb_max_amount (last bands) of Some m \<Rightarrow> [Last_bounded m] | None \<Rightarrow> [])
                @ snd (check_neighbours bands)
                @ (if distinct (map tb_sequence bands) then [] else [Duplicate_sequences])
       in \<lparr>bv_is_valid = (errors = []), bv_errors = errors, bv_warnings = warnings\<rparr>)"

definition validate_new_band :: "uuid \<Rightarrow> decimal \<Rightarrow> decimal option \<Rightarrow> decimal \<Rightarrow> uuid option \<Rightarrow> date \<Rightarrow> payroll_db
    \<Rightarrow> band_validation" where
  "validate_new_band org lo hi rate exclude today s =
    (let upper = (\<lambda>m. case m of Some x \<Rightarrow> x | None \<Rightarrow> 999999999999);
         errors = (if lo < 0 then [Negative_min None] else [])
           @ (case hi of Some m \<Rightarrow> if m \<le> lo then [Invalid_range None] else [] | None \<Rightarrow> [])
           @ (if rate < 0 \<or> 1 < rate then [Invalid_rate] else [])
           @ concat (map (\<lambda>b. if exclude = Some (tb_id b) then []
               else if lo < upper (tb_max_amount b) \<and> tb_min_amount b < upper hi then [Overlap (Some (tb_id b))] else [])
             (get_active_bands org today s))
     in \<lparr>bv_is_valid = (errors = []), bv_errors = errors, bv_warnings = []\<rparr>)"

end
