(* ===== verification/Paye_Properties.thy ===== *)
theory Paye_Properties
  imports Paye_Facts
begin

text \<open>The properties of the PAYE calculator and of the tax band service, with their witnesses.\<close>

section \<open>Seeding\<close>

definition band_terms :: "tax_band \<Rightarrow> string \<times> decimal \<times> decimal option \<times> decimal" where
  "band_terms b = (tb_name b, tb_min_amount b, tb_max_amount b, tb_rate b)"

text \<open>The loop reads the terms of the bands only.\<close>

lemma breakdown_of_cong: "band_terms b = band_terms c \<Longrightarrow> breakdown_of b x = breakdown_of c x"
  by (simp add: band_terms_def breakdown_of_def taxable_in_band_alt calculate_tax_alt)

lemma tax_loop_cong: "map band_terms bs = map band_terms cs \<Longrightarrow> tax_loop x bs out t = tax_loop x cs out t"
proof (induction bs arbitrary: cs out t)
  case (Cons b bs)
  then obtain c cs' where cs: "cs = c # cs'" "band_terms b = band_terms c" "map band_terms bs = map band_terms cs'"
    by auto
  then have "tb_min_amount b = tb_min_amount c" "calculate_tax b x = calculate_tax c x"
    by (simp_all add: band_terms_def calculate_tax_alt taxable_in_band_alt)
  with cs Cons.IH [OF cs(3)] show ?case by (simp add: breakdown_of_cong [OF cs(2)])
qed simp

lemma seeded_active_bands:
  assumes "\<not> (\<exists>b \<in> set (tax_bands s). tb_org b = org \<and> tb_is_active b)" and "start \<le> as_of"
  shows "active_bands org as_of (snd (seed_nta_2025_bands org (Some start) s))
    = persisted_bands (next_band s) org start nta_2025_bands"
proof -
  have "active_bands org as_of s = []"
    using assms(1) by (auto simp: active_bands_def filter_empty_conv)
  then show ?thesis
    using assms by (simp add: seed_nta_2025_bands_def active_bands_def in_force_def nta_2025_bands_def Let_def)
qed

lemma persisted_sorted:
  "sort_key tb_sequence (persisted_bands u org start nta_2025_bands) = persisted_bands u org start nta_2025_bands"
  "sort_key tb_min_amount (persisted_bands u org start nta_2025_bands) = persisted_bands u org start nta_2025_bands"
  by (simp_all add: nta_2025_bands_def)

lemma persisted_terms:
  "map band_terms (persisted_bands u org start nta_2025_bands) = map band_terms (default_bands org as_of)"
  by (simp add: nta_2025_bands_def default_bands_def band_terms_def)

lemma persisted_nonempty: "persisted_bands u org start nta_2025_bands \<noteq> []"
  by (simp add: nta_2025_bands_def)

lemma seeded_tax_loop:
  assumes "\<not> (\<exists>b \<in> set (tax_bands s). tb_org b = org \<and> tb_is_active b)" and "start \<le> as_of"
  shows "tax_loop x (get_tax_bands org as_of (snd (seed_nta_2025_bands org (Some start) s))) out t
    = tax_loop x (get_tax_bands org as_of s) out t"
proof (rule tax_loop_cong)
  have "active_bands org as_of s = []"
    using assms(1) by (auto simp: active_bands_def filter_empty_conv)
  then show "map band_terms (get_tax_bands org as_of (snd (seed_nta_2025_bands org (Some start) s)))
      = map band_terms (get_tax_bands org as_of s)"
    unfolding get_tax_bands_def seeded_active_bands [OF assms] persisted_sorted
    by (simp add: Let_def persisted_terms [of _ _ _ as_of] persisted_nonempty)
qed

lemma seeded_profile:
  "get_tax_profile org e as_of (snd (seed_nta_2025_bands org' start s)) = get_tax_profile org e as_of s"
  by (simp add: get_tax_profile_def seed_nta_2025_bands_def Let_def)

section \<open>Properties\<close>

text \<open>C17: whenever the employee is not exempt, the annual tax is the sum of the breakdown's band
  taxes, every breakdown belongs to a band that starts below the taxable income, and the total is
  the progressive tax (each portion at its band's rate, unrounded) up to half a kobo per band.\<close>

theorem paye_is_progressive:
  assumes "r = calculate_paye org i as_of s" and "\<not> py_is_tax_exempt r"
  shows "py_annual_tax r = (\<Sum>b\<leftarrow>py_band_breakdowns r. bb_tax_amount b)
    \<and> (\<forall>b \<in> set (py_band_breakdowns r). bb_min_amount b < py_taxable_income r)
    \<and> abs (py_annual_tax r - progressive_tax (get_tax_bands org as_of s) (py_taxable_income r))
      \<le> of_nat (length (get_tax_bands org as_of s)) * (1 / 200)"
proof (intro conjI)
  let ?bs = "get_tax_bands org as_of s" and ?x = "py_taxable_income r"
  have tax: "py_annual_tax r = (\<Sum>b\<leftarrow>?bs. calculate_tax b ?x)"
    and bds: "py_band_breakdowns r = map (\<lambda>b. breakdown_of b ?x) (filter (\<lambda>b. tb_min_amount b < ?x) ?bs)"
    using calculate_paye_tax(1,2) [OF assms(1)] assms(2) by simp_all
  have "(\<Sum>b\<leftarrow>filter (\<lambda>b. tb_min_amount b < ?x) ?bs. calculate_tax b ?x) = (\<Sum>b\<leftarrow>?bs. calculate_tax b ?x)"
    by (rule sum_list_filter_zero) simp
  then show "py_annual_tax r = (\<Sum>b\<leftarrow>py_band_breakdowns r. bb_tax_amount b)"
    unfolding tax bds by (simp add: o_def breakdown_of_def)
  show "\<forall>b \<in> set (py_band_breakdowns r). bb_min_amount b < ?x"
    unfolding bds by (auto simp: breakdown_of_def)
  show "abs (py_annual_tax r - progressive_tax ?bs ?x) \<le> of_nat (length ?bs) * (1 / 200)"
    unfolding tax by (rule band_taxes_near_progressive)
qed

text \<open>If the validator reports neither an error nor a warning on the organisation's bands, the
  portions that the breakdown of a non-exempt employee reports add up to the whole taxable income:
  nothing is taxed twice and nothing escapes.\<close>

theorem validated_bands_cover_income:
  assumes "clean_bands org as_of s" and "r = calculate_paye org i as_of s" and "\<not> py_is_tax_exempt r"
  shows "(\<Sum>b\<leftarrow>py_band_breakdowns r. bb_taxable_in_band b) = py_taxable_income r"
proof -
  let ?bs = "get_tax_bands org as_of s" and ?x = "py_taxable_income r"
  have "(\<Sum>b\<leftarrow>py_band_breakdowns r. bb_taxable_in_band b)
      = (\<Sum>b\<leftarrow>filter (\<lambda>b. tb_min_amount b < ?x) ?bs. taxable_in_band b ?x)"
    using calculate_paye_tax(2) [OF assms(2)] assms(3) by (simp add: o_def breakdown_of_def)
  also have "\<dots> = (\<Sum>b\<leftarrow>?bs. taxable_in_band b ?x)"
    by (rule sum_list_filter_zero) simp
  also have "\<dots> = ?x"
    using clean_tax_bands(1) [OF assms(1)] calculate_paye_tax(3) [OF assms(2)] by simp
  finally show ?thesis .
qed

text \<open>C18: under bands the validator accepts without a warning, raising the gross salary never
  lowers the annual tax and never costs more than the raise itself, up to a kobo per band.\<close>

theorem raise_never_costs_more_than_itself:
  assumes "clean_bands org as_of s" and "pi_gross_monthly i \<le> g"
    and "r = calculate_paye org i as_of s"
    and "r' = calculate_paye org (i\<lparr>pi_gross_monthly := g\<rparr>) as_of s"
  shows "py_annual_tax r \<le> py_annual_tax r'
    \<and> py_annual_tax r' - py_annual_tax r
      \<le> 12 * (g - pi_gross_monthly i) + of_nat (length (get_tax_bands org as_of s)) * (1 / 100)"
proof (cases "py_is_tax_exempt r")
  case True
  then have "py_annual_tax r = 0" "py_annual_tax r' = 0"
    using calculate_paye_tax(1) [OF assms(3)] calculate_paye_tax(1) [OF assms(4)]
      calculate_paye_raise(1) [OF assms(3,4,2)] by simp_all
  then show ?thesis using assms(2) by simp
next
  case False
  let ?bs = "get_tax_bands org as_of s" and ?x = "py_taxable_income r" and ?y = "py_taxable_income r'"
  note raised = calculate_paye_raise [OF assms(3,4,2)]
  have tax: "py_annual_tax r = (\<Sum>b\<leftarrow>?bs. calculate_tax b ?x)" "py_annual_tax r' = (\<Sum>b\<leftarrow>?bs. calculate_tax b ?y)"
    using calculate_paye_tax(1) [OF assms(3)] calculate_paye_tax(1) [OF assms(4)] raised(1) False by simp_all
  have rates: "tb_rate b \<le> 1" if "b \<in> set ?bs" for b
    using clean_tax_bands(2) [OF assms(1) that] ..
  have "progressive_tax ?bs ?y - progressive_tax ?bs ?x
      \<le> (\<Sum>b\<leftarrow>?bs. taxable_in_band b ?y) - (\<Sum>b\<leftarrow>?bs. taxable_in_band b ?x)"
    by (rule progressive_tax_slope [OF rates raised(2)])
  then have "progressive_tax ?bs ?y - progressive_tax ?bs ?x \<le> ?y - ?x"
    using calculate_paye_tax(3) [OF assms(3)] calculate_paye_tax(3) [OF assms(4)]
    by (simp add: clean_tax_bands(1) [OF assms(1)] max_absorb2)
  then have "py_annual_tax r' - py_annual_tax r \<le> 12 * (g - pi_gross_monthly i) + of_nat (length ?bs) * (1 / 100)"
    unfolding tax using band_taxes_near_progressive [of ?x ?bs] band_taxes_near_progressive [of ?y ?bs] raised(3)
    by (simp only: abs_le_iff) linarith
  moreover have "py_annual_tax r \<le> py_annual_tax r'"
    unfolding tax by (rule band_taxes_mono [OF _ raised(2)]) (use clean_tax_bands(2) [OF assms(1)] in blast)
  ultimately show ?thesis by blast
qed

text \<open>Seeding the statutory bands of 2025 into an organisation without active bands changes
  nobody's calculation from their effective date on, and the validator accepts them without an
  error or a warning.\<close>

theorem seeding_changes_no_tax:
  assumes "\<not> (\<exists>b \<in> set (tax_bands s). tb_org b = org \<and> tb_is_active b)" and "start \<le> as_of"
    and "s' = snd (seed_nta_2025_bands org (Some start) s)"
  shows "calculate_paye org i as_of s' = calculate_paye org i as_of s \<and> clean_bands org as_of s'"
proof
  show "calculate_paye org i as_of s' = calculate_paye org i as_of s"
    unfolding assms(3) calculate_paye_def seeded_tax_loop [OF assms(1,2)] seeded_profile ..
  show "clean_bands org as_of s'"
    unfolding assms(3) clean_bands_def validate_band_set_def get_active_bands_def
      seeded_active_bands [OF assms(1,2)] persisted_sorted
    by (simp add: nta_2025_bands_def validate_band_def)
qed

section \<open>Witnesses\<close>

definition documented_profile :: tax_profile where
  "documented_profile = \<lparr>tp_org = 1, tp_employee = 2, tp_tin = Some ''1234'', tp_tax_state = None,
     tp_annual_rent = 1200000, tp_rent_receipt_verified = True, tp_pension_rate = 8/100, tp_nhf_rate = 25/1000,
     tp_nhis_rate = 0, tp_is_tax_exempt = False, tp_effective_from = Date 2026 1 1, tp_effective_to = None\<rparr>"

definition documented_input :: paye_input where
  "documented_input = \<lparr>pi_gross_monthly = 500000, pi_basic_monthly = 300000, pi_employee = Some 2,
     pi_transport_monthly = None, pi_housing_monthly = None, pi_annual_rent = None, pi_rent_verified = False,
     pi_pension_rate = None, pi_employer_pension_rate = None, pi_nhf_rate = None, pi_nhis_rate = None\<rparr>"

definition unseeded_payroll :: payroll_db where
  "unseeded_payroll = \<lparr>tax_bands = [], tax_profiles = [documented_profile], next_band = 10\<rparr>"

definition seeded_payroll :: payroll_db where
  "seeded_payroll = snd (seed_nta_2025_bands 1 (Some (Date 2026 1 1)) unseeded_payroll)"

lemmas paye_eval = calculate_paye_def Let_def documented_input_def unseeded_payroll_def documented_profile_def
  get_tax_profile_def in_force_def given_else_def rent_relief_of_def get_tax_bands_def active_bands_def
  default_bands_def nta_2025_bands_def tax_loop_eq calculate_tax_alt taxable_in_band_alt
  quantize_half_up_def half_up_def

abbreviation documented_paye :: paye_breakdown where
  "documented_paye \<equiv> calculate_paye 1 documented_input (Date 2026 1 31) unseeded_payroll"

text \<open>Two exact quotients of the worked example.\<close>

lemma documented_quotients: "dec_div 758760 12 = 63230" "dec_div 758760 6000000 = 12646 / 10 ^ 5"
  unfolding dec_div_def
  by (subst dec28_exact [where d = 5 and e = 10]; simp add: at_scale_def)+

text \<open>The worked example of the module's documentation (gross 500,000 and basic 300,000 a month,
  a verified rent of 1,200,000 a year): taxable income 5,382,000, annual tax 758,760, monthly tax
  63,230, and an effective rate of 12.65 per cent.\<close>

theorem documented_example:
  "py_pension_amount documented_paye = 288000 \<and> py_nhf_amount documented_paye = 90000
    \<and> py_rent_relief documented_paye = 240000 \<and> py_taxable_income documented_paye = 5382000
    \<and> map bb_tax_amount (py_band_breakdowns documented_paye) = [0, 330000, 428760]
    \<and> py_annual_tax documented_paye = 758760 \<and> py_monthly_tax documented_paye = 63230
    \<and> py_effective_rate documented_paye = 1265 / 10000"
  by (simp add: paye_eval breakdown_of_def documented_quotients)

lemma documented_not_exempt: "\<not> py_is_tax_exempt documented_paye"
  by (simp add: paye_eval)

theorem paye_is_progressive_witness:
  "py_annual_tax documented_paye = (\<Sum>b\<leftarrow>py_band_breakdowns documented_paye. bb_tax_amount b)
    \<and> abs (py_annual_tax documented_paye
        - progressive_tax (get_tax_bands 1 (Date 2026 1 31) unseeded_payroll) (py_taxable_income documented_paye))
      \<le> of_nat (length (get_tax_bands 1 (Date 2026 1 31) unseeded_payroll)) * (1 / 200)"
  using paye_is_progressive [OF refl documented_not_exempt] by blast

lemma seeded_clean: "clean_bands 1 (Date 2026 1 31) seeded_payroll"
  by (simp add: clean_bands_def validate_band_set_def get_active_bands_def seeded_payroll_def
    seed_nta_2025_bands_def unseeded_payroll_def active_bands_def in_force_def nta_2025_bands_def validate_band_def Let_def)

theorem validated_bands_cover_income_witness:
  "(\<Sum>b\<leftarrow>py_band_breakdowns (calculate_paye 1 documented_input (Date 2026 1 31) seeded_payroll). bb_taxable_in_band b)
    = py_taxable_income (calculate_paye 1 documented_input (Date 2026 1 31) seeded_payroll)"
proof (rule validated_bands_cover_income [OF seeded_clean refl])
  show "\<not> py_is_tax_exempt (calculate_paye 1 documented_input (Date 2026 1 31) seeded_payroll)"
    by (simp add: paye_eval seeded_payroll_def seed_nta_2025_bands_def)
qed

theorem raise_never_costs_more_than_itself_witness:
  "py_annual_tax (calculate_paye 1 documented_input (Date 2026 1 31) seeded_payroll)
      \<le> py_annual_tax (calculate_paye 1 (documented_input\<lparr>pi_gross_monthly := 510000\<rparr>) (Date 2026 1 31) seeded_payroll)
    \<and> py_annual_tax (calculate_paye 1 (documented_input\<lparr>pi_gross_monthly := 510000\<rparr>) (Date 2026 1 31) seeded_payroll)
        - py_annual_tax (calculate_paye 1 documented_input (Date 2026 1 31) seeded_payroll)
      \<le> 12 * (510000 - pi_gross_monthly documented_input)
        + of_nat (length (get_tax_bands 1 (Date 2026 1 31) seeded_payroll)) * (1 / 100)"
  by (rule raise_never_costs_more_than_itself [OF seeded_clean _ refl refl]) (simp add: documented_input_def)

theorem seeding_changes_no_tax_witness:
  "calculate_paye 1 documented_input (Date 2026 1 31) seeded_payroll = documented_paye
    \<and> clean_bands 1 (Date 2026 1 31) seeded_payroll"
  by (rule seeding_changes_no_tax [OF _ _ seeded_payroll_def]) (simp_all add: unseeded_payroll_def)

end
