(* ===== verification/Task_Service.thy ===== *)
theory Task_Service
  imports Decimals Dates "HOL-Library.List_Lexorder" "HOL-Library.Char_ord"
begin

text \<open>
  Project tasks: \<open>app/services/pm/task_service.py\<close> over \<open>app/models/pm/task.py\<close> and
  \<open>task_dependency.py\<close>: a hierarchy of tasks (\<open>parent_task_id\<close>), a dependency graph, and the two
  cycle checks that guard them.

  The sessions of the application do not autoflush (\<open>sessionmaker(autoflush=False)\<close> in
  \<open>app/db/__init__.py\<close>), so a session keeps two versions of a task: the row of the table, which
  queries select on, and the object, which attributes are read from and assigned to.
  \<open>db.flush\<close> and the commit at the end of a request write the objects to the rows;
  \<open>db.refresh(task)\<close> first expires the object, dropping what was assigned to it and not flushed,
  and loads the row again (SQLAlchemy's \<open>Session.refresh\<close>).

  Timestamps, the acting principal (the API constructs the service without one), the listings and
  the eager loading are left out. The two loops that need not end are \<open>partial_function\<close>s, where
  \<open>None\<close> is a loop that never returns; the recursion of \<open>delete_task\<close> takes a depth.
\<close>

datatype task_status = T_OPEN | T_IN_PROGRESS | T_PENDING_REVIEW | T_COMPLETED | T_CANCELLED | T_ON_HOLD

datatype task_priority = Low | Medium | High | Urgent

datatype dependency_type = Finish_to_start | Start_to_start | Finish_to_finish | Start_to_finish

record task =
  t_id :: uuid
  t_org :: uuid
  t_project :: uuid
  t_parent :: "uuid option"
  t_ticket :: "uuid option"
  t_code :: string
  t_name :: string
  t_description :: "string option"
  t_status :: task_status
  t_priority :: task_priority
  t_assigned_to :: "uuid option"
  t_start_date :: "date option"
  t_due_date :: "date option"
  t_actual_start :: "date option"
  t_actual_end :: "date option"
  t_estimated_hours :: "decimal option"
  t_actual_hours :: decimal
  t_progress :: int

record task_dependency =
  td_id :: uuid
  td_task :: uuid
  td_depends_on :: uuid
  td_type :: dependency_type
  td_lag_days :: int

datatype pm_error =
  Task_not_found uuid
| Parent_in_other_project
| Circular_hierarchy
| Cannot_start task_status
| Dependency_not_completed string
| Already_completed
| Task_is_cancelled
| Subtask_not_completed string
| Progress_out_of_range
| Dependency_across_projects
| Depends_on_itself
| Dependency_exists
| Circular_dependency
| Dependency_not_found
| Task_integrity_error

section \<open>The session\<close>

record pm_session =
  task_rows :: "task list"
  task_objs :: "task list"
  dep_rows :: "task_dependency list"
  next_task :: uuid
  next_dep :: uuid

definition set_task :: "uuid \<Rightarrow> (task \<Rightarrow> task) \<Rightarrow> pm_session \<Rightarrow> pm_session" where
  "set_task t f s = s\<lparr>task_objs := set_row t_id t f (task_objs s)\<rparr>"

definition flush_tasks :: "pm_session \<Rightarrow> pm_session" where
  "flush_tasks s = s\<lparr>task_rows := task_objs s\<rparr>"

definition refresh_task :: "uuid \<Rightarrow> pm_session \<Rightarrow> pm_session" where
  "refresh_task t s = set_task t (\<lambda>obj. case get_row t_id t (task_rows s) of Some row \<Rightarrow> row | None \<Rightarrow> obj) s"

text \<open>The request around an operation: commit when it returns, roll back when it raises.\<close>

fun end_request :: "pm_session \<Rightarrow> (pm_error, 'a, pm_session) tx \<Rightarrow> pm_session" where
  "end_request s (Inl e, s') = s"
| "end_request s (Inr v, s') = flush_tasks s'"

section \<open>Reading\<close>

definition live_row :: "uuid \<Rightarrow> task \<Rightarrow> bool" where
  "live_row org r \<longleftrightarrow> t_org r = org \<and> t_status r \<noteq> T_CANCELLED"

definition get_task :: "uuid \<Rightarrow> uuid \<Rightarrow> pm_session \<Rightarrow> task option" where
  "get_task org t s = (case get_row t_id t (task_rows s) of None \<Rightarrow> None
     | Some r \<Rightarrow> if live_row org r then get_row t_id t (task_objs s) else None)"

definition get_subtasks :: "uuid \<Rightarrow> uuid \<Rightarrow> pm_session \<Rightarrow> task list" where
  "get_subtasks org t s = List.map_filter (\<lambda>r. get_row t_id (t_id r) (task_objs s))
     (sort_key t_code (filter (\<lambda>r. t_parent r = Some t \<and> live_row org r) (task_rows s)))"

definition get_dependencies :: "uuid \<Rightarrow> pm_session \<Rightarrow> task_dependency list" where
  "get_dependencies t s = filter (\<lambda>d. td_task d = t) (dep_rows s)"

definition get_dependents :: "uuid \<Rightarrow> pm_session \<Rightarrow> task_dependency list" where
  "get_dependents t s = filter (\<lambda>d. td_depends_on d = t) (dep_rows s)"

section \<open>The cycle checks\<close>

definition parent_of :: "pm_session \<Rightarrow> uuid \<Rightarrow> uuid option" where
  "parent_of s t = (case get_row t_id t (task_rows s) of None \<Rightarrow> None | Some r \<Rightarrow> t_parent r)"

partial_function (option) climb :: "(uuid \<Rightarrow> uuid option) \<Rightarrow> uuid \<Rightarrow> uuid option \<Rightarrow> bool option" where
  "climb parent t current = (case current of None \<Rightarrow> Some False
     | Some c \<Rightarrow> if c = t then Some True else climb parent t (parent c))"

definition would_create_cycle :: "uuid \<Rightarrow> uuid \<Rightarrow> pm_session \<Rightarrow> bool option" where
  "would_create_cycle t new_parent s = climb (parent_of s) t (Some new_parent)"

definition prerequisites :: "pm_session \<Rightarrow> uuid \<Rightarrow> uuid list" where
  "prerequisites s t = map td_depends_on (get_dependencies t s)"

partial_function (option) search_cycle ::
  "(uuid \<Rightarrow> uuid list) \<Rightarrow> uuid \<Rightarrow> uuid set \<Rightarrow> uuid list \<Rightarrow> bool option" where
  "search_cycle succs t visited to_visit = (if to_visit = [] then Some False
     else let current = last to_visit; rest = butlast to_visit
       in if current = t then Some True
          else if current \<in> visited then search_cycle succs t visited rest
          else search_cycle succs t (insert current visited) (rest @ succs current))"

definition would_create_dependency_cycle :: "uuid \<Rightarrow> uuid \<Rightarrow> pm_session \<Rightarrow> bool option" where
  "would_create_dependency_cycle t depends_on s = search_cycle (prerequisites s) t {} [depends_on]"

section \<open>Writing\<close>

record task_data =
  dt_project :: uuid
  dt_code :: string
  dt_name :: string
  dt_description :: "string option"
  dt_parent :: "uuid option"
  dt_ticket :: "uuid option"
  dt_status :: "task_status option"
  dt_priority :: "task_priority option"
  dt_assigned_to :: "uuid option"
  dt_start_date :: "date option"
  dt_due_date :: "date option"
  dt_estimated_hours :: "decimal option"

text \<open>The constraints the flush of a new task meets: the code is unique in the organisation
  (\<open>uq_task_org_code\<close>) and the parent exists (the foreign key). Other foreign keys lead out of the
  model.\<close>

definition task_insert_ok :: "task \<Rightarrow> pm_session \<Rightarrow> bool" where
  "task_insert_ok r s \<longleftrightarrow> \<not> (\<exists>r' \<in> set (task_rows s). t_org r' = t_org r \<and> t_code r' = t_code r)
     \<and> (case t_parent r of None \<Rightarrow> True | Some p \<Rightarrow> p \<in> t_id ` set (task_rows s))"

definition create_task :: "uuid \<Rightarrow> task_data \<Rightarrow> pm_session \<Rightarrow> (pm_error, task, pm_session) tx" where
  "create_task org d s = (let r = \<lparr>t_id = next_task s, t_org = org, t_project = dt_project d, t_parent = dt_parent d,
       t_ticket = dt_ticket d, t_code = dt_code d, t_name = dt_name d, t_description = dt_description d,
       t_status = (case dt_status d of Some x \<Rightarrow> x | None \<Rightarrow> T_OPEN),
       t_priority = (case dt_priority d of Some x \<Rightarrow> x | None \<Rightarrow> Medium),
       t_assigned_to = dt_assigned_to d, t_start_date = dt_start_date d, t_due_date = dt_due_date d,
       t_actual_start = None, t_actual_end = None, t_estimated_hours = dt_estimated_hours d,
       t_actual_hours = 0, t_progress = 0\<rparr>
     in if task_insert_ok r s
        then return r (flush_tasks (s\<lparr>task_objs := add_row r (task_objs s), next_task := Suc (next_task s)\<rparr>))
        else raise Task_integrity_error s)"

text \<open>The data of an update: a field that is absent or null is \<open>None\<close> and left alone.\<close>

record task_update =
  ut_code :: "string option"
  ut_name :: "string option"
  ut_description :: "string option"
  ut_parent :: "uuid option"
  ut_ticket :: "uuid option"
  ut_priority :: "task_priority option"
  ut_status :: "task_status option"
  ut_assigned_to :: "uuid option"
  ut_start_date :: "date option"
  ut_due_date :: "date option"
  ut_estimated_hours :: "decimal option"
  ut_actual_hours :: "decimal option"
  ut_progress :: "int option"

definition given :: "'a option \<Rightarrow> 'a \<Rightarrow> 'a" where
  "given v old = (case v of Some x \<Rightarrow> x | None \<Rightarrow> old)"

definition given_some :: "'a option \<Rightarrow> 'a option \<Rightarrow> 'a option" where
  "given_some v old = (case v of Some x \<Rightarrow> Some x | None \<Rightarrow> old)"

definition assign_fields :: "task_update \<Rightarrow> task \<Rightarrow> task" where
  "assign_fields u r = r\<lparr>t_code := given (ut_code u) (t_code r), t_name := given (ut_name u) (t_name r),
     t_description := given_some (ut_description u) (t_description r),
     t_parent := given_some (ut_parent u) (t_parent r), t_ticket := given_some (ut_ticket u) (t_ticket r),
     t_priority := given (ut_priority u) (t_priority r), t_status := given (ut_status u) (t_status r),
     t_assigned_to := given_some (ut_assigned_to u) (t_assigned_to r),
     t_start_date := given_some (ut_start_date u) (t_start_date r),
     t_due_date := given_some (ut_due_date u) (t_due_date r),
     t_estimated_hours := given_some (ut_estimated_hours u) (t_estimated_hours r),
     t_actual_hours := given (ut_actual_hours u) (t_actual_hours r),
     t_progress := given (ut_progress u) (t_progress r)\<rparr>"

text \<open>Assignments to a loaded task, a refresh, and the refreshed task.\<close>

definition assign_and_refresh :: "uuid \<Rightarrow> (task \<Rightarrow> task) \<Rightarrow> pm_session \<Rightarrow> (pm_error, task, pm_session) tx" where
  "assign_and_refresh t f s = (let s' = refresh_task t (set_task t f s)
     in case get_row t_id t (task_objs s') of Some obj \<Rightarrow> return obj s' | None \<Rightarrow> raise (Task_not_found t) s')"

definition update_task :: "uuid \<Rightarrow> uuid \<Rightarrow> task_update \<Rightarrow> pm_session \<Rightarrow> (pm_error, task, pm_session) tx" where
  "update_task org t u s = (case get_task org t s of None \<Rightarrow> raise (Task_not_found t) s
     | Some _ \<Rightarrow> assign_and_refresh t (assign_fields u) s)"

fun delete_all :: "(uuid \<Rightarrow> pm_session \<Rightarrow> (pm_error, bool, pm_session) tx option) \<Rightarrow> uuid list \<Rightarrow> pm_session
    \<Rightarrow> (pm_error, unit, pm_session) tx option" where
  "delete_all del [] s = Some (return () s)"
| "delete_all del (t # ts) s = (case del t s of None \<Rightarrow> None
     | Some (Inl e, s') \<Rightarrow> Some (raise e s')
     | Some (Inr _, s') \<Rightarrow> delete_all del ts s')"

fun delete_task :: "nat \<Rightarrow> uuid \<Rightarrow> uuid \<Rightarrow> pm_session \<Rightarrow> (pm_error, bool, pm_session) tx option" where
  "delete_task 0 org t s = None"
| "delete_task (Suc depth) org t s = (case get_task org t s of None \<Rightarrow> Some (raise (Task_not_found t) s)
     | Some _ \<Rightarrow> (case delete_all (\<lambda>c. delete_task depth org c) (map t_id (get_subtasks org t s)) s of
         None \<Rightarrow> None
       | Some (Inl e, s') \<Rightarrow> Some (raise e s')
       | Some (Inr _, s') \<Rightarrow> Some (return True (set_task t (\<lambda>r. r\<lparr>t_status := T_CANCELLED\<rparr>) s'))))"

definition move_task :: "uuid \<Rightarrow> uuid \<Rightarrow> uuid option \<Rightarrow> pm_session \<Rightarrow> (pm_error, unit, pm_session) tx option" where
  "move_task org t new_parent s = (case get_task org t s of None \<Rightarrow> Some (raise (Task_not_found t) s)
     | Some obj \<Rightarrow> (case new_parent of
         None \<Rightarrow> Some (return () (set_task t (\<lambda>r. r\<lparr>t_parent := None\<rparr>) s))
       | Some p \<Rightarrow> (case get_task org p s of None \<Rightarrow> Some (raise (Task_not_found p) s)
           | Some parent \<Rightarrow> if t_project parent \<noteq> t_project obj then Some (raise Parent_in_other_project s)
               else (case would_create_cycle t p s of None \<Rightarrow> None
                 | Some True \<Rightarrow> Some (raise Circular_hierarchy s)
                 | Some False \<Rightarrow> Some (return () (set_task t (\<lambda>r. r\<lparr>t_parent := Some p\<rparr>) s))))))"

section \<open>Status and progress\<close>

text \<open>The codes of the prerequisites that are not completed; their rows exist by the foreign key.\<close>

definition open_prerequisites :: "uuid \<Rightarrow> pm_session \<Rightarrow> string list" where
  "open_prerequisites t s = List.map_filter (\<lambda>p. case get_row t_id p (task_objs s) of
       Some obj \<Rightarrow> if t_status obj \<noteq> T_COMPLETED then Some (t_code obj) else None
     | None \<Rightarrow> None) (prerequisites s t)"

definition start_task :: "uuid \<Rightarrow> uuid \<Rightarrow> date \<Rightarrow> pm_session \<Rightarrow> (pm_error, unit, pm_session) tx" where
  "start_task org t today s = (case get_task org t s of None \<Rightarrow> raise (Task_not_found t) s
     | Some obj \<Rightarrow> if t_status obj \<notin> set [T_OPEN, T_ON_HOLD] then raise (Cannot_start (t_status obj)) s
         else (case open_prerequisites t s of c # _ \<Rightarrow> raise (Dependency_not_completed c) s
           | [] \<Rightarrow> return () (set_task t (\<lambda>r. r\<lparr>t_status := T_IN_PROGRESS,
               t_actual_start := (if t_actual_start r = None then Some today else t_actual_start r)\<rparr>) s)))"

definition complete_task :: "uuid \<Rightarrow> uuid \<Rightarrow> date \<Rightarrow> pm_session \<Rightarrow> (pm_error, unit, pm_session) tx" where
  "complete_task org t today s = (case get_task org t s of None \<Rightarrow> raise (Task_not_found t) s
     | Some obj \<Rightarrow> if t_status obj = T_COMPLETED then raise Already_completed s
         else if t_status obj = T_CANCELLED then raise Task_is_cancelled s
         else (case filter (\<lambda>c. t_status c \<notin> set [T_COMPLETED, T_CANCELLED]) (get_subtasks org t s) of
             c # _ \<Rightarrow> raise (Subtask_not_completed (t_code c)) s
           | [] \<Rightarrow> return () (set_task t (\<lambda>r. r\<lparr>t_status := T_COMPLETED, t_actual_end := Some today,
               t_progress := 100\<rparr>) s)))"

definition assign_progress :: "int \<Rightarrow> date \<Rightarrow> task \<Rightarrow> task" where
  "assign_progress percent today obj = (let r = obj\<lparr>t_progress := percent\<rparr>
     in if 0 < percent \<and> t_status r = T_OPEN
        then r\<lparr>t_status := T_IN_PROGRESS, t_actual_start := (if t_actual_start r = None then Some today else t_actual_start r)\<rparr>
        else if percent = 100
        then r\<lparr>t_status := T_COMPLETED, t_actual_end := (if t_actual_end r = None then Some today else t_actual_end r)\<rparr>
        else r)"

definition update_progress :: "uuid \<Rightarrow> uuid \<Rightarrow> int \<Rightarrow> date \<Rightarrow> pm_session \<Rightarrow> (pm_error, task, pm_session) tx" where
  "update_progress org t percent today s = (if percent < 0 \<or> 100 < percent then raise Progress_out_of_range s
     else case get_task org t s of None \<Rightarrow> raise (Task_not_found t) s
       | Some _ \<Rightarrow> assign_and_refresh t (assign_progress percent today) s)"

definition assign_task :: "uuid \<Rightarrow> uuid \<Rightarrow> uuid option \<Rightarrow> pm_session \<Rightarrow> (pm_error, task, pm_session) tx" where
  "assign_task org t employee s = (case get_task org t s of None \<Rightarrow> raise (Task_not_found t) s
     | Some _ \<Rightarrow> assign_and_refresh t (\<lambda>r. r\<lparr>t_assigned_to := employee\<rparr>) s)"

section \<open>Dependencies\<close>

definition add_dependency :: "uuid \<Rightarrow> uuid \<Rightarrow> uuid \<Rightarrow> dependency_type \<Rightarrow> int \<Rightarrow> pm_session
    \<Rightarrow> (pm_error, task_dependency, pm_session) tx option" where
  "add_dependency org t p type lag s =
    (case get_task org t s of None \<Rightarrow> Some (raise (Task_not_found t) s)
     | Some obj \<Rightarrow> (case get_task org p s of None \<Rightarrow> Some (raise (Task_not_found p) s)
       | Some obj' \<Rightarrow>
           if t_project obj \<noteq> t_project obj' then Some (raise Dependency_across_projects s)
           else if t = p then Some (raise Depends_on_itself s)
           else if \<exists>d \<in> set (dep_rows s). td_task d = t \<and> td_depends_on d = p then Some (raise Dependency_exists s)
           else (case would_create_dependency_cycle t p s of None \<Rightarrow> None
             | Some True \<Rightarrow> Some (raise Circular_dependency s)
             | Some False \<Rightarrow> (let d = \<lparr>td_id = next_dep s, td_task = t, td_depends_on = p, td_type = type, td_lag_days = lag\<rparr>
                 in Some (return d (flush_tasks (s\<lparr>dep_rows := add_row d (dep_rows s), next_dep := Suc (next_dep s)\<rparr>)))))))"

definition remove_dependency :: "uuid \<Rightarrow> uuid \<Rightarrow> pm_session \<Rightarrow> (pm_error, bool, pm_session) tx" where
  "remove_dependency t p s =
    (case filter (\<lambda>d. td_task d = t \<and> td_depends_on d = p) (dep_rows s) of [] \<Rightarrow> raise Dependency_not_found s
     | d # _ \<Rightarrow> return True (s\<lparr>dep_rows := del_row td_id (td_id d) (dep_rows s)\<rparr>))"

end
