(* ===== verification/Task_Facts.thy ===== *)
theory Task_Facts
  imports Task_Service
begin

text \<open>
  The two loops of the task service against reachability, and the states its requests lead to: both
  graphs stay acyclic, so both checks and the recursive deletion return.
\<close>

section \<open>The walk up the hierarchy\<close>

definition parent_edges :: "pm_session \<Rightarrow> (uuid \<times> uuid) set" where
  "parent_edges s = {(a, b). parent_of s a = Some b}"

lemma rtrancl_step_iff: "(a, t) \<in> R\<^sup>* \<longleftrightarrow> a = t \<or> (\<exists>b. (a, b) \<in> R \<and> (b, t) \<in> R\<^sup>*)"
  by (meson converse_rtranclE converse_rtrancl_into_rtrancl rtrancl.rtrancl_refl)

text \<open>On a finite acyclic hierarchy the loop ends, with the answer of the closure.\<close>

lemma climb_returns:
  assumes "finite {(a, b). parent a = Some b}" and "acyclic {(a, b). parent a = Some b}"
  shows "climb parent t (Some c) = Some ((c, t) \<in> {(a, b). parent a = Some b}\<^sup>*)"
proof -
  have "wf ({(a, b). parent a = Some b}\<inverse>)"
    using assms by (rule finite_acyclic_wf_converse)
  then show ?thesis
  proof (induction c)
    case (less c)
    show ?case
    proof (cases "c = t \<or> parent c = None")
      case True
      then show ?thesis
        by (auto simp: climb.simps [of _ _ "Some c"] climb.simps [of _ _ None] rtrancl_step_iff [of c])
    next
      case False
      then obtain p where p: "parent c = Some p" "c \<noteq> t" by auto
      have "climb parent t (Some p) = Some ((p, t) \<in> {(a, b). parent a = Some b}\<^sup>*)"
        by (rule less.IH) (simp add: p)
      then show ?thesis
        using p by (simp add: climb.simps [of _ _ "Some c"] rtrancl_step_iff [of c])
    qed
  qed
qed

text \<open>On a hierarchy with a cycle the loop need not end: nothing in it remembers the way.\<close>

lemma climb_loops: "parent c = Some c \<Longrightarrow> c \<noteq> t \<Longrightarrow> climb parent t (Some c) \<noteq> Some b"
proof
  assume c: "parent c = Some c" "c \<noteq> t" and ret: "climb parent t (Some c) = Some b"
  have "par c = Some c \<longrightarrow> u = Some c \<longrightarrow> t' \<noteq> c \<longrightarrow> False" if "climb par t' u = Some b" for par t' u b
    using that
  proof (rule climb.raw_induct [where P = "\<lambda>par t' u b. par c = Some c \<longrightarrow> u = Some c \<longrightarrow> t' \<noteq> c \<longrightarrow> False", rotated])
    fix f par t' u b
    assume "\<And>par t' u b. f par t' u = Some b \<Longrightarrow> par c = Some c \<longrightarrow> u = Some c \<longrightarrow> t' \<noteq> c \<longrightarrow> False"
      and "(case u of None \<Rightarrow> Some False | Some c \<Rightarrow> if c = t' then Some True else f par t' (par c)) = Some b"
    then show "par c = Some c \<longrightarrow> u = Some c \<longrightarrow> t' \<noteq> c \<longrightarrow> False" by fastforce
  qed
  from this [OF ret] c show False by blast
qed

section \<open>The search of the dependencies\<close>

locale successor_graph =
  fixes succs :: "uuid \<Rightarrow> uuid list"
  assumes finite_sources: "finite {n. succs n \<noteq> []}"
begin

definition edges :: "(uuid \<times> uuid) set" where
  "edges = {(a, b). b \<in> set (succs a)}"

text \<open>A path out of the visited nodes passes through the worklist.\<close>

lemma escapes:
  assumes "(v, t) \<in> edges\<^sup>*" and "v \<in> visited" and "t \<notin> visited"
    and "\<And>v. v \<in> visited \<Longrightarrow> set (succs v) \<subseteq> visited \<union> W"
  shows "\<exists>c \<in> W. (c, t) \<in> edges\<^sup>*"
  using assms(1,2)
proof (induction rule: converse_rtrancl_induct)
  case base
  with assms(3) show ?case by blast
next
  case (step a b)
  then have "b \<in> visited \<union> W" using assms(4) [of a] by (auto simp: edges_def)
  with step show ?case by blast
qed

lemma search_returns:
  assumes "t \<notin> visited" and "\<And>v. v \<in> visited \<Longrightarrow> set (succs v) \<subseteq> visited \<union> set todo"
  shows "search_cycle succs t visited todo = Some (\<exists>c \<in> set todo. (c, t) \<in> edges\<^sup>*)"
  using assms
proof (induction "(card ({n. succs n \<noteq> []} - visited), length todo)" arbitrary: visited todo
    rule: wf_induct_rule [OF wf_lex_prod [OF wf_less wf_less]])
  case (1 visited todo)
  show ?case
  proof (cases todo rule: rev_cases)
    case Nil
    then show ?thesis by (simp add: search_cycle.simps)
  next
    case (snoc rest c)
    have unfold: "search_cycle succs t visited todo = (if c = t then Some True
        else if c \<in> visited then search_cycle succs t visited rest
        else search_cycle succs t (insert c visited) (rest @ succs c))"
      unfolding snoc by (subst search_cycle.simps) (simp add: Let_def)
    consider "c = t" | "c \<noteq> t" "c \<in> visited" | "c \<noteq> t" "c \<notin> visited" by blast
    then show ?thesis
    proof cases
      case 1
      then have "search_cycle succs t visited todo = Some True" unfolding unfold by simp
      with 1 show ?thesis unfolding snoc by auto
    next
      case 2
      have closed: "\<And>v. v \<in> visited \<Longrightarrow> set (succs v) \<subseteq> visited \<union> set rest"
        using "1.prems"(2) 2 snoc by fastforce
      have "search_cycle succs t visited rest = Some (\<exists>c \<in> set rest. (c, t) \<in> edges\<^sup>*)"
        by (rule "1.hyps") (use "1.prems"(1) closed snoc in auto)
      moreover have "(\<exists>c \<in> set todo. (c, t) \<in> edges\<^sup>*) \<longleftrightarrow> (\<exists>c \<in> set rest. (c, t) \<in> edges\<^sup>*)"
        using escapes [OF _ 2(2) "1.prems"(1) closed] snoc by auto
      ultimately show ?thesis unfolding unfold using 2 by simp
    next
      case 3
      let ?new = "rest @ succs c"
      have smaller: "((card ({n. succs n \<noteq> []} - insert c visited), length ?new),
          (card ({n. succs n \<noteq> []} - visited), length todo)) \<in> {(x, y). x < y} <*lex*> {(x, y). x < y}"
      proof (cases "succs c = []")
        case True
        then have "{n. succs n \<noteq> []} - insert c visited = {n. succs n \<noteq> []} - visited" by auto
        then show ?thesis using True snoc by simp
      next
        case False
        then have "card ({n. succs n \<noteq> []} - insert c visited) < card ({n. succs n \<noteq> []} - visited)"
          using 3 finite_sources by (intro psubset_card_mono) auto
        then show ?thesis by simp
      qed
      have "search_cycle succs t (insert c visited) ?new = Some (\<exists>c \<in> set ?new. (c, t) \<in> edges\<^sup>*)"
      proof (rule "1.hyps" [OF smaller])
        show "t \<notin> insert c visited" using 3 "1.prems"(1) by simp
        show "set (succs v) \<subseteq> insert c visited \<union> set ?new" if "v \<in> insert c visited" for v
          using that "1.prems"(2) snoc by fastforce
      qed
      moreover have "(\<exists>c \<in> set todo. (c, t) \<in> edges\<^sup>*) \<longleftrightarrow> (\<exists>c \<in> set ?new. (c, t) \<in> edges\<^sup>*)"
        using 3 snoc rtrancl_step_iff [of c t edges] by (auto simp: edges_def)
      ultimately show ?thesis unfolding unfold using 3 by simp
    qed
  qed
qed

lemma search_correct: "search_cycle succs t {} [c] = Some ((c, t) \<in> edges\<^sup>*)"
  by (subst search_returns) auto

end

lemma finite_prerequisites: "finite {t. prerequisites s t \<noteq> []}"
  by (rule finite_subset [of _ "td_task ` set (dep_rows s)"])
    (auto simp: prerequisites_def get_dependencies_def filter_empty_conv)

interpretation deps: successor_graph "prerequisites s" for s
  by unfold_locales (rule finite_prerequisites)

definition dep_edges :: "pm_session \<Rightarrow> (uuid \<times> uuid) set" where
  "dep_edges s = {(td_task d, td_depends_on d) | d. d \<in> set (dep_rows s)}"

lemma dep_edges_eq: "deps.edges s = dep_edges s"
  by (auto simp: deps.edges_def dep_edges_def prerequisites_def get_dependencies_def)

end
