(* ===== verification/Task_Requests.thy ===== *)
theory Task_Requests
  imports Task_Facts
begin

text \<open>
  The requests of the task API as a step relation on committed sessions, and its invariant.
\<close>

section \<open>Requests\<close>

text \<open>A request runs one operation on a fresh session, commits when it returns and rolls back when
  it raises. An operation that does not return leads nowhere.\<close>

inductive pm_step :: "pm_session \<Rightarrow> pm_session \<Rightarrow> bool" where
  step_create: "pm_step s (end_request s (create_task org d s))"
| step_update: "pm_step s (end_request s (update_task org t u s))"
| step_delete: "delete_task depth org t s = Some r \<Longrightarrow> pm_step s (end_request s r)"
| step_move: "move_task org t p s = Some r \<Longrightarrow> pm_step s (end_request s r)"
| step_start: "pm_step s (end_request s (start_task org t today s))"
| step_complete: "pm_step s (end_request s (complete_task org t today s))"
| step_progress: "pm_step s (end_request s (update_progress org t percent today s))"
| step_assign: "pm_step s (end_request s (assign_task org t employee s))"
| step_add_dependency: "add_dependency org t p type lag s = Some r \<Longrightarrow> pm_step s (end_request s r)"
| step_remove_dependency: "pm_step s (end_request s (remove_dependency t p s))"

inductive pm_reachable :: "pm_session \<Rightarrow> bool" where
  reach_init: "pm_reachable \<lparr>task_rows = [], task_objs = [], dep_rows = [], next_task = 0, next_dep = 0\<rparr>"
| reach_step: "pm_reachable s \<Longrightarrow> pm_step s s' \<Longrightarrow> pm_reachable s'"

definition project_of :: "pm_session \<Rightarrow> uuid \<Rightarrow> uuid option" where
  "project_of s t = map_option t_project (get_row t_id t (task_rows s))"

definition committed :: "pm_session \<Rightarrow> bool" where
  "committed s \<longleftrightarrow> task_objs s = task_rows s \<and> distinct (map t_id (task_rows s))
     \<and> (\<forall>r \<in> set (task_rows s). t_id r < next_task s)"

definition sound_hierarchy :: "pm_session \<Rightarrow> bool" where
  "sound_hierarchy s \<longleftrightarrow> acyclic (parent_edges s)
     \<and> (\<forall>a b. parent_of s a = Some b \<longrightarrow> b \<in> t_id ` set (task_rows s))"

definition sound_dependencies :: "pm_session \<Rightarrow> bool" where
  "sound_dependencies s \<longleftrightarrow> acyclic (dep_edges s)
     \<and> (\<forall>d \<in> set (dep_rows s). \<exists>p. project_of s (td_task d) = Some p
          \<and> project_of s (td_depends_on d) = Some p)"


lemmas sound_defs = committed_def sound_hierarchy_def sound_dependencies_def

section \<open>Sessions that agree on the structure\<close>

text \<open>Most operations change attributes that neither graph reads.\<close>

definition quiet :: "(task \<Rightarrow> task) \<Rightarrow> bool" where
  "quiet f \<longleftrightarrow> (\<forall>r. t_id (f r) = t_id r \<and> t_parent (f r) = t_parent r \<and> t_project (f r) = t_project r)"

lemma quiet_step:
  assumes "committed s" and "sound_hierarchy s" and "sound_dependencies s" and "quiet g"
    and "s' = s\<lparr>task_objs := map g (task_objs s)\<rparr>"
  shows "committed (flush_tasks s') \<and> sound_hierarchy (flush_tasks s') \<and> sound_dependencies (flush_tasks s')"
proof -
  have rows: "task_rows (flush_tasks s') = map g (task_rows s)" "dep_rows (flush_tasks s') = dep_rows s"
    using assms(1,5) by (simp_all add: flush_tasks_def committed_def)
  have "parent_of (flush_tasks s') = parent_of s" "project_of (flush_tasks s') = project_of s"
    using assms(4) by (auto simp: fun_eq_iff parent_of_def project_of_def rows get_row_map quiet_def option.map_comp o_def split: option.split)
  moreover have "t_id ` set (map g (task_rows s)) = t_id ` set (task_rows s)" "t_id \<circ> g = t_id"
    using assms(4) by (simp_all add: quiet_def image_image fun_eq_iff)
  moreover have "next_task (flush_tasks s') = next_task s" "task_objs (flush_tasks s') = task_rows (flush_tasks s')"
    using assms(5) by (simp_all add: flush_tasks_def)
  ultimately show ?thesis
    using assms(1-3) unfolding sound_defs parent_edges_def dep_edges_def rows
    using assms(4) by (auto simp: quiet_def)
qed

definition pm_inv :: "pm_session \<Rightarrow> bool" where
  "pm_inv s \<longleftrightarrow> committed s \<and> sound_hierarchy s \<and> sound_dependencies s"

lemma quiet_set_task:
  assumes "pm_inv s" and "quiet f"
  shows "pm_inv (flush_tasks (set_task t f s))"
  using quiet_step [of s "\<lambda>r. if t_id r = t then f r else r" "set_task t f s"] assms
  by (simp add: pm_inv_def quiet_def set_task_def set_row_def)

lemma committed_flush [simp]: "committed s \<Longrightarrow> flush_tasks s = s"
  by (simp add: committed_def flush_tasks_def)

section \<open>What a refresh undoes\<close>

lemma refresh_undoes:
  assumes "committed s" and "\<And>r. t_id (f r) = t_id r"
  shows "refresh_task t (set_task t f s) = s"
proof -
  have "map (\<lambda>r. if t_id r = t then (case get_row t_id t (task_rows s) of Some row \<Rightarrow> row | None \<Rightarrow> r) else r)
      (map (\<lambda>r. if t_id r = t then f r else r) (task_rows s)) = task_rows s"
    using assms get_row_distinct [of t_id "task_rows s"] by (auto simp: committed_def intro!: map_idI)
  then show ?thesis
    using assms(1) by (simp add: refresh_task_def set_task_def set_row_def committed_def)
qed

lemma assign_and_refresh_undone:
  assumes "committed s" and "\<And>r. t_id (f r) = t_id r"
  shows "snd (assign_and_refresh t f s) = s"
  by (simp add: assign_and_refresh_def refresh_undoes assms split: option.split)

lemma end_request_eq: "committed s \<Longrightarrow> snd x = s \<Longrightarrow> end_request s x = s"
  by (cases "(s, x)" rule: end_request.cases) auto

section \<open>What a deletion marks\<close>

definition mark_cancelled :: "uuid set \<Rightarrow> pm_session \<Rightarrow> pm_session" where
  "mark_cancelled C s = s\<lparr>task_objs := map (\<lambda>r. if t_id r \<in> C then r\<lparr>t_status := T_CANCELLED\<rparr> else r) (task_objs s)\<rparr>"

lemma mark_nothing [simp]: "mark_cancelled {} s = s"
  by (simp add: mark_cancelled_def)

lemma mark_twice [simp]: "mark_cancelled A (mark_cancelled B s) = mark_cancelled (B \<union> A) s"
  by (auto simp: mark_cancelled_def)

lemma mark_one: "set_task t (\<lambda>r. r\<lparr>t_status := T_CANCELLED\<rparr>) s = mark_cancelled {t} s"
  by (auto simp: mark_cancelled_def set_task_def set_row_def)

lemma delete_all_marks:
  assumes "delete_all del ts s = Some (r, s')"
    and "\<And>t s r s'. del t s = Some (r, s') \<Longrightarrow> \<exists>C. s' = mark_cancelled C s"
  shows "\<exists>C. s' = mark_cancelled C s"
  using assms(1)
proof (induction ts arbitrary: s)
  case Nil
  then show ?case by (auto simp: return_def intro: exI [of _ "{}"])
next
  case (Cons t ts)
  then obtain r1 s1 where d: "del t s = Some (r1, s1)" by (auto split: option.splits)
  then obtain C where C: "s1 = mark_cancelled C s" using assms(2) by blast
  show ?case
  proof (cases r1)
    case (Inl e)
    with Cons.prems d C show ?thesis by (auto simp: raise_def)
  next
    case (Inr v)
    with Cons.prems d obtain D where "s' = mark_cancelled D s1"
      using Cons.IH [of s1] by auto
    with C show ?thesis by auto
  qed
qed

lemma delete_task_marks: "delete_task n org t s = Some (r, s') \<Longrightarrow> \<exists>C. s' = mark_cancelled C s"
proof (induction n arbitrary: t s r s')
  case (Suc n)
  show ?case
  proof (cases "get_task org t s")
    case None
    with Suc.prems show ?thesis by (auto simp: raise_def intro: exI [of _ "{}"])
  next
    case (Some obj)
    with Suc.prems obtain r1 s1 where d: "delete_all (delete_task n org) (map t_id (get_subtasks org t s)) s = Some (r1, s1)"
      by (auto split: option.splits)
    obtain C where "s1 = mark_cancelled C s" using delete_all_marks [OF d] Suc.IH by blast
    with Suc.prems Some d show ?thesis by (cases r1) (auto simp: raise_def return_def mark_one)
  qed
qed simp

lemma quiet_mark:
  assumes "pm_inv s"
  shows "pm_inv (flush_tasks (mark_cancelled C s))"
  using quiet_step [of s "\<lambda>r. if t_id r \<in> C then r\<lparr>t_status := T_CANCELLED\<rparr> else r" "mark_cancelled C s"] assms
  by (simp add: pm_inv_def quiet_def mark_cancelled_def)

section \<open>The invariant\<close>

lemma finite_parent_edges: "finite (parent_edges s)"
proof (rule finite_subset)
  show "parent_edges s \<subseteq> (\<lambda>r. (t_id r, the (t_parent r))) ` set (task_rows s)"
    by (auto simp: parent_edges_def parent_of_def image_iff split: option.splits dest!: get_row_SomeD) force
qed simp

lemma would_create_cycle_returns:
  assumes "sound_hierarchy s"
  shows "would_create_cycle t p s = Some ((p, t) \<in> (parent_edges s)\<^sup>*)"
  using climb_returns [of "parent_of s" t p] assms finite_parent_edges [of s]
  by (simp add: would_create_cycle_def sound_hierarchy_def parent_edges_def)

lemma dependency_cycle_returns: "would_create_dependency_cycle t p s = Some ((p, t) \<in> (dep_edges s)\<^sup>*)"
  by (simp only: would_create_dependency_cycle_def deps.search_correct dep_edges_eq)

lemma get_task_project: "committed s \<Longrightarrow> get_task org t s = Some obj \<Longrightarrow> project_of s t = Some (t_project obj)"
  by (auto simp: get_task_def project_of_def committed_def split: option.splits if_splits)

lemma project_of_iff: "t \<in> t_id ` set (task_rows s) \<longleftrightarrow> project_of s t \<noteq> None"
  by (auto simp: project_of_def get_row_None_iff)

lemma create_inv:
  assumes "pm_inv s"
  shows "pm_inv (end_request s (create_task org d s))"
proof (cases "create_task org d s")
  case (Pair r s')
  show ?thesis
  proof (cases r)
    case (Inl e)
    with Pair assms show ?thesis by simp
  next
    case (Inr row)
    let ?u = "next_task s"
    have row: "t_id row = ?u" "t_parent row = dt_parent d" "task_insert_ok row s"
      and s': "s' = s\<lparr>task_rows := add_row row (task_rows s), task_objs := add_row row (task_rows s), next_task := Suc ?u\<rparr>"
      using Pair Inr assms
      by (auto simp: create_task_def Let_def flush_tasks_def pm_inv_def committed_def split: if_splits)
    have fresh: "?u \<notin> t_id ` set (task_rows s)"
      using assms by (auto simp: pm_inv_def committed_def)
    have flushed: "flush_tasks s' = s'" by (simp add: s' flush_tasks_def)
    have parent: "parent_of s' t = (if t = ?u then dt_parent d else parent_of s t)" for t
      using fresh row by (auto simp: parent_of_def s' get_add_row get_row_None_iff [THEN iffD2] split: option.split)
    have project: "project_of s' t = project_of s t" if "project_of s t \<noteq> None" for t
      using that by (auto simp: project_of_def s' get_add_row split: option.split)
    have edges: "parent_edges s' \<subseteq> parent_edges s \<union> {(?u, p) | p. dt_parent d = Some p}"
      by (auto simp: parent_edges_def parent split: if_splits)
    have noin: "(a, ?u) \<notin> parent_edges s" for a
      using assms fresh by (auto simp: pm_inv_def sound_hierarchy_def parent_edges_def)
    have known: "\<And>p. dt_parent d = Some p \<Longrightarrow> p \<in> t_id ` set (task_rows s)"
      using row by (auto simp: task_insert_ok_def)
    have "acyclic (parent_edges s')"
    proof (cases "dt_parent d")
      case None
      then show ?thesis using assms edges by (auto simp: pm_inv_def sound_hierarchy_def intro: acyclic_subset)
    next
      case (Some p)
      then have "p \<noteq> ?u" using known [OF Some] fresh by metis
      then have "(p, ?u) \<notin> (parent_edges s)\<^sup>*" using noin by (meson rtranclE)
      then have "acyclic (insert (?u, p) (parent_edges s))"
        using assms by (simp add: pm_inv_def sound_hierarchy_def acyclic_insert)
      then show ?thesis by (rule acyclic_subset) (use edges Some in auto)
    qed
    moreover have "\<forall>a b. parent_of s' a = Some b \<longrightarrow> b \<in> t_id ` set (task_rows s')"
    proof (intro allI impI)
      fix a b
      assume "parent_of s' a = Some b"
      then have "b \<in> t_id ` set (task_rows s)"
        using assms known unfolding parent by (auto simp: pm_inv_def sound_hierarchy_def split: if_splits)
      then show "b \<in> t_id ` set (task_rows s')" by (simp add: s')
    qed
    moreover have "sound_dependencies s'"
      using assms project by (auto simp: pm_inv_def sound_dependencies_def dep_edges_def s')
    moreover have "committed s'"
      using assms fresh row(1) by (auto simp: committed_def pm_inv_def s' map_add_row less_Suc_eq)
    ultimately show ?thesis
      using Pair Inr flushed by (simp add: pm_inv_def sound_hierarchy_def)
  qed
qed

lemma move_inv:
  assumes "pm_inv s" and "move_task org t p s = Some r"
  shows "pm_inv (end_request s r)"
proof (cases r)
  case (Pair v s')
  show ?thesis
  proof (cases v)
    case (Inl e)
    with Pair assms show ?thesis by simp
  next
    case (Inr u)
    let ?f = "\<lambda>r. r\<lparr>t_parent := p\<rparr>"
    have s': "s' = set_task t ?f s"
      and ok: "\<And>q. p = Some q \<Longrightarrow> get_task org q s \<noteq> None \<and> (q, t) \<notin> (parent_edges s)\<^sup>*"
      using assms(2) Pair Inr would_create_cycle_returns [of s t] assms(1)
      by (auto simp: move_task_def pm_inv_def split: option.splits if_splits bool.splits)
    have rows: "task_rows (flush_tasks s') = set_row t_id t ?f (task_rows s)" "dep_rows (flush_tasks s') = dep_rows s"
        "task_objs (flush_tasks s') = set_row t_id t ?f (task_rows s)" "next_task (flush_tasks s') = next_task s"
      using assms(1) by (simp_all add: s' flush_tasks_def set_task_def pm_inv_def committed_def)
    have ids: "t_id ` set (set_row t_id t ?f (task_rows s)) = t_id ` set (task_rows s)"
      using map_key_set_row [of t_id ?f t "task_rows s"] by (simp flip: set_map)
    have parent: "parent_of (flush_tasks s') a = (if a = t \<and> parent_known then p else parent_of s a)"
      if "parent_known \<longleftrightarrow> get_row t_id t (task_rows s) \<noteq> None" for a parent_known
      using that by (auto simp: parent_of_def rows get_set_row split: option.split)
    have project: "project_of (flush_tasks s') = project_of s"
      by (auto simp: fun_eq_iff project_of_def rows get_set_row option.map_comp o_def)
    have "parent_edges (flush_tasks s') \<subseteq> parent_edges s \<union> {(t, q) | q. p = Some q}"
      by (auto simp: parent_edges_def parent [OF refl] split: if_splits)
    moreover have "acyclic (parent_edges s \<union> {(t, q) | q. p = Some q})"
    proof (cases p)
      case None
      then show ?thesis using assms(1) by (simp add: pm_inv_def sound_hierarchy_def)
    next
      case (Some q)
      then have "parent_edges s \<union> {(t, q) | q. p = Some q} = insert (t, q) (parent_edges s)" by auto
      then show ?thesis using assms(1) ok [OF Some] by (simp add: pm_inv_def sound_hierarchy_def acyclic_insert)
    qed
    ultimately have "acyclic (parent_edges (flush_tasks s'))" by (rule acyclic_subset [rotated])
    moreover have "q \<in> t_id ` set (task_rows s)" if "p = Some q" for q
      using ok [OF that] get_row_None_iff [of t_id q "task_rows s"] by (auto simp: get_task_def split: option.splits)
    moreover have "\<forall>a b. parent_of (flush_tasks s') a = Some b \<longrightarrow> b \<in> t_id ` set (task_rows s)"
      using assms(1) calculation(2) unfolding parent [OF refl]
      by (simp add: pm_inv_def sound_hierarchy_def)
    moreover have "committed (flush_tasks s')"
      using assms(1) by (auto simp: pm_inv_def committed_def rows map_key_set_row set_set_row)
    moreover have "sound_dependencies (flush_tasks s')"
      using assms(1) by (simp add: pm_inv_def sound_dependencies_def dep_edges_def rows project)
    ultimately show ?thesis
      using Pair Inr by (simp add: pm_inv_def sound_hierarchy_def rows ids)
  qed
qed

lemma add_dependency_inv:
  assumes "pm_inv s" and "add_dependency org t p type lag s = Some r"
  shows "pm_inv (end_request s r)"
proof (cases r)
  case (Pair v s')
  show ?thesis
  proof (cases v)
    case (Inl e)
    with Pair assms show ?thesis by simp
  next
    case (Inr d)
    obtain obj obj' where g: "get_task org t s = Some obj" "get_task org p s = Some obj'" "t_project obj = t_project obj'"
      and nocycle: "(p, t) \<notin> (dep_edges s)\<^sup>*"
      and s': "s' = s\<lparr>dep_rows := add_row d (dep_rows s), next_dep := Suc (next_dep s)\<rparr>"
      and d: "td_task d = t" "td_depends_on d = p"
      using assms Pair Inr
      by (auto simp: add_dependency_def dependency_cycle_returns Let_def flush_tasks_def pm_inv_def committed_def
          split: option.splits if_splits bool.splits)
    have "dep_edges s' = insert (t, p) (dep_edges s)" by (auto simp: dep_edges_def s' simp flip: d)
    then have "acyclic (dep_edges s')"
      using assms(1) nocycle by (simp add: pm_inv_def sound_dependencies_def acyclic_insert)
    moreover have "parent_of s' = parent_of s" "project_of s' = project_of s" "flush_tasks s' = s'"
      using assms(1) by (auto simp: fun_eq_iff parent_of_def project_of_def s' flush_tasks_def pm_inv_def committed_def)
    moreover have "project_of s t = Some (t_project obj)" "project_of s p = Some (t_project obj)"
      using get_task_project g assms(1) by (auto simp: pm_inv_def)
    ultimately show ?thesis
      using assms(1) Pair Inr d
      by (auto simp: pm_inv_def sound_defs s' parent_edges_def)
  qed
qed

lemma remove_dependency_inv:
  assumes "pm_inv s"
  shows "pm_inv (end_request s (remove_dependency t p s))"
proof -
  have "pm_inv (flush_tasks (s\<lparr>dep_rows := del_row td_id i (dep_rows s)\<rparr>))" for i
  proof -
    let ?s = "s\<lparr>dep_rows := del_row td_id i (dep_rows s)\<rparr>"
    have "dep_edges ?s \<subseteq> dep_edges s" by (auto simp: dep_edges_def)
    then have "acyclic (dep_edges ?s)"
      using assms by (auto simp: pm_inv_def sound_dependencies_def intro: acyclic_subset)
    moreover have "parent_of ?s = parent_of s" "project_of ?s = project_of s" "flush_tasks ?s = ?s"
      using assms by (auto simp: fun_eq_iff parent_of_def project_of_def flush_tasks_def pm_inv_def committed_def)
    ultimately show ?thesis using assms by (auto simp: pm_inv_def sound_defs parent_edges_def)
  qed
  then show ?thesis
    using assms by (auto simp: remove_dependency_def raise_def return_def split: list.split)
qed

end
