(* ===== verification/Task_Properties.thy ===== *)
theory Task_Properties
  imports Task_Requests
begin

text \<open>The properties of the task service, with their witnesses.\<close>

section \<open>Every request keeps the invariant\<close>

lemma step_inv: "pm_step s s' \<Longrightarrow> pm_inv s \<Longrightarrow> pm_inv s'"
proof (induction rule: pm_step.induct)
  case (step_update s org t u)
  then have "snd (update_task org t u s) = s"
    using assign_and_refresh_undone [of s "assign_fields u"]
    by (simp add: update_task_def pm_inv_def assign_fields_def split: option.split)
  with step_update show ?case by (simp add: end_request_eq pm_inv_def)
next
  case (step_delete depth org t s r)
  obtain v s' where r: "r = (v, s')" by fastforce
  then obtain C where "s' = mark_cancelled C s" using delete_task_marks step_delete.hyps by blast
  with step_delete.prems r show ?case by (cases v) (simp_all add: quiet_mark)
next
  case (step_start s org t today)
  then show ?case
    by (auto simp: start_task_def raise_def return_def quiet_def intro!: quiet_set_task split: option.split list.split)
next
  case (step_complete s org t today)
  then show ?case
    by (auto simp: complete_task_def raise_def return_def quiet_def intro!: quiet_set_task split: option.split list.split)
next
  case (step_progress s org t percent today)
  then have "snd (update_progress org t percent today s) = s"
    using assign_and_refresh_undone [of s "assign_progress percent today"]
    by (simp add: update_progress_def pm_inv_def assign_progress_def Let_def split: option.split)
  with step_progress show ?case by (simp add: end_request_eq pm_inv_def)
next
  case (step_assign s org t employee)
  then have "snd (assign_task org t employee s) = s"
    using assign_and_refresh_undone [of s "\<lambda>r. r\<lparr>t_assigned_to := employee\<rparr>"]
    by (simp add: assign_task_def pm_inv_def split: option.split)
  with step_assign show ?case by (simp add: end_request_eq pm_inv_def)
qed (blast intro: create_inv move_inv add_dependency_inv remove_dependency_inv)+

lemma reachable_inv: "pm_reachable s \<Longrightarrow> pm_inv s"
proof (induction rule: pm_reachable.induct)
  case reach_init
  then show ?case
    by (simp add: pm_inv_def sound_defs parent_edges_def dep_edges_def parent_of_def acyclic_def)
qed (rule step_inv)

section \<open>Deleting a subtree\<close>

definition subtask_edges :: "uuid \<Rightarrow> pm_session \<Rightarrow> (uuid \<times> uuid) set" where
  "subtask_edges org s = {(p, c). \<exists>r \<in> set (task_rows s). t_id r = c \<and> t_parent r = Some p \<and> live_row org r}"

definition subtree :: "uuid \<Rightarrow> pm_session \<Rightarrow> uuid \<Rightarrow> uuid set" where
  "subtree org s t = {c. (t, c) \<in> (subtask_edges org s)\<^sup>*}"

definition child_ids :: "uuid \<Rightarrow> pm_session \<Rightarrow> uuid \<Rightarrow> uuid list" where
  "child_ids org s t = map t_id (sort_key t_code (filter (\<lambda>r. t_parent r = Some t \<and> live_row org r) (task_rows s)))"

lemma set_child_ids: "set (child_ids org s t) = {c. (t, c) \<in> subtask_edges org s}"
  by (auto simp: child_ids_def subtask_edges_def)

lemma map_filter_total: "(\<And>x. x \<in> set xs \<Longrightarrow> f x = Some (g x)) \<Longrightarrow> List.map_filter f xs = map g xs"
  by (induction xs) (auto simp: List.map_filter_simps)

lemma marked_row:
  assumes "committed s" and "r \<in> set (task_rows s)"
  shows "get_row t_id (t_id r) (task_objs (mark_cancelled C s))
    = Some (if t_id r \<in> C then r\<lparr>t_status := T_CANCELLED\<rparr> else r)"
  using assms get_row_distinct [of t_id "task_rows s" r]
  by (simp add: mark_cancelled_def committed_def get_row_map)

lemma marked_subtasks:
  assumes "committed s"
  shows "map t_id (get_subtasks org t (mark_cancelled C s)) = child_ids org s t"
proof -
  have "task_rows (mark_cancelled C s) = task_rows s" by (simp add: mark_cancelled_def)
  then show ?thesis
    unfolding get_subtasks_def child_ids_def
    by (subst map_filter_total [OF marked_row [OF assms]]) auto
qed

lemma marked_task: "committed s \<Longrightarrow> get_task org t (mark_cancelled C s) = None \<longleftrightarrow> get_task org t s = None"
  by (auto simp: get_task_def committed_def mark_cancelled_def get_row_map split: option.split)

lemma child_exists:
  assumes "committed s" and "c \<in> set (child_ids org s t)"
  shows "get_task org c s \<noteq> None"
proof -
  obtain r where "r \<in> set (task_rows s)" "t_id r = c" "live_row org r"
    using assms(2) by (auto simp: set_child_ids subtask_edges_def)
  then show ?thesis
    using assms(1) get_row_distinct [of t_id "task_rows s" r] by (auto simp: get_task_def committed_def)
qed

lemma delete_all_children:
  assumes "\<And>c C. c \<in> set cs \<Longrightarrow> del c (mark_cancelled C s) = Some (Inr True, mark_cancelled (C \<union> D c) s)"
  shows "delete_all del cs (mark_cancelled C s) = Some (Inr (), mark_cancelled (C \<union> \<Union> (D ` set cs)) s)"
  using assms by (induction cs arbitrary: C) (simp_all add: return_def Un_assoc)

lemma subtree_unfold: "subtree org s t = insert t (\<Union> (subtree org s ` set (child_ids org s t)))"
  unfolding subtree_def set_child_ids by (auto simp: rtrancl_step_iff [of t] intro: r_into_rtrancl)

lemma wf_subtasks:
  assumes "pm_inv s"
  shows "wf ((subtask_edges org s)\<inverse>)"
proof (rule wf_subset [of "(parent_edges s)"])
  show "wf (parent_edges s)"
    using assms finite_acyclic_wf [OF finite_parent_edges] by (simp add: pm_inv_def sound_hierarchy_def)
  show "(subtask_edges org s)\<inverse> \<subseteq> parent_edges s"
    using assms get_row_distinct [of t_id "task_rows s"]
    by (auto simp: subtask_edges_def parent_edges_def parent_of_def pm_inv_def committed_def)
qed

text \<open>Some depth is enough for the whole subtree, whatever has been marked before.\<close>

lemma delete_subtree:
  assumes "pm_inv s"
  shows "get_task org t s \<noteq> None \<Longrightarrow> \<exists>d. \<forall>depth \<ge> d. \<forall>C. delete_task depth org t (mark_cancelled C s)
    = Some (Inr True, mark_cancelled (C \<union> subtree org s t) s)"
proof (induction t rule: wf_induct_rule [OF wf_subtasks [OF assms, of org]])
  case (1 t)
  let ?kids = "child_ids org s t"
  have com: "committed s" using assms by (simp add: pm_inv_def)
  have "\<forall>c \<in> set ?kids. \<exists>d. \<forall>depth \<ge> d. \<forall>C. delete_task depth org c (mark_cancelled C s)
      = Some (Inr True, mark_cancelled (C \<union> subtree org s c) s)"
  proof
    fix c
    assume c: "c \<in> set ?kids"
    then have "(c, t) \<in> (subtask_edges org s)\<inverse>" by (simp add: set_child_ids)
    then show "\<exists>d. \<forall>depth \<ge> d. \<forall>C. delete_task depth org c (mark_cancelled C s)
        = Some (Inr True, mark_cancelled (C \<union> subtree org s c) s)"
      using child_exists [OF com c] by (rule "1.IH")
  qed
  then obtain d where d: "\<And>c depth C. c \<in> set ?kids \<Longrightarrow> d c \<le> depth \<Longrightarrow>
      delete_task depth org c (mark_cancelled C s) = Some (Inr True, mark_cancelled (C \<union> subtree org s c) s)"
    by metis
  let ?d = "Suc (sum_list (map d ?kids))"
  have "delete_task depth org t (mark_cancelled C s) = Some (Inr True, mark_cancelled (C \<union> subtree org s t) s)"
    if deep: "?d \<le> depth" for depth C
  proof -
    obtain n where n: "depth = Suc n" "sum_list (map d ?kids) \<le> n"
      using deep by (cases depth) auto
    have "d c \<le> n" if "c \<in> set ?kids" for c
      using member_le_sum_list [of "d c" "map d ?kids"] that n(2) by simp
    then have kids: "delete_all (delete_task n org) ?kids (mark_cancelled C s)
        = Some (Inr (), mark_cancelled (C \<union> \<Union> (subtree org s ` set ?kids)) s)"
      by (intro delete_all_children d)
    obtain obj where "get_task org t (mark_cancelled C s) = Some obj"
      using "1.prems" marked_task [OF com] by (cases "get_task org t (mark_cancelled C s)") auto
    then show ?thesis
      unfolding n subtree_unfold [of org s t]
      by (simp add: marked_subtasks [OF com] kids mark_one return_def)
  qed
  then show ?case by blast
qed

section \<open>Properties\<close>

text \<open>C19: whatever requests are made, the task hierarchy and the dependency graph stay acyclic, and
  a dependency joins two existing tasks of one project.\<close>

theorem task_graphs_stay_acyclic:
  assumes "pm_reachable s"
  shows "acyclic (parent_edges s) \<and> acyclic (dep_edges s)
    \<and> (\<forall>d \<in> set (dep_rows s). \<exists>p. project_of s (td_task d) = Some p \<and> project_of s (td_depends_on d) = Some p)"
  using reachable_inv [OF assms] by (simp add: pm_inv_def sound_hierarchy_def sound_dependencies_def)

text \<open>On any table of dependencies, cyclic or not, the search of \<open>_would_create_dependency_cycle\<close>
  returns, and it answers whether the new prerequisite already depends, directly or not, on the
  task.\<close>

theorem dependency_check_decides:
  "would_create_dependency_cycle t p s = Some ((p, t) \<in> (dep_edges s)\<^sup>*)"
  by (rule dependency_cycle_returns)

text \<open>In every reachable session the loop of \<open>_would_create_cycle\<close> returns, with the answer whether
  the task is an ancestor of its new parent (or the new parent itself).\<close>

theorem hierarchy_check_returns:
  assumes "pm_reachable s"
  shows "would_create_cycle t p s = Some ((p, t) \<in> (parent_edges s)\<^sup>*)"
  using reachable_inv [OF assms] by (intro would_create_cycle_returns) (simp add: pm_inv_def)

text \<open>C20: in every reachable session the recursion of \<open>delete_task\<close> on a live task returns, at every
  depth from some depth on, and cancels exactly the task and its live subtree.\<close>

theorem delete_cancels_subtree:
  assumes "pm_reachable s" and "get_task org t s \<noteq> None"
  shows "\<exists>d. \<forall>depth \<ge> d. delete_task depth org t s = Some (Inr True, mark_cancelled (subtree org s t) s)"
  using delete_subtree [OF reachable_inv [OF assms(1)] assms(2)] by (metis mark_nothing sup_bot_left)

text \<open>C21: an edit, a progress report or an assignment of a task changes nothing: the refresh that
  closes the operation drops the assignments, which no flush has written.\<close>

theorem task_edits_are_lost:
  assumes "pm_reachable s"
  shows "end_request s (update_task org t u s) = s
    \<and> end_request s (update_progress org t percent today s) = s
    \<and> end_request s (assign_task org t employee s) = s"
proof -
  have com: "committed s" using reachable_inv [OF assms] by (simp add: pm_inv_def)
  have "snd (update_task org t u s) = s"
    using assign_and_refresh_undone [OF com, of "assign_fields u"]
    by (simp add: update_task_def assign_fields_def split: option.split)
  moreover have "snd (update_progress org t percent today s) = s"
    using assign_and_refresh_undone [OF com, of "assign_progress percent today"]
    by (simp add: update_progress_def assign_progress_def Let_def split: option.split)
  moreover have "snd (assign_task org t employee s) = s"
    using assign_and_refresh_undone [OF com, of "\<lambda>r. r\<lparr>t_assigned_to := employee\<rparr>"]
    by (simp add: assign_task_def split: option.split)
  ultimately show ?thesis by (simp add: end_request_eq com)
qed

section \<open>Witnesses\<close>

definition sample_data :: "string \<Rightarrow> uuid option \<Rightarrow> task_data" where
  "sample_data code parent = \<lparr>dt_project = 5, dt_code = code, dt_name = code, dt_description = None, dt_parent = parent,
     dt_ticket = None, dt_status = None, dt_priority = None, dt_assigned_to = None, dt_start_date = None,
     dt_due_date = None, dt_estimated_hours = None\<rparr>"

definition sample_task :: "uuid \<Rightarrow> string \<Rightarrow> uuid option \<Rightarrow> task" where
  "sample_task u code parent = \<lparr>t_id = u, t_org = 1, t_project = 5, t_parent = parent, t_ticket = None, t_code = code,
     t_name = code, t_description = None, t_status = T_OPEN, t_priority = Medium, t_assigned_to = None,
     t_start_date = None, t_due_date = None, t_actual_start = None, t_actual_end = None, t_estimated_hours = None,
     t_actual_hours = 0, t_progress = 0\<rparr>"

text \<open>A task with a subtask that depends on it.\<close>

definition sample_board :: pm_session where
  "sample_board = (let ts = [sample_task 0 ''A'' None, sample_task 1 ''B'' (Some 0)]
     in \<lparr>task_rows = ts, task_objs = ts,
       dep_rows = [\<lparr>td_id = 0, td_task = 1, td_depends_on = 0, td_type = Finish_to_start, td_lag_days = 0\<rparr>],
       next_task = 2, next_dep = 1\<rparr>)"

lemmas sample_defs = sample_board_def sample_task_def sample_data_def

lemma sample_search:
  "would_create_dependency_cycle (Suc 0) 0 \<lparr>task_rows = rows, task_objs = objs, dep_rows = [], next_task = n, next_dep = m\<rparr> = Some False"
  by (simp add: would_create_dependency_cycle_def prerequisites_def get_dependencies_def search_cycle.simps)

lemma board_reachable: "pm_reachable sample_board"
proof -
  let ?s0 = "\<lparr>task_rows = [], task_objs = [], dep_rows = [], next_task = 0, next_dep = 0\<rparr>"
  let ?s1 = "end_request ?s0 (create_task 1 (sample_data ''A'' None) ?s0)"
  let ?s2 = "end_request ?s1 (create_task 1 (sample_data ''B'' (Some 0)) ?s1)"
  have s2: "pm_reachable ?s2"
    by (rule reach_step [OF reach_step [OF reach_init step_create] step_create])
  have "\<exists>r. add_dependency 1 1 0 Finish_to_start 0 ?s2 = Some r \<and> end_request ?s2 r = sample_board"
    by (simp add: add_dependency_def create_task_def task_insert_ok_def sample_defs flush_tasks_def add_row_def
      get_task_def live_row_def return_def sample_search Let_def)
  then show ?thesis using reach_step [OF s2 step_add_dependency] by metis
qed

theorem task_graphs_stay_acyclic_witness:
  "acyclic (parent_edges sample_board) \<and> acyclic (dep_edges sample_board)
    \<and> (1, 0) \<in> parent_edges sample_board \<and> (1, 0) \<in> dep_edges sample_board"
proof -
  have "(1, 0) \<in> parent_edges sample_board" "(1, 0) \<in> dep_edges sample_board"
    by (simp_all add: sample_defs parent_edges_def parent_of_def dep_edges_def Let_def)
  then show ?thesis using task_graphs_stay_acyclic [OF board_reachable] by blast
qed

theorem hierarchy_check_returns_witness:
  "would_create_cycle 0 1 sample_board = Some ((1, 0) \<in> (parent_edges sample_board)\<^sup>*)
    \<and> would_create_cycle 1 0 sample_board = Some False"
proof
  show "would_create_cycle 0 1 sample_board = Some ((1, 0) \<in> (parent_edges sample_board)\<^sup>*)"
    by (rule hierarchy_check_returns [OF board_reachable])
  show "would_create_cycle 1 0 sample_board = Some False"
    by (simp add: would_create_cycle_def climb.simps parent_of_def sample_defs Let_def)
qed

theorem delete_cancels_subtree_witness:
  "\<exists>depth. delete_task depth 1 0 sample_board
    = Some (Inr True, mark_cancelled (subtree 1 sample_board 0) sample_board)"
proof -
  have "get_task 1 0 sample_board \<noteq> None" by (simp add: get_task_def live_row_def sample_defs Let_def)
  from delete_cancels_subtree [OF board_reachable this] show ?thesis by blast
qed

theorem task_edits_are_lost_witness:
  "let u = \<lparr>ut_code = None, ut_name = Some ''renamed'', ut_description = None, ut_parent = None, ut_ticket = None,
      ut_priority = Some Urgent, ut_status = Some T_COMPLETED, ut_assigned_to = None, ut_start_date = None,
      ut_due_date = None, ut_estimated_hours = None, ut_actual_hours = None, ut_progress = None\<rparr>
   in end_request sample_board (update_task 1 0 u sample_board) = sample_board
    \<and> end_request sample_board (update_progress 1 0 50 (Date 2026 1 31) sample_board) = sample_board
    \<and> end_request sample_board (assign_task 1 0 (Some 9) sample_board) = sample_board"
  unfolding Let_def by (rule task_edits_are_lost [OF board_reachable])

end
