(* ===== verification/Inventory_Model.thy ===== *)
theory Inventory_Model
  imports Decimals Dates
begin

text \<open>
  The stock of the inventory services as the costing code reads it: \<open>app/models/inventory/\<close>
  (\<open>item.py\<close>, \<open>warehouse.py\<close>, \<open>inventory_transaction.py\<close>, \<open>inventory_lot.py\<close>,
  \<open>inventory_lot_balance.py\<close>, \<open>item_wac_ledger.py\<close>, \<open>inventory_valuation.py\<close>) with the columns the
  costing operations use, and a session as the record of its tables.

  Quantities, costs and values are \<open>NUMERIC(20, 6)\<close>: what a flush writes goes through \<open>numeric6\<close>.
  Products and sums of such amounts are exact in the default context below \<open>10 ^ 15\<close>; divisions go
  through \<open>dec_div\<close>. A session has no pending change when an operation starts.
\<close>

datatype transaction_type = TX_RECEIPT | TX_ISSUE | TX_TRANSFER | TX_ADJUSTMENT | TX_SALE | TX_RETURN
  | TX_ASSEMBLY | TX_DISASSEMBLY | TX_SCRAP | TX_COUNT_ADJUSTMENT

datatype costing_method = CM_FIFO | CM_WEIGHTED_AVERAGE | CM_SPECIFIC_IDENTIFICATION | CM_STANDARD_COST

record item =
  it_id :: uuid
  it_org :: uuid
  it_base_uom :: string
  it_costing_method :: costing_method
  it_average_cost :: "decimal option"
  it_last_purchase_cost :: "decimal option"

record warehouse =
  wh_id :: uuid
  wh_org :: uuid
  wh_is_active :: bool
  wh_is_receiving :: bool
  wh_is_shipping :: bool

record inventory_lot =
  lo_id :: uuid
  lo_org :: uuid
  lo_item :: uuid
  lo_number :: string
  lo_received_date :: date
  lo_unit_cost :: decimal
  lo_initial_quantity :: decimal

record lot_balance =
  lb_id :: uuid
  lb_lot :: uuid
  lb_warehouse :: uuid
  lb_on_hand :: decimal
  lb_allocated :: decimal
  lb_available :: decimal
  lb_is_active :: bool
  lb_is_quarantined :: bool

record inventory_transaction =
  tx_id :: uuid
  tx_org :: uuid
  tx_type :: transaction_type
  tx_date :: timestamp
  tx_item :: uuid
  tx_warehouse :: uuid
  tx_quantity :: decimal
  tx_unit_cost :: decimal
  tx_total_cost :: decimal
  tx_quantity_before :: decimal
  tx_quantity_after :: decimal
  tx_reference :: "string option"

record wac_ledger =
  wl_org :: uuid
  wl_item :: uuid
  wl_warehouse :: uuid
  wl_current_wac :: decimal
  wl_quantity :: decimal
  wl_total_value :: decimal
  wl_last_transaction :: "uuid option"

record inventory_valuation =
  iv_org :: uuid
  iv_period :: uuid
  iv_date :: date
  iv_item :: uuid
  iv_warehouse :: uuid
  iv_quantity :: decimal
  iv_uom :: string
  iv_unit_cost :: decimal
  iv_total_cost :: decimal
  iv_costing_method :: costing_method
  iv_selling_price :: decimal
  iv_costs_to_complete :: decimal
  iv_selling_costs :: decimal
  iv_nrv :: decimal
  iv_carrying_amount :: decimal
  iv_write_down :: decimal
  iv_currency :: string
  iv_functional_amount :: decimal

record inv_db =
  items :: "item list"
  warehouses :: "warehouse list"
  lots :: "inventory_lot list"
  lot_balances :: "lot_balance list"
  inv_transactions :: "inventory_transaction list"
  wac_ledgers :: "wac_ledger list"
  valuations :: "inventory_valuation list"
  next_inv :: uuid

datatype inv_error =
  Receipt_quantity_not_positive
| Receipt_cost_not_positive
| Issue_quantity_not_positive
| Item_not_found
| Warehouse_not_found
| Warehouse_not_receiving
| Warehouse_not_active
| Warehouse_not_shipping
| Insufficient_inventory decimal decimal
| Lot_number_taken

lemma at_scale_numeral [simp]: "at_scale d (numeral n)" "at_scale d 1"
  unfolding at_scale_iff
  by (rule exI [of _ "numeral n * 10 ^ d"], simp) (rule exI [of _ "10 ^ d"], simp)

text \<open>A request leaves the session as it was, or returns.\<close>

lemma request_outcomes:
  obtains "snd (request f s) = s" | v where "f s = (Inr v, snd (request f s))"
proof (cases "f s")
  case (Pair r s')
  then show thesis by (cases r) (auto simp: request_raise request_return intro: that)
qed

text \<open>\<open>x or Decimal("0")\<close> of a nullable column.\<close>

definition or_zero :: "decimal option \<Rightarrow> decimal" where
  "or_zero v = (case v of Some x \<Rightarrow> x | None \<Rightarrow> 0)"

definition scoped_item :: "uuid \<Rightarrow> uuid \<Rightarrow> inv_db \<Rightarrow> item option" where
  "scoped_item org i s = (case get_row it_id i (items s) of
     Some r \<Rightarrow> if it_org r = org then Some r else None | None \<Rightarrow> None)"

definition scoped_warehouse :: "uuid \<Rightarrow> uuid \<Rightarrow> inv_db \<Rightarrow> warehouse option" where
  "scoped_warehouse org w s = (case get_row wh_id w (warehouses s) of
     Some r \<Rightarrow> if wh_org r = org then Some r else None | None \<Rightarrow> None)"

abbreviation set_item :: "uuid \<Rightarrow> (item \<Rightarrow> item) \<Rightarrow> inv_db \<Rightarrow> inv_db" where
  "set_item i f s \<equiv> s\<lparr>items := set_row it_id i f (items s)\<rparr>"

section \<open>The balance of an item in a warehouse\<close>

text \<open>\<open>InventoryTransactionService.get_current_balance\<close>: the signed sum of the movements.\<close>

definition net_quantity :: "inventory_transaction \<Rightarrow> decimal" where
  "net_quantity x = (if tx_type x \<in> set [TX_ISSUE, TX_SALE, TX_SCRAP, TX_DISASSEMBLY] then - tx_quantity x
     else tx_quantity x)"

definition get_current_balance :: "uuid \<Rightarrow> uuid \<Rightarrow> uuid \<Rightarrow> inv_db \<Rightarrow> decimal" where
  "get_current_balance org i w s = (\<Sum>x\<leftarrow>filter (\<lambda>x. tx_org x = org \<and> tx_item x = i \<and> tx_warehouse x = w)
     (inv_transactions s). net_quantity x)"

end
