(* ===== verification/Fifo_Valuation.thy ===== *)
theory Fifo_Valuation
  imports Inventory_Model
begin

text \<open>
  FIFO cost layers and the lower of cost and net realisable value (IAS 2):
  \<open>app/services/inventory/fifo_valuation.py\<close>. A layer is a lot with its balance in a warehouse.
  The branches for mocked sessions are left out. The eight hexadecimal digits drawn for a lot number
  are an argument.
\<close>

record fifo_layer =
  fl_date :: date
  fl_quantity :: decimal
  fl_unit_cost :: decimal
  fl_total_cost :: decimal
  fl_lot :: uuid
  fl_reference :: string

record fifo_inventory =
  fi_item :: uuid
  fi_layers :: "fifo_layer list"
  fi_total_quantity :: decimal
  fi_total_cost :: decimal
  fi_weighted_average_cost :: decimal

record layer_use =
  lu_lot :: uuid
  lu_number :: string
  lu_quantity :: decimal
  lu_unit_cost :: decimal
  lu_total_cost :: decimal

record consumption_result =
  cr_quantity :: decimal
  cr_total_cost :: decimal
  cr_layers_used :: "layer_use list"
  cr_remaining :: decimal

record nrv_calculation =
  nv_item :: uuid
  nv_cost :: decimal
  nv_selling_price :: decimal
  nv_costs_to_complete :: decimal
  nv_selling_costs :: decimal
  nv_nrv :: decimal
  nv_carrying_amount :: decimal
  nv_write_down :: decimal

section \<open>The layers\<close>

text \<open>The join of balances and lots, in table order, and the rows a query keeps of it.\<close>

definition joined :: "inv_db \<Rightarrow> (lot_balance \<times> inventory_lot) list" where
  "joined s = concat (map (\<lambda>b. map (Pair b) (filter (\<lambda>l. lo_id l = lb_lot b) (lots s))) (lot_balances s))"

definition layer_of :: "uuid \<Rightarrow> uuid \<Rightarrow> uuid option \<Rightarrow> lot_balance \<times> inventory_lot \<Rightarrow> bool" where
  "layer_of org i w r \<longleftrightarrow> lo_org (snd r) = org \<and> lo_item (snd r) = i
     \<and> (case w of None \<Rightarrow> True | Some x \<Rightarrow> lb_warehouse (fst r) = x)
     \<and> 0 < lb_on_hand (fst r) \<and> lb_is_active (fst r)"

definition layer_rows :: "uuid \<Rightarrow> uuid \<Rightarrow> uuid option \<Rightarrow> inv_db \<Rightarrow> (lot_balance \<times> inventory_lot) list" where
  "layer_rows org i w s = sort_key (\<lambda>r. lo_received_date (snd r)) (filter (layer_of org i w) (joined s))"

section \<open>Receipts\<close>

definition pad2 :: "nat \<Rightarrow> string" where
  "pad2 n = (if n < 10 then ''0'' else []) @ nat_str n"

definition fifo_lot_number :: "date \<Rightarrow> string \<Rightarrow> string" where
  "fifo_lot_number d hex = ''FIFO-'' @ nat_str (year d) @ pad2 (month d) @ pad2 (day d) @ ''-'' @ hex"

definition stock_rows :: "uuid \<Rightarrow> uuid \<Rightarrow> inv_db \<Rightarrow> (lot_balance \<times> inventory_lot) list" where
  "stock_rows org i s = filter (\<lambda>r. lo_org (snd r) = org \<and> lo_item (snd r) = i \<and> 0 < lb_on_hand (fst r)) (joined s)"

definition add_inventory_layer :: "uuid \<Rightarrow> uuid \<Rightarrow> uuid \<Rightarrow> decimal \<Rightarrow> decimal \<Rightarrow> date \<Rightarrow> string \<Rightarrow> inv_db
    \<Rightarrow> (inv_error, uuid, inv_db) tx" where
  "add_inventory_layer org i w qty cost d hex s =
    (if qty \<le> 0 then raise Receipt_quantity_not_positive s
     else if cost \<le> 0 then raise Receipt_cost_not_positive s
     else case scoped_item org i s of None \<Rightarrow> raise Item_not_found s
     | Some _ \<Rightarrow>
        (let number = fifo_lot_number d hex;
             on_hand = (\<Sum>r\<leftarrow>stock_rows org i s. lb_on_hand (fst r));
             stock_value = (\<Sum>r\<leftarrow>stock_rows org i s. lb_on_hand (fst r) * lo_unit_cost (snd r));
             u = next_inv s
         in if \<exists>l \<in> set (lots s). lo_item l = i \<and> lo_number l = number then raise Lot_number_taken s
            else return u (set_item i (\<lambda>r. r\<lparr>it_average_cost := (if 0 < on_hand + qty
                  then Some (numeric6 (dec_div (stock_value + qty * cost) (on_hand + qty))) else it_average_cost r),
                it_last_purchase_cost := Some (numeric6 cost)\<rparr>)
              (s\<lparr>lots := add_row \<lparr>lo_id = u, lo_org = org, lo_item = i, lo_number = number, lo_received_date = d,
                   lo_unit_cost = numeric6 cost, lo_initial_quantity = numeric6 qty\<rparr> (lots s),
                 lot_balances := add_row \<lparr>lb_id = Suc u, lb_lot = u, lb_warehouse = w, lb_on_hand = numeric6 qty,
                   lb_allocated = 0, lb_available = numeric6 qty, lb_is_active = True, lb_is_quarantined = False\<rparr>
                   (lot_balances s),
                 next_inv := u + 2\<rparr>))))"

section \<open>Consumption\<close>

definition take_from :: "decimal \<Rightarrow> lot_balance \<Rightarrow> lot_balance" where
  "take_from q b = (let on_hand = numeric6 (lb_on_hand b - q);
       allocated = (if on_hand < lb_allocated b then on_hand else lb_allocated b)
     in b\<lparr>lb_on_hand := on_hand, lb_allocated := allocated, lb_available := on_hand - allocated,
          lb_is_active := 0 < on_hand \<or> 0 < allocated\<rparr>)"

definition use_of :: "decimal \<Rightarrow> inventory_lot \<Rightarrow> layer_use" where
  "use_of q l = \<lparr>lu_lot = lo_id l, lu_number = lo_number l, lu_quantity = q, lu_unit_cost = lo_unit_cost l,
     lu_total_cost = q * lo_unit_cost l\<rparr>"

text \<open>The loop over the layers: the quantity still to consume, the cost and the uses so far.\<close>

fun consume_layers :: "(lot_balance \<times> inventory_lot) list \<Rightarrow> decimal \<Rightarrow> decimal \<Rightarrow> layer_use list \<Rightarrow> inv_db
    \<Rightarrow> decimal \<times> layer_use list \<times> inv_db" where
  "consume_layers [] remaining cost used s = (cost, used, s)"
| "consume_layers ((b, l) # rows) remaining cost used s =
    (if remaining \<le> 0 then (cost, used, s)
     else let q = min (lb_on_hand b) remaining
       in consume_layers rows (remaining - q) (cost + q * lo_unit_cost l) (used @ [use_of q l])
            (s\<lparr>lot_balances := set_row lb_id (lb_id b) (take_from q) (lot_balances s)\<rparr>))"

definition consume_inventory_fifo :: "uuid \<Rightarrow> uuid \<Rightarrow> decimal \<Rightarrow> uuid \<Rightarrow> inv_db
    \<Rightarrow> (inv_error, consumption_result, inv_db) tx" where
  "consume_inventory_fifo org i qty w s =
    (let rows = layer_rows org i (Some w) s; available = (\<Sum>r\<leftarrow>rows. lb_on_hand (fst r))
     in if available < qty then raise (Insufficient_inventory available qty) s
        else let (cost, used, s') = consume_layers rows qty 0 [] s
          in return \<lparr>cr_quantity = qty, cr_total_cost = cost, cr_layers_used = used,
               cr_remaining = available - qty\<rparr> s')"

section \<open>The state of an item\<close>

definition fifo_layer_of :: "lot_balance \<times> inventory_lot \<Rightarrow> fifo_layer" where
  "fifo_layer_of r = \<lparr>fl_date = lo_received_date (snd r), fl_quantity = lb_on_hand (fst r),
     fl_unit_cost = lo_unit_cost (snd r), fl_total_cost = lb_on_hand (fst r) * lo_unit_cost (snd r),
     fl_lot = lo_id (snd r), fl_reference = lo_number (snd r)\<rparr>"

definition get_fifo_inventory :: "uuid \<Rightarrow> uuid \<Rightarrow> uuid option \<Rightarrow> inv_db \<Rightarrow> fifo_inventory" where
  "get_fifo_inventory org i w s = (let layers = map fifo_layer_of (layer_rows org i w s);
       qty = (\<Sum>l\<leftarrow>layers. fl_quantity l); cost = (\<Sum>l\<leftarrow>layers. fl_total_cost l)
     in \<lparr>fi_item = i, fi_layers = layers, fi_total_quantity = qty, fi_total_cost = cost,
         fi_weighted_average_cost = numeric6 (if 0 < qty then dec_div cost qty else 0)\<rparr>)"

section \<open>Lower of cost and net realisable value\<close>

definition calculate_nrv :: "decimal \<Rightarrow> decimal \<Rightarrow> decimal \<Rightarrow> decimal" where
  "calculate_nrv price to_complete selling = price - to_complete - selling"

definition calculate_write_down :: "uuid \<Rightarrow> uuid \<Rightarrow> uuid \<Rightarrow> decimal \<Rightarrow> decimal \<Rightarrow> decimal \<Rightarrow> inv_db \<Rightarrow> nrv_calculation" where
  "calculate_write_down org i w price to_complete selling s =
    (let inv = get_fifo_inventory org i (Some w) s in
     if fi_total_quantity inv \<le> 0 then \<lparr>nv_item = i, nv_cost = 0, nv_selling_price = price,
       nv_costs_to_complete = to_complete, nv_selling_costs = selling, nv_nrv = 0, nv_carrying_amount = 0, nv_write_down = 0\<rparr>
     else let nrv = calculate_nrv price to_complete selling; cost = fi_weighted_average_cost inv;
              down = nrv < cost
       in \<lparr>nv_item = i, nv_cost = fi_total_cost inv, nv_selling_price = price, nv_costs_to_complete = to_complete,
           nv_selling_costs = selling, nv_nrv = nrv * fi_total_quantity inv,
           nv_carrying_amount = (if down then nrv * fi_total_quantity inv else fi_total_cost inv),
           nv_write_down = (if down then (cost - nrv) * fi_total_quantity inv else 0)\<rparr>)"

definition valuation_at :: "uuid \<Rightarrow> uuid \<Rightarrow> uuid \<Rightarrow> uuid \<Rightarrow> inventory_valuation \<Rightarrow> bool" where
  "valuation_at org p i w v \<longleftrightarrow> iv_org v = org \<and> iv_period v = p \<and> iv_item v = i \<and> iv_warehouse v = w"

definition create_valuation_record :: "uuid \<Rightarrow> uuid \<Rightarrow> uuid \<Rightarrow> uuid \<Rightarrow> date \<Rightarrow> nrv_calculation \<Rightarrow> string \<Rightarrow> inv_db
    \<Rightarrow> (inv_error, unit, inv_db) tx" where
  "create_valuation_record org i w p d nrv currency s =
    (case scoped_item org i s of None \<Rightarrow> raise Item_not_found s
     | Some item \<Rightarrow>
        (let inv = get_fifo_inventory org i (Some w) s;
             write = (\<lambda>v. v\<lparr>iv_quantity := numeric6 (fi_total_quantity inv), iv_unit_cost := fi_weighted_average_cost inv,
               iv_total_cost := numeric6 (fi_total_cost inv), iv_selling_price := numeric6 (nv_selling_price nrv),
               iv_costs_to_complete := numeric6 (nv_costs_to_complete nrv), iv_selling_costs := numeric6 (nv_selling_costs nrv),
               iv_nrv := numeric6 (nv_nrv nrv), iv_carrying_amount := numeric6 (nv_carrying_amount nrv),
               iv_write_down := numeric6 (nv_write_down nrv), iv_functional_amount := numeric6 (nv_carrying_amount nrv)\<rparr>)
         in if \<exists>v \<in> set (valuations s). valuation_at org p i w v
            then return () (s\<lparr>valuations := map (\<lambda>v. if valuation_at org p i w v then write v else v) (valuations s)\<rparr>)
            else return () (s\<lparr>valuations := add_row (write \<lparr>iv_org = org, iv_period = p, iv_date = d, iv_item = i,
              iv_warehouse = w, iv_quantity = 0, iv_uom = it_base_uom item, iv_unit_cost = 0, iv_total_cost = 0,
              iv_costing_method = it_costing_method item, iv_selling_price = 0, iv_costs_to_complete = 0,
              iv_selling_costs = 0, iv_nrv = 0, iv_carrying_amount = 0, iv_write_down = 0, iv_currency = currency,
              iv_functional_amount = 0\<rparr>) (valuations s)\<rparr>)))"

definition get_valuation_summary :: "uuid \<Rightarrow> uuid \<Rightarrow> inv_db \<Rightarrow> nat \<times> decimal \<times> decimal \<times> decimal \<times> decimal" where
  "get_valuation_summary org p s =
    (let vs = filter (\<lambda>v. iv_org v = org \<and> iv_period v = p) (valuations s);
         cost = (\<Sum>v\<leftarrow>vs. iv_total_cost v); down = (\<Sum>v\<leftarrow>vs. iv_write_down v)
     in (length vs, cost, \<Sum>v\<leftarrow>vs. iv_carrying_amount v, down, if 0 < cost then dec28 (dec_div down cost * 100) else 0))"

end
