(* ===== verification/Fifo_Facts.thy ===== *)
theory Fifo_Facts
  imports Fifo_Valuation
begin

text \<open>
  The consumption loop against the rows it changes, the FIFO cost of a list of layers, and what a
  consumption leaves of the layers of its item.
\<close>

section \<open>Well-formed stock\<close>

definition sound_balance :: "lot_balance \<Rightarrow> bool" where
  "sound_balance b \<longleftrightarrow> at_scale 6 (lb_on_hand b) \<and> at_scale 6 (lb_allocated b) \<and> 0 \<le> lb_allocated b
     \<and> lb_allocated b \<le> lb_on_hand b \<and> lb_available b = lb_on_hand b - lb_allocated b"

definition sound_stock :: "inv_db \<Rightarrow> bool" where
  "sound_stock s \<longleftrightarrow> distinct (map lo_id (lots s)) \<and> distinct (map lb_id (lot_balances s))
     \<and> (\<forall>l \<in> set (lots s). lo_id l < next_inv s \<and> at_scale 6 (lo_unit_cost l))
     \<and> (\<forall>b \<in> set (lot_balances s). lb_id b < next_inv s \<and> lb_lot b \<in> lo_id ` set (lots s) \<and> sound_balance b)"

lemma take_from_frame [simp]:
  "lb_id (take_from q b) = lb_id b" "lb_lot (take_from q b) = lb_lot b" "lb_warehouse (take_from q b) = lb_warehouse b"
  by (simp_all add: take_from_def Let_def)

lemma take_from_on_hand:
  "at_scale 6 (lb_on_hand b) \<Longrightarrow> at_scale 6 q \<Longrightarrow> lb_on_hand (take_from q b) = lb_on_hand b - q"
  by (simp add: take_from_def Let_def quantize_at_scale at_scale_diff)

lemma take_from_active: "0 < lb_on_hand (take_from q b) \<Longrightarrow> lb_is_active (take_from q b)"
  by (simp add: take_from_def Let_def)

lemma sound_take_from:
  assumes "sound_balance b" and "q \<le> lb_on_hand b"
  shows "sound_balance (take_from q b)"
  using assms persisted.rnd_nonneg [of "lb_on_hand b - q"]
  by (auto simp: sound_balance_def take_from_def Let_def)

lemma take_from_twice:
  assumes "at_scale 6 (lb_on_hand b)" and "at_scale 6 p" and "at_scale 6 q" and "0 \<le> q"
  shows "take_from q (take_from p b) = take_from (p + q) b"
proof -
  have "numeric6 (lb_on_hand b - p) = lb_on_hand b - p" "numeric6 (lb_on_hand b - p - q) = lb_on_hand b - p - q"
    "numeric6 (lb_on_hand b - (p + q)) = lb_on_hand b - (p + q)"
    using assms by (auto intro!: quantize_at_scale at_scale_diff at_scale_add)
  then show ?thesis using assms(4) by (simp add: take_from_def Let_def) (auto simp: algebra_simps)
qed

section \<open>What the loop does to its rows\<close>

fun drained :: "(lot_balance \<times> inventory_lot) list \<Rightarrow> decimal \<Rightarrow> (lot_balance \<times> inventory_lot) list" where
  "drained [] q = []"
| "drained ((b, l) # rows) q = (if q \<le> 0 then (b, l) # rows
     else (take_from (min (lb_on_hand b) q) b, l) # drained rows (q - min (lb_on_hand b) q))"

text \<open>The cost of a quantity, oldest layer first.\<close>

fun fifo_cost :: "(decimal \<times> decimal) list \<Rightarrow> decimal \<Rightarrow> decimal" where
  "fifo_cost [] q = 0"
| "fifo_cost ((on_hand, cost) # layers) q = min on_hand q * cost + fifo_cost layers (q - min on_hand q)"

definition terms_of :: "lot_balance \<times> inventory_lot \<Rightarrow> decimal \<times> decimal" where
  "terms_of r = (lb_on_hand (fst r), lo_unit_cost (snd r))"

lemma fifo_cost_0: "\<forall>r \<in> set layers. 0 \<le> fst r \<Longrightarrow> fifo_cost layers 0 = 0"
  by (induction layers) (auto simp: min_def)

lemma consume_layers_cost:
  assumes "\<And>r. r \<in> set rows \<Longrightarrow> 0 < lb_on_hand (fst r)" and "0 \<le> q"
  shows "fst (consume_layers rows q c u s) = c + fifo_cost (map terms_of rows) q"
  using assms
proof (induction rows arbitrary: q c u s)
  case (Cons r rows)
  obtain b l where r: "r = (b, l)" by fastforce
  show ?case
  proof (cases "q \<le> 0")
    case True
    then have q: "q = 0" using Cons.prems(2) by simp
    have "\<forall>r' \<in> set (map terms_of (r # rows)). 0 \<le> fst r'"
      using Cons.prems(1) by (auto simp: terms_of_def less_imp_le)
    then have "fifo_cost (map terms_of (r # rows)) 0 = 0" by (rule fifo_cost_0)
    then show ?thesis unfolding q r by simp
  next
    case False
    then show ?thesis using r Cons by (simp add: terms_of_def Let_def)
  qed
qed simp

lemma consume_layers_frame:
  "lots (snd (snd (consume_layers rows q c u s))) = lots s"
  "next_inv (snd (snd (consume_layers rows q c u s))) = next_inv s"
  "items (snd (snd (consume_layers rows q c u s))) = items s"
  by (induction rows q c u s rule: consume_layers.induct) (simp_all add: Let_def)

definition replace_by :: "(lot_balance \<times> inventory_lot) list \<Rightarrow> lot_balance \<Rightarrow> lot_balance" where
  "replace_by rows b = (case find (\<lambda>r. lb_id (fst r) = lb_id b) rows of Some r \<Rightarrow> fst r | None \<Rightarrow> b)"

lemma replace_by_Nil [simp]: "replace_by [] b = b"
  by (simp add: replace_by_def)

lemma replace_by_Cons: "replace_by (r # rows) b = (if lb_id (fst r) = lb_id b then fst r else replace_by rows b)"
  by (simp add: replace_by_def)

lemma replace_by_other: "lb_id b \<notin> (lb_id \<circ> fst) ` set rows \<Longrightarrow> replace_by rows b = b"
  by (induction rows) (auto simp: replace_by_Cons)

lemma replace_by_same:
  "distinct (map (lb_id \<circ> fst) rows) \<Longrightarrow> r \<in> set rows \<Longrightarrow> replace_by rows (fst r) = fst r"
proof (induction rows)
  case (Cons x rows)
  show ?case
  proof (cases "r = x")
    case True
    then show ?thesis by (simp add: replace_by_Cons)
  next
    case False
    then have r: "r \<in> set rows" using Cons.prems(2) by simp
    then have "lb_id (fst r) \<in> (\<lambda>r. lb_id (fst r)) ` set rows" by (rule imageI)
    moreover have "lb_id (fst x) \<notin> (\<lambda>r. lb_id (fst r)) ` set rows" using Cons.prems(1) by (simp add: o_def)
    ultimately have "lb_id (fst x) \<noteq> lb_id (fst r)" by metis
    then show ?thesis using Cons.IH r Cons.prems(1) by (simp add: replace_by_Cons)
  qed
qed simp

lemma replace_by_id:
  "lb_id b = lb_id c \<Longrightarrow> r \<in> set rows \<Longrightarrow> lb_id (fst r) = lb_id c \<Longrightarrow> replace_by rows b = replace_by rows c"
  by (induction rows) (auto simp: replace_by_Cons)

lemma drained_ids: "map (lb_id \<circ> fst) (drained rows q) = map (lb_id \<circ> fst) rows"
  by (induction rows q rule: drained.induct) (simp_all add: Let_def)

lemma drained_none: "q \<le> 0 \<Longrightarrow> drained rows q = rows"
  by (cases rows) auto

lemma same_balance:
  "distinct (map lb_id bs) \<Longrightarrow> x \<in> set bs \<Longrightarrow> y \<in> set bs \<Longrightarrow> lb_id x = lb_id y \<Longrightarrow> x = y"
  by (meson distinct_map inj_onD)

lemma consume_layers_balances:
  assumes "distinct (map lb_id (lot_balances s))" and "distinct (map (lb_id \<circ> fst) rows)"
    and "fst ` set rows \<subseteq> set (lot_balances s)"
  shows "lot_balances (snd (snd (consume_layers rows q c u s))) = map (replace_by (drained rows q)) (lot_balances s)"
  using assms
proof (induction rows q c u s rule: consume_layers.induct)
  case (1 q c u s)
  then show ?case by (simp add: map_idI)
next
  case (2 b l rows q c u s)
  show ?case
  proof (cases "q \<le> 0")
    case True
    have "replace_by ((b, l) # rows) b' = b'" if b': "b' \<in> set (lot_balances s)" for b'
    proof (cases "lb_id b' \<in> (lb_id \<circ> fst) ` set ((b, l) # rows)")
      case True
      then obtain r where id: "lb_id b' = (lb_id \<circ> fst) r" and r: "r \<in> set ((b, l) # rows)" by (rule imageE)
      then have "fst r \<in> fst ` set ((b, l) # rows)" by (intro imageI)
      then have "fst r = b'" using same_balance [OF "2.prems"(1) subsetD [OF "2.prems"(3)] b'] id by simp
      then show ?thesis using replace_by_same [OF "2.prems"(2) r(1)] by simp
    qed (rule replace_by_other)
    with True show ?thesis by (simp add: drained_none map_idI)
  next
    case False
    let ?t = "min (lb_on_hand b) q"
    let ?s = "s\<lparr>lot_balances := set_row lb_id (lb_id b) (take_from ?t) (lot_balances s)\<rparr>"
    have new: "lb_id b \<notin> (lb_id \<circ> fst) ` set rows" using "2.prems"(2) by simp
    have ids: "map lb_id (lot_balances ?s) = map lb_id (lot_balances s)" by (simp add: map_key_set_row)
    have sub: "fst ` set rows \<subseteq> set (lot_balances ?s)"
    proof
      fix x
      assume x: "x \<in> fst ` set rows"
      then have "lb_id x \<in> lb_id ` fst ` set rows" by (rule imageI)
      then have "lb_id x \<noteq> lb_id b" using new by (metis image_comp)
      moreover have "x \<in> set (lot_balances s)" using x "2.prems"(3) by auto
      ultimately show "x \<in> set (lot_balances ?s)"
        by (simp add: set_set_row)
    qed
    have "lot_balances (snd (snd (consume_layers rows (q - ?t) (c + ?t * lo_unit_cost l) (u @ [use_of ?t l]) ?s)))
        = map (replace_by (drained rows (q - ?t))) (lot_balances ?s)"
      by (rule "2.IH" [OF False refl]) (use "2.prems" ids sub in simp_all)
    also have "\<dots> = map (replace_by (drained ((b, l) # rows) q)) (lot_balances s)"
    proof -
      have "replace_by (drained rows (q - ?t)) (if lb_id b' = lb_id b then take_from ?t b' else b')
          = replace_by (drained ((b, l) # rows) q) b'" if b': "b' \<in> set (lot_balances s)" for b'
      proof (cases "lb_id b' = lb_id b")
        case True
        have "b \<in> set (lot_balances s)" using "2.prems"(3) by simp
        then have "b' = b" using same_balance [OF "2.prems"(1) b'] True by simp
        moreover have "lb_id b \<notin> (lb_id \<circ> fst) ` set (drained rows (q - ?t))"
          using new unfolding set_map [symmetric] drained_ids .
        ultimately show ?thesis using False by (simp add: replace_by_Cons replace_by_other Let_def)
      next
        case False': False
        then show ?thesis using False by (simp add: replace_by_Cons Let_def)
      qed
      then show ?thesis by (simp add: set_row_def)
    qed
    finally show ?thesis using False by (simp add: Let_def)
  qed
qed

section \<open>What it does to the layers\<close>

lemma insort_key_map: "(\<And>x. k (f x) = k x) \<Longrightarrow> insort_key k (f x) (map f xs) = map f (insort_key k x xs)"
  by (induction xs) auto

lemma sort_key_map: "(\<And>x. k (f x) = k x) \<Longrightarrow> sort_key k (map f xs) = map f (sort_key k xs)"
  by (induction xs) (simp_all add: insort_key_map)

lemma filter_unique: "distinct (map k xs) \<Longrightarrow> length (filter (\<lambda>x. k x = a) xs) \<le> 1"
  by (induction xs) (auto simp: filter_empty_conv image_iff)

lemma fst_joined: "fst ` set (joined s) \<subseteq> set (lot_balances s)"
  by (auto simp: joined_def)

lemma joined_ids:
  assumes "distinct (map lo_id (lots s))" and "distinct (map lb_id (lot_balances s))"
  shows "distinct (map (lb_id \<circ> fst) (joined s))"
proof -
  have "distinct (map (lb_id \<circ> fst) (concat (map (\<lambda>b. map (Pair b) (filter (\<lambda>l. lo_id l = lb_lot b) (lots s))) bs)))
      \<and> set (map (lb_id \<circ> fst) (concat (map (\<lambda>b. map (Pair b) (filter (\<lambda>l. lo_id l = lb_lot b) (lots s))) bs))) \<subseteq> lb_id ` set bs"
    if "distinct (map lb_id bs)" for bs
    using that
  proof (induction bs)
    case (Cons b bs)
    have "distinct (map (lb_id \<circ> fst) (map (Pair b) (filter (\<lambda>l. lo_id l = lb_lot b) (lots s))))"
      using filter_unique [OF assms(1), of "lb_lot b"]
      by (cases "filter (\<lambda>l. lo_id l = lb_lot b) (lots s)") (auto simp: le_Suc_eq)
    moreover have "set (map (lb_id \<circ> fst) (map (Pair b) (filter (\<lambda>l. lo_id l = lb_lot b) (lots s)))) \<subseteq> {lb_id b}" by auto
    ultimately show ?case using Cons by (auto simp: o_def)
  qed simp
  from this [OF assms(2)] show ?thesis unfolding joined_def ..
qed

lemma joined_update:
  assumes "lots s' = lots s" and "lot_balances s' = map g (lot_balances s)"
    and "\<And>b. b \<in> set (lot_balances s) \<Longrightarrow> lb_lot (g b) = lb_lot b"
  shows "joined s' = map (\<lambda>r. (g (fst r), snd r)) (joined s)"
proof -
  have "concat (map (\<lambda>b. map (Pair (g b)) (filter (\<lambda>l. lo_id l = lb_lot (g b)) (lots s))) bs)
      = map (\<lambda>r. (g (fst r), snd r)) (concat (map (\<lambda>b. map (Pair b) (filter (\<lambda>l. lo_id l = lb_lot b) (lots s))) bs))"
    if "set bs \<subseteq> set (lot_balances s)" for bs
    using that assms(3) by (induction bs) simp_all
  then show ?thesis by (simp add: joined_def assms(1,2) o_def)
qed

lemma layer_rows_facts:
  assumes "sound_stock s"
  shows "distinct (map (lb_id \<circ> fst) (layer_rows org i w s))" and "fst ` set (layer_rows org i w s) \<subseteq> set (lot_balances s)"
    and "r \<in> set (layer_rows org i w s) \<longleftrightarrow> r \<in> set (joined s) \<and> layer_of org i w r"
  using joined_ids [of s] fst_joined [of s] assms
  by (auto simp: layer_rows_def sound_stock_def distinct_map intro: inj_on_subset)

lemma drained_snd: "map snd (drained rows q) = map snd rows"
  by (induction rows q rule: drained.induct) (simp_all add: Let_def)

lemma length_drained: "length (drained rows q) = length rows"
  using drained_snd [of rows q] by (metis length_map)

lemma replace_rows:
  assumes "distinct (map (lb_id \<circ> fst) rows)"
  shows "map (\<lambda>r. (replace_by (drained rows q) (fst r), snd r)) rows = drained rows q"
proof (rule nth_equalityI)
  fix k
  assume "k < length (map (\<lambda>r. (replace_by (drained rows q) (fst r), snd r)) rows)"
  then have k: "k < length rows" "k < length (drained rows q)" by (simp_all add: length_drained)
  have id: "lb_id (fst (drained rows q ! k)) = lb_id (fst (rows ! k))"
    using arg_cong [OF drained_ids [of rows q], of "\<lambda>xs. xs ! k"] k by simp
  have "replace_by (drained rows q) (fst (rows ! k)) = replace_by (drained rows q) (fst (drained rows q ! k))"
    by (rule replace_by_id [OF _ nth_mem [OF k(2)]]) (simp_all add: id)
  also have "\<dots> = fst (drained rows q ! k)"
    by (rule replace_by_same) (simp_all add: drained_ids assms k)
  finally show "map (\<lambda>r. (replace_by (drained rows q) (fst r), snd r)) rows ! k = drained rows q ! k"
    using arg_cong [OF drained_snd [of rows q], of "\<lambda>xs. xs ! k"] k by (simp add: prod_eq_iff)
qed (simp add: length_drained)

text \<open>A drained row is a row with less on hand, and active while it has some.\<close>

lemma drained_row:
  assumes "r' \<in> set (drained rows q)" and "\<forall>r \<in> set rows. 0 < lb_on_hand (fst r) \<and> at_scale 6 (lb_on_hand (fst r)) \<and> lb_is_active (fst r)"
    and "at_scale 6 q"
  shows "\<exists>r \<in> set rows. lb_id (fst r') = lb_id (fst r) \<and> lb_lot (fst r') = lb_lot (fst r) \<and> lb_warehouse (fst r') = lb_warehouse (fst r) \<and> snd r' = snd r
    \<and> 0 \<le> lb_on_hand (fst r') \<and> (0 < lb_on_hand (fst r') \<longrightarrow> lb_is_active (fst r'))"
  using assms
proof (induction rows q rule: drained.induct)
  case (2 b l rows q)
  show ?case
  proof (cases "q \<le> 0")
    case True
    with "2.prems" show ?thesis by (intro bexI [of _ r']) (auto simp: less_imp_le)
  next
    case False
    let ?t = "min (lb_on_hand b) q"
    have t: "at_scale 6 ?t" using "2.prems" by (simp add: min_def)
    consider "r' = (take_from ?t b, l)" | "r' \<in> set (drained rows (q - ?t))"
      using "2.prems"(1) False by (auto simp: Let_def)
    then show ?thesis
    proof cases
      case 1
      then show ?thesis using "2.prems"(2) t
        by (intro bexI [of _ "(b, l)"]) (auto simp: take_from_on_hand take_from_active)
    next
      case 2
      have "at_scale 6 (q - ?t)" using "2.prems"(3) t by (rule at_scale_diff)
      then show ?thesis using "2.IH" [OF False 2] "2.prems"(2) by auto
    qed
  qed
qed simp

lemma layer_row_sound:
  assumes "sound_stock s" and "r \<in> set (layer_rows org i w s)"
  shows "0 < lb_on_hand (fst r) \<and> at_scale 6 (lb_on_hand (fst r)) \<and> lb_is_active (fst r)"
proof -
  have "r \<in> set (joined s)" "layer_of org i w r" using layer_rows_facts(3) [OF assms(1)] assms(2) by auto
  moreover from this(1) have "fst r \<in> set (lot_balances s)" using fst_joined [of s] by auto
  ultimately show ?thesis using assms(1) by (auto simp: sound_stock_def sound_balance_def layer_of_def)
qed

text \<open>The balance that replaces a balance of the stock.\<close>

lemma replaced_balance:
  assumes "sound_stock s" and "at_scale 6 q" and "b \<in> set (lot_balances s)"
    and "b' = replace_by (drained (layer_rows org i w s) q) b"
  shows "b' = b \<or> lb_lot b' = lb_lot b \<and> lb_warehouse b' = lb_warehouse b \<and> 0 < lb_on_hand b \<and> lb_is_active b"
proof (cases "b' = b")
  case False
  let ?rows = "layer_rows org i w s"
  obtain r' where r': "r' \<in> set (drained ?rows q)" "lb_id (fst r') = lb_id b" "b' = fst r'"
  proof -
    obtain r' where "find (\<lambda>r. lb_id (fst r) = lb_id b) (drained ?rows q) = Some r'" "b' = fst r'"
      using assms(4) False by (auto simp: replace_by_def split: option.splits)
    then show thesis by (intro that [of r']) (auto simp: find_Some_iff)
  qed
  have sound: "\<forall>r \<in> set ?rows. 0 < lb_on_hand (fst r) \<and> at_scale 6 (lb_on_hand (fst r)) \<and> lb_is_active (fst r)"
    using layer_row_sound [OF assms(1)] by blast
  obtain r where r: "r \<in> set ?rows" "lb_id (fst r') = lb_id (fst r)" "lb_lot (fst r') = lb_lot (fst r)"
      "lb_warehouse (fst r') = lb_warehouse (fst r)"
    using drained_row [OF r'(1) sound assms(2)] by blast
  have "fst r \<in> set (lot_balances s)" using layer_rows_facts(2) [OF assms(1)] r(1) by blast
  moreover have "distinct (map lb_id (lot_balances s))" using assms(1) by (simp add: sound_stock_def)
  ultimately have "fst r = b" using same_balance assms(3) r(2) r'(2) by metis
  then show ?thesis using r r'(3) sound by auto
qed simp

lemma filter_map_sub: "(\<And>x. x \<in> set xs \<Longrightarrow> P (f x) \<Longrightarrow> P x) \<Longrightarrow> filter P (map f (filter P xs)) = filter P (map f xs)"
  by (induction xs) auto

text \<open>The layers of every item and warehouse after a consumption.\<close>

lemma layers_after:
  assumes "sound_stock s" and "at_scale 6 q"
  shows "layer_rows org' i' w' (snd (snd (consume_layers (layer_rows org i (Some w) s) q c u s)))
    = filter (layer_of org' i' w')
      (map (\<lambda>r. (replace_by (drained (layer_rows org i (Some w) s) q) (fst r), snd r)) (layer_rows org' i' w' s))"
proof -
  let ?rows = "layer_rows org i (Some w) s"
  let ?s = "snd (snd (consume_layers ?rows q c u s))" and ?g = "replace_by (drained ?rows q)"
  let ?G = "\<lambda>r. (?g (fst r), snd r)"
  have bal: "lot_balances ?s = map ?g (lot_balances s)" "lots ?s = lots s"
    using assms(1) layer_rows_facts(1,2) [OF assms(1)]
    by (simp_all add: consume_layers_balances consume_layers_frame sound_stock_def)
  have "lb_lot (?g b) = lb_lot b" if "b \<in> set (lot_balances s)" for b
    using replaced_balance [OF assms that refl, of org i "Some w"] by auto
  then have joined: "joined ?s = map ?G (joined s)" by (rule joined_update [OF bal(2,1)])
  have kept: "layer_of org' i' w' r" if "r \<in> set (joined s)" "layer_of org' i' w' (?G r)" for r
  proof -
    have "fst r \<in> set (lot_balances s)" using that(1) fst_joined [of s] by auto
    then show ?thesis
      using replaced_balance [OF assms _ refl, of "fst r" org i "Some w"] that(2) by (auto simp: layer_of_def split: option.splits)
  qed
  have "layer_rows org' i' w' ?s = sort_key (\<lambda>r. lo_received_date (snd r)) (filter (layer_of org' i' w') (map ?G (joined s)))"
    unfolding joined [symmetric] by (rule layer_rows_def)
  also have "\<dots> = sort_key (\<lambda>r. lo_received_date (snd r)) (filter (layer_of org' i' w') (map ?G (filter (layer_of org' i' w') (joined s))))"
    using filter_map_sub [of "joined s" "layer_of org' i' w'" ?G] kept by simp
  also have "\<dots> = filter (layer_of org' i' w') (sort_key (\<lambda>r. lo_received_date (snd r)) (map ?G (filter (layer_of org' i' w') (joined s))))"
    by (rule filter_sort [symmetric])
  also have "\<dots> = filter (layer_of org' i' w') (map ?G (layer_rows org' i' w' s))"
    unfolding layer_rows_def by (simp add: sort_key_map)
  finally show ?thesis .
qed

end
