(* ===== verification/Fifo_Properties.thy ===== *)
theory Fifo_Properties
  imports Fifo_Facts
begin

text \<open>
  The properties of the FIFO service: well-formed stock, the quantity and the cost that a consumption
  takes and what it leaves, consumption in parts, and stock that is received and consumed again.
\<close>

section \<open>The stock after a consumption\<close>

lemma drained_from:
  "r' \<in> set (drained rows q) \<Longrightarrow> \<exists>r \<in> set rows. snd r' = snd r
    \<and> (fst r' = fst r \<or> (\<exists>t. t \<le> lb_on_hand (fst r) \<and> fst r' = take_from t (fst r)))"
proof (induction rows q rule: drained.induct)
  case (2 b l rows q)
  consider "q \<le> 0" | "\<not> q \<le> 0" "r' = (take_from (min (lb_on_hand b) q) b, l)"
    | "\<not> q \<le> 0" "r' \<in> set (drained rows (q - min (lb_on_hand b) q))"
    using "2.prems" by (auto simp: Let_def split: if_splits)
  then show ?case
  proof cases
    case 1
    then show ?thesis using "2.prems" by auto
  next
    case 2
    then show ?thesis by (intro bexI [of _ "(b, l)"]) (auto intro: exI [of _ "min (lb_on_hand b) q"])
  next
    case 3
    then show ?thesis using "2.IH" by auto
  qed
qed simp

lemma consume_layers_state:
  assumes "sound_stock s" and "rows = layer_rows org i w s"
  shows "snd (snd (consume_layers rows q c u s)) = s\<lparr>lot_balances := map (replace_by (drained rows q)) (lot_balances s)\<rparr>"
proof -
  have frame: "snd (snd (consume_layers rows' q' c' u' s')) = s'\<lparr>lot_balances := lot_balances (snd (snd (consume_layers rows' q' c' u' s')))\<rparr>"
    for rows' q' c' u' s'
    by (induction rows' q' c' u' s' rule: consume_layers.induct) (simp_all add: Let_def)
  show ?thesis
    using assms layer_rows_facts(1,2) [OF assms(1)]
    by (subst frame) (simp add: consume_layers_balances sound_stock_def)
qed

lemma replaced_sound:
  assumes "sound_stock s" and "b \<in> set (lot_balances s)"
  shows "sound_balance (replace_by (drained (layer_rows org i w s) q) b)
    \<and> lb_lot (replace_by (drained (layer_rows org i w s) q) b) = lb_lot b
    \<and> lb_id (replace_by (drained (layer_rows org i w s) q) b) = lb_id b"
proof (cases "find (\<lambda>r. lb_id (fst r) = lb_id b) (drained (layer_rows org i w s) q)")
  case None
  then show ?thesis using assms by (simp add: replace_by_def sound_stock_def)
next
  case (Some r')
  then have r': "r' \<in> set (drained (layer_rows org i w s) q)" "lb_id (fst r') = lb_id b"
    by (auto simp: find_Some_iff)
  obtain r where r: "r \<in> set (layer_rows org i w s)"
    and b: "fst r' = fst r \<or> (\<exists>t. t \<le> lb_on_hand (fst r) \<and> fst r' = take_from t (fst r))"
    using drained_from [OF r'(1)] by blast
  have "fst r \<in> set (lot_balances s)" using layer_rows_facts(2) [OF assms(1)] r by blast
  moreover have "lb_id (fst r) = lb_id b" using b r'(2) by auto
  ultimately have "fst r = b" using same_balance assms by (meson sound_stock_def)
  then show ?thesis using Some b assms by (auto simp: replace_by_def sound_stock_def sound_take_from)
qed

lemma sound_after_consumption:
  assumes "sound_stock s"
  shows "sound_stock (snd (snd (consume_layers (layer_rows org i w s) q c u s)))"
  unfolding consume_layers_state [OF assms refl] sound_stock_def
  using assms replaced_sound [OF assms, of _ org i w q]
  by (auto simp: sound_stock_def o_def cong: map_cong)

lemma sound_after_receipt:
  assumes "sound_stock s" and "add_inventory_layer org i w qty cost d hex s = (Inr u, s')"
  shows "sound_stock s'"
proof -
  have "0 < qty" using assms(2) by (auto simp: add_inventory_layer_def not_le split: if_splits)
  then have "0 \<le> numeric6 qty" using persisted.rnd_nonneg by simp
  then show ?thesis using assms
    by (auto simp: add_inventory_layer_def Let_def sound_stock_def sound_balance_def row_simps less_Suc_eq
        split: if_splits option.splits)
qed

lemma consumed:
  assumes "consume_inventory_fifo org i q w s = (Inr r, s')"
  shows "s' = snd (snd (consume_layers (layer_rows org i (Some w) s) q 0 [] s))"
    and "cr_total_cost r = fst (consume_layers (layer_rows org i (Some w) s) q 0 [] s)"
    and "cr_layers_used r = fst (snd (consume_layers (layer_rows org i (Some w) s) q 0 [] s))"
    and "cr_quantity r = q"
    and "cr_remaining r = (\<Sum>r\<leftarrow>layer_rows org i (Some w) s. lb_on_hand (fst r)) - q"
    and "q \<le> (\<Sum>r\<leftarrow>layer_rows org i (Some w) s. lb_on_hand (fst r))"
  using assms by (auto simp: consume_inventory_fifo_def Let_def split: if_splits prod.splits)

lemma consumption_returns:
  "q \<le> (\<Sum>r\<leftarrow>layer_rows org i (Some w) s. lb_on_hand (fst r)) \<Longrightarrow> \<exists>r s'. consume_inventory_fifo org i q w s = (Inr r, s')"
  by (cases "consume_layers (layer_rows org i (Some w) s) q 0 [] s")
    (simp add: consume_inventory_fifo_def Let_def return_def)

text \<open>The requests of the service that change the stock.\<close>

datatype fifo_request =
  Receive_layer uuid uuid uuid decimal decimal date string
| Consume_stock uuid uuid decimal uuid
| Record_valuation uuid uuid uuid uuid date decimal decimal decimal string

fun serve_fifo :: "fifo_request \<Rightarrow> inv_db \<Rightarrow> inv_db" where
  "serve_fifo (Receive_layer org i w qty cost d hex) s = snd (request (add_inventory_layer org i w qty cost d hex) s)"
| "serve_fifo (Consume_stock org i qty w) s = snd (request (consume_inventory_fifo org i qty w) s)"
| "serve_fifo (Record_valuation org p i w d price to_complete selling currency) s =
     snd (request (\<lambda>s. create_valuation_record org p i w d (calculate_write_down org i w price to_complete selling s) currency s) s)"

lemma sound_valuations [simp]: "sound_stock (s\<lparr>valuations := v\<rparr>) = sound_stock s"
  by (simp add: sound_stock_def)

lemma sound_serve_fifo:
  assumes "sound_stock s"
  shows "sound_stock (serve_fifo r s)"
proof (cases r)
  case (Receive_layer org i w qty cost d hex)
  then show ?thesis
    using assms by (cases rule: request_outcomes [of "add_inventory_layer org i w qty cost d hex" s])
      (auto intro: sound_after_receipt)
next
  case (Consume_stock org i qty w)
  show ?thesis
  proof (cases rule: request_outcomes [of "consume_inventory_fifo org i qty w" s])
    case (2 v)
    show ?thesis unfolding Consume_stock serve_fifo.simps consumed(1) [OF 2] by (rule sound_after_consumption [OF assms])
  qed (use assms Consume_stock in simp)
next
  case (Record_valuation org p i w d price to_complete selling currency)
  then show ?thesis
    using assms
    by (cases rule: request_outcomes [of "\<lambda>s. create_valuation_record org p i w d (calculate_write_down org i w price to_complete selling s) currency s" s])
      (auto simp: create_valuation_record_def Let_def split: option.splits if_splits)
qed

text \<open>C22: the stock tables keep their type: after any sequence of receipts, consumptions and valuations, of any
  amounts, lot and balance ids are unique, every balance belongs to a lot, its quantities have six decimals,
  0 \<le> allocated \<le> on hand, and available = on hand - allocated.\<close>

theorem stock_stays_sound:
  assumes "sound_stock s"
  shows "sound_stock (fold serve_fifo rs s)"
  using assms by (induction rs arbitrary: s) (simp_all add: sound_serve_fifo)

definition sample_item :: item where
  "sample_item = \<lparr>it_id = 7, it_org = 1, it_base_uom = ''EA'', it_costing_method = CM_FIFO, it_average_cost = None,
     it_last_purchase_cost = None\<rparr>"

definition no_stock :: inv_db where
  "no_stock = \<lparr>items = [sample_item], warehouses = [], lots = [], lot_balances = [], inv_transactions = [],
     wac_ledgers = [], valuations = [], next_inv = 20\<rparr>"

definition two_layers :: inv_db where
  "two_layers = fold serve_fifo [Receive_layer 1 7 3 10 2 (Date 2026 1 5) ''0000000A'', Receive_layer 1 7 3 5 3 (Date 2026 1 9) ''0000000B''] no_stock"

lemma sound_no_stock: "sound_stock no_stock"
  by (simp add: sound_stock_def no_stock_def)

theorem stock_stays_sound_witness:
  "sound_stock two_layers \<and> sound_stock (fold serve_fifo [Consume_stock 1 7 12 3, Receive_layer 1 7 3 (1 / 3) 4 (Date 2026 2 1) ''0000000C'',
     Record_valuation 1 9 7 3 (Date 2026 2 28) 5 1 1 ''NGN''] two_layers)"
  unfolding two_layers_def by (intro conjI stock_stays_sound sound_no_stock)

section \<open>Quantity and cost\<close>

lemma drained_quantity:
  assumes "\<forall>r \<in> set rows. 0 < lb_on_hand (fst r) \<and> at_scale 6 (lb_on_hand (fst r))" and "at_scale 6 q" and "0 \<le> q"
    and "q \<le> (\<Sum>r\<leftarrow>rows. lb_on_hand (fst r))"
  shows "(\<Sum>r\<leftarrow>drained rows q. lb_on_hand (fst r)) = (\<Sum>r\<leftarrow>rows. lb_on_hand (fst r)) - q
    \<and> (\<Sum>r\<leftarrow>drained rows q. lb_on_hand (fst r) * lo_unit_cost (snd r))
      = (\<Sum>r\<leftarrow>rows. lb_on_hand (fst r) * lo_unit_cost (snd r)) - fifo_cost (map terms_of rows) q"
  using assms
proof (induction rows q rule: drained.induct)
  case (2 b l rows q)
  let ?t = "min (lb_on_hand b) q"
  have t: "at_scale 6 ?t" using "2.prems" by (simp add: min_def)
  have zero: "fifo_cost (map terms_of ((b, l) # rows)) 0 = 0"
    using "2.prems"(1) by (intro fifo_cost_0) (auto simp: terms_of_def less_imp_le)
  have rest: "q - ?t \<le> (\<Sum>r\<leftarrow>rows. lb_on_hand (fst r))"
  proof -
    have "0 \<le> (\<Sum>r\<leftarrow>rows. lb_on_hand (fst r))" by (rule sum_list_nonneg) (use "2.prems"(1) in \<open>auto simp: less_imp_le\<close>)
    then show ?thesis using "2.prems"(4) by (auto simp: min_def)
  qed
  have on_hand: "lb_on_hand (take_from ?t b) = lb_on_hand b - ?t"
    using "2.prems" t by (intro take_from_on_hand) simp_all
  show ?case
  proof (cases "q \<le> 0")
    case True
    then have "q = 0" using "2.prems"(3) by simp
    then show ?thesis using zero by simp
  next
    case False
    then show ?thesis using "2.IH" [OF False] t rest "2.prems" at_scale_diff [OF "2.prems"(2) t]
      by (simp add: Let_def on_hand terms_of_def algebra_simps)
  qed
qed simp_all

text \<open>The layers a consumption leaves are the drained ones that have stock.\<close>

lemma layers_left:
  assumes "sound_stock s" and "at_scale 6 q"
  shows "layer_rows org i (Some w) (snd (snd (consume_layers (layer_rows org i (Some w) s) q c u s)))
    = filter (\<lambda>r. 0 < lb_on_hand (fst r)) (drained (layer_rows org i (Some w) s) q)"
proof -
  let ?rows = "layer_rows org i (Some w) s"
  have sound: "\<forall>r \<in> set ?rows. 0 < lb_on_hand (fst r) \<and> at_scale 6 (lb_on_hand (fst r)) \<and> lb_is_active (fst r)"
    using layer_row_sound [OF assms(1)] by blast
  have "layer_of org i (Some w) r' \<longleftrightarrow> 0 < lb_on_hand (fst r')" if r': "r' \<in> set (drained ?rows q)" for r'
  proof -
    obtain r where r: "r \<in> set ?rows" "lb_warehouse (fst r') = lb_warehouse (fst r)" "snd r' = snd r"
        "0 < lb_on_hand (fst r') \<longrightarrow> lb_is_active (fst r')"
      using drained_row [OF r' sound assms(2)] by blast
    have "layer_of org i (Some w) r" using r(1) layer_rows_facts(3) [OF assms(1)] by blast
    then show ?thesis using r by (auto simp: layer_of_def)
  qed
  then have "filter (layer_of org i (Some w)) (drained ?rows q) = filter (\<lambda>r. 0 < lb_on_hand (fst r)) (drained ?rows q)"
    by (rule filter_cong [OF refl])
  then show ?thesis
    unfolding layers_after [OF assms] replace_rows [OF layer_rows_facts(1) [OF assms(1)]] .
qed

lemma same_lot:
  assumes "sound_stock s" and "r \<in> set (joined s)" and "r' \<in> set (joined s)" and "lb_id (fst r) = lb_id (fst r')"
  shows "r = r'"
proof -
  have "distinct (map (lb_id \<circ> fst) (joined s))" using assms(1) by (auto simp: sound_stock_def joined_ids)
  then have "inj_on (lb_id \<circ> fst) (set (joined s))" by (simp add: distinct_map)
  then show ?thesis by (rule inj_onD) (use assms(2-4) in simp_all)
qed

lemma layers_elsewhere:
  assumes "sound_stock s" and "at_scale 6 q" and "(org', i', w') \<noteq> (org, i, w)"
  shows "layer_rows org' i' (Some w') (snd (snd (consume_layers (layer_rows org i (Some w) s) q c u s)))
    = layer_rows org' i' (Some w') s"
proof -
  let ?rows = "layer_rows org i (Some w) s" and ?other = "layer_rows org' i' (Some w') s"
  have "replace_by (drained ?rows q) (fst r) = fst r" if r: "r \<in> set ?other" for r
  proof (rule replace_by_other, rule notI)
    assume "lb_id (fst r) \<in> (lb_id \<circ> fst) ` set (drained ?rows q)"
    then have "lb_id (fst r) \<in> set (map (lb_id \<circ> fst) ?rows)" unfolding drained_ids [of ?rows q, symmetric] by simp
    then obtain r' where r': "r' \<in> set ?rows" "lb_id (fst r) = lb_id (fst r')" by auto
    then have "r = r'" using r layer_rows_facts(3) [OF assms(1)] by (intro same_lot [OF assms(1)]) auto
    then show False using r r'(1) assms(3) layer_rows_facts(3) [OF assms(1)] by (auto simp: layer_of_def)
  qed
  then have "map (\<lambda>r. (replace_by (drained ?rows q) (fst r), snd r)) ?other = ?other" by (simp add: map_idI)
  moreover have "filter (layer_of org' i' (Some w')) ?other = ?other"
    using layer_rows_facts(3) [OF assms(1)] by (intro filter_True) auto
  ultimately show ?thesis using layers_after [OF assms(1,2), of org' i' "Some w'" org i w c u] by simp
qed

lemma inventory_totals:
  "fi_total_quantity (get_fifo_inventory org i w s) = (\<Sum>r\<leftarrow>layer_rows org i w s. lb_on_hand (fst r))"
  "fi_total_cost (get_fifo_inventory org i w s) = (\<Sum>r\<leftarrow>layer_rows org i w s. lb_on_hand (fst r) * lo_unit_cost (snd r))"
  "map (\<lambda>l. (fl_quantity l, fl_unit_cost l)) (fi_layers (get_fifo_inventory org i w s)) = map terms_of (layer_rows org i w s)"
  by (simp_all add: get_fifo_inventory_def Let_def fifo_layer_of_def terms_of_def o_def)

lemma same_layers: "layer_rows org i w s' = layer_rows org i w s \<Longrightarrow> get_fifo_inventory org i w s' = get_fifo_inventory org i w s"
  unfolding get_fifo_inventory_def by (rule arg_cong)

lemma sum_positive_part:
  assumes "\<forall>r \<in> set rows. 0 \<le> lb_on_hand (fst r)"
  shows "(\<Sum>r\<leftarrow>filter (\<lambda>r. 0 < lb_on_hand (fst r)) rows. lb_on_hand (fst r) * f (snd r)) = (\<Sum>r\<leftarrow>rows. lb_on_hand (fst r) * f (snd r))"
  using assms by (induction rows) auto

lemma uses_of_consumption:
  "(\<Sum>u\<leftarrow>fst (snd (consume_layers rows q c us s)). lu_total_cost u) - fst (consume_layers rows q c us s) = (\<Sum>u\<leftarrow>us. lu_total_cost u) - c"
  by (induction rows q c us s rule: consume_layers.induct) (simp_all add: Let_def use_of_def)

lemma sorted_layers: "sorted (map fl_date (fi_layers (get_fifo_inventory org i w s)))"
  by (simp add: get_fifo_inventory_def Let_def layer_rows_def fifo_layer_of_def o_def)

lemma consumption_totals:
  assumes "sound_stock s" and "at_scale 6 q" and "0 \<le> q" and "consume_inventory_fifo org i q w s = (Inr r, s')"
  shows "fi_total_quantity (get_fifo_inventory org i (Some w) s') = fi_total_quantity (get_fifo_inventory org i (Some w) s) - q"
    and "fi_total_cost (get_fifo_inventory org i (Some w) s') = fi_total_cost (get_fifo_inventory org i (Some w) s) - cr_total_cost r"
    and "cr_total_cost r = fifo_cost (map terms_of (layer_rows org i (Some w) s)) q"
proof -
  let ?rows = "layer_rows org i (Some w) s"
  note r = consumed [OF assms(4)]
  have sound: "\<forall>r \<in> set ?rows. 0 < lb_on_hand (fst r) \<and> at_scale 6 (lb_on_hand (fst r)) \<and> lb_is_active (fst r)"
    using layer_row_sound [OF assms(1)] by blast
  then have pos: "\<forall>r \<in> set ?rows. 0 < lb_on_hand (fst r) \<and> at_scale 6 (lb_on_hand (fst r))" by blast
  have left: "layer_rows org i (Some w) s' = filter (\<lambda>r. 0 < lb_on_hand (fst r)) (drained ?rows q)"
    unfolding r(1) by (rule layers_left [OF assms(1,2)])
  have nonneg: "\<forall>r \<in> set (drained ?rows q). 0 \<le> lb_on_hand (fst r)"
    using drained_row [OF _ sound assms(2)] by blast
  note total = drained_quantity [OF pos assms(2,3) r(6)]
  show cost: "cr_total_cost r = fifo_cost (map terms_of ?rows) q"
    unfolding r(2) using consume_layers_cost [of ?rows q 0 "[]" s] pos assms(3) by simp
  show "fi_total_quantity (get_fifo_inventory org i (Some w) s') = fi_total_quantity (get_fifo_inventory org i (Some w) s) - q"
    unfolding inventory_totals left using total sum_positive_part [OF nonneg, of "\<lambda>_. 1"] by simp
  show "fi_total_cost (get_fifo_inventory org i (Some w) s') = fi_total_cost (get_fifo_inventory org i (Some w) s) - cr_total_cost r"
    unfolding inventory_totals left cost using total sum_positive_part [OF nonneg, of lo_unit_cost] by simp
qed

text \<open>C23: consuming a quantity that is not negative succeeds exactly when that much is on hand. It then costs what
  the oldest units cost (the layers are ordered by date), the costs of the layers used add up to that cost,
  the quantity and the cost of the stock fall by exactly what was taken, and the stock of every other item
  and warehouse is as before. A refusal changes nothing.\<close>

theorem fifo_consumption_exact:
  assumes "sound_stock s" and "at_scale 6 q" and "0 \<le> q" and "stock = get_fifo_inventory org i (Some w) s"
  shows "sorted (map fl_date (fi_layers stock)) \<and>
    (case consume_inventory_fifo org i q w s of
       (Inl e, s') \<Rightarrow> fi_total_quantity stock < q \<and> e = Insufficient_inventory (fi_total_quantity stock) q \<and> s' = s
     | (Inr r, s') \<Rightarrow> q \<le> fi_total_quantity stock
         \<and> cr_total_cost r = fifo_cost (map (\<lambda>l. (fl_quantity l, fl_unit_cost l)) (fi_layers stock)) q
         \<and> cr_total_cost r = (\<Sum>u\<leftarrow>cr_layers_used r. lu_total_cost u)
         \<and> fi_total_quantity (get_fifo_inventory org i (Some w) s') = fi_total_quantity stock - q
         \<and> fi_total_cost (get_fifo_inventory org i (Some w) s') = fi_total_cost stock - cr_total_cost r
         \<and> (\<forall>org' i' w'. (org', i', w') \<noteq> (org, i, w) \<longrightarrow>
             get_fifo_inventory org' i' (Some w') s' = get_fifo_inventory org' i' (Some w') s))"
proof -
  obtain res s' where run: "consume_inventory_fifo org i q w s = (res, s')" by fastforce
  show ?thesis
  proof (cases res)
    case (Inl e)
    then show ?thesis using run sorted_layers
      by (auto simp: assms(4) inventory_totals consume_inventory_fifo_def Let_def split: if_splits prod.splits)
  next
    case (Inr r)
    note run' = run [unfolded Inr]
    note r = consumed [OF run']
    have "get_fifo_inventory org' i' (Some w') s' = get_fifo_inventory org' i' (Some w') s"
      if "(org', i', w') \<noteq> (org, i, w)" for org' i' w'
      unfolding r(1) by (rule same_layers, rule layers_elsewhere [OF assms(1,2) that])
    moreover have "cr_total_cost r = (\<Sum>u\<leftarrow>cr_layers_used r. lu_total_cost u)"
      using uses_of_consumption [of "layer_rows org i (Some w) s" q 0 "[]" s] r(2,3) by simp
    ultimately show ?thesis
      using consumption_totals [OF assms(1-3) run'] r(6) sorted_layers
      unfolding run Inr assms(4) by (simp add: inventory_totals)
  qed
qed

lemma sample_lot_numbers:
  "fifo_lot_number (Date 2026 1 5) hex = ''FIFO-20260105-'' @ hex" "fifo_lot_number (Date 2026 1 9) hex = ''FIFO-20260109-'' @ hex"
  by (simp_all add: fifo_lot_number_def pad2_def digit_char_def nat_str.simps)

lemma two_layers_tables:
  "lots two_layers = [\<lparr>lo_id = 20, lo_org = 1, lo_item = 7, lo_number = ''FIFO-20260105-0000000A'',
       lo_received_date = Date 2026 1 5, lo_unit_cost = 2, lo_initial_quantity = 10\<rparr>,
     \<lparr>lo_id = 22, lo_org = 1, lo_item = 7, lo_number = ''FIFO-20260109-0000000B'',
       lo_received_date = Date 2026 1 9, lo_unit_cost = 3, lo_initial_quantity = 5\<rparr>]"
  "lot_balances two_layers = [\<lparr>lb_id = 21, lb_lot = 20, lb_warehouse = 3, lb_on_hand = 10, lb_allocated = 0, lb_available = 10,
       lb_is_active = True, lb_is_quarantined = False\<rparr>,
     \<lparr>lb_id = 23, lb_lot = 22, lb_warehouse = 3, lb_on_hand = 5, lb_allocated = 0, lb_available = 5,
       lb_is_active = True, lb_is_quarantined = False\<rparr>]"
  by (simp_all del: One_nat_def add: two_layers_def no_stock_def sample_item_def add_inventory_layer_def request_def scoped_item_def
      return_def row_simps add_row_def quantize_at_scale Let_def set_row_def joined_def stock_rows_def sample_lot_numbers)

lemma two_layers_rows:
  "map terms_of (layer_rows 1 7 (Some 3) two_layers) = [(10, 2), (5, 3)]"
  by (simp add: layer_rows_def joined_def layer_of_def two_layers_tables terms_of_def)

lemma two_layers_stock:
  "fi_total_quantity (get_fifo_inventory 1 7 (Some 3) two_layers) = 15"
  "map (\<lambda>l. (fl_quantity l, fl_unit_cost l)) (fi_layers (get_fifo_inventory 1 7 (Some 3) two_layers)) = [(10, 2), (5, 3)]"
proof -
  have "fi_total_quantity (get_fifo_inventory 1 7 (Some 3) two_layers) = sum_list (map fst (map terms_of (layer_rows 1 7 (Some 3) two_layers)))"
    by (simp add: inventory_totals terms_of_def o_def)
  then show "fi_total_quantity (get_fifo_inventory 1 7 (Some 3) two_layers) = 15" unfolding two_layers_rows by simp
qed (unfold inventory_totals two_layers_rows, rule refl)

theorem fifo_consumption_exact_witness:
  "\<exists>r s'. consume_inventory_fifo 1 7 12 3 two_layers = (Inr r, s') \<and> cr_total_cost r = 26
     \<and> fi_total_quantity (get_fifo_inventory 1 7 (Some 3) s') = 3"
proof -
  have "sound_stock two_layers" using sound_no_stock unfolding two_layers_def by (simp add: sound_serve_fifo del: serve_fifo.simps)
  note exact = fifo_consumption_exact [OF this _ _ refl, of 12 1 7 3, unfolded two_layers_stock]
  show ?thesis using exact by (auto simp del: One_nat_def split: prod.splits sum.splits)
qed

section \<open>Consumption in parts\<close>

text \<open>Draining twice, the second time the layers that are left.\<close>

abbreviation with_stock :: "(lot_balance \<times> inventory_lot) list \<Rightarrow> (lot_balance \<times> inventory_lot) list" where
  "with_stock rows \<equiv> filter (\<lambda>r. 0 < lb_on_hand (fst r)) rows"

definition full_layers :: "(lot_balance \<times> inventory_lot) list \<Rightarrow> bool" where
  "full_layers rows \<longleftrightarrow> distinct (map (lb_id \<circ> fst) rows)
     \<and> (\<forall>r \<in> set rows. 0 < lb_on_hand (fst r) \<and> at_scale 6 (lb_on_hand (fst r)))"

lemma full_layers_Cons:
  "full_layers ((b, l) # rows) \<longleftrightarrow> lb_id b \<notin> (lb_id \<circ> fst) ` set rows \<and> 0 < lb_on_hand b
     \<and> at_scale 6 (lb_on_hand b) \<and> full_layers rows"
  by (auto simp: full_layers_def)

lemma with_stock_full: "full_layers rows \<Longrightarrow> with_stock rows = rows"
  by (simp add: full_layers_def)

lemma terms_of_pair: "terms_of (b, l) = (lb_on_hand b, lo_unit_cost l)"
  by (simp add: terms_of_def)

lemma cost_in_parts:
  assumes "full_layers rows" and "at_scale 6 p" and "at_scale 6 q" and "0 \<le> p" and "0 \<le> q"
  shows "fifo_cost (map terms_of rows) (p + q)
    = fifo_cost (map terms_of rows) p + fifo_cost (map terms_of (with_stock (drained rows p))) q"
  using assms
proof (induction rows p rule: drained.induct)
  case (2 b l rows p)
  let ?t = "min (lb_on_hand b) p"
  have full: "0 < lb_on_hand b" "at_scale 6 (lb_on_hand b)" "full_layers rows"
    using "2.prems"(1) by (simp_all add: full_layers_Cons)
  have none: "fifo_cost (map terms_of rows) 0 = 0" "fifo_cost (map terms_of ((b, l) # rows)) 0 = 0"
    using full by (fastforce intro!: fifo_cost_0 simp: full_layers_def terms_of_def less_imp_le simp del: fifo_cost.simps)+
  show ?case
  proof (cases "p \<le> 0")
    case True
    then have p: "p = 0" using "2.prems"(4) by simp
    show ?thesis unfolding p drained_none [OF order_refl] with_stock_full [OF "2.prems"(1)] none(2) by simp
  next
    case False
    have t: "at_scale 6 ?t" using full(2) "2.prems"(2) by (simp add: min_def)
    note left = take_from_on_hand [OF full(2) t]
    have IH: "fifo_cost (map terms_of rows) (p - ?t + q) = fifo_cost (map terms_of rows) (p - ?t)
        + fifo_cost (map terms_of (with_stock (drained rows (p - ?t)))) q"
      by (rule "2.IH" [OF False full(3) at_scale_diff [OF "2.prems"(2) t] "2.prems"(3) _ "2.prems"(5)]) simp
    have drain: "drained ((b, l) # rows) p = (take_from ?t b, l) # drained rows (p - ?t)" using False by (simp add: Let_def)
    show ?thesis
    proof (cases "lb_on_hand b \<le> p")
      case True
      then have m: "?t = lb_on_hand b" "min (lb_on_hand b) (p + q) = lb_on_hand b" "p + q - lb_on_hand b = p - lb_on_hand b + q"
        using "2.prems"(5) by simp_all
      show ?thesis using IH left unfolding drain by (simp add: terms_of_pair m)
    next
      case False': False
      then have m: "?t = p" and on_hand: "lb_on_hand (take_from p b) = lb_on_hand b - p" using left by simp_all
      have cost: "min (lb_on_hand b) (p + q) = p + min (lb_on_hand b - p) q" by (simp add: min_def)
      have "with_stock (drained ((b, l) # rows) p) = (take_from p b, l) # rows"
        using False' on_hand full(3) unfolding drain m by (simp add: drained_none with_stock_full)
      then show ?thesis using False' none(1) by (simp add: terms_of_pair on_hand cost m algebra_simps)
    qed
  qed
qed simp

lemma replace_by_key: "lb_id (replace_by rows b) = lb_id b"
  by (induction rows) (simp_all add: replace_by_Cons)

lemma replace_by_absorb:
  assumes "(lb_id \<circ> fst) ` set rows \<subseteq> (lb_id \<circ> fst) ` set rows'"
  shows "replace_by rows' (replace_by rows b) = replace_by rows' b"
proof (cases "lb_id b \<in> (lb_id \<circ> fst) ` set rows'")
  case True
  then obtain r where "r \<in> set rows'" "lb_id (fst r) = lb_id b" by auto
  then show ?thesis using replace_by_id replace_by_key by metis
next
  case False
  then have "lb_id b \<notin> (lb_id \<circ> fst) ` set rows" using assms by blast
  then show ?thesis by (metis replace_by_other)
qed

lemma drained_id_set: "(lb_id \<circ> fst) ` set (drained rows q) = (lb_id \<circ> fst) ` set rows"
  using arg_cong [OF drained_ids [of rows q], of set] by simp

lemma balances_in_parts:
  assumes "full_layers rows" and "at_scale 6 p" and "at_scale 6 q" and "0 \<le> p" and "0 \<le> q"
  shows "replace_by (drained (with_stock (drained rows p)) q) (replace_by (drained rows p) b) = replace_by (drained rows (p + q)) b"
  using assms
proof (induction rows p rule: drained.induct)
  case (2 b0 l rows p)
  let ?t = "min (lb_on_hand b0) p" and ?rows = "(b0, l) # rows"
  have full: "0 < lb_on_hand b0" "at_scale 6 (lb_on_hand b0)" "full_layers rows" "lb_id b0 \<notin> (lb_id \<circ> fst) ` set rows"
    using "2.prems"(1) by (simp_all add: full_layers_Cons)
  have t: "at_scale 6 ?t" using full(2) "2.prems"(2) by (simp add: min_def)
  note left = take_from_on_hand [OF full(2) t]
  consider (zero) "p = 0" | (all) "0 < p" "lb_on_hand b0 \<le> p" | (part) "0 < p" "p < lb_on_hand b0"
    using "2.prems"(4) by linarith
  then show ?case
  proof cases
    case zero
    show ?thesis
      unfolding zero drained_none [OF order_refl] with_stock_full [OF "2.prems"(1)] add_0
      by (rule replace_by_absorb) (simp only: drained_id_set)
  next
    case all
    then have m: "?t = lb_on_hand b0" "min (lb_on_hand b0) (p + q) = lb_on_hand b0" "p + q - lb_on_hand b0 = p - lb_on_hand b0 + q"
      using "2.prems"(5) by simp_all
    have drain: "drained ?rows p = (take_from (lb_on_hand b0) b0, l) # drained rows (p - ?t)"
      "drained ?rows (p + q) = (take_from (lb_on_hand b0) b0, l) # drained rows (p - ?t + q)"
      using all "2.prems"(5) by (simp_all add: Let_def m)
    have "replace_by (drained (with_stock (drained rows (p - ?t))) q) (replace_by (drained rows (p - ?t)) b) = replace_by (drained rows (p - ?t + q)) b"
      using all by (intro "2.IH" [OF _ full(3) at_scale_diff [OF "2.prems"(2) t] "2.prems"(3) _ "2.prems"(5)]) simp_all
    moreover have "replace_by (drained (with_stock (drained rows (p - ?t))) q) (take_from (lb_on_hand b0) b0) = take_from (lb_on_hand b0) b0"
    proof (rule replace_by_other)
      have "(lb_id \<circ> fst) ` set (with_stock (drained rows (p - ?t))) \<subseteq> (lb_id \<circ> fst) ` set (drained rows (p - ?t))"
        by (intro image_mono) simp
      then show "lb_id (take_from (lb_on_hand b0) b0) \<notin> (lb_id \<circ> fst) ` set (drained (with_stock (drained rows (p - ?t))) q)"
        using full(4) unfolding drained_id_set take_from_frame by blast
    qed
    moreover have "with_stock (drained ?rows p) = with_stock (drained rows (p - ?t))"
      using left unfolding drain m by simp
    ultimately show ?thesis unfolding drain by (simp add: replace_by_Cons)
  next
    case part
    then have m: "?t = p" "min (lb_on_hand b0) (p + q) = p + min (lb_on_hand b0 - p) q"
      and on_hand: "lb_on_hand (take_from p b0) = lb_on_hand b0 - p" using left by (simp_all add: min_def)
    have drain: "drained ?rows p = (take_from p b0, l) # rows" using part m by (simp add: drained_none Let_def)
    have stock: "with_stock (drained ?rows p) = drained ?rows p"
      using part on_hand full(3) unfolding drain by (simp add: with_stock_full)
    have "at_scale 6 (min (lb_on_hand b0 - p) q)" using full(2) "2.prems"(2,3) by (auto simp: min_def)
    then have "take_from (min (lb_on_hand b0 - p) q) (take_from p b0) = take_from (p + min (lb_on_hand b0 - p) q) b0"
      using part "2.prems"(5) by (intro take_from_twice [OF full(2) "2.prems"(2)]) simp_all
    then have "drained (drained ?rows p) q = drained ?rows (p + q)"
      using part "2.prems"(5) unfolding drain
      by (cases "q \<le> 0") (simp_all add: Let_def on_hand m(2) drained_none algebra_simps)
    then show ?thesis unfolding stock
      by (metis replace_by_absorb drained_id_set order_refl)
  qed
qed simp

lemma full_layer_rows: "sound_stock s \<Longrightarrow> full_layers (layer_rows org i w s)"
  using layer_row_sound layer_rows_facts(1) by (auto simp: full_layers_def)

text \<open>Consuming in two parts is consuming at once: when a consumption of \<open>p\<close> and then one of \<open>q\<close> succeed, a
  single consumption of \<open>p + q\<close> succeeds too, costs as much as the two together, leaves the same stock
  remaining and the same database.\<close>

theorem consumption_in_parts:
  assumes "sound_stock s" and "at_scale 6 p" and "at_scale 6 q" and "0 \<le> p" and "0 \<le> q"
    and "consume_inventory_fifo org i p w s = (Inr r1, s1)" and "consume_inventory_fifo org i q w s1 = (Inr r2, s2)"
  shows "\<exists>r. consume_inventory_fifo org i (p + q) w s = (Inr r, s2)
    \<and> cr_total_cost r = cr_total_cost r1 + cr_total_cost r2 \<and> cr_remaining r = cr_remaining r2"
proof -
  let ?rows = "layer_rows org i (Some w) s" and ?rows1 = "layer_rows org i (Some w) s1"
  note r1 = consumed [OF assms(6)] and r2 = consumed [OF assms(7)]
  have sound1: "sound_stock s1" unfolding r1(1) by (rule sound_after_consumption [OF assms(1)])
  have left: "?rows1 = with_stock (drained ?rows p)" unfolding r1(1) by (rule layers_left [OF assms(1,2)])
  have total: "(\<Sum>r\<leftarrow>?rows1. lb_on_hand (fst r)) = (\<Sum>r\<leftarrow>?rows. lb_on_hand (fst r)) - p"
    using consumption_totals(1) [OF assms(1,2,4,6)] by (simp add: inventory_totals)
  obtain c u s' where run: "consume_layers ?rows (p + q) 0 [] s = (c, u, s')" using prod_cases3 by blast
  have s': "s' = s2"
  proof -
    have "s' = s\<lparr>lot_balances := map (replace_by (drained ?rows (p + q))) (lot_balances s)\<rparr>"
      using consume_layers_state [OF assms(1) refl, of org i "Some w" "p + q" 0 "[]"] unfolding run by simp
    also have "\<dots> = s2"
      unfolding r2(1) unfolding consume_layers_state [OF sound1 refl] unfolding left
      unfolding r1(1) consume_layers_state [OF assms(1) refl]
      by (simp add: o_def balances_in_parts [OF full_layer_rows [OF assms(1)] assms(2-5)])
    finally show ?thesis .
  qed
  have enough: "\<not> (\<Sum>r\<leftarrow>?rows. lb_on_hand (fst r)) < p + q" using r2(6) total by simp
  let ?r = "\<lparr>cr_quantity = p + q, cr_total_cost = c, cr_layers_used = u, cr_remaining = (\<Sum>r\<leftarrow>?rows. lb_on_hand (fst r)) - (p + q)\<rparr>"
  have all: "consume_inventory_fifo org i (p + q) w s = (Inr ?r, s2)"
    using enough by (simp add: consume_inventory_fifo_def Let_def run s' return_def)
  have "c = fifo_cost (map terms_of ?rows) (p + q)"
    using consumption_totals(3) [OF assms(1) at_scale_add [OF assms(2,3)] _ all] assms(4,5) by simp
  then have "c = cr_total_cost r1 + cr_total_cost r2"
    using consumption_totals(3) [OF assms(1,2,4,6)] consumption_totals(3) [OF sound1 assms(3,5,7)]
      cost_in_parts [OF full_layer_rows [OF assms(1)] assms(2-5)] unfolding left by metis
  then show ?thesis using all r2(5) total by simp
qed

theorem consumption_in_parts_witness:
  "\<exists>r r1 r2 s1 s2. consume_inventory_fifo 1 7 8 3 two_layers = (Inr r1, s1) \<and> consume_inventory_fifo 1 7 4 3 s1 = (Inr r2, s2)
     \<and> consume_inventory_fifo 1 7 (8 + 4) 3 two_layers = (Inr r, s2) \<and> cr_total_cost r = cr_total_cost r1 + cr_total_cost r2"
proof -
  have sound: "sound_stock two_layers" using sound_no_stock unfolding two_layers_def by (simp add: sound_serve_fifo del: serve_fifo.simps)
  have stock: "(\<Sum>r\<leftarrow>layer_rows 1 7 (Some 3) two_layers. lb_on_hand (fst r)) = 15"
    using two_layers_stock(1) by (simp only: inventory_totals)
  obtain r1 s1 where r1: "consume_inventory_fifo 1 7 8 3 two_layers = (Inr r1, s1)"
    using consumption_returns [of 8 1 7 3 two_layers] stock by auto
  have "fi_total_quantity (get_fifo_inventory 1 7 (Some 3) s1) = 7"
    using consumption_totals(1) [OF sound _ _ r1] two_layers_stock(1) by simp
  then have left: "(\<Sum>r\<leftarrow>layer_rows 1 7 (Some 3) s1. lb_on_hand (fst r)) = 7" by (simp only: inventory_totals)
  then obtain r2 s2 where r2: "consume_inventory_fifo 1 7 4 3 s1 = (Inr r2, s2)"
    using consumption_returns [of 4 1 7 3 s1] by auto
  show ?thesis using consumption_in_parts [OF sound _ _ _ _ r1 r2] r1 r2 by (auto simp del: One_nat_def)
qed

section \<open>Receipt and consumption\<close>

lemma received:
  assumes "add_inventory_layer org i w qty cost d hex s = (Inr u, s')"
  obtains "0 < qty" and "0 < cost" and "u = next_inv s"
    and "lots s' = lots s @ [\<lparr>lo_id = u, lo_org = org, lo_item = i, lo_number = fifo_lot_number d hex, lo_received_date = d,
       lo_unit_cost = numeric6 cost, lo_initial_quantity = numeric6 qty\<rparr>]"
    and "lot_balances s' = lot_balances s @ [\<lparr>lb_id = Suc u, lb_lot = u, lb_warehouse = w, lb_on_hand = numeric6 qty,
       lb_allocated = 0, lb_available = numeric6 qty, lb_is_active = True, lb_is_quarantined = False\<rparr>]"
proof -
  have "0 < qty" "0 < cost" using assms by (auto simp: add_inventory_layer_def not_le split: if_splits)
  moreover from this obtain it where "scoped_item org i s = Some it"
    using assms by (auto simp: add_inventory_layer_def split: option.splits)
  moreover from calculation have "\<not> (\<exists>l \<in> set (lots s). lo_item l = i \<and> lo_number l = fifo_lot_number d hex)"
    using assms by (auto simp: add_inventory_layer_def Let_def split: if_splits)
  ultimately show thesis using assms by (intro that) (auto simp: add_inventory_layer_def Let_def add_row_def split: if_splits)
qed

lemma joined_after_receipt:
  assumes "sound_stock s" and "lots s' = lots s @ [l]" and "lot_balances s' = lot_balances s @ [b]"
    and "lo_id l = next_inv s" and "lb_lot b = next_inv s"
  shows "joined s' = joined s @ [(b, l)]"
proof -
  have old: "filter (\<lambda>l'. lo_id l' = lb_lot b') (lots s') = filter (\<lambda>l'. lo_id l' = lb_lot b') (lots s)"
    if b': "b' \<in> set (lot_balances s)" for b'
  proof -
    have "lb_lot b' < next_inv s" using assms(1) b' by (auto simp: sound_stock_def)
    then show ?thesis using assms(2,4) by simp
  qed
  have new: "filter (\<lambda>l'. lo_id l' = lb_lot b) (lots s') = [l]"
    using assms by (auto simp: sound_stock_def filter_empty_conv)
  have "map (\<lambda>b. map (Pair b) (filter (\<lambda>l. lo_id l = lb_lot b) (lots s'))) (lot_balances s)
      = map (\<lambda>b. map (Pair b) (filter (\<lambda>l. lo_id l = lb_lot b) (lots s))) (lot_balances s)"
    by (rule map_cong [OF refl]) (simp add: old)
  then show ?thesis using new by (simp only: joined_def assms(3) map_append concat_append list.map concat.simps append_Nil2)
qed

lemma sum_layer_rows: "(\<Sum>r\<leftarrow>layer_rows org i w s. f r) = (\<Sum>r\<leftarrow>filter (layer_of org i w) (joined s). f r :: decimal)"
proof -
  have insort: "(\<Sum>r\<leftarrow>insort_key k x rs. f r) = f x + (\<Sum>r\<leftarrow>rs. f r)" for k :: "lot_balance \<times> inventory_lot \<Rightarrow> date" and x rs
    by (induction rs) (simp_all add: algebra_simps)
  have "(\<Sum>r\<leftarrow>sort_key k rs. f r) = (\<Sum>r\<leftarrow>rs. f r)" for k :: "lot_balance \<times> inventory_lot \<Rightarrow> date" and rs
    by (induction rs) (simp_all add: insort)
  then show ?thesis unfolding layer_rows_def .
qed

text \<open>C24: stock that is received can be consumed at what it cost: a receipt adds its quantity and its cost to the
  stock, and consuming the whole stock after it succeeds, costs what the stock cost before the receipt plus
  the cost of the receipt, and leaves no layer.\<close>

theorem received_stock_comes_out:
  assumes "sound_stock s" and "at_scale 6 qty" and "add_inventory_layer org i w qty cost d hex s = (Inr u, s')"
    and "old = get_fifo_inventory org i (Some w) s"
  shows "fi_total_quantity (get_fifo_inventory org i (Some w) s') = fi_total_quantity old + qty
    \<and> (\<exists>r s''. consume_inventory_fifo org i (fi_total_quantity old + qty) w s' = (Inr r, s'')
        \<and> cr_total_cost r = fi_total_cost old + qty * numeric6 cost
        \<and> fi_layers (get_fifo_inventory org i (Some w) s'') = [])"
proof -
  obtain b l where tables: "lots s' = lots s @ [l]" "lot_balances s' = lot_balances s @ [b]"
    "lo_id l = next_inv s" "lb_lot b = next_inv s" "layer_of org i (Some w) (b, l)" "lb_on_hand b = qty" "lo_unit_cost l = numeric6 cost"
    using assms(2) by (rule_tac received [OF assms(3)]) (auto simp: layer_of_def quantize_at_scale)
  have rows: "filter (layer_of org i (Some w)) (joined s') = filter (layer_of org i (Some w)) (joined s) @ [(b, l)]"
    using joined_after_receipt [OF assms(1) tables(1-4)] tables(5) by simp
  have total: "fi_total_quantity (get_fifo_inventory org i (Some w) s') = fi_total_quantity old + qty"
    "fi_total_cost (get_fifo_inventory org i (Some w) s') = fi_total_cost old + qty * numeric6 cost"
    unfolding assms(4) inventory_totals sum_layer_rows rows using tables(6,7) by simp_all
  have sound: "sound_stock s'" by (rule sound_after_receipt [OF assms(1,3)])
  have layers: "0 < lb_on_hand (fst r) \<and> at_scale 6 (lb_on_hand (fst r))" if "sound_stock t" "r \<in> set (layer_rows org i (Some w) t)" for t r
    using layer_row_sound [OF that] by blast
  have q: "at_scale 6 (fi_total_quantity old + qty)" "0 \<le> fi_total_quantity old + qty"
    unfolding total(1) [symmetric] inventory_totals
    using layers [OF sound] by (auto intro!: at_scale_sum_list sum_list_nonneg simp: less_imp_le)
  obtain r s'' where run: "consume_inventory_fifo org i (fi_total_quantity old + qty) w s' = (Inr r, s'')"
    using consumption_returns [of "fi_total_quantity old + qty" org i w s'] total(1) by (auto simp: inventory_totals)
  note left = consumption_totals(1,2) [OF sound q run]
  have "sound_stock s''" unfolding consumed(1) [OF run] by (rule sound_after_consumption [OF sound])
  then have pos: "\<forall>r \<in> set (layer_rows org i (Some w) s''). 0 < lb_on_hand (fst r)" using layers by blast
  have "(\<Sum>r\<leftarrow>layer_rows org i (Some w) s''. lb_on_hand (fst r)) = 0" using left(1) total(1) by (simp add: inventory_totals)
  then have "\<forall>r \<in> set (layer_rows org i (Some w) s''). lb_on_hand (fst r) = 0"
    using pos by (subst (asm) sum_list_nonneg_eq_0_iff) (auto simp: less_imp_le)
  then have none: "layer_rows org i (Some w) s'' = []" using pos by (cases "layer_rows org i (Some w) s''") auto
  then have "fi_total_cost (get_fifo_inventory org i (Some w) s'') = 0" by (simp add: inventory_totals)
  then have "cr_total_cost r = fi_total_cost old + qty * numeric6 cost" using left(2) total(2) by simp
  moreover have "fi_layers (get_fifo_inventory org i (Some w) s'') = []" using none by (simp add: get_fifo_inventory_def Let_def)
  ultimately show ?thesis using run total(1) by blast
qed

theorem received_stock_comes_out_witness:
  "\<exists>u s' r s''. add_inventory_layer 1 7 3 4 (5 / 2) (Date 2026 1 5) ''0000000C'' two_layers = (Inr u, s')
     \<and> consume_inventory_fifo 1 7 (15 + 4) 3 s' = (Inr r, s'') \<and> fi_layers (get_fifo_inventory 1 7 (Some 3) s'') = []"
proof -
  have sound: "sound_stock two_layers" using sound_no_stock unfolding two_layers_def by (simp add: sound_serve_fifo del: serve_fifo.simps)
  have "scoped_item 1 7 two_layers \<noteq> None"
    by (simp del: One_nat_def add: two_layers_def no_stock_def sample_item_def add_inventory_layer_def request_def scoped_item_def
      return_def row_simps add_row_def quantize_at_scale Let_def set_row_def joined_def stock_rows_def sample_lot_numbers)
  then have "\<exists>u s'. add_inventory_layer 1 7 3 4 (5 / 2) (Date 2026 1 5) ''0000000C'' two_layers = (Inr u, s')"
    by (auto simp del: One_nat_def simp: add_inventory_layer_def Let_def two_layers_tables sample_lot_numbers)
  then show ?thesis using received_stock_comes_out [OF sound _ _ refl, of 4 1 7 3] two_layers_stock(1) by (fastforce simp del: One_nat_def)
qed

end
