(* ===== verification/Wac_Valuation.thy ===== *)
theory Wac_Valuation
  imports Inventory_Model
begin

text \<open>
  Weighted-average costing: \<open>app/services/inventory/wac_valuation.py\<close>, and the part of
  \<open>InventoryTransactionService.create_receipt\<close> and \<open>create_issue\<close> (\<open>transaction.py\<close>) that a
  weighted-average item without lots and serial numbers takes, with real-time posting to the
  general ledger switched off.
\<close>

record wac_snapshot =
  sn_quantity :: decimal
  sn_wac :: decimal
  sn_total_value :: decimal

record wac_result =
  wr_previous_wac :: decimal
  wr_new_wac :: decimal
  wr_unit_cost :: decimal
  wr_total_cost :: decimal
  wr_new_quantity :: decimal
  wr_new_value :: decimal

section \<open>The ledger\<close>

definition ledger_at :: "uuid \<Rightarrow> uuid \<Rightarrow> uuid \<Rightarrow> wac_ledger \<Rightarrow> bool" where
  "ledger_at org i w l \<longleftrightarrow> wl_org l = org \<and> wl_item l = i \<and> wl_warehouse l = w"

definition find_ledger :: "uuid \<Rightarrow> uuid \<Rightarrow> uuid \<Rightarrow> inv_db \<Rightarrow> wac_ledger option" where
  "find_ledger org i w s = find (ledger_at org i w) (wac_ledgers s)"

definition get_or_create_ledger :: "uuid \<Rightarrow> uuid \<Rightarrow> uuid \<Rightarrow> inv_db \<Rightarrow> inv_db" where
  "get_or_create_ledger org i w s = (case find_ledger org i w s of Some _ \<Rightarrow> s
     | None \<Rightarrow> s\<lparr>wac_ledgers := add_row \<lparr>wl_org = org, wl_item = i, wl_warehouse = w, wl_current_wac = 0,
         wl_quantity = 0, wl_total_value = 0, wl_last_transaction = None\<rparr> (wac_ledgers s)\<rparr>)"

definition write_ledger :: "uuid \<Rightarrow> uuid \<Rightarrow> uuid \<Rightarrow> decimal \<Rightarrow> decimal \<Rightarrow> decimal \<Rightarrow> inv_db \<Rightarrow> inv_db" where
  "write_ledger org i w wac qty value s = (let s' = get_or_create_ledger org i w s in
     s'\<lparr>wac_ledgers := map (\<lambda>l. if ledger_at org i w l then l\<lparr>wl_current_wac := numeric6 wac,
       wl_quantity := numeric6 qty, wl_total_value := numeric6 value\<rparr> else l) (wac_ledgers s')\<rparr>)"

definition write_last :: "uuid \<Rightarrow> uuid \<Rightarrow> uuid \<Rightarrow> uuid option \<Rightarrow> inv_db \<Rightarrow> inv_db" where
  "write_last org i w t s = s\<lparr>wac_ledgers := map (\<lambda>l. if ledger_at org i w l then l\<lparr>wl_last_transaction := t\<rparr>
     else l) (wac_ledgers s)\<rparr>"

section \<open>The snapshot\<close>

definition rebuild_snapshot_from_transactions :: "uuid \<Rightarrow> uuid \<Rightarrow> uuid \<Rightarrow> inv_db \<Rightarrow> wac_snapshot \<times> inv_db" where
  "rebuild_snapshot_from_transactions org i w s = (let qty = get_current_balance org i w s in
     if qty \<le> 0 then (\<lparr>sn_quantity = 0, sn_wac = 0, sn_total_value = 0\<rparr>, s)
     else let wac = (case get_row it_id i (items s) of Some r \<Rightarrow> or_zero (it_average_cost r) | None \<Rightarrow> 0);
              total = numeric6 (qty * wac)
       in (\<lparr>sn_quantity = qty, sn_wac = wac, sn_total_value = total\<rparr>, write_ledger org i w wac qty total s))"

definition get_snapshot :: "uuid \<Rightarrow> uuid \<Rightarrow> uuid \<Rightarrow> inv_db \<Rightarrow> wac_snapshot \<times> inv_db" where
  "get_snapshot org i w s = (case find_ledger org i w s of
     None \<Rightarrow> rebuild_snapshot_from_transactions org i w s
   | Some l \<Rightarrow> (\<lparr>sn_quantity = wl_quantity l, sn_wac = wl_current_wac l, sn_total_value = wl_total_value l\<rparr>, s))"

section \<open>Receipts and issues\<close>

datatype wac_error = Wac_receipt_not_positive | Wac_negative_cost | Wac_issue_not_positive
  | Wac_insufficient decimal decimal

definition calculate_receipt_cost :: "uuid \<Rightarrow> uuid \<Rightarrow> uuid \<Rightarrow> decimal \<Rightarrow> decimal \<Rightarrow> inv_db
    \<Rightarrow> (wac_error, wac_result, inv_db) tx" where
  "calculate_receipt_cost org i w qty cost s = (let (current, s1) = get_snapshot org i w s in
     if qty \<le> 0 then raise Wac_receipt_not_positive s1
     else if cost < 0 then raise Wac_negative_cost s1
     else let total = qty * cost;
              new_qty = sn_quantity current + qty;
              new_wac = (if new_qty = 0 then 0 else numeric6 (dec_div (sn_total_value current + total) new_qty))
       in return \<lparr>wr_previous_wac = sn_wac current, wr_new_wac = new_wac, wr_unit_cost = cost, wr_total_cost = total,
            wr_new_quantity = new_qty, wr_new_value = numeric6 (new_qty * new_wac)\<rparr> s1)"

definition calculate_issue_cost :: "uuid \<Rightarrow> uuid \<Rightarrow> uuid \<Rightarrow> decimal \<Rightarrow> inv_db
    \<Rightarrow> (wac_error, wac_result, inv_db) tx" where
  "calculate_issue_cost org i w qty s = (let (current, s1) = get_snapshot org i w s in
     if qty \<le> 0 then raise Wac_issue_not_positive s1
     else if sn_quantity current < qty then raise (Wac_insufficient (sn_quantity current) qty) s1
     else let new_qty = sn_quantity current - qty
       in return \<lparr>wr_previous_wac = sn_wac current, wr_new_wac = sn_wac current, wr_unit_cost = sn_wac current,
            wr_total_cost = numeric6 (qty * sn_wac current), wr_new_quantity = new_qty,
            wr_new_value = numeric6 (new_qty * sn_wac current)\<rparr> s1)"

definition apply_result :: "uuid \<Rightarrow> uuid \<Rightarrow> uuid \<Rightarrow> uuid option \<Rightarrow> wac_result \<Rightarrow> inv_db
    \<Rightarrow> (wac_error, wac_result, inv_db) tx" where
  "apply_result org i w t r s = return r (write_last org i w t
     (write_ledger org i w (wr_new_wac r) (wr_new_quantity r) (wr_new_value r) s))"

definition apply_receipt :: "uuid \<Rightarrow> uuid \<Rightarrow> uuid \<Rightarrow> decimal \<Rightarrow> decimal \<Rightarrow> uuid option \<Rightarrow> inv_db
    \<Rightarrow> (wac_error, wac_result, inv_db) tx" where
  "apply_receipt org i w qty cost t s =
     bind_tx (calculate_receipt_cost org i w qty cost s) (apply_result org i w t)"

definition apply_issue :: "uuid \<Rightarrow> uuid \<Rightarrow> uuid \<Rightarrow> decimal \<Rightarrow> uuid option \<Rightarrow> inv_db
    \<Rightarrow> (wac_error, wac_result, inv_db) tx" where
  "apply_issue org i w qty t s =
     bind_tx (calculate_issue_cost org i w qty s) (apply_result org i w t)"

section \<open>The movements of a weighted-average item\<close>

text \<open>The movement row, then its flush, then the ledger. \<open>create_receipt\<close> first, up to the flush.\<close>

definition insert_movement :: "transaction_type \<Rightarrow> uuid \<Rightarrow> uuid \<Rightarrow> uuid \<Rightarrow> timestamp \<Rightarrow> decimal \<Rightarrow> decimal \<Rightarrow> decimal
    \<Rightarrow> string option \<Rightarrow> decimal \<Rightarrow> inv_db \<Rightarrow> inv_db" where
  "insert_movement type org i w moved_at qty cost after ref before s = s\<lparr>inv_transactions := add_row
       \<lparr>tx_id = next_inv s, tx_org = org, tx_type = type, tx_date = moved_at, tx_item = i, tx_warehouse = w,
        tx_quantity = numeric6 qty, tx_unit_cost = numeric6 cost, tx_total_cost = numeric6 (qty * cost),
        tx_quantity_before = numeric6 before, tx_quantity_after = numeric6 after, tx_reference = ref\<rparr> (inv_transactions s),
     next_inv := Suc (next_inv s)\<rparr>"

text \<open>The fallback \<open>calculate_weighted_average_cost\<close> when the ledger refuses the receipt.\<close>

definition calculate_weighted_average_cost :: "uuid \<Rightarrow> uuid \<Rightarrow> uuid \<Rightarrow> decimal \<Rightarrow> decimal \<Rightarrow> inv_db \<Rightarrow> decimal" where
  "calculate_weighted_average_cost org i w qty cost s = (case get_row it_id i (items s) of None \<Rightarrow> cost
     | Some r \<Rightarrow> let current = get_current_balance org i w s; total = current + qty
         in if total \<le> 0 then cost
            else numeric6 (dec_div (current * or_zero (it_average_cost r) + qty * cost) total))"

definition receive_weighted_average :: "transaction_type \<Rightarrow> uuid \<Rightarrow> uuid \<Rightarrow> uuid \<Rightarrow> timestamp \<Rightarrow> decimal \<Rightarrow> decimal
    \<Rightarrow> string option \<Rightarrow> inv_db \<Rightarrow> (inv_error, uuid, inv_db) tx" where
  "receive_weighted_average type org i w moved_at qty cost ref s =
    (if qty \<le> 0 then raise Receipt_quantity_not_positive s
     else case scoped_item org i s of None \<Rightarrow> raise Item_not_found s
     | Some _ \<Rightarrow> (case scoped_warehouse org w s of None \<Rightarrow> raise Warehouse_not_found s
       | Some wh \<Rightarrow> if \<not> wh_is_receiving wh then raise Warehouse_not_receiving s
           else let before = get_current_balance org i w s;
                    s1 = set_item i (\<lambda>r. r\<lparr>it_last_purchase_cost := Some (numeric6 cost)\<rparr>)
                      (insert_movement type org i w moved_at qty cost (before + qty) ref before s)
             in (case apply_receipt org i w qty cost (Some (next_inv s)) s1 of
                 (Inr r, s2) \<Rightarrow> return (next_inv s) (set_item i (\<lambda>r'. r'\<lparr>it_average_cost := Some (numeric6 (wr_new_wac r))\<rparr>) s2)
               | (Inl _, s2) \<Rightarrow> return (next_inv s) (set_item i (\<lambda>r'. r'\<lparr>it_average_cost :=
                   Some (calculate_weighted_average_cost org i w qty cost s2)\<rparr>) s2))))"

definition issue_weighted_average :: "transaction_type \<Rightarrow> uuid \<Rightarrow> uuid \<Rightarrow> uuid \<Rightarrow> timestamp \<Rightarrow> decimal
    \<Rightarrow> string option \<Rightarrow> inv_db \<Rightarrow> (inv_error, uuid, inv_db) tx" where
  "issue_weighted_average type org i w moved_at qty ref s =
    (if qty \<le> 0 then raise Issue_quantity_not_positive s
     else case scoped_item org i s of None \<Rightarrow> raise Item_not_found s
     | Some item \<Rightarrow> (case scoped_warehouse org w s of None \<Rightarrow> raise Warehouse_not_found s
       | Some wh \<Rightarrow> if \<not> wh_is_active wh then raise Warehouse_not_active s
           else if \<not> wh_is_shipping wh then raise Warehouse_not_shipping s
           else let before = get_current_balance org i w s in
             if before < qty then raise (Insufficient_inventory before qty) s
             else let s1 = insert_movement type org i w moved_at qty (or_zero (it_average_cost item)) (before - qty) ref before s
               in (case apply_issue org i w qty (Some (next_inv s)) s1 of
                   (Inr r, s2) \<Rightarrow> return (next_inv s) (set_item i (\<lambda>r'. r'\<lparr>it_average_cost := Some (numeric6 (wr_new_wac r))\<rparr>) s2)
                 | (Inl _, s2) \<Rightarrow> return (next_inv s) s2)))"

section \<open>Replaying the movements\<close>

record wac_state =
  ws_quantity :: decimal
  ws_wac :: decimal
  ws_total_value :: decimal
  ws_last :: uuid
  ws_count :: nat

definition signed_quantity_delta :: "inventory_transaction \<Rightarrow> decimal" where
  "signed_quantity_delta x = (let delta = tx_quantity_after x - tx_quantity_before x in
     if delta \<noteq> 0 then delta
     else if tx_type x \<in> set [TX_ISSUE, TX_SALE, TX_SCRAP, TX_DISASSEMBLY] then - \<bar>tx_quantity x\<bar>
     else tx_quantity x)"

definition rebuild_value_delta :: "inventory_transaction \<Rightarrow> decimal \<Rightarrow> decimal" where
  "rebuild_value_delta x delta = (if delta < 0 then - \<bar>tx_total_cost x\<bar> else tx_total_cost x)"

definition rebuild_outbound_value_delta :: "inventory_transaction \<Rightarrow> decimal \<Rightarrow> decimal \<Rightarrow> decimal" where
  "rebuild_outbound_value_delta x out wac =
    (if tx_total_cost x \<noteq> 0 then - \<bar>tx_total_cost x\<bar> else - numeric6 (out * wac))"

definition is_revaluation :: "inventory_transaction \<Rightarrow> bool" where
  "is_revaluation x \<longleftrightarrow> tx_type x \<in> set [TX_ADJUSTMENT, TX_COUNT_ADJUSTMENT] \<and> tx_total_cost x \<noteq> 0
     \<and> 0 < tx_quantity_after x"

definition rebuild_step :: "wac_state \<Rightarrow> inventory_transaction \<Rightarrow> wac_state" where
  "rebuild_step st x = (let delta = signed_quantity_delta x;
       st' = (if 0 < delta then
           (let new_qty = ws_quantity st + delta; new_total = ws_total_value st + rebuild_value_delta x delta
            in st\<lparr>ws_quantity := new_qty, ws_total_value := numeric6 new_total,
                 ws_wac := (if 0 < new_qty then numeric6 (dec_div new_total new_qty) else 0)\<rparr>)
         else if delta < 0 then
           (let out = min \<bar>delta\<bar> (ws_quantity st); new_qty = ws_quantity st - out;
                new_total = ws_total_value st + rebuild_outbound_value_delta x out (ws_wac st)
            in if new_qty \<le> 0 then st\<lparr>ws_quantity := 0, ws_total_value := 0, ws_wac := 0\<rparr>
               else st\<lparr>ws_quantity := numeric6 new_qty, ws_total_value := numeric6 new_total,
                 ws_wac := numeric6 (dec_div new_total new_qty)\<rparr>)
         else if is_revaluation x then
           st\<lparr>ws_quantity := numeric6 (tx_quantity_after x), ws_total_value := numeric6 (tx_total_cost x),
              ws_wac := numeric6 (dec_div (tx_total_cost x) (tx_quantity_after x))\<rparr>
         else st)
     in st'\<lparr>ws_last := tx_id x, ws_count := Suc (ws_count st)\<rparr>)"

text \<open>The dictionary of snapshots, in insertion order.\<close>

type_synonym wac_key = "uuid \<times> uuid \<times> uuid"

definition key_of :: "inventory_transaction \<Rightarrow> wac_key" where
  "key_of x = (tx_org x, tx_item x, tx_warehouse x)"

fun update_snapshot :: "inventory_transaction \<Rightarrow> (wac_key \<times> wac_state) list \<Rightarrow> (wac_key \<times> wac_state) list" where
  "update_snapshot x [] = [(key_of x, rebuild_step \<lparr>ws_quantity = 0, ws_wac = 0, ws_total_value = 0,
     ws_last = tx_id x, ws_count = 0\<rparr> x)]"
| "update_snapshot x ((k, st) # rest) = (if k = key_of x then (k, rebuild_step st x) # rest
     else (k, st) # update_snapshot x rest)"

fun build_rebuild_rows :: "(inventory_transaction \<times> costing_method) list \<Rightarrow> (wac_key \<times> wac_state) list
    \<Rightarrow> (wac_key \<times> wac_state) list" where
  "build_rebuild_rows [] snapshots = snapshots"
| "build_rebuild_rows ((x, m) # rows) snapshots =
     build_rebuild_rows rows (if m = CM_WEIGHTED_AVERAGE then update_snapshot x snapshots else snapshots)"

record wac_breakdown_row =
  br_transaction :: uuid
  br_date :: timestamp
  br_type :: transaction_type
  br_reference :: "string option"
  br_quantity_in :: decimal
  br_quantity_out :: decimal
  br_unit_cost :: decimal
  br_value_in :: decimal
  br_value_out :: decimal
  br_quantity_after :: decimal
  br_wac_after :: decimal
  br_total_value_after :: decimal

text \<open>The running quantity, average and value of the trail, and the row they give.\<close>

definition breakdown_step :: "decimal \<times> decimal \<times> decimal \<Rightarrow> inventory_transaction \<Rightarrow> wac_breakdown_row" where
  "breakdown_step st x = (case st of (qty, wac, value) \<Rightarrow>
     let delta = signed_quantity_delta x;
         row = (\<lambda>q_in q_out v_in v_out q w v. \<lparr>br_transaction = tx_id x, br_date = tx_date x, br_type = tx_type x,
           br_reference = tx_reference x, br_quantity_in = q_in, br_quantity_out = q_out, br_unit_cost = tx_unit_cost x,
           br_value_in = numeric6 v_in, br_value_out = numeric6 v_out, br_quantity_after = q, br_wac_after = w,
           br_total_value_after = v\<rparr>)
     in if 0 < delta then
          (let v_in = rebuild_value_delta x delta; new_qty = qty + delta; new_total = value + v_in
           in row delta 0 v_in 0 (numeric6 new_qty)
                (if 0 < new_qty then numeric6 (dec_div new_total new_qty) else 0) (numeric6 new_total))
        else if delta < 0 then
          (let out = min \<bar>delta\<bar> qty; v_out = \<bar>rebuild_outbound_value_delta x out wac\<bar>;
               new_qty = qty - out; new_total = value - v_out
           in if new_qty \<le> 0 then row 0 out 0 v_out 0 0 0
              else row 0 out 0 v_out (numeric6 new_qty)
                (numeric6 (dec_div (numeric6 new_total) (numeric6 new_qty))) (numeric6 new_total))
        else if is_revaluation x then
          row 0 0 (numeric6 (tx_total_cost x)) 0 (numeric6 (tx_quantity_after x))
            (numeric6 (dec_div (tx_total_cost x) (tx_quantity_after x))) (numeric6 (tx_total_cost x))
        else row 0 0 0 0 qty wac value)"

fun build_breakdown_rows :: "(inventory_transaction \<times> costing_method) list \<Rightarrow> decimal \<times> decimal \<times> decimal
    \<Rightarrow> wac_breakdown_row list" where
  "build_breakdown_rows [] st = []"
| "build_breakdown_rows ((x, m) # rows) st = (if m \<noteq> CM_WEIGHTED_AVERAGE then build_breakdown_rows rows st
     else let r = breakdown_step st x
       in r # build_breakdown_rows rows (br_quantity_after r, br_wac_after r, br_total_value_after r))"

text \<open>
  The trail of one item in a warehouse. The query takes its weighted-average movements in the order of the
  replay and stops at the limit, of which the caller gets at least 1 and at most 1000 rows, 250 by default.
\<close>

definition movements_of :: "wac_key \<Rightarrow> (inventory_transaction \<times> costing_method) list
    \<Rightarrow> (inventory_transaction \<times> costing_method) list" where
  "movements_of k rows = filter (\<lambda>(x, m). key_of x = k \<and> m = CM_WEIGHTED_AVERAGE) rows"

definition trail_limit :: "int \<Rightarrow> nat" where
  "trail_limit limit = nat (max 1 (min limit 1000))"

definition breakdown_rows :: "uuid \<Rightarrow> uuid \<Rightarrow> uuid \<Rightarrow> int \<Rightarrow> (inventory_transaction \<times> costing_method) list
    \<Rightarrow> wac_breakdown_row list" where
  "breakdown_rows org i w limit rows
     = build_breakdown_rows (take (trail_limit limit) (movements_of (org, i, w) rows)) (0, 0, 0)"

text \<open>The ledger rows written from a replay.\<close>

fun persist_rows :: "(wac_key \<times> wac_state) list \<Rightarrow> inv_db \<Rightarrow> inv_db" where
  "persist_rows [] s = s"
| "persist_rows (((org, i, w), st) # rows) s = persist_rows rows (write_last org i w (Some (ws_last st))
     (write_ledger org i w (ws_wac st) (ws_quantity st) (ws_total_value st) s))"

definition selected :: "'a option \<Rightarrow> 'a \<Rightarrow> bool" where
  "selected v x \<longleftrightarrow> (case v of None \<Rightarrow> True | Some y \<Rightarrow> x = y)"

text \<open>The rows of the query are an argument: their order needs the source's synchronisation table.\<close>

definition rebuild_ledger_from_transactions :: "(inventory_transaction \<times> costing_method) list \<Rightarrow> uuid option
    \<Rightarrow> uuid option \<Rightarrow> uuid option \<Rightarrow> bool \<Rightarrow> bool \<Rightarrow> inv_db \<Rightarrow> (nat \<times> nat \<times> nat) \<times> inv_db" where
  "rebuild_ledger_from_transactions rows org i w persist replace_existing s =
    (let rebuilt = build_rebuild_rows rows [];
         s1 = (if persist \<and> replace_existing then s\<lparr>wac_ledgers := filter (\<lambda>l. \<not> (selected org (wl_org l)
             \<and> selected i (wl_item l) \<and> selected w (wl_warehouse l))) (wac_ledgers s)\<rparr> else s)
     in ((length rebuilt, if persist then length rebuilt else 0, \<Sum>(k, st)\<leftarrow>rebuilt. ws_count st),
         if persist then persist_rows rebuilt s1 else s1))"

end
