(* ===== verification/Wac_Properties.thy ===== *)
theory Wac_Properties
  imports Wac_Valuation
begin

text \<open>
  Weighted-average costing: the ledger rows of a rebuild against the calculation trail shown to the
  user, what a receipt does to a ledger that exists, and the first movement of an item whose ledger
  row is missing.
\<close>

section \<open>One step of the two replays\<close>

definition stored_movement :: "inventory_transaction \<Rightarrow> bool" where
  "stored_movement x \<longleftrightarrow> at_scale 6 (tx_quantity x) \<and> at_scale 6 (tx_total_cost x)
     \<and> at_scale 6 (tx_quantity_before x) \<and> at_scale 6 (tx_quantity_after x)"

definition stored_state :: "wac_state \<Rightarrow> bool" where
  "stored_state st \<longleftrightarrow> at_scale 6 (ws_quantity st) \<and> at_scale 6 (ws_total_value st) \<and> 0 \<le> ws_quantity st"

definition running :: "wac_state \<Rightarrow> decimal \<times> decimal \<times> decimal" where
  "running st = (ws_quantity st, ws_wac st, ws_total_value st)"

definition row_state :: "wac_breakdown_row \<Rightarrow> decimal \<times> decimal \<times> decimal" where
  "row_state r = (br_quantity_after r, br_wac_after r, br_total_value_after r)"

lemma at_scale_delta: "stored_movement x \<Longrightarrow> at_scale 6 (signed_quantity_delta x)"
  by (auto simp: stored_movement_def signed_quantity_delta_def Let_def intro!: at_scale_diff at_scale_uminus at_scale_abs)

lemma at_scale_outbound: "stored_movement x \<Longrightarrow> at_scale 6 (rebuild_outbound_value_delta x out wac)"
  by (auto simp: stored_movement_def rebuild_outbound_value_delta_def intro!: at_scale_uminus at_scale_abs)

lemma at_scale_inbound: "stored_movement x \<Longrightarrow> at_scale 6 (rebuild_value_delta x delta)"
  by (auto simp: stored_movement_def rebuild_value_delta_def intro!: at_scale_uminus at_scale_abs)

lemma outbound_not_positive: "0 \<le> out \<Longrightarrow> 0 \<le> wac \<Longrightarrow> rebuild_outbound_value_delta x out wac \<le> 0"
  using persisted.rnd_nonneg [of "out * wac"] by (simp add: rebuild_outbound_value_delta_def)

lemma stored_rebuild_step:
  assumes x: "stored_movement x" and st: "stored_state st"
  shows "stored_state (rebuild_step st x)"
proof -
  note scale = at_scale_delta [OF x] at_scale_outbound [OF x] at_scale_inbound [OF x]
  consider "0 < signed_quantity_delta x" | "signed_quantity_delta x < 0" | "signed_quantity_delta x = 0" by linarith
  then show ?thesis
  proof cases
    case 1
    then show ?thesis using st scale by (auto simp: rebuild_step_def stored_state_def Let_def)
  next
    case 2
    then show ?thesis using st persisted.rnd_nonneg
      by (auto simp: rebuild_step_def stored_state_def Let_def not_le)
  next
    case 3
    then show ?thesis using st x persisted.rnd_nonneg [of "tx_quantity_after x"]
      by (auto simp: rebuild_step_def stored_state_def is_revaluation_def Let_def)
  qed
qed

text \<open>A step of the rebuild and the row of the trail end in the same quantity, average and value.\<close>

lemma replay_steps_agree:
  assumes x: "stored_movement x" and st: "stored_state st" and wac: "0 \<le> ws_wac st"
  shows "row_state (breakdown_step (running st) x) = running (rebuild_step st x)"
proof -
  let ?delta = "signed_quantity_delta x"
  let ?out = "min \<bar>?delta\<bar> (ws_quantity st)"
  have q: "at_scale 6 (ws_quantity st)" "at_scale 6 (ws_total_value st)" "0 \<le> ws_quantity st"
    using st by (simp_all add: stored_state_def)
  have out: "0 \<le> ?out" "at_scale 6 ?out"
    using q at_scale_abs [OF at_scale_delta [OF x]] by (simp_all add: min_def)
  consider "0 < ?delta" | "?delta < 0" | "?delta = 0" by linarith
  then show ?thesis
  proof cases
    case 1
    have "numeric6 (ws_quantity st + ?delta) = ws_quantity st + ?delta"
      using q at_scale_delta [OF x] by (intro quantize_at_scale at_scale_add)
    then show ?thesis using 1 by (simp add: breakdown_step_def rebuild_step_def row_state_def running_def Let_def)
  next
    case 2
    let ?v = "rebuild_outbound_value_delta x ?out (ws_wac st)"
    have v: "\<bar>?v\<bar> = - ?v" using outbound_not_positive [OF out(1) wac] by simp
    have "numeric6 (ws_quantity st - ?out) = ws_quantity st - ?out"
      "numeric6 (ws_total_value st + ?v) = ws_total_value st + ?v"
      using q out(2) at_scale_outbound [OF x] by (auto intro!: quantize_at_scale)
    then show ?thesis using 2 v by (cases "ws_quantity st \<le> - ?delta") (simp_all add: min_def breakdown_step_def rebuild_step_def row_state_def running_def Let_def)
  next
    case 3
    then show ?thesis by (simp add: breakdown_step_def rebuild_step_def row_state_def running_def Let_def)
  qed
qed

lemma rebuild_step_meta [simp]:
  "ws_last (rebuild_step st x) = tx_id x" "ws_count (rebuild_step st x) = Suc (ws_count st)"
  "br_transaction (breakdown_step t x) = tx_id x"
  by (auto simp: rebuild_step_def breakdown_step_def Let_def split: prod.splits)

lemma build_breakdown_Cons:
  "build_breakdown_rows ((x, CM_WEIGHTED_AVERAGE) # rows) st
     = breakdown_step st x # build_breakdown_rows rows (row_state (breakdown_step st x))"
  by (simp add: row_state_def Let_def)

text \<open>The state \<open>st'\<close> is where a trail that starts in \<open>st\<close> ends.\<close>

definition trail_ends :: "wac_state \<Rightarrow> wac_breakdown_row list \<Rightarrow> wac_state \<Rightarrow> bool" where
  "trail_ends st trail st' \<longleftrightarrow> stored_state st' \<and> ws_count st' = ws_count st + length trail
     \<and> (if trail = [] then st' = st
        else running st' = row_state (last trail) \<and> ws_last st' = br_transaction (last trail))"

lemma trail_ends_Cons:
  "trail_ends (rebuild_step st x) trail st' \<Longrightarrow> row_state (breakdown_step (running st) x) = running (rebuild_step st x)
   \<Longrightarrow> trail_ends st (breakdown_step (running st) x # trail) st'"
  by (auto simp: trail_ends_def split: if_splits)

text \<open>The rest of a replay whose key has a snapshot already.\<close>

lemma replays_agree_from:
  assumes "\<forall>r \<in> set rows. key_of (fst r) = k \<and> stored_movement (fst r)"
    and "stored_state st" and "0 \<le> ws_wac st"
    and "\<forall>r \<in> set (build_breakdown_rows rows (running st)). 0 \<le> br_wac_after r"
  shows "\<exists>st'. build_rebuild_rows rows [(k, st)] = [(k, st')] \<and> trail_ends st (build_breakdown_rows rows (running st)) st'"
  using assms
proof (induction rows arbitrary: st)
  case Nil
  then show ?case by (simp add: trail_ends_def)
next
  case (Cons r rows)
  obtain x m where r: "r = (x, m)" by fastforce
  show ?case
  proof (cases "m = CM_WEIGHTED_AVERAGE")
    case False
    then show ?thesis using Cons.IH [OF _ Cons.prems(2,3)] Cons.prems(1,4) r by simp
  next
    case True
    have x: "key_of x = k" "stored_movement x" using Cons.prems(1) r by auto
    let ?st = "rebuild_step st x"
    have agree: "row_state (breakdown_step (running st) x) = running ?st"
      by (rule replay_steps_agree [OF x(2) Cons.prems(2,3)])
    have trail: "build_breakdown_rows (r # rows) (running st)
        = breakdown_step (running st) x # build_breakdown_rows rows (running ?st)"
      using build_breakdown_Cons agree True r by simp
    have "0 \<le> br_wac_after (breakdown_step (running st) x)" using Cons.prems(4) trail by simp
    then have wac: "0 \<le> ws_wac ?st" using agree by (simp add: row_state_def running_def)
    have "\<exists>st'. build_rebuild_rows rows [(k, ?st)] = [(k, st')] \<and> trail_ends ?st (build_breakdown_rows rows (running ?st)) st'"
      using Cons.prems(1,4) trail stored_rebuild_step [OF x(2) Cons.prems(2)] wac by (intro Cons.IH) auto
    then show ?thesis using True r x(1) trail_ends_Cons [OF _ agree] unfolding trail by auto
  qed
qed

text \<open>Movements of items costed otherwise are passed over by both replays.\<close>

lemma replays_agree:
  assumes "\<forall>r \<in> set rows. key_of (fst r) = k \<and> stored_movement (fst r)"
    and "\<forall>r \<in> set (build_breakdown_rows rows (0, 0, 0)). 0 \<le> br_wac_after r"
    and "build_breakdown_rows rows (0, 0, 0) \<noteq> []"
  shows "\<exists>t st'. build_rebuild_rows rows [] = [(k, st')]
    \<and> trail_ends \<lparr>ws_quantity = 0, ws_wac = 0, ws_total_value = 0, ws_last = t, ws_count = 0\<rparr> (build_breakdown_rows rows (0, 0, 0)) st'"
  using assms
proof (induction rows)
  case (Cons r rows)
  obtain x m where r: "r = (x, m)" by fastforce
  show ?case
  proof (cases "m = CM_WEIGHTED_AVERAGE")
    case False
    then show ?thesis using Cons.IH Cons.prems r by simp
  next
    case True
    let ?st = "\<lparr>ws_quantity = 0, ws_wac = 0, ws_total_value = 0, ws_last = tx_id x, ws_count = 0\<rparr>"
    have st: "stored_state ?st" "running ?st = (0, 0, 0)" by (simp_all add: stored_state_def running_def)
    have k: "key_of x = k" using Cons.prems(1) r by simp
    have "\<exists>st'. build_rebuild_rows (r # rows) [(k, ?st)] = [(k, st')] \<and> trail_ends ?st (build_breakdown_rows (r # rows) (running ?st)) st'"
      by (rule replays_agree_from [OF Cons.prems(1) st(1)]) (use Cons.prems(2) st(2) in simp_all)
    moreover have "build_rebuild_rows (r # rows) [(k, ?st)] = build_rebuild_rows (r # rows) []"
      using True r k by simp
    ultimately show ?thesis unfolding st(2) by auto
  qed
qed simp

text \<open>The snapshot of a key depends on the movements of this key only.\<close>

lemma update_snapshot_key:
  "filter (\<lambda>r. fst r = k) (update_snapshot x snapshots)
    = (if key_of x = k then update_snapshot x (filter (\<lambda>r. fst r = k) snapshots) else filter (\<lambda>r. fst r = k) snapshots)"
  by (induction x snapshots rule: update_snapshot.induct) auto

lemma rebuild_rows_key:
  "filter (\<lambda>r. fst r = k) (build_rebuild_rows rows snapshots)
    = build_rebuild_rows (movements_of k rows) (filter (\<lambda>r. fst r = k) snapshots)"
  by (induction rows snapshots rule: build_rebuild_rows.induct) (simp_all add: movements_of_def update_snapshot_key)

text \<open>C25: rebuilding the ledger ends where the calculation trail ends. Take the movements of any items and warehouses as
  they are stored, in the order of the replay, and an item in a warehouse whose running average is never
  negative on the trail and which has movements, no more of them than the limit of the trail admits. Then the
  rebuild has exactly one row for it, whose quantity, weighted average, value and last
  movement are those of the last row of the trail, and the number of movements replayed is the length of the
  trail. The two replays are separate loops of the service. On a longer history the trail stops early, at
  the oldest movements.\<close>

theorem rebuild_ends_where_trail_ends:
  assumes "\<And>x m. (x, m) \<in> set rows \<Longrightarrow> stored_movement x"
    and "\<And>r. r \<in> set (breakdown_rows org i w limit rows) \<Longrightarrow> 0 \<le> br_wac_after r"
    and "movements_of (org, i, w) rows \<noteq> []" and "length (movements_of (org, i, w) rows) \<le> trail_limit limit"
  shows "\<exists>st. filter (\<lambda>r. fst r = (org, i, w)) (build_rebuild_rows rows []) = [((org, i, w), st)]
    \<and> row_state (last (breakdown_rows org i w limit rows)) = (ws_quantity st, ws_wac st, ws_total_value st)
    \<and> ws_last st = br_transaction (last (breakdown_rows org i w limit rows))
    \<and> ws_count st = length (breakdown_rows org i w limit rows) \<and> 0 \<le> ws_quantity st"
proof -
  let ?rows = "movements_of (org, i, w) rows"
  have key: "\<forall>r \<in> set ?rows. key_of (fst r) = (org, i, w) \<and> stored_movement (fst r)"
    using assms(1) by (auto simp: movements_of_def)
  have trail: "breakdown_rows org i w limit rows = build_breakdown_rows ?rows (0, 0, 0)"
    using assms(4) by (simp add: breakdown_rows_def)
  have "build_breakdown_rows ?rows (0, 0, 0) \<noteq> []"
    using assms(3) by (cases ?rows) (auto simp: movements_of_def filter_eq_Cons_iff Let_def)
  then show ?thesis
    using replays_agree [OF key] assms(2) rebuild_rows_key [of "(org, i, w)" rows "[]"] unfolding trail
    by (auto simp: trail_ends_def running_def stored_state_def)
qed

definition sample_movement :: "uuid \<Rightarrow> transaction_type \<Rightarrow> decimal \<Rightarrow> decimal \<Rightarrow> decimal \<Rightarrow> inventory_transaction" where
  "sample_movement t type before after worth = \<lparr>tx_id = t, tx_org = 1, tx_type = type, tx_date = t, tx_item = 7,
     tx_warehouse = 3, tx_quantity = \<bar>after - before\<bar>, tx_unit_cost = 0, tx_total_cost = worth,
     tx_quantity_before = before, tx_quantity_after = after, tx_reference = None\<rparr>"

definition sample_movements :: "(inventory_transaction \<times> costing_method) list" where
  "sample_movements = [(sample_movement 11 TX_RECEIPT 0 8 20, CM_WEIGHTED_AVERAGE),
     (sample_movement 12 TX_ISSUE 8 6 0, CM_WEIGHTED_AVERAGE), (sample_movement 13 TX_COUNT_ADJUSTMENT 6 6 18, CM_WEIGHTED_AVERAGE)]"

lemma sample_divisions: "dec_div 20 8 = 5 / 2" "dec_div 15 6 = 5 / 2" "dec_div 18 6 = 3"
proof -
  have "at_scale 1 (5 / 2)" unfolding at_scale_iff by (rule exI [of _ 25]) simp
  then show "dec_div 20 8 = 5 / 2" "dec_div 15 6 = 5 / 2" by (simp_all add: dec_div_def dec28_exact [of 1 _ 3])
  show "dec_div 18 6 = 3" by (simp add: dec_div_def dec28_exact [of 0 _ 3])
qed

lemma sample_rounded: "numeric6 (5 / 2) = 5 / 2"
  by (simp add: quantize_half_up_def half_up_def)

lemmas sample_step = breakdown_step_def sample_movement_def signed_quantity_delta_def rebuild_value_delta_def
  rebuild_outbound_value_delta_def is_revaluation_def sample_divisions sample_rounded quantize_at_scale

lemma sample_trail:
  "map row_state (build_breakdown_rows sample_movements (0, 0, 0)) = [(8, 5 / 2, 20), (6, 5 / 2, 15), (6, 3, 18)]"
  "map br_transaction (build_breakdown_rows sample_movements (0, 0, 0)) = [11, 12, 13]"
  by (simp_all add: sample_movements_def sample_step row_state_def)

lemma sample_breakdown:
  "movements_of (1, 7, 3) sample_movements = sample_movements"
  "breakdown_rows 1 7 3 250 sample_movements = build_breakdown_rows sample_movements (0, 0, 0)"
  by (simp_all add: movements_of_def breakdown_rows_def trail_limit_def sample_movements_def sample_movement_def key_of_def)

theorem rebuild_ends_where_trail_ends_witness:
  "\<exists>st. filter (\<lambda>r. fst r = (1, 7, 3)) (build_rebuild_rows sample_movements []) = [((1, 7, 3), st)] \<and> ws_quantity st = 6
     \<and> ws_wac st = 3 \<and> ws_total_value st = 18 \<and> ws_last st = 13 \<and> ws_count st = 3"
proof -
  let ?trail = "breakdown_rows 1 7 3 250 sample_movements"
  note trail = sample_trail [folded sample_breakdown(2)]
  have wac: "0 \<le> br_wac_after r" if "r \<in> set ?trail" for r
  proof -
    have "row_state r \<in> set [(8, 5 / 2, 20), (6, 5 / 2, 15), (6, 3, 18)]"
      unfolding trail(1) [symmetric] using that by simp
    then show ?thesis by (auto simp: row_state_def)
  qed
  have some: "?trail \<noteq> []" using trail(1) by auto
  have ends: "row_state (last ?trail) = (6, 3, 18)" "br_transaction (last ?trail) = 13"
    using trail last_map [OF some, of row_state] last_map [OF some, of br_transaction] by simp_all
  have count: "length ?trail = 3" using arg_cong [OF trail(1), of length] by simp
  have stored: "stored_movement x" if "(x, m) \<in> set sample_movements" for x m
    using that by (auto simp: sample_movements_def sample_movement_def stored_movement_def at_scale_numeral)
  have fits: "movements_of (1, 7, 3) sample_movements \<noteq> []" "length (movements_of (1, 7, 3) sample_movements) \<le> trail_limit 250"
    unfolding sample_breakdown(1) by (simp_all add: sample_movements_def trail_limit_def)
  obtain st where "filter (\<lambda>r. fst r = (1, 7, 3)) (build_rebuild_rows sample_movements []) = [((1, 7, 3), st)]"
    and "row_state (last ?trail) = (ws_quantity st, ws_wac st, ws_total_value st)" "ws_last st = br_transaction (last ?trail)"
      "ws_count st = length ?trail"
    using rebuild_ends_where_trail_ends [of sample_movements 1 7 3 250] stored wac fits by blast
  then show ?thesis unfolding ends count by (intro exI [of _ st]) simp
qed

section \<open>The ledger row of an item in a warehouse\<close>

lemma find_map_same:
  "(\<And>x. P (f x) \<longleftrightarrow> P x) \<Longrightarrow> find P (map f xs) = map_option f (find P xs)"
  by (induction xs) auto

lemma find_append: "find P (xs @ ys) = (case find P xs of Some x \<Rightarrow> Some x | None \<Rightarrow> find P ys)"
  by (induction xs) auto

lemma find_ledger_map:
  assumes "\<And>l. wl_org (f l) = wl_org l" "\<And>l. wl_item (f l) = wl_item l" "\<And>l. wl_warehouse (f l) = wl_warehouse l"
  shows "find_ledger org i w (s\<lparr>wac_ledgers := map f (wac_ledgers s)\<rparr>) = map_option f (find_ledger org i w s)"
  unfolding find_ledger_def by (simp add: find_map_same ledger_at_def assms)

lemma ledger_at_find: "find_ledger org i w s = Some l \<Longrightarrow> ledger_at org' i' w' l \<longleftrightarrow> (org', i', w') = (org, i, w)"
  by (auto simp: find_ledger_def find_Some_iff ledger_at_def)

lemma find_get_or_create:
  "find_ledger org i w (get_or_create_ledger org' i' w' s) = (case find_ledger org i w s of Some l \<Rightarrow> Some l
     | None \<Rightarrow> if (org, i, w) = (org', i', w') then Some \<lparr>wl_org = org, wl_item = i, wl_warehouse = w, wl_current_wac = 0,
         wl_quantity = 0, wl_total_value = 0, wl_last_transaction = None\<rparr> else None)"
proof (cases "find_ledger org' i' w' s")
  case None
  then show ?thesis
    by (auto simp: get_or_create_ledger_def find_ledger_def find_append add_row_def ledger_at_def split: option.splits)
qed (auto simp: get_or_create_ledger_def split: option.splits)

lemma find_write_ledger:
  "find_ledger org i w (write_ledger org' i' w' wac qty v s) =
    map_option (\<lambda>l. if ledger_at org' i' w' l then l\<lparr>wl_current_wac := numeric6 wac,
       wl_quantity := numeric6 qty, wl_total_value := numeric6 v\<rparr> else l)
      (find_ledger org i w (get_or_create_ledger org' i' w' s))"
  unfolding write_ledger_def Let_def by (rule find_ledger_map) simp_all

lemma find_write_last:
  "find_ledger org i w (write_last org' i' w' t s) =
    map_option (\<lambda>l. if ledger_at org' i' w' l then l\<lparr>wl_last_transaction := t\<rparr> else l) (find_ledger org i w s)"
  unfolding write_last_def by (rule find_ledger_map) simp_all

lemma find_ledger_at: "find_ledger org i w s = Some l \<Longrightarrow> wl_org l = org \<and> wl_item l = i \<and> wl_warehouse l = w"
  by (auto simp: find_ledger_def find_Some_iff ledger_at_def)

lemma find_written:
  "find_ledger org i w (write_last org i w t (write_ledger org i w wac qty v s)) =
     Some \<lparr>wl_org = org, wl_item = i, wl_warehouse = w, wl_current_wac = numeric6 wac,
       wl_quantity = numeric6 qty, wl_total_value = numeric6 v, wl_last_transaction = t\<rparr>"
proof (cases "find_ledger org i w s")
  case None
  then show ?thesis by (simp add: find_write_last find_write_ledger find_get_or_create ledger_at_def)
next
  case (Some l)
  then show ?thesis using find_ledger_at [OF Some]
    by (simp add: find_write_last find_write_ledger find_get_or_create ledger_at_def)
qed

lemma find_not_written:
  assumes "(org, i, w) \<noteq> (org', i', w')"
  shows "find_ledger org i w (write_last org' i' w' t (write_ledger org' i' w' wac qty v s)) = find_ledger org i w s"
    and "find_ledger org i w (write_ledger org' i' w' wac qty v s) = find_ledger org i w s"
proof -
  have "find_ledger org i w (get_or_create_ledger org' i' w' s) = find_ledger org i w s"
    using assms by (auto simp: find_get_or_create split: option.splits)
  moreover have "\<not> ledger_at org' i' w' l" if "find_ledger org i w s = Some l" for l
    using find_ledger_at [OF that] assms by (auto simp: ledger_at_def)
  ultimately show "find_ledger org i w (write_ledger org' i' w' wac qty v s) = find_ledger org i w s"
    "find_ledger org i w (write_last org' i' w' t (write_ledger org' i' w' wac qty v s)) = find_ledger org i w s"
    by (cases "find_ledger org i w s"; simp add: find_write_last find_write_ledger)+
qed

section \<open>Receipts and issues against the balance\<close>

lemma balance_insert_movement:
  "get_current_balance org i w (insert_movement type org' i' w' moved_at qty cost after ref before s) =
    get_current_balance org i w s + (if (org, i, w) = (org', i', w')
      then (if type \<in> set [TX_ISSUE, TX_SALE, TX_SCRAP, TX_DISASSEMBLY] then - numeric6 qty else numeric6 qty) else 0)"
  by (auto simp: get_current_balance_def insert_movement_def add_row_def net_quantity_def)

lemma balance_same_movements:
  "inv_transactions s' = inv_transactions s \<Longrightarrow> get_current_balance org i w s' = get_current_balance org i w s"
  by (simp add: get_current_balance_def)

lemma find_same_ledgers: "wac_ledgers s' = wac_ledgers s \<Longrightarrow> find_ledger org i w s' = find_ledger org i w s"
  by (simp add: find_ledger_def)

lemma insert_movement_frame [simp]:
  "wac_ledgers (insert_movement type org i w moved_at qty cost after ref before s) = wac_ledgers s"
  "items (insert_movement type org i w moved_at qty cost after ref before s) = items s"
  by (simp_all add: insert_movement_def)

lemma write_ledger_frame [simp]:
  "inv_transactions (write_ledger org i w wac qty v s) = inv_transactions s"
  "inv_transactions (write_last org i w t s) = inv_transactions s"
  "items (write_ledger org i w wac qty v s) = items s" "items (write_last org i w t s) = items s"
  by (simp_all add: write_ledger_def write_last_def get_or_create_ledger_def Let_def split: option.split)

definition stored_movements :: "inv_db \<Rightarrow> bool" where
  "stored_movements s \<longleftrightarrow> (\<forall>x \<in> set (inv_transactions s). at_scale 6 (tx_quantity x))"

lemma at_scale_balance: "stored_movements s \<Longrightarrow> at_scale 6 (get_current_balance org i w s)"
  unfolding get_current_balance_def stored_movements_def
  by (rule at_scale_sum_list) (auto simp: net_quantity_def at_scale_uminus)

lemma stored_insert_movement:
  "stored_movements s \<Longrightarrow> stored_movements (insert_movement type org i w moved_at qty cost after ref before s)"
  by (simp add: stored_movements_def insert_movement_def)

text \<open>The ledger row is in step with the movements.\<close>

definition in_step :: "uuid \<Rightarrow> uuid \<Rightarrow> uuid \<Rightarrow> inv_db \<Rightarrow> bool" where
  "in_step org i w s \<longleftrightarrow> (\<exists>l. find_ledger org i w s = Some l \<and> wl_quantity l = get_current_balance org i w s)"

lemma in_step_frame:
  "inv_transactions s' = inv_transactions s \<Longrightarrow> wac_ledgers s' = wac_ledgers s \<Longrightarrow> in_step org i w s' = in_step org i w s"
  unfolding in_step_def using balance_same_movements [of s' s] find_same_ledgers [of s' s] by simp

text \<open>The snapshot never changes the rows of another item or warehouse, nor the movements.\<close>

lemma get_snapshot_frame:
  assumes "get_snapshot org i w s = (sn, s')"
  shows "inv_transactions s' = inv_transactions s" and "items s' = items s"
    and "(org', i', w') \<noteq> (org, i, w) \<Longrightarrow> find_ledger org' i' w' s' = find_ledger org' i' w' s"
    and "find_ledger org i w s = Some l \<Longrightarrow> s' = s \<and> sn_quantity sn = wl_quantity l \<and> sn_wac sn = wl_current_wac l
      \<and> sn_total_value sn = wl_total_value l"
  using assms find_not_written(2) [of org' i' w' org i w]
  by (auto simp: get_snapshot_def rebuild_snapshot_from_transactions_def Let_def split: option.splits if_splits)

lemma apply_receipt_cases:
  assumes "apply_receipt org i w qty cost t s = (r, s')"
  obtains (refused) e sn where "r = Inl e" "get_snapshot org i w s = (sn, s')" "qty \<le> 0 \<or> cost < 0"
  | (applied) sn s1 wr where "r = Inr wr" "get_snapshot org i w s = (sn, s1)" "0 < qty" "0 \<le> cost"
      "s' = write_last org i w t (write_ledger org i w (wr_new_wac wr) (wr_new_quantity wr) (wr_new_value wr) s1)"
      "wr_new_quantity wr = sn_quantity sn + qty"
      "wr_new_wac wr = (if sn_quantity sn + qty = 0 then 0
         else numeric6 (dec_div (sn_total_value sn + qty * cost) (sn_quantity sn + qty)))"
proof -
  obtain sn s1 where "get_snapshot org i w s = (sn, s1)" by fastforce
  note sn = this and unfolded = assms [unfolded apply_receipt_def calculate_receipt_cost_def this, simplified]
  consider "qty \<le> 0 \<or> cost < 0" | "0 < qty" "0 \<le> cost" by linarith
  then show thesis
  proof cases
    case 1
    then obtain e where "r = Inl e" "s' = s1" using unfolded by (auto split: if_splits)
    then show thesis using refused [of e sn] sn 1 by simp
  next
    case 2
    then show thesis using unfolded sn by (intro applied [OF _ sn 2]) (auto simp: apply_result_def Let_def not_le not_less split: if_splits)
  qed
qed

lemma apply_issue_cases:
  assumes "apply_issue org i w qty t s = (r, s')"
  obtains (refused) e sn where "r = Inl e" "get_snapshot org i w s = (sn, s')" "qty \<le> 0 \<or> sn_quantity sn < qty"
  | (applied) sn s1 wr where "r = Inr wr" "get_snapshot org i w s = (sn, s1)" "0 < qty" "qty \<le> sn_quantity sn"
      "s' = write_last org i w t (write_ledger org i w (wr_new_wac wr) (wr_new_quantity wr) (wr_new_value wr) s1)"
      "wr_new_quantity wr = sn_quantity sn - qty" "wr_new_wac wr = sn_wac sn"
proof -
  obtain sn s1 where "get_snapshot org i w s = (sn, s1)" by fastforce
  note sn = this and unfolded = assms [unfolded apply_issue_def calculate_issue_cost_def this, simplified]
  consider "qty \<le> 0 \<or> sn_quantity sn < qty" | "0 < qty" "qty \<le> sn_quantity sn" by linarith
  then show thesis
  proof cases
    case 1
    then obtain e where "r = Inl e" "s' = s1" using unfolded by (auto split: if_splits)
    then show thesis using refused [of e sn] sn 1 by simp
  next
    case 2
    then show thesis using unfolded sn by (intro applied [OF _ sn 2]) (auto simp: apply_result_def Let_def not_le not_less split: if_splits)
  qed
qed

lemma apply_receipt_ledger:
  assumes "apply_receipt org i w qty cost t s = (r, s')" and "0 < qty" and "0 \<le> cost"
  shows "inv_transactions s' = inv_transactions s
    \<and> (\<forall>org' i' w'. (org', i', w') \<noteq> (org, i, w) \<longrightarrow> find_ledger org' i' w' s' = find_ledger org' i' w' s)
    \<and> (\<exists>l wr. r = Inr wr \<and> find_ledger org i w s' = Some l
      \<and> wl_quantity l = numeric6 (sn_quantity (fst (get_snapshot org i w s)) + qty))"
  using assms(1)
proof (cases rule: apply_receipt_cases)
  case (applied sn s1 wr)
  then show ?thesis using get_snapshot_frame(1,3) [OF applied(2)]
    by (simp add: find_written find_not_written(1))
qed (use assms(2,3) in simp)

lemma apply_issue_frame:
  assumes "apply_issue org i w qty t s = (r, s')"
  shows "inv_transactions s' = inv_transactions s
    \<and> (\<forall>org' i' w'. (org', i', w') \<noteq> (org, i, w) \<longrightarrow> find_ledger org' i' w' s' = find_ledger org' i' w' s)"
  using assms
proof (cases rule: apply_issue_cases)
  case (refused e sn)
  then show ?thesis using get_snapshot_frame(1,3) [OF refused(2)] by simp
next
  case (applied sn s1 wr)
  then show ?thesis using get_snapshot_frame(1,3) [OF applied(2)] by (simp add: find_not_written(1))
qed

lemma apply_issue_ledger:
  assumes "apply_issue org i w qty t s = (r, s')" and "find_ledger org i w s = Some l" and "0 < qty" and "qty \<le> wl_quantity l"
  shows "\<exists>l'. find_ledger org i w s' = Some l' \<and> wl_quantity l' = numeric6 (wl_quantity l - qty)"
  using assms(1)
proof (cases rule: apply_issue_cases)
  case (refused e sn)
  then show ?thesis using get_snapshot_frame(4) [OF refused(2) assms(2)] assms(3,4) by simp
next
  case (applied sn s1 wr)
  then show ?thesis using get_snapshot_frame(4) [OF applied(2) assms(2)] by (simp add: find_written)
qed

text \<open>Requests for movements of weighted-average items, and the types each service is called with.\<close>

datatype stock_request =
  Receive_stock transaction_type uuid uuid uuid timestamp decimal decimal "string option"
| Issue_stock transaction_type uuid uuid uuid timestamp decimal "string option"

fun serve_stock :: "stock_request \<Rightarrow> inv_db \<Rightarrow> inv_db" where
  "serve_stock (Receive_stock type org i w moved_at qty cost ref) s =
     snd (request (receive_weighted_average type org i w moved_at qty cost ref) s)"
| "serve_stock (Issue_stock type org i w moved_at qty ref) s =
     snd (request (issue_weighted_average type org i w moved_at qty ref) s)"

fun sensible :: "stock_request \<Rightarrow> bool" where
  "sensible (Receive_stock type org i w moved_at qty cost ref) \<longleftrightarrow>
     type \<notin> set [TX_ISSUE, TX_SALE, TX_SCRAP, TX_DISASSEMBLY] \<and> at_scale 6 qty \<and> 0 \<le> cost"
| "sensible (Issue_stock type org i w moved_at qty ref) \<longleftrightarrow>
     type \<in> set [TX_ISSUE, TX_SALE, TX_SCRAP, TX_DISASSEMBLY] \<and> at_scale 6 qty"

lemma receive_unfolded:
  assumes "receive_weighted_average type org i w moved_at qty cost ref s = (Inr t, s')" and "0 \<le> cost"
  obtains r s1 s2 where "0 < qty" and "s1 = set_item i (\<lambda>r. r\<lparr>it_last_purchase_cost := Some (numeric6 cost)\<rparr>)
      (insert_movement type org i w moved_at qty cost (get_current_balance org i w s + qty) ref (get_current_balance org i w s) s)"
    and "apply_receipt org i w qty cost (Some (next_inv s)) s1 = (Inr r, s2)"
    and "s' = set_item i (\<lambda>r'. r'\<lparr>it_average_cost := Some (numeric6 (wr_new_wac r))\<rparr>) s2"
proof -
  let ?s1 = "set_item i (\<lambda>r. r\<lparr>it_last_purchase_cost := Some (numeric6 cost)\<rparr>)
      (insert_movement type org i w moved_at qty cost (get_current_balance org i w s + qty) ref (get_current_balance org i w s) s)"
  obtain r s2 where r: "apply_receipt org i w qty cost (Some (next_inv s)) ?s1 = (r, s2)" by fastforce
  have q: "0 < qty" using assms(1) by (auto simp: receive_weighted_average_def not_le split: if_splits)
  obtain wr where wr: "r = Inr wr" using apply_receipt_ledger [OF r q assms(2)] by blast
  show thesis
    using assms(1) r wr
    by (intro that [OF q refl r [unfolded wr]])
      (auto simp: receive_weighted_average_def Let_def split: if_splits option.splits)
qed

lemma issue_unfolded:
  assumes "issue_weighted_average type org i w moved_at qty ref s = (Inr t, s')"
  obtains cost r s1 s2 where "0 < qty" and "qty \<le> get_current_balance org i w s"
    and "s1 = insert_movement type org i w moved_at qty cost (get_current_balance org i w s - qty) ref (get_current_balance org i w s) s"
    and "apply_issue org i w qty (Some (next_inv s)) s1 = (r, s2)"
    and "inv_transactions s' = inv_transactions s2" and "wac_ledgers s' = wac_ledgers s2"
  using assms
  by (auto simp: issue_weighted_average_def Let_def not_le not_less split: if_splits option.splits prod.splits sum.splits)

lemma received_stock:
  assumes "receive_weighted_average type org i w moved_at qty cost ref s = (Inr t, s')"
    and "type \<notin> set [TX_ISSUE, TX_SALE, TX_SCRAP, TX_DISASSEMBLY]" and "at_scale 6 qty" and "0 \<le> cost"
  shows "get_current_balance org' i' w' s' = get_current_balance org' i' w' s + (if (org', i', w') = (org, i, w) then qty else 0)"
    and "(org', i', w') \<noteq> (org, i, w) \<Longrightarrow> find_ledger org' i' w' s' = find_ledger org' i' w' s"
    and "find_ledger org i w s = Some l \<Longrightarrow> \<exists>l'. find_ledger org i w s' = Some l' \<and> wl_quantity l' = numeric6 (wl_quantity l + qty)"
    and "find_ledger org i w s = None \<Longrightarrow> 0 \<le> get_current_balance org i w s \<Longrightarrow>
      \<exists>l'. find_ledger org i w s' = Some l' \<and> wl_quantity l' = numeric6 (get_current_balance org i w s + qty + qty)"
    and "stored_movements s \<Longrightarrow> stored_movements s'"
proof -
  obtain r s1 s2 where u: "0 < qty" "s1 = set_item i (\<lambda>r. r\<lparr>it_last_purchase_cost := Some (numeric6 cost)\<rparr>)
      (insert_movement type org i w moved_at qty cost (get_current_balance org i w s + qty) ref (get_current_balance org i w s) s)"
    "apply_receipt org i w qty cost (Some (next_inv s)) s1 = (Inr r, s2)"
    "s' = set_item i (\<lambda>r'. r'\<lparr>it_average_cost := Some (numeric6 (wr_new_wac r))\<rparr>) s2"
    by (rule receive_unfolded [OF assms(1,4)])
  note ledger = apply_receipt_ledger [OF u(3,1) assms(4)]
  have s1: "wac_ledgers s1 = wac_ledgers s" using u(2) by simp
  have bal: "get_current_balance org'' i'' w'' s1 = get_current_balance org'' i'' w'' s + (if (org'', i'', w'') = (org, i, w) then qty else 0)"
    for org'' i'' w''
  proof -
    have "get_current_balance org'' i'' w'' s1 = get_current_balance org'' i'' w'' (insert_movement type org i w moved_at qty cost
        (get_current_balance org i w s + qty) ref (get_current_balance org i w s) s)"
      unfolding u(2) by (rule balance_same_movements) simp
    then show ?thesis using assms(2,3) by (simp add: balance_insert_movement quantize_at_scale)
  qed
  have s': "inv_transactions s' = inv_transactions s1" "wac_ledgers s' = wac_ledgers s2" using u(4) ledger by simp_all
  show "get_current_balance org' i' w' s' = get_current_balance org' i' w' s + (if (org', i', w') = (org, i, w) then qty else 0)"
    unfolding balance_same_movements [OF s'(1)] by (rule bal)
  show "find_ledger org' i' w' s' = find_ledger org' i' w' s" if "(org', i', w') \<noteq> (org, i, w)"
    using ledger that find_same_ledgers [OF s1, of org' i' w'] find_same_ledgers [OF s'(2), of org' i' w'] by simp
  show "\<exists>l'. find_ledger org i w s' = Some l' \<and> wl_quantity l' = numeric6 (wl_quantity l + qty)" if l: "find_ledger org i w s = Some l"
  proof -
    have "get_snapshot org i w s1 = (\<lparr>sn_quantity = wl_quantity l, sn_wac = wl_current_wac l, sn_total_value = wl_total_value l\<rparr>, s1)"
      using l find_same_ledgers [OF s1, of org i w] by (simp add: get_snapshot_def)
    then show ?thesis using ledger unfolding find_same_ledgers [OF s'(2), of org i w] by auto
  qed
  show "\<exists>l'. find_ledger org i w s' = Some l' \<and> wl_quantity l' = numeric6 (get_current_balance org i w s + qty + qty)"
    if none: "find_ledger org i w s = None" "0 \<le> get_current_balance org i w s"
  proof -
    have "sn_quantity (fst (get_snapshot org i w s1)) = get_current_balance org i w s + qty"
      using none u(1) find_same_ledgers [OF s1, of org i w] bal [of org i w]
      by (simp add: get_snapshot_def rebuild_snapshot_from_transactions_def Let_def)
    then show ?thesis using ledger unfolding find_same_ledgers [OF s'(2), of org i w] by auto
  qed
  show "stored_movements s'" if "stored_movements s"
    using stored_insert_movement [OF that, of type org i w moved_at qty cost] s'(1) u(2) by (simp add: stored_movements_def)
qed

lemma issued_stock:
  assumes "issue_weighted_average type org i w moved_at qty ref s = (Inr t, s')"
    and "type \<in> set [TX_ISSUE, TX_SALE, TX_SCRAP, TX_DISASSEMBLY]" and "at_scale 6 qty"
  shows "get_current_balance org' i' w' s' = get_current_balance org' i' w' s - (if (org', i', w') = (org, i, w) then qty else 0)"
    and "(org', i', w') \<noteq> (org, i, w) \<Longrightarrow> find_ledger org' i' w' s' = find_ledger org' i' w' s"
    and "find_ledger org i w s = Some l \<Longrightarrow> wl_quantity l = get_current_balance org i w s \<Longrightarrow>
      \<exists>l'. find_ledger org i w s' = Some l' \<and> wl_quantity l' = numeric6 (wl_quantity l - qty)"
    and "stored_movements s \<Longrightarrow> stored_movements s'"
proof -
  obtain cost r s1 s2 where u: "0 < qty" "qty \<le> get_current_balance org i w s"
    "s1 = insert_movement type org i w moved_at qty cost (get_current_balance org i w s - qty) ref (get_current_balance org i w s) s"
    "apply_issue org i w qty (Some (next_inv s)) s1 = (r, s2)"
    "inv_transactions s' = inv_transactions s2" "wac_ledgers s' = wac_ledgers s2"
    by (rule issue_unfolded [OF assms(1)])
  have s1: "wac_ledgers s1 = wac_ledgers s" using u(3) by simp
  have s': "inv_transactions s' = inv_transactions s1" using u(5) apply_issue_frame [OF u(4)] by simp
  show "get_current_balance org' i' w' s' = get_current_balance org' i' w' s - (if (org', i', w') = (org, i, w) then qty else 0)"
    unfolding balance_same_movements [OF s'] u(3) using assms(2,3) by (simp add: balance_insert_movement quantize_at_scale)
  show "find_ledger org' i' w' s' = find_ledger org' i' w' s" if "(org', i', w') \<noteq> (org, i, w)"
    using apply_issue_frame [OF u(4)] that find_same_ledgers [OF u(6), of org' i' w'] find_same_ledgers [OF s1, of org' i' w'] by simp
  show "\<exists>l'. find_ledger org i w s' = Some l' \<and> wl_quantity l' = numeric6 (wl_quantity l - qty)"
    if "find_ledger org i w s = Some l" "wl_quantity l = get_current_balance org i w s"
  proof -
    have "find_ledger org i w s1 = Some l" using that(1) find_same_ledgers [OF s1, of org i w] by simp
    then show ?thesis unfolding find_same_ledgers [OF u(6), of org i w]
      by (rule apply_issue_ledger [OF u(4)]) (use u(1,2) that(2) in simp_all)
  qed
  show "stored_movements s'" if "stored_movements s"
    using stored_insert_movement [OF that, of type org i w moved_at qty cost] s' u(3) by (simp add: stored_movements_def)
qed

section \<open>The ledger in step with the movements\<close>

lemma in_step_step:
  assumes "stored_movements s" and "in_step org i w s" and "sensible r"
  shows "stored_movements (serve_stock r s) \<and> in_step org i w (serve_stock r s)"
proof -
  obtain l where l: "find_ledger org i w s = Some l" "wl_quantity l = get_current_balance org i w s"
    using assms(2) by (auto simp: in_step_def)
  have scale: "at_scale 6 (get_current_balance org i w s)" by (rule at_scale_balance [OF assms(1)])
  show ?thesis
  proof (cases r)
    case (Receive_stock type org' i' w' moved_at qty cost ref)
    show ?thesis
    proof (cases rule: request_outcomes [of "receive_weighted_average type org' i' w' moved_at qty cost ref" s])
      case 1
      then show ?thesis using Receive_stock assms(1,2) by simp
    next
      case (2 t)
      have sens: "type \<notin> set [TX_ISSUE, TX_SALE, TX_SCRAP, TX_DISASSEMBLY]" "at_scale 6 qty" "0 \<le> cost"
        using assms(3) Receive_stock by simp_all
      note effect = received_stock [OF 2 sens]
      have "in_step org i w (serve_stock r s)"
        using effect(1) [of org i w] effect(2) [of org i w] effect(3) [of l] l scale sens(2) Receive_stock
        by (cases "(org, i, w) = (org', i', w')") (auto simp: in_step_def quantize_at_scale at_scale_add)
      then show ?thesis using effect(5) assms(1) Receive_stock by simp
    qed
  next
    case (Issue_stock type org' i' w' moved_at qty ref)
    show ?thesis
    proof (cases rule: request_outcomes [of "issue_weighted_average type org' i' w' moved_at qty ref" s])
      case 1
      then show ?thesis using Issue_stock assms(1,2) by simp
    next
      case (2 t)
      have sens: "type \<in> set [TX_ISSUE, TX_SALE, TX_SCRAP, TX_DISASSEMBLY]" "at_scale 6 qty"
        using assms(3) Issue_stock by simp_all
      note effect = issued_stock [OF 2 sens]
      have "in_step org i w (serve_stock r s)"
        using effect(1) [of org i w] effect(2) [of org i w] effect(3) [of l] l scale sens(2) Issue_stock
        by (cases "(org, i, w) = (org', i', w')") (auto simp: in_step_def quantize_at_scale at_scale_diff)
      then show ?thesis using effect(4) assms(1) Issue_stock by simp
    qed
  qed
qed

text \<open>C26: once the ledger row of an item in a warehouse shows the balance of its movements, it shows it after
  any sequence of receipts (at a cost that is not negative) and issues, of this and of other items and
  warehouses, refused requests included.\<close>

theorem ledger_stays_in_step:
  assumes "stored_movements s" and "in_step org i w s" and "\<And>r. r \<in> set rs \<Longrightarrow> sensible r"
  shows "in_step org i w (fold serve_stock rs s)"
  using assms
proof (induction rs arbitrary: s)
  case (Cons r rs)
  then show ?case using in_step_step [of s org i w r] by simp
qed simp

definition sample_stock :: "wac_ledger list \<Rightarrow> inv_db" where
  "sample_stock ledgers = \<lparr>items = [\<lparr>it_id = 7, it_org = 1, it_base_uom = ''EA'', it_costing_method = CM_WEIGHTED_AVERAGE,
       it_average_cost = None, it_last_purchase_cost = None\<rparr>],
     warehouses = [\<lparr>wh_id = 3, wh_org = 1, wh_is_active = True, wh_is_receiving = True, wh_is_shipping = True\<rparr>],
     lots = [], lot_balances = [], inv_transactions = [], wac_ledgers = ledgers, valuations = [], next_inv = 20\<rparr>"

definition sample_requests :: "stock_request list" where
  "sample_requests = [Receive_stock TX_RECEIPT 1 7 3 5 8 2 None, Issue_stock TX_SALE 1 7 3 6 3 None,
     Issue_stock TX_SALE 1 7 3 7 9 None, Receive_stock TX_RETURN 1 7 4 8 1 2 None]"

theorem ledger_stays_in_step_witness:
  "in_step 1 7 3 (fold serve_stock sample_requests (sample_stock
     [\<lparr>wl_org = 1, wl_item = 7, wl_warehouse = 3, wl_current_wac = 0, wl_quantity = 0, wl_total_value = 0, wl_last_transaction = None\<rparr>]))"
  by (rule ledger_stays_in_step)
    (auto simp: sample_stock_def sample_requests_def stored_movements_def in_step_def find_ledger_def ledger_at_def
      get_current_balance_def)

text \<open>The first receipt of an item in a warehouse is counted twice: its row is flushed before the ledger
  is asked for a snapshot, the snapshot of a missing ledger row is rebuilt from the movements and holds
  the receipt already, and the receipt is then added to it. The ledger row that is written exceeds the
  balance of the movements by the quantity received.\<close>

theorem first_receipt_counted_twice:
  assumes "receive_weighted_average type org i w moved_at qty cost ref s = (Inr t, s')"
    and "type \<notin> set [TX_ISSUE, TX_SALE, TX_SCRAP, TX_DISASSEMBLY]" and "at_scale 6 qty" and "0 \<le> cost"
    and "stored_movements s" and "find_ledger org i w s = None" and "0 \<le> get_current_balance org i w s"
  shows "get_current_balance org i w s' = get_current_balance org i w s + qty
    \<and> (\<exists>l. find_ledger org i w s' = Some l \<and> wl_quantity l = get_current_balance org i w s' + qty)"
proof -
  note effect = received_stock [OF assms(1-4)]
  have bal: "get_current_balance org i w s' = get_current_balance org i w s + qty" using effect(1) by simp
  have "at_scale 6 (get_current_balance org i w s + qty + qty)"
    using at_scale_balance [OF assms(5)] assms(3) by (intro at_scale_add)
  then show ?thesis
    using effect(4) [OF assms(6,7)] bal by (simp add: quantize_at_scale)
qed

theorem first_receipt_counted_twice_witness:
  "\<exists>t s' l. receive_weighted_average TX_RECEIPT 1 7 3 5 10 4 None (sample_stock []) = (Inr t, s')
     \<and> get_current_balance 1 7 3 s' = 10 \<and> find_ledger 1 7 3 s' = Some l \<and> wl_quantity l = 20"
proof -
  let ?run = "receive_weighted_average TX_RECEIPT 1 7 3 5 10 4 None (sample_stock [])"
  have "isl (fst ?run) = False"
    by (simp add: receive_weighted_average_def sample_stock_def scoped_item_def scoped_warehouse_def return_def Let_def
        split: prod.split sum.split)
  then obtain t s' where run: "?run = (Inr t, s')" by (cases ?run; cases "fst ?run") auto
  have "stored_movements (sample_stock [])" "find_ledger 1 7 3 (sample_stock []) = None"
    "get_current_balance 1 7 3 (sample_stock []) = 0"
    by (simp_all add: sample_stock_def stored_movements_def find_ledger_def get_current_balance_def)
  then show ?thesis using first_receipt_counted_twice [OF run] run by fastforce
qed

end
