(* ===== verification/Fa_Model.thy ===== *)
theory Fa_Model
  imports Posting_Adapter
begin

text \<open>
  The fixed-asset register as acquisition, depreciation, disposal and revaluation use it: \<open>app/models/fixed_assets/\<close>
  (\<open>asset.py\<close>, \<open>asset_category.py\<close>, \<open>depreciation_run.py\<close>, \<open>depreciation_schedule.py\<close>, \<open>asset_disposal.py\<close>,
  \<open>asset_revaluation.py\<close>) with the columns the services read or compute, and a session as its tables beside the books of the general ledger.
  Months come from \<open>NUMERIC(10, 0)\<close> columns, so their quotients are decimal divisions. Amounts are
  stored with six decimals; what the service computes from them has no more.
\<close>

datatype asset_status = AS_NOT_IN_USE | AS_IN_USE | AS_IN_STORE | AS_FAULTY | AS_UNDER_REPAIR
  | AS_FULLY_DEPRECIATED | AS_RETIRED

datatype run_status = RS_DRAFT | RS_CALCULATING | RS_CALCULATED | RS_POSTING | RS_POSTED | RS_FAILED | RS_REVERSED

record fa_asset =
  as_id :: uuid
  as_org :: uuid
  as_number :: string
  as_name :: string
  as_category :: uuid
  as_cost_center :: "uuid option"
  as_project :: "uuid option"
  as_acquired :: date
  as_in_service :: "date option"
  as_currency :: string
  as_acquisition_cost :: decimal
  as_functional_cost :: decimal
  as_method :: string
  as_useful_life :: int
  as_remaining_life :: int
  as_residual :: decimal
  as_start :: "date option"
  as_accumulated :: decimal
  as_nbv :: decimal
  as_revalued :: "decimal option"
  as_status :: asset_status
  as_current_schedule :: "uuid option"
  as_disposal_date :: "date option"
  as_disposal_proceeds :: "decimal option"
  as_disposal_gain_loss :: "decimal option"

record asset_category =
  ca_id :: uuid
  ca_org :: uuid
  ca_code :: string
  ca_parent :: "uuid option"
  ca_method :: string
  ca_useful_life :: int
  ca_residual_percent :: decimal
  ca_asset_account :: uuid
  ca_accumulated_account :: uuid
  ca_expense_account :: uuid
  ca_gain_loss_account :: uuid
  ca_surplus_account :: "uuid option"
  ca_impairment_account :: "uuid option"
  ca_threshold :: decimal
  ca_revaluation_allowed :: bool
  ca_active :: bool

record depreciation_run =
  dr_id :: uuid
  dr_org :: uuid
  dr_period :: uuid
  dr_number :: nat
  dr_description :: "string option"
  dr_status :: run_status
  dr_assets_processed :: nat
  dr_total :: decimal
  dr_journal :: "uuid option"
  dr_batch :: "uuid option"
  dr_started_at :: "timestamp option"
  dr_completed_at :: "timestamp option"
  dr_posted_at :: "timestamp option"
  dr_created_by :: uuid
  dr_posted_by :: "uuid option"

record depreciation_schedule =
  ds_id :: uuid
  ds_run :: uuid
  ds_asset :: uuid
  ds_cost_basis :: decimal
  ds_accumulated_opening :: decimal
  ds_nbv_opening :: decimal
  ds_amount :: decimal
  ds_accumulated_closing :: decimal
  ds_nbv_closing :: decimal
  ds_life_opening :: int
  ds_life_closing :: int
  ds_expense_account :: uuid
  ds_accumulated_account :: uuid
  ds_cost_center :: "uuid option"

datatype disposal_type = DT_SALE | DT_SCRAPPING | DT_DONATION | DT_THEFT | DT_INSURANCE_CLAIM | DT_TRADE_IN | DT_TRANSFER

record asset_disposal =
  dp_id :: uuid
  dp_asset :: uuid
  dp_period :: uuid
  dp_date :: date
  dp_type :: disposal_type
  dp_cost :: decimal
  dp_accumulated :: decimal
  dp_nbv :: decimal
  dp_proceeds :: decimal
  dp_costs :: decimal
  dp_net_proceeds :: decimal
  dp_gain_loss :: decimal
  dp_insurance :: "decimal option"
  dp_journal :: "uuid option"
  dp_created_by :: uuid
  dp_approved_by :: "uuid option"
  dp_approved_at :: "timestamp option"

record asset_revaluation =
  rv_id :: uuid
  rv_asset :: uuid
  rv_period :: uuid
  rv_date :: date
  rv_carrying_before :: decimal
  rv_accumulated_before :: decimal
  rv_fair_value :: decimal
  rv_surplus :: decimal
  rv_carrying_after :: decimal
  rv_accumulated_after :: decimal
  rv_to_equity :: decimal
  rv_to_pl :: decimal
  rv_deficit_reversed :: decimal
  rv_surplus_reversed :: decimal
  rv_journal :: "uuid option"
  rv_created_by :: uuid
  rv_approved_by :: "uuid option"
  rv_approved_at :: "timestamp option"

record lifecycle_event =
  le_org :: uuid
  le_asset :: uuid
  le_source_type :: string
  le_source :: uuid
  le_previous :: "asset_status option"
  le_new :: asset_status
  le_schedule :: "uuid option"

record fa_db =
  books :: gldb
  assets :: "fa_asset list"
  categories :: "asset_category list"
  runs :: "depreciation_run list"
  schedules :: "depreciation_schedule list"
  lifecycle :: "lifecycle_event list"
  disposals :: "asset_disposal list"
  revaluations :: "asset_revaluation list"
  currency_of :: "uuid \<Rightarrow> string option"
  next_fa :: uuid

datatype fa_detail =
  Run_not_found
| Cannot_calculate run_status
| Fa_period_not_found
| Category_not_found string
| Cannot_post run_status
| Creator_cannot_post
| No_schedules
| Schedule_without_asset
| Asset_retired string
| Run_is_stale string
| Run_not_posting run_status
| Organization_not_found
| Ledger_refused "detail option"
| No_journal
| Asset_not_found
| Category_missing
| Negative_proceeds
| Negative_costs
| Already_retired
| Not_yet_in_use
| Under_repair
| Disposal_not_found
| Revaluation_not_found
| Cannot_revalue asset_status
| Revaluation_not_allowed
| No_surplus_account
| Nothing_to_revalue
| Already_approved
| Creator_cannot_approve
| Not_approved
| Already_posted
| Cost_not_positive
| Life_not_positive
| Residual_above_cost
| Acquired_in_future
| Hierarchy_cycle
| Hierarchy_too_deep
| Category_inactive
| Category_code_taken string
| Below_threshold decimal decimal
| Asset_number_taken string
| Asset_number_required
| Schedule_not_found
| Schedule_of_other_organization
| Retired_by_disposal_only
| Cannot_activate asset_status
| Only_in_use
| Frozen_after_activation string

text \<open>
  What the service raises: an exception that rolls the request back, an exception raised right after
  the run was committed as FAILED, which leaves the session as it is, or a driver's error.
\<close>

datatype fa_error = Fa_raised nat fa_detail | Fa_failed nat fa_detail | Fa_database string

text \<open>The request around an operation of the service.\<close>

fun fa_request :: "(fa_db \<Rightarrow> (fa_error, 'a, fa_db) tx) \<Rightarrow> fa_db \<Rightarrow> (fa_error, 'a, fa_db) tx" where
  "fa_request f s = (case f s of
     (Inl (Fa_failed c d), s') \<Rightarrow> (Inl (Fa_failed c d), s')
   | (Inl e, s') \<Rightarrow> (Inl e, s)
   | (Inr v, s') \<Rightarrow> (Inr v, s'))"

abbreviation set_run :: "uuid \<Rightarrow> (depreciation_run \<Rightarrow> depreciation_run) \<Rightarrow> fa_db \<Rightarrow> fa_db" where
  "set_run r f s \<equiv> s\<lparr>runs := set_row dr_id r f (runs s)\<rparr>"

abbreviation set_asset :: "uuid \<Rightarrow> (fa_asset \<Rightarrow> fa_asset) \<Rightarrow> fa_db \<Rightarrow> fa_db" where
  "set_asset a f s \<equiv> s\<lparr>assets := set_row as_id a f (assets s)\<rparr>"

definition scoped_run :: "uuid \<Rightarrow> uuid \<Rightarrow> fa_db \<Rightarrow> depreciation_run option" where
  "scoped_run org r s = (case get_row dr_id r (runs s) of
     Some x \<Rightarrow> if dr_org x = org then Some x else None | None \<Rightarrow> None)"

definition scoped_asset :: "uuid \<Rightarrow> uuid \<Rightarrow> fa_db \<Rightarrow> fa_asset option" where
  "scoped_asset org a s = (case get_row as_id a (assets s) of
     Some x \<Rightarrow> if as_org x = org then Some x else None | None \<Rightarrow> None)"

definition schedules_of :: "uuid \<Rightarrow> fa_db \<Rightarrow> depreciation_schedule list" where
  "schedules_of r s = filter (\<lambda>d. ds_run d = r) (schedules s)"

text \<open>\<open>asset.revalued_amount or asset.acquisition_cost\<close>: a zero is false.\<close>

definition cost_basis :: "fa_asset \<Rightarrow> decimal" where
  "cost_basis a = (case as_revalued a of Some v \<Rightarrow> (if v = 0 then as_acquisition_cost a else v)
     | None \<Rightarrow> as_acquisition_cost a)"

end
