(* ===== verification/Depreciation.thy ===== *)
theory Depreciation
  imports Fa_Model
begin

text \<open>
  Depreciation of fixed assets: \<open>app/services/fixed_assets/depreciation.py\<close>, with
  \<open>FAPostingAdapter.post_depreciation_run\<close> of \<open>fa_posting_adapter.py\<close>, which posts a run through the
  adapter of the general ledger. Today's date, the clock and the journal number drawn are arguments;
  assets are processed in table order; the reconciliation report of an automated run is left out.
\<close>

record depreciation_calculation =
  dc_asset :: uuid
  dc_number :: string
  dc_amount :: decimal
  dc_opening_nbv :: decimal
  dc_closing_nbv :: decimal
  dc_opening_accumulated :: decimal
  dc_closing_accumulated :: decimal
  dc_life_opening :: int
  dc_life_closing :: int
  dc_expense_account :: uuid
  dc_accumulated_account :: uuid
  dc_cost_center :: "uuid option"

section \<open>Periods\<close>

definition elapsed_months :: "date option \<Rightarrow> date \<Rightarrow> int" where
  "elapsed_months start as_of = (case start of None \<Rightarrow> 0
     | Some d \<Rightarrow> if as_of < d then 0
         else let months = (int (year as_of) - int (year d)) * 12 + (int (month as_of) - int (month d));
                  months' = (if day d \<le> day as_of then months + 1 else months)
           in max months' 0)"

definition periods_due_for_run :: "fa_asset \<Rightarrow> date \<Rightarrow> int" where
  "periods_due_for_run a as_of = (if as_useful_life a \<le> 0 \<or> as_remaining_life a \<le> 0 then 0
     else let total_due = min (as_useful_life a) (elapsed_months (as_start a) as_of);
              recognized = max 0 (as_useful_life a - as_remaining_life a)
       in max 0 (total_due - recognized))"

section \<open>Methods\<close>

definition calculate_straight_line :: "decimal \<Rightarrow> decimal \<Rightarrow> int \<Rightarrow> int \<Rightarrow> decimal" where
  "calculate_straight_line cost residual life n = (if life \<le> 0 then 0
     else kobo (dec_mul (dec_div (cost - residual) (of_int life)) (of_int n)))"

definition calculate_declining_balance :: "decimal \<Rightarrow> decimal \<Rightarrow> int \<Rightarrow> int \<Rightarrow> decimal \<Rightarrow> int \<Rightarrow> decimal" where
  "calculate_declining_balance nbv residual life remaining multiplier n =
    (if life \<le> 0 \<or> remaining \<le> 0 then 0
     else let annual_rate = dec_mul (dec_div 1 (dec_div (of_int life) 12)) multiplier;
              monthly_rate = dec_div annual_rate 12;
              depreciation = dec_mul (dec_mul nbv monthly_rate) (of_int n);
              max_depreciation = nbv - residual
       in if max_depreciation \<le> 0 then 0 else kobo (min depreciation max_depreciation))"

definition calculate_sum_of_years :: "decimal \<Rightarrow> decimal \<Rightarrow> int \<Rightarrow> int \<Rightarrow> int \<Rightarrow> decimal" where
  "calculate_sum_of_years cost residual life remaining n =
    (if life \<le> 0 \<or> remaining \<le> 0 then 0
     else let years = life div 12; remaining_years = (remaining + 11) div 12;
              sum_of_years = dec_div (of_int (years * (years + 1))) 2
       in if sum_of_years = 0 then 0
          else kobo (dec_mul (dec_div (dec_mul (dec_div (of_int remaining_years) sum_of_years) (cost - residual)) 12)
            (of_int n)))"

definition method_amount :: "fa_asset \<Rightarrow> int \<Rightarrow> decimal" where
  "method_amount a n =
    (if as_method a = ''DECLINING_BALANCE'' then
       calculate_declining_balance (as_nbv a) (as_residual a) (as_useful_life a) (as_remaining_life a) 1 n
     else if as_method a = ''DOUBLE_DECLINING'' then
       calculate_declining_balance (as_nbv a) (as_residual a) (as_useful_life a) (as_remaining_life a) 2 n
     else if as_method a = ''SUM_OF_YEARS'' then
       calculate_sum_of_years (cost_basis a) (as_residual a) (as_useful_life a) (as_remaining_life a) n
     else calculate_straight_line (cost_basis a) (as_residual a) (as_useful_life a) n)"

definition depreciation_amount :: "fa_asset \<Rightarrow> int \<Rightarrow> decimal" where
  "depreciation_amount a n = (let max_depreciation = as_nbv a - as_residual a
     in if max 0 (as_remaining_life a - n) = 0 \<and> as_method a \<in> set [''DECLINING_BALANCE'', ''DOUBLE_DECLINING'']
        then max 0 max_depreciation
        else if max_depreciation \<le> 0 then 0 else min (method_amount a n) max_depreciation)"

definition calculate_asset_depreciation :: "fa_asset \<Rightarrow> int \<Rightarrow> fa_db \<Rightarrow> fa_detail + depreciation_calculation" where
  "calculate_asset_depreciation a n s = (case get_row ca_id (as_category a) (categories s) of
     None \<Rightarrow> Inl (Category_not_found (as_number a))
   | Some c \<Rightarrow> let amount = depreciation_amount a n
       in Inr \<lparr>dc_asset = as_id a, dc_number = as_number a, dc_amount = amount, dc_opening_nbv = as_nbv a,
         dc_closing_nbv = as_nbv a - amount, dc_opening_accumulated = as_accumulated a,
         dc_closing_accumulated = as_accumulated a + amount, dc_life_opening = as_remaining_life a,
         dc_life_closing = max 0 (as_remaining_life a - n), dc_expense_account = ca_expense_account c,
         dc_accumulated_account = ca_accumulated_account c, dc_cost_center = as_cost_center a\<rparr>)"

section \<open>Runs\<close>

definition create_depreciation_run :: "uuid \<Rightarrow> uuid \<Rightarrow> uuid \<Rightarrow> string option \<Rightarrow> fa_db \<Rightarrow> (fa_error, uuid, fa_db) tx" where
  "create_depreciation_run org p user description s =
    (let number = length (filter (\<lambda>r. dr_org r = org \<and> dr_period r = p) (runs s)) + 1
     in if \<exists>r \<in> set (runs s). dr_org r = org \<and> dr_period r = p \<and> dr_number r = number
        then raise (Fa_database ''uq_depreciation_run'') s
        else return (next_fa s) (s\<lparr>runs := add_row \<lparr>dr_id = next_fa s, dr_org = org, dr_period = p, dr_number = number,
          dr_description = description, dr_status = RS_DRAFT, dr_assets_processed = 0, dr_total = 0, dr_journal = None,
          dr_batch = None, dr_started_at = None, dr_completed_at = None, dr_posted_at = None, dr_created_by = user,
          dr_posted_by = None\<rparr> (runs s), next_fa := Suc (next_fa s)\<rparr>))"

definition depreciable :: "uuid \<Rightarrow> fa_asset \<Rightarrow> bool" where
  "depreciable org a \<longleftrightarrow> as_org a = org \<and> as_status a = AS_IN_USE \<and> 0 < as_remaining_life a \<and> as_residual a < as_nbv a"

definition new_schedule :: "uuid \<Rightarrow> uuid \<Rightarrow> fa_asset \<Rightarrow> depreciation_calculation \<Rightarrow> depreciation_schedule" where
  "new_schedule u r a c = \<lparr>ds_id = u, ds_run = r, ds_asset = as_id a, ds_cost_basis = cost_basis a,
     ds_accumulated_opening = dc_opening_accumulated c, ds_nbv_opening = dc_opening_nbv c, ds_amount = dc_amount c,
     ds_accumulated_closing = dc_closing_accumulated c, ds_nbv_closing = dc_closing_nbv c,
     ds_life_opening = dc_life_opening c, ds_life_closing = dc_life_closing c, ds_expense_account = dc_expense_account c,
     ds_accumulated_account = dc_accumulated_account c, ds_cost_center = dc_cost_center c\<rparr>"

text \<open>The loop over the depreciable assets: how many were scheduled, and the total. An asset without a
  category stops it, with the schedules added so far.\<close>

fun schedule_assets :: "uuid \<Rightarrow> date \<Rightarrow> fa_asset list \<Rightarrow> nat \<Rightarrow> decimal \<Rightarrow> fa_db \<Rightarrow> (fa_detail, nat \<times> decimal, fa_db) tx" where
  "schedule_assets r as_of [] n sum_dep s = return (n, sum_dep) s"
| "schedule_assets r as_of (a # rest) n sum_dep s =
    (if as_start a = None \<or> periods_due_for_run a as_of \<le> 0 then schedule_assets r as_of rest n sum_dep s
     else case calculate_asset_depreciation a (periods_due_for_run a as_of) s of
       Inl d \<Rightarrow> raise d s
     | Inr c \<Rightarrow> if 0 < dc_amount c
         then schedule_assets r as_of rest (n + 1) (sum_dep + dc_amount c)
           (s\<lparr>schedules := add_row (new_schedule (next_fa s) r a c) (schedules s), next_fa := Suc (next_fa s)\<rparr>)
         else schedule_assets r as_of rest n sum_dep s)"

definition calculate_run :: "uuid \<Rightarrow> uuid \<Rightarrow> date \<Rightarrow> timestamp \<Rightarrow> fa_db \<Rightarrow> (fa_error, uuid, fa_db) tx" where
  "calculate_run org r today now s = (case scoped_run org r s of
     None \<Rightarrow> raise (Fa_raised 404 Run_not_found) s
   | Some run \<Rightarrow>
      if dr_status run \<notin> set [RS_DRAFT, RS_FAILED] then raise (Fa_raised 400 (Cannot_calculate (dr_status run))) s
      else let s1 = set_run r (\<lambda>x. x\<lparr>dr_status := RS_CALCULATING, dr_started_at := Some now\<rparr>) s;
               fail = (\<lambda>d s'. raise (Fa_failed 500 d) (set_run r (\<lambda>x. x\<lparr>dr_status := RS_FAILED\<rparr>) s'))
        in (case get_row fp_id (dr_period run) (periods (books s1)) of
             None \<Rightarrow> fail Fa_period_not_found s1
           | Some p \<Rightarrow>
              if fp_org p \<noteq> org then fail Fa_period_not_found s1
              else (case schedule_assets r (min (fp_end_date p) today) (filter (depreciable org) (assets s1)) 0 0
                     (s1\<lparr>schedules := filter (\<lambda>d. ds_run d \<noteq> r) (schedules s1)\<rparr>) of
                  (Inl d, s2) \<Rightarrow> fail d s2
                | (Inr (n, sum_dep), s2) \<Rightarrow> return r (set_run r (\<lambda>x. x\<lparr>dr_status := RS_CALCULATED,
                    dr_completed_at := Some now, dr_assets_processed := n, dr_total := sum_dep\<rparr>) s2))))"

section \<open>The journal of a run\<close>

text \<open>\<open>d[k] = d.get(k, 0) + amount\<close> on a dictionary in insertion order.\<close>

fun add_amount :: "uuid \<Rightarrow> decimal \<Rightarrow> (uuid \<times> decimal) list \<Rightarrow> (uuid \<times> decimal) list" where
  "add_amount k v [] = [(k, v)]"
| "add_amount k v ((k', w) # rest) = (if k' = k then (k', w + v) # rest else (k', w) # add_amount k v rest)"

definition by_account :: "(depreciation_schedule \<Rightarrow> uuid) \<Rightarrow> depreciation_schedule list \<Rightarrow> (uuid \<times> decimal) list" where
  "by_account acc ds = fold (\<lambda>d m. if 0 < ds_amount d then add_amount (acc d) (ds_amount d) m else m) ds []"

definition no_dimensions :: dims where
  "no_dimensions = \<lparr>business_unit_id = None, cost_center_id = None, project_id = None, segment_id = None\<rparr>"

definition expense_line :: "nat \<Rightarrow> uuid \<times> decimal \<Rightarrow> line_input" where
  "expense_line n e = \<lparr>li_account = fst e, li_debit = snd e, li_credit = 0,
     li_description = Some (''Depreciation expense - Run #'' @ nat_str n), li_debit_functional = Some (snd e),
     li_credit_functional = Some 0, li_currency_code = None, li_exchange_rate = None, li_dims = no_dimensions\<rparr>"

definition accumulated_line :: "nat \<Rightarrow> uuid \<times> decimal \<Rightarrow> line_input" where
  "accumulated_line n e = \<lparr>li_account = fst e, li_debit = 0, li_credit = snd e,
     li_description = Some (''Accumulated depreciation - Run #'' @ nat_str n), li_debit_functional = Some 0,
     li_credit_functional = Some (snd e), li_currency_code = None, li_exchange_rate = None, li_dims = no_dimensions\<rparr>"

definition run_journal :: "depreciation_run \<Rightarrow> depreciation_schedule list \<Rightarrow> date \<Rightarrow> string \<Rightarrow> journal_input" where
  "run_journal run ds d currency = \<lparr>ji_type = STANDARD, ji_entry_date = d, ji_posting_date = d,
     ji_description = ''FA Depreciation Run #'' @ nat_str (dr_number run),
     ji_lines = map (expense_line (dr_number run)) (by_account ds_expense_account ds)
       @ map (accumulated_line (dr_number run)) (by_account ds_accumulated_account ds),
     ji_reference = Some (''DEP-'' @ nat_str (dr_number run)), ji_currency_code = currency, ji_exchange_rate = 1,
     ji_exchange_rate_type_id = None, ji_source_module = Some ''FA'', ji_source_document_type = Some ''DEPRECIATION_RUN'',
     ji_source_document_id = Some (dr_id run), ji_auto_reverse_date = None, ji_correlation_id = None\<rparr>"

definition run_key :: "uuid \<Rightarrow> uuid \<Rightarrow> string" where
  "run_key org r = uuid_str org @ '':FA:DEP:'' @ uuid_str r @ '':post:v1''"

record fa_posting =
  fr_success :: bool
  fr_journal :: "uuid option"
  fr_batch :: "uuid option"
  fr_message :: fa_detail

definition fa_refused :: "uuid option \<Rightarrow> fa_detail \<Rightarrow> fa_posting" where
  "fa_refused j d = \<lparr>fr_success = False, fr_journal = j, fr_batch = None, fr_message = d\<rparr>"

text \<open>An error raised here is handled by \<open>post_run\<close>; \<open>Inl (Some d)\<close> is a \<open>ValueError\<close> or \<open>RuntimeError\<close>,
  \<open>Inl None\<close> the driver's error.\<close>

definition post_depreciation_run :: "uuid \<Rightarrow> uuid \<Rightarrow> date \<Rightarrow> uuid \<Rightarrow> string \<Rightarrow> timestamp \<Rightarrow> fa_db
    \<Rightarrow> (string + fa_detail, fa_posting, fa_db) tx" where
  "post_depreciation_run org r d user number now s = (case scoped_run org r s of
     None \<Rightarrow> return (fa_refused None Run_not_found) s
   | Some run \<Rightarrow>
      if dr_status run \<noteq> RS_POSTING then return (fa_refused None (Run_not_posting (dr_status run))) s
      else if schedules_of r s = [] then return (fa_refused None No_schedules) s
      else (case currency_of s org of
          None \<Rightarrow> raise (Inr Organization_not_found) s
        | Some currency \<Rightarrow>
            (case create_approve_and_post_journal org (run_journal run (schedules_of r s) d currency) user number d
                (run_key org r) ''FA'' None now (books s) of
               (Inl (IntegrityError k), b) \<Rightarrow> raise (Inl k) (s\<lparr>books := b\<rparr>)
             | (Inl (HTTPException c e), b) \<Rightarrow> raise (Inr (Ledger_refused (Some e))) (s\<lparr>books := b\<rparr>)
             | (Inr (j, res), b) \<Rightarrow>
                 if \<not> ar_success res then return (fa_refused j (Ledger_refused (ar_message res))) (s\<lparr>books := b\<rparr>)
                 else (case j of None \<Rightarrow> raise (Inr No_journal) (s\<lparr>books := b\<rparr>)
                   | Some jid \<Rightarrow> return \<lparr>fr_success = True, fr_journal = Some jid, fr_batch = ar_posting_batch_id res,
                       fr_message = Ledger_refused (ar_message res)\<rparr> (s\<lparr>books := b\<rparr>)))))"

section \<open>Posting a run\<close>

definition is_stale :: "depreciation_schedule \<Rightarrow> fa_asset \<Rightarrow> bool" where
  "is_stale d a \<longleftrightarrow> ds_accumulated_opening d \<noteq> as_accumulated a \<or> ds_nbv_opening d \<noteq> as_nbv a
     \<or> ds_life_opening d \<noteq> as_remaining_life a"

fun check_schedules :: "uuid \<Rightarrow> depreciation_schedule list \<Rightarrow> fa_db \<Rightarrow> fa_detail option" where
  "check_schedules org [] s = None"
| "check_schedules org (d # ds) s = (case get_row as_id (ds_asset d) (assets s) of
     None \<Rightarrow> Some Schedule_without_asset
   | Some a \<Rightarrow>
      if as_org a \<noteq> org then Some Schedule_without_asset
      else if as_status a = AS_RETIRED then Some (Asset_retired (as_number a))
      else if is_stale d a then Some (Run_is_stale (as_number a))
      else check_schedules org ds s)"

definition apply_schedule :: "uuid \<Rightarrow> uuid \<Rightarrow> depreciation_schedule \<Rightarrow> fa_db \<Rightarrow> fa_db" where
  "apply_schedule org r d s = (case get_row as_id (ds_asset d) (assets s) of None \<Rightarrow> s
     | Some a \<Rightarrow>
        (let finished = ds_nbv_closing d \<le> as_residual a \<and> as_status a \<noteq> AS_FULLY_DEPRECIATED;
             s1 = set_asset (ds_asset d) (\<lambda>a. a\<lparr>as_accumulated := ds_accumulated_closing d, as_nbv := ds_nbv_closing d,
               as_remaining_life := ds_life_closing d, as_current_schedule := Some (ds_id d),
               as_status := (if finished then AS_FULLY_DEPRECIATED else as_status a)\<rparr>) s
         in if finished then s1\<lparr>lifecycle := lifecycle s1 @ [\<lparr>le_org = org, le_asset = ds_asset d,
              le_source_type = ''depreciation_run'', le_source = r, le_previous = Some (as_status a),
              le_new = AS_FULLY_DEPRECIATED, le_schedule = Some (ds_id d)\<rparr>]\<rparr>
            else s1))"

definition post_run :: "uuid \<Rightarrow> uuid \<Rightarrow> uuid \<Rightarrow> date option \<Rightarrow> date \<Rightarrow> string \<Rightarrow> timestamp \<Rightarrow> fa_db
    \<Rightarrow> (fa_error, uuid, fa_db) tx" where
  "post_run org r user posting_date today number now s = (case scoped_run org r s of
     None \<Rightarrow> raise (Fa_raised 404 Run_not_found) s
   | Some run \<Rightarrow>
      if dr_status run \<noteq> RS_CALCULATED then raise (Fa_raised 400 (Cannot_post (dr_status run))) s
      else if dr_created_by run = user then raise (Fa_raised 400 Creator_cannot_post) s
      else if schedules_of r s = [] then raise (Fa_raised 400 No_schedules) s
      else (case check_schedules org (schedules_of r s) s of
          Some d \<Rightarrow> raise (Fa_raised 400 d) s
        | None \<Rightarrow>
           (let s1 = set_run r (\<lambda>x. x\<lparr>dr_status := RS_POSTING\<rparr>) s;
                fail = (\<lambda>c d s'. raise (Fa_failed c d) (set_run r (\<lambda>x. x\<lparr>dr_status := RS_FAILED\<rparr>) s'))
            in (case post_depreciation_run org r (case posting_date of Some d \<Rightarrow> d | None \<Rightarrow> today) user number now s1 of
                  (Inl (Inl k), s2) \<Rightarrow> raise (Fa_database k) s2
                | (Inl (Inr d), s2) \<Rightarrow> fail 500 d s2
                | (Inr res, s2) \<Rightarrow>
                    if \<not> fr_success res then fail 400 (fr_message res) s2
                    else return r (set_run r (\<lambda>x. x\<lparr>dr_status := RS_POSTED, dr_posted_at := Some now,
                        dr_posted_by := Some user, dr_journal := fr_journal res, dr_batch := fr_batch res\<rparr>)
                      (fold (apply_schedule org r) (schedules_of r s) s2))))))"

section \<open>Automation\<close>

definition get_next_automation_period :: "uuid \<Rightarrow> date \<Rightarrow> fa_db \<Rightarrow> fiscal_period option" where
  "get_next_automation_period org cutoff s =
    (let blocked = map dr_period (filter (\<lambda>r. dr_org r = org
           \<and> dr_status r \<in> set [RS_DRAFT, RS_CALCULATING, RS_CALCULATED, RS_POSTING, RS_POSTED]) (runs s));
         due = filter (\<lambda>p. fp_org p = org \<and> accepts_postings (fp_status p) \<and> \<not> fp_is_adjustment_period p
           \<and> fp_end_date p \<le> cutoff \<and> fp_id p \<notin> set blocked) (periods (books s))
     in case sort_key fp_end_date (sort_key fp_period_number due) of [] \<Rightarrow> None | p # _ \<Rightarrow> Some p)"

definition automation_creator :: uuid where "automation_creator = 152"
definition automation_poster :: uuid where "automation_poster = 153"

datatype automated_run = No_due_period | Run_calculated uuid | Run_posted uuid | No_assets_to_post uuid

definition create_automated_monthly_run :: "uuid \<Rightarrow> date option \<Rightarrow> date \<Rightarrow> bool \<Rightarrow> string \<Rightarrow> timestamp \<Rightarrow> fa_db
    \<Rightarrow> (fa_error, automated_run, fa_db) tx" where
  "create_automated_monthly_run org as_of today auto_post number now s =
    (case get_next_automation_period org (case as_of of Some d \<Rightarrow> d | None \<Rightarrow> today) s of
       None \<Rightarrow> return No_due_period s
     | Some p \<Rightarrow>
        bind_tx (create_depreciation_run org (fp_id p) automation_creator
            (Some (''System-generated monthly depreciation for '' @ fp_period_name p)) s) (\<lambda>r s1.
          bind_tx (calculate_run org r today now s1) (\<lambda>_ s2.
            (let processed = (case get_row dr_id r (runs s2) of Some run \<Rightarrow> dr_assets_processed run | None \<Rightarrow> 0)
             in if auto_post \<and> 0 < processed
                then bind_tx (post_run org r automation_poster (Some (fp_end_date p)) today number now s2) (\<lambda>_ s3.
                  return (Run_posted r) s3)
                else return (if auto_post then No_assets_to_post r else Run_calculated r) s2))))"

end
