(* ===== verification/Fa_Documents.thy ===== *)
theory Fa_Documents
  imports Depreciation
begin

text \<open>
  Disposal and revaluation of assets: \<open>app/services/fixed_assets/disposal.py\<close>, \<open>revaluation.py\<close> and their
  posting in \<open>fa_posting_adapter.py\<close>. A document is created, approved by another user, and posted. The row
  keeps six decimals of every amount. Columns that are only stored (buyer, valuer and similar texts) and
  the audit and workflow events, which change nothing here, are left out.
\<close>

section \<open>Posting a document\<close>

text \<open>The end of every posting function of the adapter. An exception passes through.\<close>

definition post_document :: "uuid \<Rightarrow> journal_input \<Rightarrow> uuid \<Rightarrow> string \<Rightarrow> date \<Rightarrow> string \<Rightarrow> timestamp \<Rightarrow> fa_db
    \<Rightarrow> (fa_error, fa_posting, fa_db) tx" where
  "post_document org i user number d key now s =
    (case create_approve_and_post_journal org i user number d key ''FA'' None now (books s) of
       (Inl (IntegrityError k), b) \<Rightarrow> raise (Fa_database k) (s\<lparr>books := b\<rparr>)
     | (Inl (HTTPException c e), b) \<Rightarrow> raise (Fa_raised c (Ledger_refused (Some e))) (s\<lparr>books := b\<rparr>)
     | (Inr (j, res), b) \<Rightarrow>
         if \<not> ar_success res then return (fa_refused j (Ledger_refused (ar_message res))) (s\<lparr>books := b\<rparr>)
         else (case j of None \<Rightarrow> raise (Fa_raised 500 No_journal) (s\<lparr>books := b\<rparr>)
           | Some jid \<Rightarrow> return \<lparr>fr_success = True, fr_journal = Some jid, fr_batch = ar_posting_batch_id res,
               fr_message = Ledger_refused (ar_message res)\<rparr> (s\<lparr>books := b\<rparr>)))"

definition document_key :: "string \<Rightarrow> uuid \<Rightarrow> uuid \<Rightarrow> string" where
  "document_key kind org u = uuid_str org @ '':FA:'' @ kind @ '':'' @ uuid_str u @ '':post:v1''"

definition debit_line :: "uuid \<Rightarrow> decimal \<Rightarrow> string \<Rightarrow> line_input" where
  "debit_line a v text = \<lparr>li_account = a, li_debit = v, li_credit = 0, li_description = Some text,
     li_debit_functional = Some v, li_credit_functional = Some 0, li_currency_code = None, li_exchange_rate = None,
     li_dims = no_dimensions\<rparr>"

definition credit_line :: "uuid \<Rightarrow> decimal \<Rightarrow> string \<Rightarrow> line_input" where
  "credit_line a v text = \<lparr>li_account = a, li_debit = 0, li_credit = v, li_description = Some text,
     li_debit_functional = Some 0, li_credit_functional = Some v, li_currency_code = None, li_exchange_rate = None,
     li_dims = no_dimensions\<rparr>"

definition document_journal :: "string \<Rightarrow> string \<Rightarrow> string \<Rightarrow> fa_asset \<Rightarrow> uuid \<Rightarrow> date \<Rightarrow> date \<Rightarrow> line_input list \<Rightarrow> journal_input" where
  "document_journal title tag doc_type a u entry_date d ls = \<lparr>ji_type = STANDARD, ji_entry_date = entry_date,
     ji_posting_date = d, ji_description = title @ as_name a, ji_lines = ls, ji_reference = Some (tag @ as_number a),
     ji_currency_code = as_currency a, ji_exchange_rate = 1, ji_exchange_rate_type_id = None, ji_source_module = Some ''FA'',
     ji_source_document_type = Some doc_type, ji_source_document_id = Some u, ji_auto_reverse_date = None,
     ji_correlation_id = None\<rparr>"

section \<open>Disposal\<close>

record disposal_input =
  di_asset :: uuid
  di_period :: uuid
  di_date :: date
  di_type :: disposal_type
  di_proceeds :: decimal
  di_costs :: decimal
  di_insurance :: "decimal option"

definition net_proceeds_of :: "disposal_input \<Rightarrow> decimal" where
  "net_proceeds_of i = di_proceeds i - di_costs i
     + (case di_insurance i of Some v \<Rightarrow> (if di_type i = DT_INSURANCE_CLAIM then v else 0) | None \<Rightarrow> 0)"

definition calculate_gain_loss :: "decimal \<Rightarrow> decimal \<Rightarrow> decimal \<Rightarrow> decimal \<times> decimal" where
  "calculate_gain_loss cost accumulated net_proceeds = (cost - accumulated, net_proceeds - (cost - accumulated))"

definition new_disposal :: "uuid \<Rightarrow> fa_asset \<Rightarrow> disposal_input \<Rightarrow> uuid \<Rightarrow> asset_disposal" where
  "new_disposal u a i user = \<lparr>dp_id = u, dp_asset = di_asset i, dp_period = di_period i, dp_date = di_date i,
     dp_type = di_type i, dp_cost = cost_basis a, dp_accumulated = as_accumulated a, dp_nbv = as_nbv a,
     dp_proceeds = numeric6 (di_proceeds i), dp_costs = numeric6 (di_costs i),
     dp_net_proceeds = numeric6 (net_proceeds_of i), dp_gain_loss = numeric6 (net_proceeds_of i - as_nbv a),
     dp_insurance = map_option numeric6 (di_insurance i), dp_journal = None, dp_created_by = user,
     dp_approved_by = None, dp_approved_at = None\<rparr>"

definition create_disposal :: "uuid \<Rightarrow> disposal_input \<Rightarrow> uuid \<Rightarrow> fa_db \<Rightarrow> (fa_error, uuid, fa_db) tx" where
  "create_disposal org i user s =
    (if di_proceeds i < 0 then raise (Fa_raised 400 Negative_proceeds) s
     else if di_costs i < 0 then raise (Fa_raised 400 Negative_costs) s
     else (case scoped_asset org (di_asset i) s of
         None \<Rightarrow> raise (Fa_raised 404 Asset_not_found) s
       | Some a \<Rightarrow>
          if as_status a = AS_RETIRED then raise (Fa_raised 400 Already_retired) s
          else if as_status a \<in> {AS_NOT_IN_USE, AS_IN_STORE} then raise (Fa_raised 400 Not_yet_in_use) s
          else if as_status a = AS_UNDER_REPAIR then raise (Fa_raised 400 Under_repair) s
          else return (next_fa s) (s\<lparr>disposals := add_row (new_disposal (next_fa s) a i user) (disposals s),
            next_fa := Suc (next_fa s)\<rparr>)))"

abbreviation set_disposal :: "uuid \<Rightarrow> (asset_disposal \<Rightarrow> asset_disposal) \<Rightarrow> fa_db \<Rightarrow> fa_db" where
  "set_disposal u f s \<equiv> s\<lparr>disposals := set_row dp_id u f (disposals s)\<rparr>"

definition approve_disposal :: "uuid \<Rightarrow> uuid \<Rightarrow> uuid \<Rightarrow> timestamp \<Rightarrow> fa_db \<Rightarrow> (fa_error, uuid, fa_db) tx" where
  "approve_disposal org u user now s = (case get_row dp_id u (disposals s) of
     None \<Rightarrow> raise (Fa_raised 404 Disposal_not_found) s
   | Some d \<Rightarrow> (case scoped_asset org (dp_asset d) s of
       None \<Rightarrow> raise (Fa_raised 404 Asset_not_found) s
     | Some a \<Rightarrow>
        if dp_approved_by d \<noteq> None then raise (Fa_raised 400 Already_approved) s
        else if dp_created_by d = user then raise (Fa_raised 400 Creator_cannot_approve) s
        else return u ((set_asset (dp_asset d) (\<lambda>a. a\<lparr>as_status := AS_RETIRED, as_disposal_date := Some (dp_date d),
            as_disposal_proceeds := Some (dp_net_proceeds d), as_disposal_gain_loss := Some (dp_gain_loss d)\<rparr>)
          (set_disposal u (\<lambda>d. d\<lparr>dp_approved_by := Some user, dp_approved_at := Some now\<rparr>) s))
          \<lparr>lifecycle := lifecycle s @ [\<lparr>le_org = org, le_asset = as_id a, le_source_type = ''asset_disposal'',
             le_source = u, le_previous = Some (as_status a), le_new = AS_RETIRED, le_schedule = None\<rparr>]\<rparr>)))"

definition disposal_lines :: "asset_disposal \<Rightarrow> fa_asset \<Rightarrow> asset_category \<Rightarrow> line_input list" where
  "disposal_lines d a c =
     (if 0 < dp_accumulated d
        then [debit_line (ca_accumulated_account c) (dp_accumulated d) (''Clear accum dep: '' @ as_name a)] else [])
     @ (if 0 < dp_net_proceeds d
        then [debit_line (ca_gain_loss_account c) (dp_net_proceeds d) (''Disposal proceeds: '' @ as_name a)] else [])
     @ [credit_line (ca_asset_account c) (dp_cost d) (''Remove asset: '' @ as_name a)]
     @ (if 0 < dp_gain_loss d
        then [credit_line (ca_gain_loss_account c) (dp_gain_loss d) (''Gain on disposal: '' @ as_name a)]
        else if dp_gain_loss d < 0
        then [debit_line (ca_gain_loss_account c) \<bar>dp_gain_loss d\<bar> (''Loss on disposal: '' @ as_name a)]
        else [])"

definition post_asset_disposal :: "uuid \<Rightarrow> uuid \<Rightarrow> date \<Rightarrow> uuid \<Rightarrow> string \<Rightarrow> timestamp \<Rightarrow> fa_db
    \<Rightarrow> (fa_error, fa_posting, fa_db) tx" where
  "post_asset_disposal org u d user number now s = (case get_row dp_id u (disposals s) of
     None \<Rightarrow> return (fa_refused None Disposal_not_found) s
   | Some x \<Rightarrow> (case scoped_asset org (dp_asset x) s of
       None \<Rightarrow> return (fa_refused None Asset_not_found) s
     | Some a \<Rightarrow> (case get_row ca_id (as_category a) (categories s) of
         None \<Rightarrow> return (fa_refused None Category_missing) s
       | Some c \<Rightarrow> post_document org
           (document_journal ''Asset Disposal: '' ''DISP-'' ''ASSET_DISPOSAL'' a u (dp_date x) d (disposal_lines x a c))
           user number d (document_key ''DISP'' org u) now s)))"

definition post_disposal :: "uuid \<Rightarrow> uuid \<Rightarrow> uuid \<Rightarrow> date option \<Rightarrow> string \<Rightarrow> timestamp \<Rightarrow> fa_db
    \<Rightarrow> (fa_error, uuid, fa_db) tx" where
  "post_disposal org u user posting_date number now s = (case get_row dp_id u (disposals s) of
     None \<Rightarrow> raise (Fa_raised 404 Disposal_not_found) s
   | Some x \<Rightarrow> (case scoped_asset org (dp_asset x) s of
       None \<Rightarrow> raise (Fa_raised 404 Asset_not_found) s
     | Some a \<Rightarrow>
        if dp_approved_by x = None then raise (Fa_raised 400 Not_approved) s
        else if dp_journal x \<noteq> None then raise (Fa_raised 400 Already_posted) s
        else bind_tx (post_asset_disposal org u (case posting_date of Some d \<Rightarrow> d | None \<Rightarrow> dp_date x) user number now s)
          (\<lambda>r s1. if \<not> fr_success r then raise (Fa_raised 400 (fr_message r)) s1
            else return u (set_disposal u (\<lambda>x. x\<lparr>dp_journal := fr_journal r\<rparr>) s1))))"

section \<open>Revaluation\<close>

record revaluation_input =
  vi_asset :: uuid
  vi_period :: uuid
  vi_date :: date
  vi_fair_value :: decimal

text \<open>What earlier revaluations recognised; their approval is not asked for.\<close>

definition prior_revaluations :: "uuid \<Rightarrow> date \<Rightarrow> fa_db \<Rightarrow> asset_revaluation list" where
  "prior_revaluations a d s = filter (\<lambda>r. rv_asset r = a \<and> rv_date r < d) (revaluations s)"

text \<open>Equity surplus, deficit in profit and loss, deficit reversed, surplus reversed.\<close>

definition recognise :: "decimal \<Rightarrow> decimal \<Rightarrow> decimal \<Rightarrow> decimal \<times> decimal \<times> decimal \<times> decimal" where
  "recognise x cumulative_surplus cumulative_deficit =
    (if 0 < x
     then (if 0 < cumulative_deficit then (x - min x cumulative_deficit, 0, min x cumulative_deficit, 0) else (x, 0, 0, 0))
     else if x < 0
     then (if 0 < cumulative_surplus then (0, \<bar>x\<bar> - min \<bar>x\<bar> cumulative_surplus, 0, min \<bar>x\<bar> cumulative_surplus)
       else (0, \<bar>x\<bar>, 0, 0))
     else (0, 0, 0, 0))"

definition new_revaluation :: "uuid \<Rightarrow> fa_asset \<Rightarrow> revaluation_input \<Rightarrow> uuid \<Rightarrow> fa_db \<Rightarrow> asset_revaluation" where
  "new_revaluation u a i user s =
    (let x = vi_fair_value i - as_nbv a; prior = prior_revaluations (vi_asset i) (vi_date i) s;
         (to_equity, to_pl, deficit_reversed, surplus_reversed) =
           recognise x (\<Sum>r\<leftarrow>prior. rv_to_equity r) (\<Sum>r\<leftarrow>prior. rv_to_pl r)
     in \<lparr>rv_id = u, rv_asset = vi_asset i, rv_period = vi_period i, rv_date = vi_date i, rv_carrying_before = as_nbv a,
       rv_accumulated_before = as_accumulated a, rv_fair_value = numeric6 (vi_fair_value i), rv_surplus = numeric6 x,
       rv_carrying_after = numeric6 (vi_fair_value i), rv_accumulated_after = 0, rv_to_equity = numeric6 to_equity,
       rv_to_pl = numeric6 to_pl, rv_deficit_reversed = numeric6 deficit_reversed,
       rv_surplus_reversed = numeric6 surplus_reversed, rv_journal = None, rv_created_by = user, rv_approved_by = None,
       rv_approved_at = None\<rparr>)"

definition create_revaluation :: "uuid \<Rightarrow> revaluation_input \<Rightarrow> uuid \<Rightarrow> fa_db \<Rightarrow> (fa_error, uuid, fa_db) tx" where
  "create_revaluation org i user s = (case scoped_asset org (vi_asset i) s of
     None \<Rightarrow> raise (Fa_raised 404 Asset_not_found) s
   | Some a \<Rightarrow>
      if as_status a \<noteq> AS_IN_USE then raise (Fa_raised 400 (Cannot_revalue (as_status a))) s
      else (case get_row ca_id (as_category a) (categories s) of
          None \<Rightarrow> raise (Fa_raised 404 Category_missing) s
        | Some c \<Rightarrow>
           if \<not> ca_revaluation_allowed c then raise (Fa_raised 400 Revaluation_not_allowed) s
           else return (next_fa s) (s\<lparr>revaluations := add_row (new_revaluation (next_fa s) a i user s) (revaluations s),
             next_fa := Suc (next_fa s)\<rparr>)))"

abbreviation set_revaluation :: "uuid \<Rightarrow> (asset_revaluation \<Rightarrow> asset_revaluation) \<Rightarrow> fa_db \<Rightarrow> fa_db" where
  "set_revaluation u f s \<equiv> s\<lparr>revaluations := set_row rv_id u f (revaluations s)\<rparr>"

definition approve_revaluation :: "uuid \<Rightarrow> uuid \<Rightarrow> uuid \<Rightarrow> timestamp \<Rightarrow> fa_db \<Rightarrow> (fa_error, uuid, fa_db) tx" where
  "approve_revaluation org u user now s = (case get_row rv_id u (revaluations s) of
     None \<Rightarrow> raise (Fa_raised 404 Revaluation_not_found) s
   | Some v \<Rightarrow> (case scoped_asset org (rv_asset v) s of
       None \<Rightarrow> raise (Fa_raised 404 Asset_not_found) s
     | Some a \<Rightarrow>
        if rv_approved_by v \<noteq> None then raise (Fa_raised 400 Already_approved) s
        else if rv_created_by v = user then raise (Fa_raised 400 Creator_cannot_approve) s
        else return u (set_asset (rv_asset v) (\<lambda>a. a\<lparr>as_revalued := Some (rv_fair_value v), as_nbv := rv_carrying_after v,
            as_accumulated := rv_accumulated_after v\<rparr>)
          (set_revaluation u (\<lambda>v. v\<lparr>rv_approved_by := Some user, rv_approved_at := Some now\<rparr>) s))))"

definition loss_account :: "asset_category \<Rightarrow> uuid" where
  "loss_account c = (case ca_impairment_account c of Some a \<Rightarrow> a | None \<Rightarrow> ca_gain_loss_account c)"

definition revaluation_lines :: "asset_revaluation \<Rightarrow> fa_asset \<Rightarrow> asset_category \<Rightarrow> uuid \<Rightarrow> line_input list" where
  "revaluation_lines v a c equity =
    (if 0 < rv_surplus v
     then [debit_line (ca_asset_account c) \<bar>rv_surplus v\<bar> (''Revaluation increase: '' @ as_name a)]
       @ (if 0 < rv_to_equity v then [credit_line equity (rv_to_equity v) (''Revaluation surplus: '' @ as_name a)] else [])
       @ (if 0 < rv_deficit_reversed v
          then [credit_line (loss_account c) (rv_deficit_reversed v) (''Reversal of prior revaluation loss: '' @ as_name a)] else [])
     else if rv_surplus v < 0
     then [credit_line (ca_asset_account c) \<bar>rv_surplus v\<bar> (''Revaluation decrease: '' @ as_name a)]
       @ (if 0 < rv_surplus_reversed v
          then [debit_line equity (rv_surplus_reversed v) (''Reversal of prior revaluation surplus: '' @ as_name a)] else [])
       @ (if 0 < rv_to_pl v then [debit_line (loss_account c) (rv_to_pl v) (''Revaluation loss: '' @ as_name a)] else [])
     else [])"

definition post_asset_revaluation :: "uuid \<Rightarrow> uuid \<Rightarrow> date \<Rightarrow> uuid \<Rightarrow> string \<Rightarrow> timestamp \<Rightarrow> fa_db
    \<Rightarrow> (fa_error, fa_posting, fa_db) tx" where
  "post_asset_revaluation org u d user number now s = (case get_row rv_id u (revaluations s) of
     None \<Rightarrow> return (fa_refused None Revaluation_not_found) s
   | Some v \<Rightarrow> (case scoped_asset org (rv_asset v) s of
       None \<Rightarrow> return (fa_refused None Asset_not_found) s
     | Some a \<Rightarrow> (case get_row ca_id (as_category a) (categories s) of
         None \<Rightarrow> return (fa_refused None Category_missing) s
       | Some c \<Rightarrow> (case ca_surplus_account c of
           None \<Rightarrow> return (fa_refused None No_surplus_account) s
         | Some equity \<Rightarrow>
            if revaluation_lines v a c equity = [] then return (fa_refused None Nothing_to_revalue) s
            else post_document org (document_journal ''Asset Revaluation: '' ''REVAL-'' ''ASSET_REVALUATION'' a u
                (rv_date v) d (revaluation_lines v a c equity))
              user number d (document_key ''REVAL'' org u) now s))))"

definition post_revaluation :: "uuid \<Rightarrow> uuid \<Rightarrow> uuid \<Rightarrow> date option \<Rightarrow> string \<Rightarrow> timestamp \<Rightarrow> fa_db
    \<Rightarrow> (fa_error, uuid, fa_db) tx" where
  "post_revaluation org u user posting_date number now s = (case get_row rv_id u (revaluations s) of
     None \<Rightarrow> raise (Fa_raised 404 Revaluation_not_found) s
   | Some v \<Rightarrow> (case scoped_asset org (rv_asset v) s of
       None \<Rightarrow> raise (Fa_raised 404 Asset_not_found) s
     | Some a \<Rightarrow>
        if rv_approved_by v = None then raise (Fa_raised 400 Not_approved) s
        else if rv_journal v \<noteq> None then raise (Fa_raised 400 Already_posted) s
        else bind_tx (post_asset_revaluation org u (case posting_date of Some d \<Rightarrow> d | None \<Rightarrow> rv_date v) user number now s)
          (\<lambda>r s1. if \<not> fr_success r then raise (Fa_raised 400 (fr_message r)) s1
            else return u (set_revaluation u (\<lambda>v. v\<lparr>rv_journal := fr_journal r\<rparr>) s1))))"

end
