(* ===== verification/Depreciation_Facts.thy ===== *)
theory Depreciation_Facts
  imports Depreciation
begin

text \<open>
  The register under the operations of depreciation: what a calculation can amount to, the schedules
  a run makes, what posting a run does to the assets, and the invariant that all requests keep.
\<close>

section \<open>The amount\<close>

lemma at_scale_up:
  assumes "at_scale d x" and "d \<le> e"
  shows "at_scale e x"
proof -
  obtain n where "x = of_int n / 10 ^ d" using assms(1) unfolding at_scale_iff by blast
  moreover have "(10 :: rat) ^ e = 10 ^ (e - d) * 10 ^ d" using assms(2) by (simp flip: power_add)
  ultimately have "x = of_int (n * 10 ^ (e - d)) / 10 ^ e" by simp
  then show ?thesis unfolding at_scale_iff by blast
qed

lemma kobo_at_scale: "at_scale 6 (kobo x)"
  by (rule at_scale_up [OF at_scale_quantize]) simp

lemma at_scale_method_amount: "at_scale 6 (method_amount a n)"
  by (simp add: method_amount_def calculate_straight_line_def calculate_declining_balance_def
      calculate_sum_of_years_def Let_def kobo_at_scale)

lemma depreciation_amount_le: "as_residual a \<le> as_nbv a \<Longrightarrow> depreciation_amount a n \<le> as_nbv a - as_residual a"
  by (simp add: depreciation_amount_def Let_def)

lemma at_scale_depreciation_amount:
  "at_scale 6 (as_nbv a) \<Longrightarrow> at_scale 6 (as_residual a) \<Longrightarrow> at_scale 6 (depreciation_amount a n)"
  by (auto simp: depreciation_amount_def Let_def min_def max_def at_scale_method_amount)

lemma periods_due_positive:
  "0 < periods_due_for_run a d \<Longrightarrow> 0 < as_useful_life a \<and> 0 < as_remaining_life a"
  by (auto simp: periods_due_for_run_def split: if_splits)

section \<open>The invariant of the register\<close>

definition schedule_sound :: "depreciation_schedule \<Rightarrow> bool" where
  "schedule_sound d \<longleftrightarrow> 0 < ds_amount d \<and> at_scale 6 (ds_amount d)
     \<and> ds_accumulated_closing d = ds_accumulated_opening d + ds_amount d
     \<and> ds_nbv_closing d = ds_nbv_opening d - ds_amount d \<and> ds_life_closing d \<le> ds_life_opening d \<and> 0 \<le> ds_life_closing d"

text \<open>The asset of a schedule: it stays above its residual value, and may have been depreciated since.\<close>

definition schedule_fits :: "depreciation_schedule \<Rightarrow> fa_asset \<Rightarrow> bool" where
  "schedule_fits d a \<longleftrightarrow> as_id a = ds_asset d \<and> as_residual a \<le> ds_nbv_closing d
     \<and> ds_accumulated_opening d \<le> as_accumulated a"

definition stored_asset :: "fa_asset \<Rightarrow> bool" where
  "stored_asset a \<longleftrightarrow> at_scale 6 (as_nbv a) \<and> at_scale 6 (as_residual a)"

definition fa_inv :: "fa_db \<Rightarrow> bool" where
  "fa_inv s \<longleftrightarrow> distinct (map as_id (assets s)) \<and> distinct (map dr_id (runs s))
     \<and> distinct (map (\<lambda>d. (ds_run d, ds_asset d)) (schedules s))
     \<and> (\<forall>r \<in> set (runs s). dr_id r < next_fa s)
     \<and> (\<forall>d \<in> set (schedules s). schedule_sound d \<and> ds_run d \<in> dr_id ` set (runs s) \<and> (\<exists>a \<in> set (assets s). schedule_fits d a))
     \<and> (\<forall>a \<in> set (assets s). stored_asset a)"

text \<open>What depreciation may do to an asset.\<close>

definition depreciates :: "fa_asset \<Rightarrow> fa_asset \<Rightarrow> bool" where
  "depreciates a a' \<longleftrightarrow> as_id a' = as_id a \<and> as_org a' = as_org a \<and> as_residual a' = as_residual a
     \<and> as_accumulated a' + as_nbv a' = as_accumulated a + as_nbv a
     \<and> as_nbv a' \<le> as_nbv a \<and> min (as_residual a) (as_nbv a) \<le> as_nbv a'
     \<and> as_remaining_life a' \<le> as_remaining_life a"

lemma depreciates_refl [simp]: "depreciates a a"
  by (simp add: depreciates_def)

lemma depreciates_trans: "depreciates a b \<Longrightarrow> depreciates b c \<Longrightarrow> depreciates a c"
  by (auto simp: depreciates_def)

definition register_step :: "fa_db \<Rightarrow> fa_db \<Rightarrow> bool" where
  "register_step s s' \<longleftrightarrow> list_all2 depreciates (assets s) (assets s')"

lemma register_step_refl: "assets s' = assets s \<Longrightarrow> register_step s s'"
  by (simp add: register_step_def list_all2_same)

lemma register_step_trans: "register_step s t \<Longrightarrow> register_step t u \<Longrightarrow> register_step s u"
  unfolding register_step_def by (rule list_all2_trans [OF depreciates_trans])

section \<open>The schedules of a run\<close>

definition schedule_of :: "uuid \<Rightarrow> fa_asset \<Rightarrow> depreciation_schedule \<Rightarrow> bool" where
  "schedule_of r a d \<longleftrightarrow> ds_run d = r \<and> ds_asset d = as_id a \<and> 0 < ds_amount d
     \<and> (\<exists>n > 0. ds_amount d = depreciation_amount a n \<and> ds_life_closing d = max 0 (as_remaining_life a - n))
     \<and> ds_accumulated_opening d = as_accumulated a \<and> ds_accumulated_closing d = as_accumulated a + ds_amount d
     \<and> ds_nbv_opening d = as_nbv a \<and> ds_nbv_closing d = as_nbv a - ds_amount d \<and> ds_life_opening d = as_remaining_life a"

lemma schedule_of_new:
  assumes "calculate_asset_depreciation a n s = Inr c" and "0 < dc_amount c" and "0 < n"
  shows "schedule_of r a (new_schedule u r a c)"
  using assms by (auto simp: calculate_asset_depreciation_def schedule_of_def new_schedule_def Let_def split: option.splits)

lemma schedule_assets_effect:
  assumes "schedule_assets r as_of rows n t s = (res, s')"
  shows "\<exists>new. s' = s\<lparr>schedules := schedules s @ new, next_fa := next_fa s + length new\<rparr>
    \<and> (\<forall>d \<in> set new. \<exists>a \<in> set rows. schedule_of r a d)
    \<and> (distinct (map as_id rows) \<longrightarrow> distinct (map ds_asset new))
    \<and> (\<forall>n' t'. res = Inr (n', t') \<longrightarrow> n' = n + length new \<and> t' = t + (\<Sum>d\<leftarrow>new. ds_amount d))"
  using assms
proof (induction rows arbitrary: n t s)
  case Nil
  then show ?case by (intro exI [of _ "[]"]) auto
next
  case (Cons a rows)
  show ?case
  proof (cases "as_start a = None \<or> periods_due_for_run a as_of \<le> 0")
    case True
    then show ?thesis using Cons.IH [of n t s] Cons.prems by auto
  next
    case due: False
    show ?thesis
    proof (cases "calculate_asset_depreciation a (periods_due_for_run a as_of) s")
      case (Inl d)
      then show ?thesis using due Cons.prems by (intro exI [of _ "[]"]) auto
    next
      case (Inr c)
      show ?thesis
      proof (cases "0 < dc_amount c")
        case False
        then show ?thesis using Cons.IH [of n t s] Cons.prems due Inr by auto
      next
        case True
        let ?d = "new_schedule (next_fa s) r a c"
        let ?s = "s\<lparr>schedules := add_row ?d (schedules s), next_fa := Suc (next_fa s)\<rparr>"
        have d: "schedule_of r a ?d" using schedule_of_new [OF Inr True] due by simp
        have "schedule_assets r as_of rows (n + 1) (t + dc_amount c) ?s = (res, s')"
          using Cons.prems due Inr True by auto
        from Cons.IH [OF this] obtain new where new:
          "s' = ?s\<lparr>schedules := schedules ?s @ new, next_fa := next_fa ?s + length new\<rparr>"
          "\<forall>d \<in> set new. \<exists>a \<in> set rows. schedule_of r a d"
          "distinct (map as_id rows) \<longrightarrow> distinct (map ds_asset new)"
          "\<forall>n' t'. res = Inr (n', t') \<longrightarrow> n' = n + 1 + length new \<and> t' = t + dc_amount c + (\<Sum>d\<leftarrow>new. ds_amount d)" by blast
        have "as_id a \<notin> set (map ds_asset new)" if "distinct (map as_id (a # rows))"
          using new(2) that by (force simp: schedule_of_def)
        then show ?thesis using new d
          by (intro exI [of _ "?d # new"]) (auto simp: add_row_def new_schedule_def)
      qed
    qed
  qed
qed

text \<open>What the schedules of a run satisfy when they are made.\<close>

lemma schedule_of_sound:
  assumes "schedule_of r a d" and "stored_asset a" and "as_residual a < as_nbv a" and "0 < as_remaining_life a"
  shows "schedule_sound d \<and> schedule_fits d a"
proof -
  obtain n where n: "0 < n" "ds_amount d = depreciation_amount a n" "ds_life_closing d = max 0 (as_remaining_life a - n)"
    using assms(1) by (auto simp: schedule_of_def)
  have "at_scale 6 (ds_amount d)" unfolding n(2) using assms(2) by (intro at_scale_depreciation_amount) (simp_all add: stored_asset_def)
  moreover have "ds_amount d \<le> as_nbv a - as_residual a" unfolding n(2) using assms(3) by (intro depreciation_amount_le) simp
  ultimately show ?thesis using assms(1,4) n(1,3) by (auto simp: schedule_sound_def schedule_fits_def schedule_of_def)
qed

lemma fa_inv_schedules:
  assumes "fa_inv s" and "r \<in> dr_id ` set (runs s)"
    and "assets s' = assets s" and "map dr_id (runs s') = map dr_id (runs s)" and "next_fa s \<le> next_fa s'"
    and "schedules s' = filter (\<lambda>d. ds_run d \<noteq> r) (schedules s) @ new"
    and "\<forall>d \<in> set new. \<exists>a \<in> set (filter (depreciable org) (assets s)). schedule_of r a d" and "distinct (map ds_asset new)"
  shows "fa_inv s'"
proof -
  have ids: "dr_id ` set (runs s') = dr_id ` set (runs s)" using arg_cong [OF assms(4), of set] by simp
  have new: "schedule_sound d \<and> ds_run d = r \<and> (\<exists>a \<in> set (assets s'). schedule_fits d a)" if d: "d \<in> set new" for d
  proof -
    obtain a where "a \<in> set (assets s)" "depreciable org a" "schedule_of r a d" using bspec [OF assms(7) d] by auto
    moreover from this have "stored_asset a" using assms(1) by (simp add: fa_inv_def)
    ultimately show ?thesis using schedule_of_sound [of r a d] assms(3) by (auto simp: depreciable_def schedule_of_def)
  qed
  have "inj_on ds_asset (set new)" "distinct new" using assms(8) by (simp_all add: distinct_map)
  then have "distinct (map (\<lambda>d. (ds_run d, ds_asset d)) new)" by (auto simp: distinct_map inj_on_def)
  moreover have "distinct (map (\<lambda>d. (ds_run d, ds_asset d)) (filter (\<lambda>d. ds_run d \<noteq> r) (schedules s)))"
    using assms(1) by (simp add: fa_inv_def distinct_map inj_on_def)
  ultimately have "distinct (map (\<lambda>d. (ds_run d, ds_asset d)) (schedules s'))"
    unfolding assms(6) using new by fastforce
  moreover have "schedule_sound d \<and> ds_run d \<in> dr_id ` set (runs s') \<and> (\<exists>a \<in> set (assets s'). schedule_fits d a)"
    if "d \<in> set (schedules s')" for d
    using that new assms(1,2,3) ids unfolding assms(6) by (auto simp: fa_inv_def)
  moreover have "\<forall>x \<in> set (runs s'). dr_id x < next_fa s'"
  proof
    fix x assume "x \<in> set (runs s')"
    then have "dr_id x \<in> dr_id ` set (runs s)" using ids by blast
    then show "dr_id x < next_fa s'" using assms(1,5) by (fastforce simp: fa_inv_def)
  qed
  ultimately show ?thesis using assms(1,3,4) by (simp add: fa_inv_def)
qed

lemma fa_inv_run_update:
  assumes "fa_inv s" and "\<And>x. dr_id (f x) = dr_id x"
  shows "fa_inv (set_run r f s)"
proof -
  have ids: "map dr_id (set_row dr_id r f (runs s)) = map dr_id (runs s)" by (rule map_key_set_row) (rule assms(2))
  have "\<forall>x \<in> set (runs s). dr_id x < next_fa s" using assms(1) by (simp add: fa_inv_def)
  then have "\<forall>x \<in> set (set_row dr_id r f (runs s)). dr_id x < next_fa s" using assms(2) by (auto simp: set_set_row)
  moreover have "dr_id ` set (set_row dr_id r f (runs s)) = dr_id ` set (runs s)" using arg_cong [OF ids, of set] by simp
  ultimately show ?thesis using assms(1) ids by (simp add: fa_inv_def)
qed

lemma scoped_runD: "scoped_run org r s = Some run \<Longrightarrow> run \<in> set (runs s) \<and> dr_id run = r \<and> dr_org run = org"
  by (auto simp: scoped_run_def split: option.splits if_splits dest: get_row_SomeD)

section \<open>The operations on runs\<close>

lemma fa_inv_create_run:
  assumes "fa_inv s" and "create_depreciation_run org p user descr s = (Inr r, s')"
  shows "fa_inv s' \<and> assets s' = assets s \<and> r = next_fa s"
proof -
  let ?run = "\<lambda>n. \<lparr>dr_id = next_fa s, dr_org = org, dr_period = p, dr_number = n,
          dr_description = descr, dr_status = RS_DRAFT, dr_assets_processed = 0, dr_total = 0, dr_journal = None,
          dr_batch = None, dr_started_at = None, dr_completed_at = None, dr_posted_at = None, dr_created_by = user,
          dr_posted_by = None\<rparr>"
  obtain n where s': "s' = s\<lparr>runs := runs s @ [?run n], next_fa := Suc (next_fa s)\<rparr>" "r = next_fa s"
    using assms(2) by (auto simp: create_depreciation_run_def Let_def add_row_def split: if_splits)
  have "next_fa s \<notin> dr_id ` set (runs s)" using assms(1) by (auto simp: fa_inv_def)
  moreover have "\<forall>d \<in> set (schedules s). ds_run d \<in> dr_id ` set (runs s)" using assms(1) by (simp add: fa_inv_def)
  ultimately show ?thesis using assms(1) unfolding s' fa_inv_def by (auto simp: less_SucI)
qed

text \<open>The session in which a run is calculated, when it is.\<close>

lemma calculate_run_effect:
  assumes "calculate_run org r today now s = (res, s')"
  obtains "s' = s" "\<exists>c d. res = Inl (Fa_raised c d)"
  | f where "s' = set_run r f s" "\<exists>c d. res = Inl (Fa_failed c d)" "\<And>x. dr_id (f x) = dr_id x" "r \<in> dr_id ` set (runs s)"
  | f new where "s' = set_run r f (s\<lparr>schedules := filter (\<lambda>d. ds_run d \<noteq> r) (schedules s) @ new, next_fa := next_fa s + length new\<rparr>)"
      "\<And>x. dr_id (f x) = dr_id x" "r \<in> dr_id ` set (runs s)"
      "\<forall>d \<in> set new. \<exists>a \<in> set (filter (depreciable org) (assets s)). schedule_of r a d"
      "distinct (map as_id (filter (depreciable org) (assets s))) \<longrightarrow> distinct (map ds_asset new)"
      "(\<exists>c d. res = Inl (Fa_failed c d)) \<or> res = Inr r"
proof (cases "scoped_run org r s")
  case None
  then show thesis using assms by (intro that(1)) (simp_all add: calculate_run_def)
next
  case (Some run)
  have r: "r \<in> dr_id ` set (runs s)" using scoped_runD [OF Some] by auto
  show thesis
  proof (cases "dr_status run \<in> set [RS_DRAFT, RS_FAILED]")
    case False
    then show thesis using assms Some by (intro that(1)) (simp_all add: calculate_run_def split: if_splits)
  next
    case True
    define f where "f = (\<lambda>x. x\<lparr>dr_status := RS_CALCULATING, dr_started_at := Some now\<rparr> :: depreciation_run)"
    define g where "g = (\<lambda>x. x\<lparr>dr_status := RS_FAILED\<rparr> :: depreciation_run)"
    let ?s0 = "(set_run r f s)\<lparr>schedules := filter (\<lambda>d. ds_run d \<noteq> r) (schedules s)\<rparr>"
    have twice: "set_row dr_id r h (set_row dr_id r f (runs s)) = set_row dr_id r (h \<circ> f) (runs s)" for h
      by (auto simp: set_row_def f_def)
    consider (no_period) "raise (Fa_failed 500 Fa_period_not_found) (set_run r g (set_run r f s)) = (res, s')"
      | (loop) as_of lr s2 where "schedule_assets r as_of (filter (depreciable org) (assets s)) 0 0 ?s0 = (lr, s2)"
          "(case lr of Inl d \<Rightarrow> raise (Fa_failed 500 d) (set_run r g s2)
             | Inr (n, t) \<Rightarrow> return r (set_run r (\<lambda>x. x\<lparr>dr_status := RS_CALCULATED,
                    dr_completed_at := Some now, dr_assets_processed := n, dr_total := t\<rparr>) s2)) = (res, s')"
    proof (cases "get_row fp_id (dr_period run) (periods (books s))")
      case None
      then show thesis using assms True Some by (intro no_period) (auto simp: calculate_run_def Let_def f_def g_def)
    next
      case p: (Some p)
      show thesis
      proof (cases "fp_org p = org")
        case False
        then show thesis using assms True Some p by (intro no_period) (auto simp: calculate_run_def Let_def f_def g_def)
      next
        case org: True
        obtain lr s2 where l: "schedule_assets r (min (fp_end_date p) today) (filter (depreciable org) (assets s)) 0 0 ?s0 = (lr, s2)"
          by fastforce
        then show thesis using assms True Some p org
          by (intro loop [OF l]) (auto simp: calculate_run_def Let_def f_def g_def split: sum.splits)
      qed
    qed
    then show thesis
    proof cases
      case no_period
      then have "res = Inl (Fa_failed 500 Fa_period_not_found)" "s' = set_run r g (set_run r f s)" by (auto simp: raise_def)
      then have "s' = set_run r (g \<circ> f) s" "\<exists>c d. res = Inl (Fa_failed c d)" using twice [of g] by simp_all
      then show thesis by (rule that(2)) (simp_all add: r f_def g_def)
    next
      case loop
      obtain new where new: "s2 = ?s0\<lparr>schedules := schedules ?s0 @ new, next_fa := next_fa ?s0 + length new\<rparr>"
        "\<forall>d \<in> set new. \<exists>a \<in> set (filter (depreciable org) (assets s)). schedule_of r a d"
        "distinct (map as_id (filter (depreciable org) (assets s))) \<longrightarrow> distinct (map ds_asset new)"
        using schedule_assets_effect [OF loop(1)] by blast
      obtain h where h: "s' = set_run r h s2" "\<And>x. dr_id (h x) = dr_id x" "(\<exists>c d. res = Inl (Fa_failed c d)) \<or> res = Inr r"
        using loop(2) by (cases lr) (auto simp: raise_def return_def g_def intro: that)
      show thesis
      proof (rule that(3) [of "h \<circ> f" new])
        show "s' = set_run r (h \<circ> f) (s\<lparr>schedules := filter (\<lambda>d. ds_run d \<noteq> r) (schedules s) @ new, next_fa := next_fa s + length new\<rparr>)"
          using h(1) new(1) twice [of h] by simp
      qed (use r new(2,3) h(2,3) in \<open>simp_all add: f_def\<close>)
    qed
  qed
qed

lemma calculate_run_keeps:
  assumes "fa_inv s" and "calculate_run org r today now s = (res, s')"
  shows "fa_inv s' \<and> assets s' = assets s"
  using assms(2)
proof (cases rule: calculate_run_effect)
  case (2 f)
  then show ?thesis using fa_inv_run_update [OF assms(1), of f r] by simp
next
  case (3 f new)
  have "distinct (map as_id (filter (depreciable org) (assets s)))"
    using assms(1) by (auto simp: fa_inv_def distinct_map intro: inj_on_subset)
  then have d: "distinct (map ds_asset new)" using 3(5) by simp
  let ?s = "s\<lparr>schedules := filter (\<lambda>d. ds_run d \<noteq> r) (schedules s) @ new, next_fa := next_fa s + length new\<rparr>"
  have "fa_inv ?s" by (rule fa_inv_schedules [OF assms(1) 3(3) _ _ _ _ 3(4) d]) simp_all
  then show ?thesis using fa_inv_run_update [of ?s f r] 3(1,2) by simp
qed (use assms(1) in simp)

section \<open>Posting\<close>

definition applied :: "depreciation_schedule \<Rightarrow> fa_asset \<Rightarrow> fa_asset" where
  "applied d a = a\<lparr>as_accumulated := ds_accumulated_closing d, as_nbv := ds_nbv_closing d,
     as_remaining_life := ds_life_closing d, as_current_schedule := Some (ds_id d),
     as_status := (if ds_nbv_closing d \<le> as_residual a \<and> as_status a \<noteq> AS_FULLY_DEPRECIATED
       then AS_FULLY_DEPRECIATED else as_status a)\<rparr>"

definition apply_found :: "depreciation_schedule list \<Rightarrow> fa_asset \<Rightarrow> fa_asset" where
  "apply_found ds a = (case find (\<lambda>d. ds_asset d = as_id a) ds of None \<Rightarrow> a | Some d \<Rightarrow> applied d a)"

lemma applied_id [simp]: "as_id (applied d a) = as_id a"
  by (simp add: applied_def)

lemma apply_found_id [simp]: "as_id (apply_found ds a) = as_id a"
  by (simp add: apply_found_def split: option.split)

lemma apply_schedule_frame [simp]:
  "books (apply_schedule org r d s) = books s" "runs (apply_schedule org r d s) = runs s"
  "schedules (apply_schedule org r d s) = schedules s" "next_fa (apply_schedule org r d s) = next_fa s"
  "categories (apply_schedule org r d s) = categories s"
  by (simp_all add: apply_schedule_def Let_def split: option.split)

lemma apply_schedule_assets:
  assumes "distinct (map as_id (assets s))"
  shows "assets (apply_schedule org r d s) = set_row as_id (ds_asset d) (applied d) (assets s)"
proof (cases "get_row as_id (ds_asset d) (assets s)")
  case None
  then have "as_id x \<noteq> ds_asset d" if "x \<in> set (assets s)" for x
    using that unfolding get_row_None_iff by (metis imageI)
  then have "set_row as_id (ds_asset d) (applied d) (assets s) = assets s"
    unfolding set_row_def by (intro map_idI) simp
  then show ?thesis using None by (simp add: apply_schedule_def)
next
  case (Some a)
  have "x = a" if "x \<in> set (assets s)" "as_id x = ds_asset d" for x
    using get_row_distinct [OF assms that(1)] that(2) Some by simp
  then show ?thesis using Some
    by (auto simp: apply_schedule_def Let_def set_row_def applied_def intro!: map_cong)
qed

lemma find_none: "find P xs = None \<longleftrightarrow> (\<forall>x \<in> set xs. \<not> P x)"
  by (induction xs) auto

lemma fold_apply_frame [simp]:
  "books (fold (apply_schedule org r) ds s) = books s" "runs (fold (apply_schedule org r) ds s) = runs s"
  "schedules (fold (apply_schedule org r) ds s) = schedules s" "next_fa (fold (apply_schedule org r) ds s) = next_fa s"
  by (induction ds arbitrary: s) simp_all

lemma fold_apply_assets:
  assumes "distinct (map as_id (assets s))" and "distinct (map ds_asset ds)"
  shows "assets (fold (apply_schedule org r) ds s) = map (apply_found ds) (assets s)"
  using assms
proof (induction ds arbitrary: s)
  case (Cons d ds)
  let ?s = "apply_schedule org r d s"
  note step = apply_schedule_assets [OF Cons.prems(1), of org r d]
  have "distinct (map as_id (assets ?s))" using Cons.prems(1) unfolding step by (simp add: map_key_set_row)
  then have "assets (fold (apply_schedule org r) ds ?s) = map (apply_found ds) (assets ?s)"
    using Cons.prems(2) by (intro Cons.IH) simp_all
  moreover have "apply_found ds (applied d a) = applied d a" if "as_id a = ds_asset d" for a
    using Cons.prems(2) that by (auto simp: apply_found_def find_Some_iff split: option.split) (metis nth_mem image_eqI)
  ultimately show ?case unfolding step by (auto simp: set_row_def apply_found_def)
qed (simp add: apply_found_def [abs_def])

text \<open>A checked schedule is applied to the asset it was made for.\<close>

lemma check_schedules_None:
  assumes "check_schedules org ds s = None" and "d \<in> set ds"
  shows "\<exists>a. get_row as_id (ds_asset d) (assets s) = Some a \<and> as_org a = org \<and> as_status a \<noteq> AS_RETIRED
    \<and> ds_accumulated_opening d = as_accumulated a \<and> ds_nbv_opening d = as_nbv a \<and> ds_life_opening d = as_remaining_life a"
  using assms by (induction ds) (auto simp: is_stale_def split: option.splits if_splits)

lemma applied_depreciates:
  assumes "schedule_sound d" and "as_residual a \<le> ds_nbv_closing d"
    and "ds_accumulated_opening d = as_accumulated a" and "ds_nbv_opening d = as_nbv a" and "ds_life_opening d = as_remaining_life a"
  shows "depreciates a (applied d a)"
  using assms by (auto simp: depreciates_def applied_def schedule_sound_def)

lemma stored_applied: "stored_asset a \<Longrightarrow> schedule_sound d \<Longrightarrow> ds_nbv_opening d = as_nbv a \<Longrightarrow> stored_asset (applied d a)"
  by (auto simp: stored_asset_def applied_def schedule_sound_def)

lemma run_schedules_distinct:
  assumes "fa_inv s"
  shows "distinct (map ds_asset (schedules_of r s))"
proof -
  have "distinct (map (\<lambda>d. (ds_run d, ds_asset d)) (schedules s))" using assms by (simp add: fa_inv_def)
  then show ?thesis unfolding schedules_of_def
    by (induction "schedules s" arbitrary: s rule: list.induct) (auto simp: distinct_map inj_on_def)
qed

lemma posting_depreciates:
  assumes inv: "fa_inv s" and check: "check_schedules org (schedules_of r s) s = None" and a: "a \<in> set (assets s)"
  shows "depreciates a (apply_found (schedules_of r s) a) \<and> stored_asset (apply_found (schedules_of r s) a)"
proof (cases "find (\<lambda>d. ds_asset d = as_id a) (schedules_of r s)")
  case None
  then show ?thesis using inv a by (simp add: apply_found_def fa_inv_def)
next
  case (Some d)
  then have d: "d \<in> set (schedules_of r s)" "ds_asset d = as_id a" by (auto simp: find_Some_iff)
  have ids: "distinct (map as_id (assets s))" using inv by (simp add: fa_inv_def)
  have "get_row as_id (ds_asset d) (assets s) = Some a" using get_row_distinct [OF ids a] d(2) by simp
  then have open_d: "ds_accumulated_opening d = as_accumulated a" "ds_nbv_opening d = as_nbv a" "ds_life_opening d = as_remaining_life a"
    using check_schedules_None [OF check d(1)] by auto
  have ds: "d \<in> set (schedules s)" using d(1) by (simp add: schedules_of_def)
  then obtain a' where "a' \<in> set (assets s)" "schedule_fits d a'" and sound: "schedule_sound d" using inv by (auto simp: fa_inv_def)
  then have "a' = a" using get_row_distinct [OF ids] a d(2) by (metis option.inject schedule_fits_def)
  then have "as_residual a \<le> ds_nbv_closing d" using \<open>schedule_fits d a'\<close> by (simp add: schedule_fits_def)
  then show ?thesis using Some applied_depreciates [OF sound _ open_d] stored_applied [OF _ sound open_d(2)] inv a
    by (simp add: apply_found_def fa_inv_def)
qed

end
