(* ===== verification/Depreciation_Requests.thy ===== *)
theory Depreciation_Requests
  imports Depreciation_Facts
begin

text \<open>
  Depreciation as a system of requests: what posting a run does to the session on each of its paths,
  and what every sequence of requests keeps of the register and of the runs that have become stale.
\<close>

section \<open>Posting a run\<close>

lemma fa_inv_books [simp]: "fa_inv (s\<lparr>books := b\<rparr>) = fa_inv s"
  by (simp add: fa_inv_def)

lemma post_depreciation_run_books:
  assumes "post_depreciation_run org r d user number now s = (res, s')"
  shows "\<exists>b. s' = s\<lparr>books := b\<rparr>"
proof -
  have same: "\<exists>b. s = s\<lparr>books := b\<rparr>" by (rule exI [of _ "books s"]) simp
  show ?thesis
    using assms same by (auto simp: post_depreciation_run_def raise_def return_def split: option.splits if_splits prod.splits sum.splits gl_error.splits)
qed

abbreviation posting_run :: "depreciation_run \<Rightarrow> depreciation_run" where
  "posting_run x \<equiv> x\<lparr>dr_status := RS_POSTING\<rparr>"

lemma post_run_cases:
  assumes "post_run org r user pd today number now s = (res, s')"
  obtains (refused) c d where "res = Inl (Fa_raised c d)" "s' = s"
  | (database) k where "res = Inl (Fa_database k)"
  | (failed) run c d b where "res = Inl (Fa_failed c d)" "scoped_run org r s = Some run" "dr_status run = RS_CALCULATED"
      "check_schedules org (schedules_of r s) s = None"
      "s' = set_run r (\<lambda>x. x\<lparr>dr_status := RS_FAILED\<rparr>) (set_run r posting_run s\<lparr>books := b\<rparr>)"
  | (posted) run fr b where "res = Inr r" "scoped_run org r s = Some run" "dr_status run = RS_CALCULATED"
      "check_schedules org (schedules_of r s) s = None"
      "post_depreciation_run org r (case pd of Some d \<Rightarrow> d | None \<Rightarrow> today) user number now (set_run r posting_run s)
        = (Inr fr, set_run r posting_run s\<lparr>books := b\<rparr>)" "fr_success fr"
      "s' = set_run r (\<lambda>x. x\<lparr>dr_status := RS_POSTED, dr_posted_at := Some now,
         dr_posted_by := Some user, dr_journal := fr_journal fr, dr_batch := fr_batch fr\<rparr>)
         (fold (apply_schedule org r) (schedules_of r s) (set_run r posting_run s\<lparr>books := b\<rparr>))"
proof (cases "\<exists>run. scoped_run org r s = Some run \<and> dr_status run = RS_CALCULATED \<and> dr_created_by run \<noteq> user
    \<and> schedules_of r s \<noteq> [] \<and> check_schedules org (schedules_of r s) s = None")
  case False
  then have "\<exists>c d. res = Inl (Fa_raised c d) \<and> s' = s"
    using assms by (auto simp: post_run_def raise_def split: option.splits if_splits)
  then show thesis using refused by blast
next
  case True
  then obtain run where ok: "scoped_run org r s = Some run" "dr_status run = RS_CALCULATED" "dr_created_by run \<noteq> user"
    "schedules_of r s \<noteq> []" "check_schedules org (schedules_of r s) s = None" by blast
  let ?s = "set_run r posting_run s"
  let ?d = "case pd of Some d \<Rightarrow> d | None \<Rightarrow> today"
  obtain pr s2 where p: "post_depreciation_run org r ?d user number now ?s = (pr, s2)" by fastforce
  then obtain b where b: "s2 = ?s\<lparr>books := b\<rparr>" using post_depreciation_run_books by blast
  note body = assms [unfolded post_run_def ok(1) option.case Let_def p [unfolded b]]
  show thesis
  proof (cases pr)
    case (Inl e)
    then show thesis using body ok by (cases e) (auto simp: raise_def intro: database failed [OF _ ok(1,2,5)])
  next
    case (Inr fr)
    show thesis
    proof (cases "fr_success fr")
      case False
      then show thesis using body ok Inr by (auto simp: raise_def intro: failed [OF _ ok(1,2,5)])
    next
      case True
      then show thesis using body ok Inr
        by (intro posted [OF _ ok(1,2,5) p [unfolded Inr b] True]) (auto simp: return_def)
    qed
  qed
qed

lemma posted_assets:
  assumes "fa_inv s" and "assets t = assets s"
  shows "assets (fold (apply_schedule org r) (schedules_of r s) t) = map (apply_found (schedules_of r s)) (assets s)"
  using fold_apply_assets [OF _ run_schedules_distinct [OF assms(1)], of t org r r] assms by (simp add: fa_inv_def)

lemma applied_schedules_fit:
  assumes inv: "fa_inv s" and step: "register_step s s'" and ids: "map as_id (assets s') = map as_id (assets s)"
    and stored: "\<forall>a \<in> set (assets s'). stored_asset a"
    and same: "schedules s' = schedules s" "map dr_id (runs s') = map dr_id (runs s)" "next_fa s' = next_fa s"
  shows "fa_inv s'"
proof -
  have "\<exists>a' \<in> set (assets s'). schedule_fits d a'" if "d \<in> set (schedules s)" for d
  proof -
    have "\<exists>a \<in> set (assets s). schedule_fits d a" using inv that by (simp add: fa_inv_def)
    then obtain a where a: "a \<in> set (assets s)" "schedule_fits d a" by blast
    obtain a' where "a' \<in> set (assets s')" "depreciates a a'"
      using step a(1) unfolding register_step_def by (metis list_all2_conv_all_nth in_set_conv_nth)
    then show ?thesis using a(2) by (intro bexI [of _ a']) (auto simp: schedule_fits_def depreciates_def)
  qed
  moreover have "dr_id ` set (runs s') = dr_id ` set (runs s)" using arg_cong [OF same(2), of set] by simp
  moreover from this have "\<forall>x \<in> set (runs s'). dr_id x < next_fa s"
    using inv by (metis (mono_tags, lifting) fa_inv_def imageE imageI)
  ultimately show ?thesis using inv ids stored same by (simp add: fa_inv_def)
qed

lemma post_run_keeps:
  assumes inv: "fa_inv s" and p: "post_run org r user pd today number now s = (res, s')"
    and nd: "\<And>k. res \<noteq> Inl (Fa_database k)"
  shows "fa_inv s' \<and> register_step s s'"
  using p
proof (cases rule: post_run_cases)
  case (failed run c d b)
  have "fa_inv (set_run r posting_run s\<lparr>books := b\<rparr>)"
    unfolding fa_inv_books by (rule fa_inv_run_update [OF inv]) simp
  then have "fa_inv s'" unfolding failed(5) by (rule fa_inv_run_update) simp
  then show ?thesis using failed(5) by (simp add: register_step_refl)
next
  case (posted run fr b)
  have a: "assets s' = map (apply_found (schedules_of r s)) (assets s)"
    unfolding posted(7) by (simp add: posted_assets [OF inv])
  have step: "register_step s s'"
    unfolding register_step_def a list_all2_map2 by (rule list.rel_refl_strong) (use posting_depreciates [OF inv posted(4)] in blast)
  have "map dr_id (runs s') = map dr_id (runs s)" unfolding posted(7) by (simp add: map_key_set_row)
  moreover have "\<forall>x \<in> set (assets s'). stored_asset x" "map as_id (assets s') = map as_id (assets s)"
    using posting_depreciates [OF inv posted(4)] unfolding a by auto
  moreover have "schedules s' = schedules s" "next_fa s' = next_fa s" unfolding posted(7) by simp_all
  ultimately have "fa_inv s'" by (intro applied_schedules_fit [OF inv step])
  then show ?thesis using step by simp
qed (use inv nd in \<open>auto simp: register_step_refl\<close>)

section \<open>Operations as requests\<close>

text \<open>What an operation keeps, unless the database refuses a flush (then the request is rolled back).\<close>

locale fa_operation =
  fixes P :: "fa_db \<Rightarrow> bool" and exec :: "fa_db \<Rightarrow> (fa_error, 'a, fa_db) tx"
  assumes keeps: "P s \<Longrightarrow> exec s = (res, s') \<Longrightarrow> (\<And>k. res \<noteq> Inl (Fa_database k)) \<Longrightarrow> P s'"
begin

lemma request_keeps: "P s \<Longrightarrow> P (snd (fa_request exec s))"
  using keeps [of s] by (cases "exec s") (auto split: sum.split fa_error.split)

end

lemma fa_operation_return: "fa_operation P (return v)"
  by unfold_locales (simp add: return_def)

lemma fa_operation_bind:
  assumes "fa_operation P f" and "\<And>v. fa_operation P (k v)"
  shows "fa_operation P (\<lambda>s. bind_tx (f s) k)"
proof
  fix s res s' assume p: "P s" and b: "bind_tx (f s) k = (res, s')" and nd: "\<And>n. res \<noteq> Inl (Fa_database n)"
  obtain r1 s1 where f: "f s = (r1, s1)" by fastforce
  show "P s'"
  proof (cases r1)
    case (Inl e)
    then have "res = Inl e" "s' = s1" using b f by simp_all
    then show ?thesis using fa_operation.keeps [OF assms(1) p f] Inl nd by simp
  next
    case (Inr v)
    then have "P s1" by (intro fa_operation.keeps [OF assms(1) p f]) simp
    then show ?thesis using fa_operation.keeps [OF assms(2) _ _ nd] b f Inr by simp
  qed
qed

lemma fa_operation_if: "fa_operation P f \<Longrightarrow> fa_operation P g \<Longrightarrow> fa_operation P (\<lambda>s. if b s then f s else g s)"
  unfolding fa_operation_def by metis

lemma fa_operation_option:
  assumes "fa_operation P f" and "\<And>x. fa_operation P (g x)"
  shows "fa_operation P (\<lambda>s. case h s of None \<Rightarrow> f s | Some x \<Rightarrow> g x s)"
proof
  fix s res s' assume p: "P s" and c: "(case h s of None \<Rightarrow> f s | Some x \<Rightarrow> g x s) = (res, s')"
    and nd: "\<And>n. res \<noteq> Inl (Fa_database n)"
  show "P s'"
  proof (cases "h s")
    case None
    with c have "f s = (res, s')" by simp
    from fa_operation.keeps [OF assms(1) p this nd] show ?thesis .
  next
    case (Some x)
    with c have "g x s = (res, s')" by simp
    from fa_operation.keeps [OF assms(2) p this nd] show ?thesis .
  qed
qed

text \<open>The register is kept sound, and its assets only depreciate.\<close>

definition depreciated_from :: "fa_db \<Rightarrow> fa_db \<Rightarrow> bool" where
  "depreciated_from s0 s \<longleftrightarrow> fa_inv s \<and> register_step s0 s"

interpretation creating_run: fa_operation "depreciated_from s0" "create_depreciation_run org p user descr"
  for s0 org p user descr
proof
  fix s res s' assume d: "depreciated_from s0 s" and c: "create_depreciation_run org p user descr s = (res, s')"
  then show "depreciated_from s0 s'"
  proof (cases res)
    case (Inl e)
    then show ?thesis using c d by (simp add: create_depreciation_run_def Let_def raise_def return_def split: if_splits)
  next
    case (Inr r)
    then show ?thesis using fa_inv_create_run [of s org p user descr r s'] c d
      by (simp add: depreciated_from_def register_step_def)
  qed
qed

interpretation calculating_run: fa_operation "depreciated_from s0" "calculate_run org r today now" for s0 org r today now
proof
  fix s res s' assume "depreciated_from s0 s" and c: "calculate_run org r today now s = (res, s')"
  then show "depreciated_from s0 s'" using calculate_run_keeps [OF _ c] by (simp add: depreciated_from_def register_step_def)
qed

interpretation posting_run: fa_operation "depreciated_from s0" "post_run org r user pd today number now"
  for s0 org r user pd today number now
proof
  fix s res s' assume "depreciated_from s0 s" and "post_run org r user pd today number now s = (res, s')"
    and "\<And>k. res \<noteq> Inl (Fa_database k)"
  then show "depreciated_from s0 s'"
    using post_run_keeps [of s org r user pd today number now res s'] register_step_trans [of s0 s s']
    by (simp add: depreciated_from_def)
qed

lemmas fa_operation_intros = fa_operation_option fa_operation_bind fa_operation_if fa_operation_return

interpretation automating: fa_operation "depreciated_from s0" "create_automated_monthly_run org as_of today auto number now"
  for s0 org as_of today auto number now
  unfolding create_automated_monthly_run_def Let_def
  by (intro fa_operation_intros creating_run.fa_operation_axioms calculating_run.fa_operation_axioms
      posting_run.fa_operation_axioms)

datatype fa_op =
  Create_run uuid uuid uuid "string option"
| Calculate_run uuid uuid date timestamp
| Post_run uuid uuid uuid "date option" date string timestamp
| Automated_run uuid "date option" date bool string timestamp

fun perform :: "fa_op \<Rightarrow> fa_db \<Rightarrow> fa_db" where
  "perform (Create_run org p user descr) s = snd (fa_request (create_depreciation_run org p user descr) s)"
| "perform (Calculate_run org r today now) s = snd (fa_request (calculate_run org r today now) s)"
| "perform (Post_run org r user pd today number now) s = snd (fa_request (post_run org r user pd today number now) s)"
| "perform (Automated_run org as_of today auto number now) s
    = snd (fa_request (create_automated_monthly_run org as_of today auto number now) s)"

lemma depreciated_from_perform: "depreciated_from s0 s \<Longrightarrow> depreciated_from s0 (perform op s)"
  by (cases op) (simp_all del: fa_request.simps add: creating_run.request_keeps calculating_run.request_keeps
      posting_run.request_keeps automating.request_keeps)

lemma depreciated_from_requests: "depreciated_from s0 s \<Longrightarrow> depreciated_from s0 (fold perform ops s)"
  by (induction ops arbitrary: s) (simp_all add: depreciated_from_perform)

section \<open>Runs that are out of date\<close>

text \<open>A calculated run one of whose assets has been depreciated since.\<close>

definition outdated :: "uuid \<Rightarrow> fa_db \<Rightarrow> bool" where
  "outdated r s \<longleftrightarrow> fa_inv s \<and> (\<exists>run. get_row dr_id r (runs s) = Some run \<and> dr_status run = RS_CALCULATED)
     \<and> (\<exists>d \<in> set (schedules s). \<exists>a \<in> set (assets s). ds_run d = r \<and> as_id a = ds_asset d
       \<and> ds_accumulated_opening d < as_accumulated a)"

lemma outdated_not_calculated:
  assumes "outdated r s"
  shows "\<exists>c e. calculate_run org r today now s = (Inl (Fa_raised c e), s)"
  using assms by (auto simp: outdated_def calculate_run_def scoped_run_def raise_def)

lemma outdated_check:
  assumes "outdated r s"
  shows "check_schedules org (schedules_of r s) s \<noteq> None"
proof
  assume c: "check_schedules org (schedules_of r s) s = None"
  obtain d a where d: "d \<in> set (schedules s)" "a \<in> set (assets s)" "ds_run d = r" "as_id a = ds_asset d"
      "ds_accumulated_opening d < as_accumulated a" using assms by (auto simp: outdated_def)
  have "distinct (map as_id (assets s))" using assms by (simp add: outdated_def fa_inv_def)
  from get_row_distinct [OF this d(2)] have "get_row as_id (ds_asset d) (assets s) = Some a" using d(4) by simp
  moreover have "d \<in> set (schedules_of r s)" using d(1,3) by (simp add: schedules_of_def)
  ultimately show False using check_schedules_None [OF c] d(5) by fastforce
qed

lemma outdated_not_posted:
  assumes "outdated r s"
  shows "\<exists>c e. post_run org r user pd today number now s = (Inl (Fa_raised c e), s)"
proof -
  obtain res s' where p: "post_run org r user pd today number now s = (res, s')" by fastforce
  show ?thesis
  proof (cases "\<exists>run. scoped_run org r s = Some run \<and> dr_status run = RS_CALCULATED \<and> dr_created_by run \<noteq> user
      \<and> schedules_of r s \<noteq> []")
    case True
    then show ?thesis using outdated_check [OF assms, of org]
      by (auto simp: post_run_def raise_def split: option.split)
  next
    case False
    then show ?thesis by (auto simp: post_run_def raise_def split: option.split)
  qed
qed

lemma outdated_step:
  assumes "outdated r s" and inv: "fa_inv s'" and step: "register_step s s'"
    and run: "get_row dr_id r (runs s') = get_row dr_id r (runs s)"
    and same: "filter (\<lambda>d. ds_run d = r) (schedules s') = filter (\<lambda>d. ds_run d = r) (schedules s)"
  shows "outdated r s'"
proof -
  obtain d a where d: "d \<in> set (schedules s)" "a \<in> set (assets s)" "ds_run d = r" "as_id a = ds_asset d"
      "ds_accumulated_opening d < as_accumulated a" using assms(1) by (auto simp: outdated_def)
  obtain a' where a': "a' \<in> set (assets s')" "depreciates a a'"
    using step d(2) unfolding register_step_def by (metis list_all2_conv_all_nth in_set_conv_nth)
  have "d \<in> set (filter (\<lambda>d. ds_run d = r) (schedules s'))" using d(1,3) unfolding same by simp
  moreover have "as_id a' = ds_asset d" "ds_accumulated_opening d < as_accumulated a'"
    using a'(2) d(4,5) by (auto simp: depreciates_def)
  ultimately show ?thesis using assms(1) inv run a'(1) d(3) unfolding outdated_def by auto
qed

interpretation outdated_creating: fa_operation "outdated r" "create_depreciation_run org p user descr"
  for r org p user descr
proof
  fix s res s' assume o: "outdated r s" and c: "create_depreciation_run org p user descr s = (res, s')"
  show "outdated r s'"
  proof (cases res)
    case (Inl e)
    then show ?thesis using c o by (simp add: create_depreciation_run_def Let_def raise_def return_def split: if_splits)
  next
    case (Inr v)
    have "fa_inv s' \<and> assets s' = assets s" using fa_inv_create_run [of s org p user descr v s'] c o Inr by (simp add: outdated_def)
    moreover have "schedules s' = schedules s" "get_row dr_id r (runs s') = get_row dr_id r (runs s)"
      using c o Inr by (auto simp: create_depreciation_run_def Let_def raise_def return_def add_row_def get_row_append
          outdated_def split: if_splits option.splits)
    ultimately show ?thesis by (intro outdated_step [OF o] register_step_refl) simp_all
  qed
qed

interpretation outdated_calculating: fa_operation "outdated r" "calculate_run org q today now" for r org q today now
proof
  fix s res s' assume o: "outdated r s" and c: "calculate_run org q today now s = (res, s')"
  show "outdated r s'"
  proof (cases "q = r")
    case True
    then show ?thesis using outdated_not_calculated [OF o, of org today now] c o by auto
  next
    case False
    have k: "fa_inv s' \<and> assets s' = assets s" using calculate_run_keeps [OF _ c] o by (simp add: outdated_def)
    from c have "get_row dr_id r (runs s') = get_row dr_id r (runs s)
        \<and> filter (\<lambda>d. ds_run d = r) (schedules s') = filter (\<lambda>d. ds_run d = r) (schedules s)"
    proof (cases rule: calculate_run_effect)
      case (3 f new)
      have "\<forall>d \<in> set new. ds_run d = q" using 3(4) by (auto simp: schedule_of_def)
      then have "filter (\<lambda>d. ds_run d = r) new = []" using False by (auto simp: filter_empty_conv)
      then show ?thesis using 3(1,2) False by (auto simp: get_set_row filter_filter intro: filter_cong)
    qed (use False in \<open>simp_all add: get_set_row\<close>)
    then show ?thesis using k by (intro outdated_step [OF o] register_step_refl) simp_all
  qed
qed

interpretation outdated_posting: fa_operation "outdated r" "post_run org q user pd today number now"
  for r org q user pd today number now
proof
  fix s res s' assume o: "outdated r s" and p: "post_run org q user pd today number now s = (res, s')"
    and nd: "\<And>k. res \<noteq> Inl (Fa_database k)"
  show "outdated r s'"
  proof (cases "q = r")
    case True
    then show ?thesis using outdated_not_posted [OF o, of org user pd today number now] p o by auto
  next
    case False
    have k: "fa_inv s' \<and> register_step s s'" using post_run_keeps [OF _ p nd] o by (simp add: outdated_def)
    from p have "get_row dr_id r (runs s') = get_row dr_id r (runs s) \<and> schedules s' = schedules s"
      by (cases rule: post_run_cases) (use False nd in \<open>simp_all add: get_set_row\<close>)
    then show ?thesis using k by (intro outdated_step [OF o]) simp_all
  qed
qed

interpretation outdated_automating: fa_operation "outdated r" "create_automated_monthly_run org as_of today auto number now"
  for r org as_of today auto number now
  unfolding create_automated_monthly_run_def Let_def
  by (intro fa_operation_intros outdated_creating.fa_operation_axioms outdated_calculating.fa_operation_axioms
      outdated_posting.fa_operation_axioms)

lemma outdated_perform: "outdated r s \<Longrightarrow> outdated r (perform op s)"
  by (cases op) (simp_all del: fa_request.simps add: outdated_creating.request_keeps outdated_calculating.request_keeps
      outdated_posting.request_keeps outdated_automating.request_keeps)

lemma outdated_requests: "outdated r s \<Longrightarrow> outdated r (fold perform ops s)"
  by (induction ops arbitrary: s) (simp_all add: outdated_perform)

end
