(* ===== verification/Adapter_Facts.thy ===== *)
theory Adapter_Facts
  imports Journal_Facts
begin

text \<open>
  What a source document that posts through \<open>posting/base.py\<close> writes to the ledger: the amounts of the
  journal it describes, once, unless its idempotency key had been used. The sub-ledgers rest on this.
\<close>

lemma create_and_approve_lines:
  assumes inv: "gl_inv s" and c: "create_and_approve_journal org i user number now s = (Inr (Inr jid), s')"
  shows "lines_of s' jid = new_lines i jid (jid + 1) 0 (ji_lines i)" and "batches s' = batches s"
proof -
  obtain s1 where cr: "create_journal org i user number s = (Inr jid, s1)"
    and ap: "submit_and_approve_as_system org jid user now s1 = (Inr (), s')"
    using c by (auto simp: create_and_approve_journal_def bind_Inr raise_def return_def
        split: prod.splits sum.splits gl_error.splits)
  have "(\<exists>j. get_row je_id jid (journals s1) = Some j \<and> je_org j = org \<and> je_status j = J_DRAFT) \<and> batches s1 = batches s"
    using cr
  proof (rule create_journal_InrE)
    fix p td assume jid: "jid = next_uuid s" and s1: "s1 = audit org (next_uuid s) INSERT None None (Some user)
      (insert_journal (new_journal (next_uuid s) org number (fp_id p) i td td user)
         (new_lines i (next_uuid s) (next_uuid s + 1) 0 (ji_lines i)) (next_uuid s + 1 + length (ji_lines i)) s)"
    have "get_row je_id jid (journals s) = None"
      using inv jid by (auto simp: get_row_None_iff gl_inv_def ids_ok_def)
    then show ?thesis by (simp add: s1 jid get_row_append) (simp add: new_journal_def)
  qed
  then obtain j where j: "get_row je_id jid (journals s1) = Some j" "je_org j = org" "je_status j = J_DRAFT"
    and b: "batches s1 = batches s" by blast
  note same = system_approval_result(3,4) [OF j ap]
  show "batches s' = batches s" using same(2) b by simp
  show "lines_of s' jid = new_lines i jid (jid + 1) 0 (ji_lines i)"
    using lines_of_cong [OF same(1)] lines_of_create [OF inv cr] by simp
qed

definition stored_amounts :: "journal_input \<Rightarrow> line_input \<Rightarrow> uuid \<times> decimal \<times> decimal" where
  "stored_amounts i l = (li_account l, numeric6 (numeric6 (functional_debit i l)), numeric6 (numeric6 (functional_credit i l)))"

text \<open>What the ledger makes of the journal that was created.\<close>

lemma posting_cases:
  assumes inv: "gl_inv s" and c: "create_and_approve_journal org i user number now s = (Inr (Inr jid), s1)"
    and fresh: "find_batch s org (rq_idempotency_key rq) = None"
    and rq: "rq_organization_id rq = org" "rq_journal_entry_id rq = jid" "rq_entries rq = []"
    and p: "post_journal_entry rq now' s1 = (r, t)"
  obtains (refused) e where "r = Inl e" "(\<exists>k. e = IntegrityError k) \<or> books_kept s1 t"
  | (posted) res new bid where "r = Inr res" "res_success res" "res_batch_id res = Some bid" "ledger t = ledger s @ new"
      "map ledger_view new = map (stored_amounts i) (ji_lines i)" "\<forall>l \<in> set new. ll_journal l = jid \<and> ll_org l = org"
      "\<exists>x \<in> set (journals t). je_id x = jid \<and> je_status x = J_POSTED"
proof -
  note lines = create_and_approve_lines [OF inv c]
  obtain j where j: "get_row je_id jid (journals s1) = Some j" "je_org j = org" "je_status j = J_APPROVED"
      "je_posting_batch_id j = None" and l: "ledger s1 = ledger s"
    using create_and_approve_result [OF inv c] by blast
  have nb: "find_batch s1 org (rq_idempotency_key rq) = None" using fresh lines(2) by (simp add: find_batch_def)
  from p show thesis
  proof (cases rule: post_journal_entry_cases)
    case (replayed b)
    then show thesis using nb rq by simp
  next
    case (posted res j' pid bid)
    have j': "j' = j" using posted(2) j(1) rq by (simp add: posts_def)
    have e: "entries_to_post s1 rq j' = map entry_of_line (new_lines i jid (jid + 1) 0 (ji_lines i))"
      using lines(1) get_row_SomeD [OF j(1)] j' rq by (simp add: entries_to_post_def load_journal_lines_def)
    obtain u where g: "ledger t = ledger s @ ledger_lines_from s1 rq j' pid bid u (entries_to_post s1 rq j')"
      using posted(2) l by (auto simp: posts_def)
    let ?new = "ledger_lines_from s1 rq j' pid bid u (entries_to_post s1 rq j')"
    have v: "map ledger_view ?new = map (stored_amounts i) (ji_lines i)"
      unfolding e ledger_view_of_lines
      by (rule map_new_lines) (simp add: line_view_def stored_amounts_def new_line_def)
    have w: "\<forall>x \<in> set ?new. ll_journal x = jid \<and> ll_org x = org"
      using get_row_SomeD [OF j(1)] j' rq by (auto dest!: in_ledger_lines_from)
    have "journals t = set_row je_id jid (\<lambda>k. k\<lparr>je_status := J_POSTED, je_posting_batch_id := Some bid,
        je_posted_at := Some now', je_posted_by := Some (case rq_posted_by rq of Some u \<Rightarrow> u | None \<Rightarrow> je_created_by j')\<rparr>) (journals s1)"
      using posted(2) rq by (simp add: posts_def)
    moreover have "j \<in> set (journals s1)" "je_id j = jid" using get_row_SomeD [OF j(1)] by simp_all
    ultimately have "\<exists>x \<in> set (journals t). je_id x = jid \<and> je_status x = J_POSTED"
      by (simp only:) (rule set_row_updated [where r = j], simp_all)
    with posted g v w show thesis by (intro that(2)) auto
  qed (rule that(1))
qed

lemma adapter_splits:
  assumes "create_approve_and_post_journal org i user number d key src corr now s = (Inr (jo, r), s')"
    and "ar_success r"
  obtains jid s1 where "jo = Some jid" and "create_and_approve_journal org i user number now s = (Inr (Inr jid), s1)"
    and "post_to_ledger org jid d key src corr user now s1 = (Inr r, s')"
proof -
  obtain cr s1 where c: "create_and_approve_journal org i user number now s = (Inr cr, s1)"
    and k: "(case cr of Inl e \<Rightarrow> return (None, e) s1 | Inr jid \<Rightarrow>
        bind_tx (post_to_ledger org jid d key src corr user now s1) (\<lambda>r s2. return (Some jid, r) s2))
      = (Inr (jo, r), s')"
    using assms(1) unfolding create_approve_and_post_journal_def by (rule bind_InrE)
  have "\<not> ar_success e" if "cr = Inl e" for e
    using c that by (auto simp: create_and_approve_journal_def failed_result_def raise_def return_def
        split: prod.splits sum.splits gl_error.splits)
  then show thesis using k c assms(2) that by (cases cr) (auto simp: bind_Inr return_def)
qed

lemma adapter_effect:
  assumes inv: "gl_inv s" and fresh: "find_batch s org key = None"
    and a: "create_approve_and_post_journal org i user number d key src corr now s = (Inr (jo, r), s')" "ar_success r"
  obtains jid new where "jo = Some jid" and "ledger s' = ledger s @ new"
    and "map ledger_view new = map (stored_amounts i) (ji_lines i)" and "\<forall>l \<in> set new. ll_journal l = jid \<and> ll_org l = org"
proof -
  obtain jid s1 where jo: "jo = Some jid" and c: "create_and_approve_journal org i user number now s = (Inr (Inr jid), s1)"
    and p: "post_to_ledger org jid d key src corr user now s1 = (Inr r, s')"
    using adapter_splits [OF a] .
  let ?rq = "adapter_request org jid d key src corr user"
  obtain j where j: "get_row je_id jid (journals s1) = Some j" "je_status j = J_APPROVED" "je_posting_batch_id j = None"
    using create_and_approve_result [OF inv c] by blast
  obtain r1 t where pj: "post_journal_entry ?rq now s1 = (r1, t)" by fastforce
  have rq: "rq_organization_id ?rq = org" "rq_journal_entry_id ?rq = jid" "rq_entries ?rq = []"
      "find_batch s org (rq_idempotency_key ?rq) = None"
    using fresh by (simp_all add: adapter_request_def)
  from inv c rq(4,1-3) pj show thesis
  proof (cases rule: posting_cases)
    case (refused e)
    then show thesis using refused_posting_reverted(1) [OF j pj [unfolded refused(1)] refused(2) p] a(2) by simp
  next
    case (posted res new bid)
    have "s' = t" using p pj posted by (auto simp: post_to_ledger_def)
    then show thesis using that [OF jo] posted by simp
  qed
qed

end
