(* ===== verification/Fa_Document_Facts.thy ===== *)
theory Fa_Document_Facts
  imports Fa_Documents Depreciation_Requests Adapter_Facts
begin

text \<open>
  What posting a document of the register does to the ledger, the lines of disposals and revaluations, and
  what the operations keep: the rows of documents stay well formed, and disposals leave the values of
  assets alone, so that they are operations of the register like those of depreciation.
\<close>

section \<open>Lines\<close>

text \<open>A line whose functional amounts are its amounts, with no more decimals than are stored.\<close>

definition simple_line :: "line_input \<Rightarrow> bool" where
  "simple_line l \<longleftrightarrow> li_debit_functional l = Some (li_debit l) \<and> li_credit_functional l = Some (li_credit l)
     \<and> at_scale 6 (li_debit l) \<and> at_scale 6 (li_credit l)"

definition lines_net :: "uuid \<Rightarrow> line_input list \<Rightarrow> decimal" where
  "lines_net a ls = (\<Sum>l\<leftarrow>ls. if li_account l = a then li_debit l - li_credit l else 0)"

lemma lines_net_simps [simp]:
  "lines_net a [] = 0" "lines_net a (xs @ ys) = lines_net a xs + lines_net a ys"
  "lines_net a (debit_line b v t # ls) = (if b = a then v else 0) + lines_net a ls"
  "lines_net a (credit_line b v t # ls) = (if b = a then - v else 0) + lines_net a ls"
  by (simp_all add: lines_net_def debit_line_def credit_line_def)

lemma simple_lines [simp]: "simple_line (debit_line a v t) = at_scale 6 v" "simple_line (credit_line a v t) = at_scale 6 v"
  by (simp_all add: simple_line_def debit_line_def credit_line_def)

lemma line_amounts [simp]: "li_debit (debit_line a v t) = v" "li_credit (debit_line a v t) = 0"
  "li_debit (credit_line a v t) = 0" "li_credit (credit_line a v t) = v"
  by (simp_all add: debit_line_def credit_line_def)

lemma document_journal_lines [simp]: "ji_lines (document_journal t g k a u e d ls) = ls"
  by (simp add: document_journal_def)

lemma stored_simple_lines:
  assumes "\<forall>l \<in> set ls. simple_line l"
  shows "view_net a (map (stored_amounts i) ls) = lines_net a ls"
proof -
  have "stored_amounts i l = (li_account l, li_debit l, li_credit l)" if "simple_line l" for l
    using that by (simp add: simple_line_def stored_amounts_def functional_debit_def functional_credit_def functional_def quantize_at_scale)
  then have same: "map (stored_amounts i) ls = map (\<lambda>l. (li_account l, li_debit l, li_credit l)) ls" using assms by simp
  show ?thesis unfolding same view_net_def lines_net_def by (simp add: o_def)
qed

section \<open>The adapter\<close>

lemma created_journal_balanced:
  assumes c: "create_approve_and_post_journal org i user number d key src corr now s = (Inr (jo, r), s')" "ar_success r"
    and simple: "\<forall>l \<in> set (ji_lines i). simple_line l"
  shows "(\<Sum>l\<leftarrow>ji_lines i. li_debit l) = (\<Sum>l\<leftarrow>ji_lines i. li_credit l)"
proof -
  obtain jid s1 where "create_and_approve_journal org i user number now s = (Inr (Inr jid), s1)"
    using adapter_splits [OF c] by metis
  then obtain s2 where "create_journal org i user number s = (Inr jid, s2)"
    by (auto simp: create_and_approve_journal_def bind_Inr raise_def return_def split: prod.splits sum.splits gl_error.splits)
  then obtain td where td: "require_balanced (ji_lines i) = Inr (td, td)" by (rule create_journal_InrE)
  have "sum_at_persisted_scale (map f (ji_lines i)) = (\<Sum>l\<leftarrow>ji_lines i. f l)" if "\<And>l. simple_line l \<Longrightarrow> at_scale 6 (f l)" for f
    using simple that by (simp add: sum_at_persisted_scale_def o_def quantize_at_scale cong: map_cong)
  from this [of li_debit] this [of li_credit] show ?thesis
    using td by (simp add: require_balanced_def Let_def simple_line_def split: if_splits)
qed

lemma post_document_cases:
  assumes "post_document org i user number d key now s = (Inr fr, s')" and "fr_success fr"
  obtains jid res b where "create_approve_and_post_journal org i user number d key ''FA'' None now (books s) = (Inr (Some jid, res), b)"
    and "ar_success res" and "s' = s\<lparr>books := b\<rparr>" and "fr_journal fr = Some jid"
  using assms by (auto simp: post_document_def fa_refused_def raise_def return_def
      split: prod.splits sum.splits gl_error.splits if_splits option.splits)

lemma post_document_effect:
  assumes inv: "gl_inv (books s)" and fresh: "find_batch (books s) org key = None"
    and p: "post_document org i user number d key now s = (Inr fr, s')" "fr_success fr"
    and simple: "\<forall>l \<in> set (ji_lines i). simple_line l"
  obtains jid new b where "s' = s\<lparr>books := b\<rparr>" and "fr_journal fr = Some jid" and "ledger b = ledger (books s) @ new"
    and "\<forall>l \<in> set new. ll_journal l = jid \<and> ll_org l = org" and "\<And>a. account_net a new = lines_net a (ji_lines i)"
    and "(\<Sum>l\<leftarrow>ji_lines i. li_debit l) = (\<Sum>l\<leftarrow>ji_lines i. li_credit l)" and "gl_inv b"
proof -
  obtain jid res b where a: "create_approve_and_post_journal org i user number d key ''FA'' None now (books s) = (Inr (Some jid, res), b)"
      "ar_success res" and s': "s' = s\<lparr>books := b\<rparr>" and j: "fr_journal fr = Some jid"
    using post_document_cases [OF p] .
  obtain jid' new where n: "Some jid = Some jid'" "ledger b = ledger (books s) @ new"
      "map ledger_view new = map (stored_amounts i) (ji_lines i)" "\<forall>l \<in> set new. ll_journal l = jid' \<and> ll_org l = org"
    by (rule adapter_effect [OF inv fresh a])
  have "account_net k new = lines_net k (ji_lines i)" for k
    unfolding account_net_view n(3) by (rule stored_simple_lines [OF simple])
  then show thesis using that s' j n created_journal_balanced [OF a simple] adapter.returns [OF inv a(1)] by simp
qed

lemma post_document_books:
  assumes "post_document org i user number d key now s = (res, s')"
  shows "\<exists>b. s' = s\<lparr>books := b\<rparr>"
  using assms by (auto simp: post_document_def raise_def return_def split: option.splits if_splits prod.splits sum.splits gl_error.splits)

section \<open>The rows of documents\<close>

definition documents_ok :: "fa_db \<Rightarrow> bool" where
  "documents_ok s \<longleftrightarrow> (\<forall>d \<in> set (disposals s). dp_id d < next_fa s)
     \<and> (\<forall>v \<in> set (revaluations s). rv_id v < next_fa s \<and> at_scale 6 (rv_to_equity v) \<and> at_scale 6 (rv_to_pl v)
         \<and> 0 \<le> rv_to_equity v \<and> 0 \<le> rv_to_pl v)"

text \<open>The values of an asset as the register keeps them.\<close>

definition asset_sound :: "fa_asset \<Rightarrow> bool" where
  "asset_sound a \<longleftrightarrow> at_scale 6 (as_accumulated a) \<and> at_scale 6 (as_nbv a) \<and> 0 \<le> as_accumulated a
     \<and> cost_basis a = as_accumulated a + as_nbv a"

lemma new_disposal_id: "documents_ok s \<Longrightarrow> get_row dp_id (next_fa s) (disposals s) = None"
  by (auto simp: get_row_None_iff documents_ok_def)

lemma new_revaluation_id: "documents_ok s \<Longrightarrow> get_row rv_id (next_fa s) (revaluations s) = None"
  by (auto simp: get_row_None_iff documents_ok_def)

lemma get_row_new [simp]: "get_row f u xs = None \<Longrightarrow> f x = u \<Longrightarrow> get_row f u (add_row x xs) = Some x"
  by (simp add: add_row_def get_row_append)

lemma get_row_old: "get_row f u xs = Some y \<Longrightarrow> get_row f u (add_row x xs) = Some y"
  by (simp add: add_row_def get_row_append)

lemma scoped_asset_SomeD:
  assumes "scoped_asset org u s = Some a"
  shows "get_row as_id u (assets s) = Some a" "as_id a = u" "as_org a = org" "a \<in> set (assets s)"
  using assms get_row_SomeD [of as_id u "assets s"] by (auto simp: scoped_asset_def split: option.splits if_splits)

lemma scoped_asset_frame: "assets t = assets s \<Longrightarrow> scoped_asset org u t = scoped_asset org u s"
  by (simp add: scoped_asset_def)

lemma create_disposal_InrE:
  assumes "create_disposal org i user s = (Inr u, s')"
  obtains a where "0 \<le> di_proceeds i" "0 \<le> di_costs i" "scoped_asset org (di_asset i) s = Some a"
    "as_status a \<in> {AS_IN_USE, AS_FAULTY, AS_FULLY_DEPRECIATED}" "u = next_fa s"
    "s' = s\<lparr>disposals := add_row (new_disposal (next_fa s) a i user) (disposals s), next_fa := Suc (next_fa s)\<rparr>"
  using assms by (auto simp: create_disposal_def raise_def return_def split: option.splits if_splits)
    (metis asset_status.exhaust)

lemma approve_disposal_InrE:
  assumes "approve_disposal org u user now s = (Inr v, s')"
  obtains d a where "get_row dp_id u (disposals s) = Some d" "scoped_asset org (dp_asset d) s = Some a"
    "dp_approved_by d = None" "dp_created_by d \<noteq> user"
    "s' = (set_asset (dp_asset d) (\<lambda>a. a\<lparr>as_status := AS_RETIRED, as_disposal_date := Some (dp_date d),
            as_disposal_proceeds := Some (dp_net_proceeds d), as_disposal_gain_loss := Some (dp_gain_loss d)\<rparr>)
          (set_disposal u (\<lambda>d. d\<lparr>dp_approved_by := Some user, dp_approved_at := Some now\<rparr>) s))
          \<lparr>lifecycle := lifecycle s @ [\<lparr>le_org = org, le_asset = as_id a, le_source_type = ''asset_disposal'',
             le_source = u, le_previous = Some (as_status a), le_new = AS_RETIRED, le_schedule = None\<rparr>]\<rparr>"
  using assms by (auto simp: approve_disposal_def raise_def return_def split: option.splits if_splits)

lemma post_disposal_InrE:
  assumes "post_disposal org u user pd number now s = (Inr v, s')"
  obtains x a c fr s1 where "get_row dp_id u (disposals s) = Some x" "scoped_asset org (dp_asset x) s = Some a"
    "get_row ca_id (as_category a) (categories s) = Some c" "dp_approved_by x \<noteq> None" "dp_journal x = None"
    "post_document org (document_journal ''Asset Disposal: '' ''DISP-'' ''ASSET_DISPOSAL'' a u (dp_date x)
        (case pd of Some d \<Rightarrow> d | None \<Rightarrow> dp_date x) (disposal_lines x a c))
      user number (case pd of Some d \<Rightarrow> d | None \<Rightarrow> dp_date x) (document_key ''DISP'' org u) now s = (Inr fr, s1)"
    "fr_success fr" "s' = set_disposal u (\<lambda>x. x\<lparr>dp_journal := fr_journal fr\<rparr>) s1"
  using assms by (auto simp: post_disposal_def post_asset_disposal_def bind_Inr raise_def return_def fa_refused_def
      split: option.splits if_splits)

text \<open>Disposals do not touch what depreciation is about.\<close>

lemma disposal_create_register:
  assumes "create_disposal org i user s = (res, s')"
  shows "assets s' = assets s \<and> runs s' = runs s \<and> schedules s' = schedules s \<and> next_fa s \<le> next_fa s'"
  using assms by (auto simp: create_disposal_def raise_def return_def split: option.splits if_splits)

lemma depreciated_from_frame:
  assumes "depreciated_from s0 s" and "runs s' = runs s" "schedules s' = schedules s" "next_fa s \<le> next_fa s'"
    and "\<exists>f. assets s' = map f (assets s) \<and> (\<forall>a. as_id (f a) = as_id a \<and> as_org (f a) = as_org a \<and> as_residual (f a) = as_residual a
      \<and> as_accumulated (f a) = as_accumulated a \<and> as_nbv (f a) = as_nbv a \<and> as_remaining_life (f a) = as_remaining_life a)"
  shows "depreciated_from s0 s'"
proof -
  obtain f where f: "assets s' = map f (assets s)" and k: "\<And>a. as_id (f a) = as_id a" "\<And>a. as_org (f a) = as_org a"
      "\<And>a. as_residual (f a) = as_residual a" "\<And>a. as_accumulated (f a) = as_accumulated a" "\<And>a. as_nbv (f a) = as_nbv a"
      "\<And>a. as_remaining_life (f a) = as_remaining_life a"
    using assms(5) by blast
  have "fa_inv s'" using assms(1-4) k
    by (force simp: depreciated_from_def fa_inv_def f o_def schedule_fits_def stored_asset_def)
  moreover have "register_step s s'"
    by (simp add: register_step_def f list_all2_map2 depreciates_def k list_all2_same)
  ultimately show ?thesis using assms(1) register_step_trans by (auto simp: depreciated_from_def)
qed

interpretation disposal_creating: fa_operation "depreciated_from s0" "create_disposal org i user" for s0 org i user
proof
  fix s res s' assume "depreciated_from s0 s" and "create_disposal org i user s = (res, s')"
  then show "depreciated_from s0 s'"
    using disposal_create_register [of org i user s res s'] by (intro depreciated_from_frame [of s0 s s']) (auto intro: exI [of _ id])
qed

interpretation disposal_approving: fa_operation "depreciated_from s0" "approve_disposal org u user now" for s0 org u user now
proof
  fix s res s' assume d: "depreciated_from s0 s" and a: "approve_disposal org u user now s = (res, s')"
  show "depreciated_from s0 s'"
  proof (cases res)
    case (Inl e)
    then have "s' = s" using a by (auto simp: approve_disposal_def raise_def return_def split: option.splits if_splits)
    then show ?thesis using d by simp
  next
    case (Inr v)
    from a [unfolded Inr] show ?thesis
    proof (rule approve_disposal_InrE)
      fix x b assume "s' = (set_asset (dp_asset x) (\<lambda>a. a\<lparr>as_status := AS_RETIRED, as_disposal_date := Some (dp_date x),
            as_disposal_proceeds := Some (dp_net_proceeds x), as_disposal_gain_loss := Some (dp_gain_loss x)\<rparr>)
          (set_disposal u (\<lambda>d. d\<lparr>dp_approved_by := Some user, dp_approved_at := Some now\<rparr>) s))
          \<lparr>lifecycle := lifecycle s @ [\<lparr>le_org = org, le_asset = as_id b, le_source_type = ''asset_disposal'',
             le_source = u, le_previous = Some (as_status b), le_new = AS_RETIRED, le_schedule = None\<rparr>]\<rparr>"
      then show ?thesis
        by (intro depreciated_from_frame [OF d] exI [of _ "\<lambda>r. if as_id r = dp_asset x then r\<lparr>as_status := AS_RETIRED,
            as_disposal_date := Some (dp_date x), as_disposal_proceeds := Some (dp_net_proceeds x),
            as_disposal_gain_loss := Some (dp_gain_loss x)\<rparr> else r"]) (auto simp: set_row_def)
    qed
  qed
qed

lemma post_asset_disposal_books:
  assumes "post_asset_disposal org u d user number now s = (res, s')"
  shows "\<exists>b. s' = s\<lparr>books := b\<rparr>"
proof -
  have same: "\<exists>b. s = s\<lparr>books := b\<rparr>" by (rule exI [of _ "books s"]) simp
  show ?thesis using assms same
    by (auto simp: post_asset_disposal_def return_def split: option.splits dest: post_document_books)
qed

interpretation disposal_posting: fa_operation "depreciated_from s0" "post_disposal org u user pd number now" for s0 org u user pd number now
proof
  fix s res s' assume d: "depreciated_from s0 s" and p: "post_disposal org u user pd number now s = (res, s')"
  have "assets s' = assets s \<and> runs s' = runs s \<and> schedules s' = schedules s \<and> next_fa s' = next_fa s"
  proof (cases "\<exists>x. get_row dp_id u (disposals s) = Some x \<and> scoped_asset org (dp_asset x) s \<noteq> None \<and> dp_approved_by x \<noteq> None \<and> dp_journal x = None")
    case False
    then show ?thesis using p by (auto simp: post_disposal_def raise_def split: option.splits if_splits)
  next
    case True
    then obtain x a y where x: "get_row dp_id u (disposals s) = Some x" "scoped_asset org (dp_asset x) s = Some a"
      "dp_approved_by x = Some y" "dp_journal x = None" by auto
    obtain r s1 where r: "post_asset_disposal org u (case pd of Some d \<Rightarrow> d | None \<Rightarrow> dp_date x) user number now s = (r, s1)" by fastforce
    obtain b where "s1 = s\<lparr>books := b\<rparr>" using post_asset_disposal_books [OF r] by blast
    then show ?thesis using p x r by (cases r) (auto simp: post_disposal_def raise_def return_def split: if_splits)
  qed
  then show "depreciated_from s0 s'" by (intro depreciated_from_frame [OF d]) (auto intro: exI [of _ id])
qed

end
