(* ===== verification/Fa_Document_Properties.thy ===== *)
theory Fa_Document_Properties
  imports Fa_Document_Facts
begin

text \<open>
  Disposals and revaluations against the ledger: what a posting moves on every account, which documents can
  never be posted, and how often an asset or a surplus can be used up.
\<close>

section \<open>Disposal\<close>

definition input_stored :: "disposal_input \<Rightarrow> bool" where
  "input_stored i \<longleftrightarrow> at_scale 6 (net_proceeds_of i)"

definition disposal_recorded :: "asset_disposal \<Rightarrow> bool" where
  "disposal_recorded d \<longleftrightarrow> at_scale 6 (dp_accumulated d) \<and> at_scale 6 (dp_nbv d) \<and> at_scale 6 (dp_net_proceeds d)
     \<and> 0 \<le> dp_accumulated d \<and> dp_cost d = dp_accumulated d + dp_nbv d \<and> dp_gain_loss d = dp_net_proceeds d - dp_nbv d"

text \<open>What the posting of a disposal moves on an account.\<close>

definition derecognition :: "uuid \<Rightarrow> asset_category \<Rightarrow> fa_asset \<Rightarrow> decimal" where
  "derecognition k c a = (if k = ca_accumulated_account c then as_accumulated a else 0)
     - (if k = ca_asset_account c then cost_basis a else 0) + (if k = ca_gain_loss_account c then as_nbv a else 0)"

lemma new_disposal_recorded:
  assumes "asset_sound a" and "input_stored i"
  shows "disposal_recorded (new_disposal u a i user)"
proof -
  have "at_scale 6 (net_proceeds_of i - as_nbv a)" using assms by (auto simp: asset_sound_def input_stored_def)
  then show ?thesis using assms
    by (simp add: disposal_recorded_def new_disposal_def asset_sound_def input_stored_def quantize_at_scale)
qed

text \<open>The service's own calculator agrees with what is recorded.\<close>

lemma recorded_gain_loss:
  assumes "disposal_recorded d"
  shows "calculate_gain_loss (dp_cost d) (dp_accumulated d) (dp_net_proceeds d) = (dp_nbv d, dp_gain_loss d)"
  using assms by (simp add: calculate_gain_loss_def disposal_recorded_def)

lemma disposal_lines_simple:
  assumes "disposal_recorded d"
  shows "\<forall>l \<in> set (disposal_lines d a c). simple_line l"
proof -
  have "at_scale 6 (dp_gain_loss d)" "at_scale 6 (dp_cost d)" using assms by (auto simp: disposal_recorded_def)
  then show ?thesis using assms by (auto simp: disposal_lines_def disposal_recorded_def at_scale_abs)
qed

lemma disposal_lines_balance:
  assumes "disposal_recorded d"
  shows "(\<Sum>l\<leftarrow>disposal_lines d a c. li_debit l) - (\<Sum>l\<leftarrow>disposal_lines d a c. li_credit l) = max 0 (- dp_net_proceeds d)"
  using assms by (auto simp: disposal_lines_def disposal_recorded_def)

lemma disposal_lines_net:
  assumes "disposal_recorded d" and "0 \<le> dp_net_proceeds d"
  shows "lines_net k (disposal_lines d a c) = (if k = ca_accumulated_account c then dp_accumulated d else 0)
     - (if k = ca_asset_account c then dp_cost d else 0) + (if k = ca_gain_loss_account c then dp_nbv d else 0)"
  using assms by (auto simp: disposal_lines_def disposal_recorded_def)

text \<open>The effect of a posting, whatever happened since the disposal was recorded.\<close>

lemma post_disposal_effect:
  assumes p: "post_disposal org u user pd number now s = (Inr v, s')"
    and inv: "gl_inv (books s)" and fresh: "find_batch (books s) org (document_key ''DISP'' org u) = None"
    and d: "get_row dp_id u (disposals s) = Some d" "disposal_recorded d"
    and a: "scoped_asset org (dp_asset d) s = Some a" "get_row ca_id (as_category a) (categories s) = Some c"
  obtains jid new b where "s' = set_disposal u (\<lambda>x. x\<lparr>dp_journal := Some jid\<rparr>) (s\<lparr>books := b\<rparr>)"
    and "ledger b = ledger (books s) @ new" and "\<forall>l \<in> set new. ll_journal l = jid \<and> ll_org l = org"
    and "0 \<le> dp_net_proceeds d" and "gl_inv b"
    and "\<And>k. account_net k new = (if k = ca_accumulated_account c then dp_accumulated d else 0)
     - (if k = ca_asset_account c then dp_cost d else 0) + (if k = ca_gain_loss_account c then dp_nbv d else 0)"
  using p
proof (rule post_disposal_InrE)
  fix x a' c' fr s1
  assume x: "get_row dp_id u (disposals s) = Some x" "scoped_asset org (dp_asset x) s = Some a'"
      "get_row ca_id (as_category a') (categories s) = Some c'"
    and doc: "post_document org (document_journal ''Asset Disposal: '' ''DISP-'' ''ASSET_DISPOSAL'' a' u (dp_date x)
        (case pd of Some d \<Rightarrow> d | None \<Rightarrow> dp_date x) (disposal_lines x a' c'))
      user number (case pd of Some d \<Rightarrow> d | None \<Rightarrow> dp_date x) (document_key ''DISP'' org u) now s = (Inr fr, s1)" "fr_success fr"
    and s': "s' = set_disposal u (\<lambda>x. x\<lparr>dp_journal := fr_journal fr\<rparr>) s1"
  have same: "x = d" "a' = a" "c' = c" using x d(1) a by simp_all
  let ?j = "document_journal ''Asset Disposal: '' ''DISP-'' ''ASSET_DISPOSAL'' a u (dp_date d)
        (case pd of Some d \<Rightarrow> d | None \<Rightarrow> dp_date d) (disposal_lines d a c)"
  have simple: "\<forall>l \<in> set (ji_lines ?j). simple_line l" using disposal_lines_simple [OF d(2)] by simp
  from doc(1) have doc': "post_document org ?j user number (case pd of Some d \<Rightarrow> d | None \<Rightarrow> dp_date d)
      (document_key ''DISP'' org u) now s = (Inr fr, s1)" by (simp only: same)
  obtain jid new b where b: "s1 = s\<lparr>books := b\<rparr>" "fr_journal fr = Some jid" "ledger b = ledger (books s) @ new"
      "\<forall>l \<in> set new. ll_journal l = jid \<and> ll_org l = org" "\<And>k. account_net k new = lines_net k (ji_lines ?j)"
      "(\<Sum>l\<leftarrow>ji_lines ?j. li_debit l) = (\<Sum>l\<leftarrow>ji_lines ?j. li_credit l)" "gl_inv b"
    by (rule post_document_effect [OF inv fresh doc' doc(2) simple]) (rule that)
  have n: "0 \<le> dp_net_proceeds d" using disposal_lines_balance [OF d(2), of a c] b(6) by simp
  show thesis
  proof (rule that)
    show "s' = set_disposal u (\<lambda>x. x\<lparr>dp_journal := Some jid\<rparr>) (s\<lparr>books := b\<rparr>)" using s' b(1,2) by simp
    fix k show "account_net k new = (if k = ca_accumulated_account c then dp_accumulated d else 0)
     - (if k = ca_asset_account c then dp_cost d else 0) + (if k = ca_gain_loss_account c then dp_nbv d else 0)"
      using b(5) [of k] disposal_lines_net [OF d(2) n, of k a c] by simp
  qed (rule b n)+
qed

lemma unbalanced_never_posted:
  assumes row: "get_row dp_id u (disposals s) = Some d" and simple: "\<And>a c. \<forall>l \<in> set (disposal_lines d a c). simple_line l"
    and unbalanced: "\<And>a c. (\<Sum>l\<leftarrow>disposal_lines d a c. li_debit l) \<noteq> (\<Sum>l\<leftarrow>disposal_lines d a c. li_credit l)"
  shows "\<exists>e s'. post_disposal org u user pd number now s = (Inl e, s')"
proof -
  obtain r s' where p: "post_disposal org u user pd number now s = (r, s')" by fastforce
  have False if "r = Inr v" for v
    using p [unfolded that]
  proof (rule post_disposal_InrE)
    fix x a' c' fr s1
    assume x: "get_row dp_id u (disposals s) = Some x"
      and doc: "post_document org (document_journal ''Asset Disposal: '' ''DISP-'' ''ASSET_DISPOSAL'' a' u (dp_date x)
          (case pd of Some d \<Rightarrow> d | None \<Rightarrow> dp_date x) (disposal_lines x a' c'))
        user number (case pd of Some d \<Rightarrow> d | None \<Rightarrow> dp_date x) (document_key ''DISP'' org u) now s = (Inr fr, s1)" "fr_success fr"
    have same: "x = d" using x row by simp
    from doc show False
    proof (rule post_document_cases)
      fix jid res b
      assume "create_approve_and_post_journal org (document_journal ''Asset Disposal: '' ''DISP-'' ''ASSET_DISPOSAL'' a' u (dp_date x)
          (case pd of Some d \<Rightarrow> d | None \<Rightarrow> dp_date x) (disposal_lines x a' c')) user number
          (case pd of Some d \<Rightarrow> d | None \<Rightarrow> dp_date x) (document_key ''DISP'' org u) ''FA'' None now (books s) = (Inr (Some jid, res), b)"
        and "ar_success res"
      from created_journal_balanced [OF this] simple unbalanced show False by (simp add: same)
    qed
  qed
  then show ?thesis using p by (cases r) auto
qed

lemma recorded_never_posted:
  assumes "get_row dp_id u (disposals s) = Some d" and "disposal_recorded d" and "dp_net_proceeds d < 0"
  shows "\<exists>e s'. post_disposal org u user pd number now s = (Inl e, s')"
proof (rule unbalanced_never_posted [OF assms(1) disposal_lines_simple [OF assms(2)]])
  fix a c show "(\<Sum>l\<leftarrow>disposal_lines d a c. li_debit l) \<noteq> (\<Sum>l\<leftarrow>disposal_lines d a c. li_credit l)"
    using disposal_lines_balance [OF assms(2), of a c] assms(3) by simp
qed

lemma created_disposal:
  assumes "documents_ok s" and "create_disposal org i user s = (Inr u, s1)" and "scoped_asset org (di_asset i) s = Some a"
  shows "get_row dp_id u (disposals s1) = Some (new_disposal u a i user)" and "u = next_fa s" and "books s1 = books s"
    and "assets s1 = assets s" and "categories s1 = categories s" and "documents_ok s1"
    and "\<And>w d. get_row dp_id w (disposals s) = Some d \<Longrightarrow> get_row dp_id w (disposals s1) = Some d"
proof -
  obtain a' where "scoped_asset org (di_asset i) s = Some a'" and u: "u = next_fa s"
    and s1: "s1 = s\<lparr>disposals := add_row (new_disposal (next_fa s) a' i user) (disposals s), next_fa := Suc (next_fa s)\<rparr>"
    using assms(2) by (rule create_disposal_InrE)
  then have a': "a' = a" using assms(3) by simp
  show "u = next_fa s" by (rule u)
  show "get_row dp_id u (disposals s1) = Some (new_disposal u a i user)"
    using new_disposal_id [OF assms(1)] by (simp add: s1 u a' get_add_row) (simp add: new_disposal_def)
  show "books s1 = books s" "assets s1 = assets s" "categories s1 = categories s" by (simp_all add: s1)
  show "documents_ok s1" using assms(1) by (auto simp: documents_ok_def s1 add_row_def new_disposal_def less_Suc_eq)
  show "get_row dp_id w (disposals s1) = Some d" if "get_row dp_id w (disposals s) = Some d" for w d
    using that by (simp add: s1 get_add_row)
qed

definition retired :: "asset_disposal \<Rightarrow> fa_asset \<Rightarrow> fa_asset" where
  "retired d a = a\<lparr>as_status := AS_RETIRED, as_disposal_date := Some (dp_date d),
     as_disposal_proceeds := Some (dp_net_proceeds d), as_disposal_gain_loss := Some (dp_gain_loss d)\<rparr>"

definition approved_disposal :: "uuid \<Rightarrow> timestamp \<Rightarrow> asset_disposal \<Rightarrow> asset_disposal" where
  "approved_disposal user now d = d\<lparr>dp_approved_by := Some user, dp_approved_at := Some now\<rparr>"

lemma approved_recorded [simp]: "disposal_recorded (approved_disposal user now d) = disposal_recorded d"
  by (simp add: disposal_recorded_def approved_disposal_def)

lemma approve_disposal_effect:
  assumes "approve_disposal org u user now s = (Inr v, s')" and "get_row dp_id u (disposals s) = Some d"
    and "scoped_asset org (dp_asset d) s = Some a"
  shows "get_row dp_id u (disposals s') = Some (approved_disposal user now d)"
    and "scoped_asset org (dp_asset d) s' = Some (retired d a)" and "books s' = books s" and "categories s' = categories s"
    and "\<And>w x. w \<noteq> u \<Longrightarrow> get_row dp_id w (disposals s') = get_row dp_id w (disposals s)"
proof -
  have s': "s' = (set_asset (dp_asset d) (retired d)
          (set_disposal u (approved_disposal user now) s))
          \<lparr>lifecycle := lifecycle s @ [\<lparr>le_org = org, le_asset = as_id a, le_source_type = ''asset_disposal'',
             le_source = u, le_previous = Some (as_status a), le_new = AS_RETIRED, le_schedule = None\<rparr>]\<rparr>"
    using assms by (auto simp: retired_def [abs_def] approved_disposal_def [abs_def] elim!: approve_disposal_InrE)
  have k: "dp_id (approved_disposal user now x) = dp_id x" "as_id (retired d b) = as_id b" "as_org (retired d b) = as_org b" for x b
    by (simp_all add: approved_disposal_def retired_def)
  show "get_row dp_id u (disposals s') = Some (approved_disposal user now d)" using assms(2) k by (simp add: s' get_set_row)
  show "scoped_asset org (dp_asset d) s' = Some (retired d a)"
    using scoped_asset_SomeD [OF assms(3)] k by (simp add: s' scoped_asset_def get_set_row)
  show "books s' = books s" "categories s' = categories s" by (simp_all add: s')
  show "get_row dp_id w (disposals s') = get_row dp_id w (disposals s)" if "w \<noteq> u" for w x
    using that k by (simp add: s' get_set_row split: option.split)
qed

lemma disposal_effects:
  assumes "gl_inv (books s)" and "documents_ok s" and "scoped_asset org (di_asset i) s = Some a" and "asset_sound a"
    and "get_row ca_id (as_category a) (categories s) = Some c" and "input_stored i"
    and "create_disposal org i user s = (Inr u, s1)" and "approve_disposal org u user' now s1 = (Inr v, s2)"
    and "find_batch (books s2) org (document_key ''DISP'' org u) = None"
    and "post_disposal org u user'' pd number now' s2 = (Inr v', s3)"
  shows "0 \<le> net_proceeds_of i \<and> (\<exists>jid new. ledger (books s3) = ledger (books s) @ new
      \<and> (\<forall>l \<in> set new. ll_journal l = jid \<and> ll_org l = org) \<and> (\<forall>k. account_net k new = derecognition k c a)
      \<and> (\<exists>x. get_row dp_id u (disposals s3) = Some x \<and> dp_journal x = Some jid))
    \<and> scoped_asset org (di_asset i) s3 = Some (a\<lparr>as_status := AS_RETIRED, as_disposal_date := Some (di_date i),
        as_disposal_proceeds := Some (net_proceeds_of i), as_disposal_gain_loss := Some (net_proceeds_of i - as_nbv a)\<rparr>)"
proof -
  let ?d = "new_disposal u a i user"
  note c1 = created_disposal [OF assms(2,7,3)]
  have da: "dp_asset ?d = di_asset i" by (simp add: new_disposal_def)
  have "scoped_asset org (dp_asset ?d) s1 = Some a" using assms(3) c1(4) da by (simp add: scoped_asset_def)
  note a2 = approve_disposal_effect [OF assms(8) c1(1) this]
  have rec: "disposal_recorded ?d" by (rule new_disposal_recorded [OF assms(4,6)])
  have cat: "get_row ca_id (as_category (retired ?d a)) (categories s2) = Some c"
    using assms(5) c1(5) a2(4) by (simp add: retired_def)
  have ass: "scoped_asset org (dp_asset (approved_disposal user' now ?d)) s2 = Some (retired ?d a)"
    using a2(2) by (simp add: approved_disposal_def)
  have "gl_inv (books s2)" using assms(1) a2(3) c1(3) by simp
  from assms(10) this assms(9) a2(1) _ ass cat
  obtain jid new b where e: "s3 = set_disposal u (\<lambda>x. x\<lparr>dp_journal := Some jid\<rparr>) (s2\<lparr>books := b\<rparr>)"
      "ledger b = ledger (books s2) @ new" "\<forall>l \<in> set new. ll_journal l = jid \<and> ll_org l = org"
      "0 \<le> dp_net_proceeds (approved_disposal user' now ?d)"
      "\<And>k. account_net k new = (if k = ca_accumulated_account c then dp_accumulated (approved_disposal user' now ?d) else 0)
       - (if k = ca_asset_account c then dp_cost (approved_disposal user' now ?d) else 0)
       + (if k = ca_gain_loss_account c then dp_nbv (approved_disposal user' now ?d) else 0)"
    by (rule post_disposal_effect) (simp_all add: rec)
  have q: "at_scale 6 (net_proceeds_of i)" "at_scale 6 (net_proceeds_of i - as_nbv a)"
    using assms(4,6) by (auto simp: input_stored_def asset_sound_def)
  have n: "dp_net_proceeds ?d = net_proceeds_of i" "dp_gain_loss ?d = net_proceeds_of i - as_nbv a" "dp_date ?d = di_date i"
    using q by (simp_all add: new_disposal_def quantize_at_scale)
  have "0 \<le> net_proceeds_of i" using e(4) n by (simp add: approved_disposal_def)
  moreover have "account_net k new = derecognition k c a" for k
    using e(5) [of k] by (simp add: derecognition_def approved_disposal_def new_disposal_def)
  moreover have "get_row dp_id u (disposals s3) = Some ((approved_disposal user' now ?d)\<lparr>dp_journal := Some jid\<rparr>)"
    using a2(1) by (simp add: e(1) get_set_row)
  moreover have "scoped_asset org (di_asset i) s3 = Some (retired ?d a)"
    using a2(2) da by (simp add: e(1) scoped_asset_def)
  moreover have "ledger (books s3) = ledger (books s) @ new" using e(1,2) a2(3) c1(3) by simp
  ultimately show ?thesis using e(3) n unfolding retired_def
    by (intro conjI exI [of _ jid] exI [of _ new]) auto
qed

text \<open>C31: a disposal takes out of the ledger what the register had in it. When a disposal of a sound asset has been
  created, approved and posted, its net proceeds were not negative; the asset is RETIRED with the gain or loss; and the
  ledger has gained one journal, which the disposal names and which clears the accumulated
  depreciation, takes the cost off the asset account and charges the whole net book value to the account of gains and
  losses, whatever the proceeds were: these are booked to both sides of that account.\<close>

theorem disposal_reaches_the_ledger:
  assumes "reachable (books s)" and "documents_ok s" and "scoped_asset org (di_asset i) s = Some a" and "asset_sound a"
    and "get_row ca_id (as_category a) (categories s) = Some c" and "input_stored i"
    and "create_disposal org i user s = (Inr u, s1)" and "approve_disposal org u user' now s1 = (Inr v, s2)"
    and "find_batch (books s2) org (document_key ''DISP'' org u) = None"
    and "post_disposal org u user'' pd number now' s2 = (Inr v', s3)"
  shows "0 \<le> net_proceeds_of i \<and> (\<exists>jid new. ledger (books s3) = ledger (books s) @ new
      \<and> (\<forall>l \<in> set new. ll_journal l = jid \<and> ll_org l = org) \<and> (\<forall>k. account_net k new = derecognition k c a)
      \<and> (\<exists>x. get_row dp_id u (disposals s3) = Some x \<and> dp_journal x = Some jid))
    \<and> scoped_asset org (di_asset i) s3 = Some (a\<lparr>as_status := AS_RETIRED, as_disposal_date := Some (di_date i),
        as_disposal_proceeds := Some (net_proceeds_of i), as_disposal_gain_loss := Some (net_proceeds_of i - as_nbv a)\<rparr>)"
  by (rule disposal_effects [OF gl_inv_reachable [OF assms(1)] assms(2-)])

text \<open>C32: a disposal that costs more than it brings cannot be posted when the values of its asset agree. Take an asset whose
  cost basis is its accumulated depreciation plus its net book value, as creation, depreciation and revaluation
  leave it (a correction of the cost may not), and a disposal of it that is created with negative net proceeds and approved. The
  debit for the proceeds is written only when they are positive, while the loss includes the
  negative part, so the journal misses its balance by that part: whenever, by whomever and with whatever date this
  disposal is posted, while its row is as approved, the posting raises.\<close>

theorem costly_disposal_never_posted:
  assumes "documents_ok s" and "scoped_asset org (di_asset i) s = Some a" and "asset_sound a" and "input_stored i"
    and "create_disposal org i user s = (Inr u, s1)" and "net_proceeds_of i < 0"
    and "get_row dp_id u (disposals t) = map_option (approved_disposal user' now) (get_row dp_id u (disposals s1))"
  shows "\<exists>e t'. post_disposal org' u user'' pd number now' t = (Inl e, t')"
proof -
  have "get_row dp_id u (disposals t) = Some (approved_disposal user' now (new_disposal u a i user))"
    using created_disposal(1) [OF assms(1,5,2)] assms(7) by simp
  moreover have "disposal_recorded (approved_disposal user' now (new_disposal u a i user))"
    using new_disposal_recorded [OF assms(3,4)] by simp
  moreover have "dp_net_proceeds (approved_disposal user' now (new_disposal u a i user)) < 0"
    using assms(4,6) by (simp add: approved_disposal_def new_disposal_def input_stored_def quantize_at_scale)
  ultimately show ?thesis by (rule recorded_never_posted)
qed

lemma two_disposals_posted:
  assumes inv: "gl_inv (books s)" and uw: "u \<noteq> w"
    and d: "get_row dp_id u (disposals s) = Some d" "disposal_recorded d" and e: "get_row dp_id w (disposals s) = Some e" "disposal_recorded e"
    and sc: "scoped_asset org (dp_asset d) s = Some b" "dp_asset e = dp_asset d" and cat: "get_row ca_id (as_category b) (categories s) = Some c"
    and same: "dp_accumulated e = dp_accumulated d" "dp_cost e = dp_cost d" "dp_nbv e = dp_nbv d"
    and f1: "find_batch (books s) org (document_key ''DISP'' org u) = None" and p1: "post_disposal org u user pd number now s = (Inr v1, s1)"
    and f2: "find_batch (books s1) org (document_key ''DISP'' org w) = None" and p2: "post_disposal org w user' pd' number' now' s1 = (Inr v2, s2)"
  obtains new where "ledger (books s2) = ledger (books s) @ new"
    and "\<And>k. account_net k new = 2 * ((if k = ca_accumulated_account c then dp_accumulated d else 0)
     - (if k = ca_asset_account c then dp_cost d else 0) + (if k = ca_gain_loss_account c then dp_nbv d else 0))"
proof -
  from p1 inv f1 d sc(1) cat obtain jid new1 b1 where
    1: "s1 = set_disposal u (\<lambda>x. x\<lparr>dp_journal := Some jid\<rparr>) (s\<lparr>books := b1\<rparr>)" "ledger b1 = ledger (books s) @ new1" "gl_inv b1"
    "\<And>k. account_net k new1 = (if k = ca_accumulated_account c then dp_accumulated d else 0)
     - (if k = ca_asset_account c then dp_cost d else 0) + (if k = ca_gain_loss_account c then dp_nbv d else 0)"
    by (rule post_disposal_effect) (rule that, assumption+)
  have "get_row dp_id w (disposals s1) = Some e" "scoped_asset org (dp_asset e) s1 = Some b"
    "get_row ca_id (as_category b) (categories s1) = Some c" "gl_inv (books s1)"
    using e(1) uw sc cat 1(3) by (simp_all add: 1(1) get_set_row scoped_asset_def)
  from p2 this(4) f2 this(1) e(2) this(2,3) obtain jid' new2 b2 where
    2: "s2 = set_disposal w (\<lambda>x. x\<lparr>dp_journal := Some jid'\<rparr>) (s1\<lparr>books := b2\<rparr>)" "ledger b2 = ledger (books s1) @ new2"
    "\<And>k. account_net k new2 = (if k = ca_accumulated_account c then dp_accumulated e else 0)
     - (if k = ca_asset_account c then dp_cost e else 0) + (if k = ca_gain_loss_account c then dp_nbv e else 0)"
    by (rule post_disposal_effect) (rule that, assumption+)
  show thesis
  proof (rule that)
    show "ledger (books s2) = ledger (books s) @ (new1 @ new2)" using 1(1,2) 2(1,2) by simp
    fix k show "account_net k (new1 @ new2) = 2 * ((if k = ca_accumulated_account c then dp_accumulated d else 0)
     - (if k = ca_asset_account c then dp_cost d else 0) + (if k = ca_gain_loss_account c then dp_nbv d else 0))"
      using 1(4) [of k] 2(3) [of k] same by (simp add: account_net_def)
  qed
qed

lemma approve_unapproved:
  assumes "get_row dp_id u (disposals s) = Some d" and "scoped_asset org (dp_asset d) s = Some a"
    and "dp_approved_by d = None" and "dp_created_by d \<noteq> user"
  obtains s' where "approve_disposal org u user now s = (Inr u, s')"
  using assms by (simp add: approve_disposal_def return_def)

text \<open>C33: an asset can be disposed of twice. A second disposal that was created before the first is approved can be
  approved although the asset is RETIRED by then, and once both are posted the ledger has lost cost, accumulated
  depreciation and net book value of the asset twice.\<close>

theorem asset_disposed_twice:
  assumes "reachable (books s)" and "documents_ok s" and "scoped_asset org (di_asset i) s = Some a" and "asset_sound a"
    and "get_row ca_id (as_category a) (categories s) = Some c" and "input_stored i" and "input_stored j"
    and "create_disposal org i user s = (Inr u, s1)" and "create_disposal org j user s1 = (Inr w, s2)" and "di_asset j = di_asset i"
    and "approve_disposal org u user' now s2 = (Inr v, s3)"
  shows "(\<exists>b. scoped_asset org (di_asset i) s3 = Some b \<and> as_status b = AS_RETIRED)
    \<and> (\<exists>s4. approve_disposal org w user' now s3 = (Inr w, s4)
      \<and> (\<forall>v5 s5 v6 s6. find_batch (books s4) org (document_key ''DISP'' org u) = None
          \<and> post_disposal org u user'' pd number now' s4 = (Inr v5, s5)
          \<and> find_batch (books s5) org (document_key ''DISP'' org w) = None
          \<and> post_disposal org w user'' pd number' now'' s5 = (Inr v6, s6)
        \<longrightarrow> (\<exists>new. ledger (books s6) = ledger (books s) @ new \<and> (\<forall>k. account_net k new = 2 * derecognition k c a))))"
proof -
  let ?d = "new_disposal u a i user" and ?e = "new_disposal w a j user"
  note c1 = created_disposal [OF assms(2,8,3)]
  have sc1: "scoped_asset org (di_asset j) s1 = Some a" using assms(3,10) c1(4) by (simp add: scoped_asset_def)
  note c2 = created_disposal [OF c1(6) assms(9) sc1]
  have wu: "w \<noteq> u" using c1(1) c2(2) new_disposal_id [OF c1(6)] by auto
  have da: "dp_asset ?d = di_asset i" "dp_asset ?e = di_asset i" using assms(10) by (simp_all add: new_disposal_def)
  have d2: "get_row dp_id u (disposals s2) = Some ?d" by (rule c2(7) [OF c1(1)])
  have "scoped_asset org (dp_asset ?d) s2 = Some a" using sc1 c2(4) da assms(10) by (simp add: scoped_asset_def)
  note a3 = approve_disposal_effect [OF assms(11) d2 this]
  have e3: "get_row dp_id w (disposals s3) = Some ?e" using a3(5) [OF wu] c2(1) by simp
  have r3: "scoped_asset org (dp_asset ?e) s3 = Some (retired ?d a)" using a3(2) da by simp
  have "user' \<noteq> user" using assms(11) d2 by (auto simp: new_disposal_def elim!: approve_disposal_InrE)
  then obtain s4 where s4: "approve_disposal org w user' now s3 = (Inr w, s4)"
    using approve_unapproved [OF e3 r3, of user' now] by (auto simp: new_disposal_def)
  note a4 = approve_disposal_effect [OF s4 e3 r3]
  let ?b = "retired ?e (retired ?d a)"
  have rec: "disposal_recorded ?d" "disposal_recorded ?e" using new_disposal_recorded assms(4,6,7) by blast+
  have d4: "get_row dp_id u (disposals s4) = Some (approved_disposal user' now ?d)" using a4(5) [of u] wu a3(1) by simp
  have sc4: "scoped_asset org (di_asset i) s4 = Some ?b" using a4(2) da by simp
  have cat: "get_row ca_id (as_category ?b) (categories s4) = Some c" using assms(5) c1(5) c2(5) a3(4) a4(4) by (simp add: retired_def)
  have bk: "books s4 = books s" using c1(3) c2(3) a3(3) a4(3) by simp
  let ?D = "approved_disposal user' now ?d" and ?E = "approved_disposal user' now ?e"
  have E: "get_row dp_id w (disposals s4) = Some ?E" "disposal_recorded ?D" "disposal_recorded ?E" using a4(1) rec by simp_all
  have D: "dp_asset ?D = di_asset i" "dp_asset ?E = dp_asset ?D" "dp_accumulated ?D = as_accumulated a" "dp_cost ?D = cost_basis a"
      "dp_nbv ?D = as_nbv a" "dp_accumulated ?E = dp_accumulated ?D" "dp_cost ?E = dp_cost ?D" "dp_nbv ?E = dp_nbv ?D"
    using da by (simp_all add: approved_disposal_def new_disposal_def)
  have "\<exists>new. ledger (books s6) = ledger (books s) @ new \<and> (\<forall>k. account_net k new = 2 * derecognition k c a)"
    if posted: "find_batch (books s4) org (document_key ''DISP'' org u) = None" "post_disposal org u user'' pd number now' s4 = (Inr v5, s5)"
      "find_batch (books s5) org (document_key ''DISP'' org w) = None" "post_disposal org w user'' pd number' now'' s5 = (Inr v6, s6)"
    for v5 s5 v6 s6
  proof -
    have sc: "scoped_asset org (dp_asset ?D) s4 = Some ?b" "gl_inv (books s4)" using sc4 D(1) gl_inv_reachable [OF assms(1)] bk by simp_all
    have net: "derecognition k c a = (if k = ca_accumulated_account c then dp_accumulated ?D else 0)
        - (if k = ca_asset_account c then dp_cost ?D else 0) + (if k = ca_gain_loss_account c then dp_nbv ?D else 0)" for k
      by (simp only: derecognition_def D(3-5))
    show ?thesis unfolding net bk [symmetric]
      by (rule two_disposals_posted [OF sc(2) wu [symmetric] d4 E(2,1,3) sc(1) D(2) cat D(6-8) posted]) blast
  qed
  then show ?thesis using r3 da s4 by (auto simp: retired_def)
qed

section \<open>Revaluation\<close>

text \<open>The split of a revaluation: exact, and within what was recognised before.\<close>

lemma recognise_exact:
  assumes "recognise x S D = (to_equity, to_pl, deficit_reversed, surplus_reversed)" and "0 \<le> S" and "0 \<le> D"
  shows "x = to_equity + deficit_reversed - to_pl - surplus_reversed" and "0 \<le> to_equity" "0 \<le> to_pl"
    and "0 \<le> deficit_reversed" "deficit_reversed \<le> D" and "0 \<le> surplus_reversed" "surplus_reversed \<le> S"
    and "x \<le> 0 \<Longrightarrow> to_equity = 0 \<and> deficit_reversed = 0" "0 \<le> x \<Longrightarrow> to_pl = 0 \<and> surplus_reversed = 0"
  using assms by (auto simp: recognise_def split: if_splits)

lemma recognise_at_scale:
  assumes "recognise x S D = (to_equity, to_pl, deficit_reversed, surplus_reversed)" and "at_scale 6 x" "at_scale 6 S" "at_scale 6 D"
  shows "at_scale 6 to_equity" "at_scale 6 to_pl" "at_scale 6 deficit_reversed" "at_scale 6 surplus_reversed"
  using assms at_scale_abs [OF assms(2)]
  by (auto simp: recognise_def intro!: at_scale_min at_scale_diff split: if_splits)

definition recognised :: "asset_revaluation \<Rightarrow> bool" where
  "recognised v \<longleftrightarrow> rv_surplus v = rv_to_equity v + rv_deficit_reversed v - rv_to_pl v - rv_surplus_reversed v
     \<and> at_scale 6 (rv_surplus v) \<and> at_scale 6 (rv_to_equity v) \<and> at_scale 6 (rv_to_pl v) \<and> at_scale 6 (rv_deficit_reversed v)
     \<and> at_scale 6 (rv_surplus_reversed v) \<and> 0 \<le> rv_to_equity v \<and> 0 \<le> rv_to_pl v \<and> 0 \<le> rv_deficit_reversed v
     \<and> 0 \<le> rv_surplus_reversed v \<and> (rv_surplus v \<le> 0 \<longrightarrow> rv_to_equity v = 0 \<and> rv_deficit_reversed v = 0)
     \<and> (0 \<le> rv_surplus v \<longrightarrow> rv_to_pl v = 0 \<and> rv_surplus_reversed v = 0)"

lemma prior_sums:
  assumes "documents_ok s"
  shows "0 \<le> (\<Sum>r\<leftarrow>prior_revaluations a d s. rv_to_equity r)" "at_scale 6 (\<Sum>r\<leftarrow>prior_revaluations a d s. rv_to_equity r)"
    "0 \<le> (\<Sum>r\<leftarrow>prior_revaluations a d s. rv_to_pl r)" "at_scale 6 (\<Sum>r\<leftarrow>prior_revaluations a d s. rv_to_pl r)"
  using assms by (auto simp: documents_ok_def prior_revaluations_def intro!: sum_list_nonneg at_scale_sum_list)

lemma new_revaluation_values:
  assumes "documents_ok s" and "asset_sound a" and "at_scale 6 (vi_fair_value i)"
    and r: "recognise (vi_fair_value i - as_nbv a) (\<Sum>r\<leftarrow>prior_revaluations (vi_asset i) (vi_date i) s. rv_to_equity r)
      (\<Sum>r\<leftarrow>prior_revaluations (vi_asset i) (vi_date i) s. rv_to_pl r) = (e, p, dr, sr)"
  shows "rv_to_equity (new_revaluation u a i user s) = e" "rv_to_pl (new_revaluation u a i user s) = p"
    "rv_deficit_reversed (new_revaluation u a i user s) = dr" "rv_surplus_reversed (new_revaluation u a i user s) = sr"
    "rv_surplus (new_revaluation u a i user s) = vi_fair_value i - as_nbv a"
    "rv_fair_value (new_revaluation u a i user s) = vi_fair_value i" "rv_carrying_after (new_revaluation u a i user s) = vi_fair_value i"
    and "recognised (new_revaluation u a i user s)"
proof -
  have x: "at_scale 6 (vi_fair_value i - as_nbv a)" using assms(2,3) by (auto simp: asset_sound_def)
  note s = recognise_at_scale [OF r x prior_sums(2,4) [OF assms(1)]]
  note ex = recognise_exact [OF r prior_sums(1,3) [OF assms(1)]]
  show v: "rv_to_equity (new_revaluation u a i user s) = e" "rv_to_pl (new_revaluation u a i user s) = p"
    "rv_deficit_reversed (new_revaluation u a i user s) = dr" "rv_surplus_reversed (new_revaluation u a i user s) = sr"
    "rv_surplus (new_revaluation u a i user s) = vi_fair_value i - as_nbv a"
    "rv_fair_value (new_revaluation u a i user s) = vi_fair_value i" "rv_carrying_after (new_revaluation u a i user s) = vi_fair_value i"
    using r s x assms(3) by (simp_all add: new_revaluation_def Let_def quantize_at_scale)
  show "recognised (new_revaluation u a i user s)" unfolding recognised_def v
    by (intro conjI impI ex(1) ex(2,3,4,6) s x) (use ex(8,9) in blast)+
qed

lemma new_revaluation_recognised:
  assumes "documents_ok s" and "asset_sound a" and "at_scale 6 (vi_fair_value i)"
  shows "rv_surplus (new_revaluation u a i user s) = vi_fair_value i - as_nbv a"
    and "rv_fair_value (new_revaluation u a i user s) = vi_fair_value i" "rv_carrying_after (new_revaluation u a i user s) = vi_fair_value i"
    and "recognised (new_revaluation u a i user s)"
proof -
  define q where "q = recognise (vi_fair_value i - as_nbv a) (\<Sum>r\<leftarrow>prior_revaluations (vi_asset i) (vi_date i) s. rv_to_equity r)
      (\<Sum>r\<leftarrow>prior_revaluations (vi_asset i) (vi_date i) s. rv_to_pl r)"
  obtain e p dr sr where "q = (e, p, dr, sr)" by (cases q rule: prod_cases4) auto
  note new_revaluation_values(5-8) [OF assms this [unfolded q_def], of u user]
  then show "rv_surplus (new_revaluation u a i user s) = vi_fair_value i - as_nbv a"
    and "rv_fair_value (new_revaluation u a i user s) = vi_fair_value i" "rv_carrying_after (new_revaluation u a i user s) = vi_fair_value i"
    and "recognised (new_revaluation u a i user s)" .
qed

lemma revaluation_lines_simple:
  assumes "recognised v"
  shows "\<forall>l \<in> set (revaluation_lines v a c eq). simple_line l"
proof -
  have "at_scale 6 (rv_surplus v)" "at_scale 6 (rv_to_equity v)" "at_scale 6 (rv_to_pl v)" "at_scale 6 (rv_deficit_reversed v)"
    "at_scale 6 (rv_surplus_reversed v)" using assms unfolding recognised_def by blast+
  moreover have "at_scale 6 (- rv_surplus v)" using at_scale_uminus calculation(1) by blast
  ultimately show ?thesis by (auto simp: revaluation_lines_def at_scale_abs)
qed

lemma revaluation_lines_net:
  assumes "recognised v"
  shows "lines_net k (revaluation_lines v a c eq) = (if k = ca_asset_account c then rv_surplus v else 0)
    - (if k = eq then rv_to_equity v - rv_surplus_reversed v else 0)
    - (if k = loss_account c then rv_deficit_reversed v - rv_to_pl v else 0)"
proof -
  note r = assms [unfolded recognised_def]
  have zero: "\<not> 0 < rv_to_equity v \<Longrightarrow> rv_to_equity v = 0" "\<not> 0 < rv_deficit_reversed v \<Longrightarrow> rv_deficit_reversed v = 0"
      "\<not> 0 < rv_to_pl v \<Longrightarrow> rv_to_pl v = 0" "\<not> 0 < rv_surplus_reversed v \<Longrightarrow> rv_surplus_reversed v = 0"
    using r by linarith+
  consider "0 < rv_surplus v" | "rv_surplus v < 0" | "rv_surplus v = 0" by linarith
  then show ?thesis
  proof cases
    case 1
    moreover have "rv_to_pl v = 0" "rv_surplus_reversed v = 0" using 1 r by linarith+
    ultimately show ?thesis using zero(1,2) by (auto simp: revaluation_lines_def)
  next
    case 2
    moreover have "rv_to_equity v = 0" "rv_deficit_reversed v = 0" using 2 r by linarith+
    ultimately show ?thesis using zero(3,4) by (auto simp: revaluation_lines_def)
  next
    case 3
    moreover have "rv_to_pl v = 0" "rv_surplus_reversed v = 0" "rv_to_equity v = 0" "rv_deficit_reversed v = 0"
      using 3 r by linarith+
    ultimately show ?thesis by (simp add: revaluation_lines_def)
  qed
qed

lemma create_revaluation_InrE:
  assumes "create_revaluation org i user s = (Inr u, s')"
  obtains a where "scoped_asset org (vi_asset i) s = Some a" "as_status a = AS_IN_USE" "u = next_fa s"
    "s' = s\<lparr>revaluations := add_row (new_revaluation (next_fa s) a i user s) (revaluations s), next_fa := Suc (next_fa s)\<rparr>"
  using assms by (auto simp: create_revaluation_def raise_def return_def split: option.splits if_splits)

lemma new_revaluation_fields [simp]:
  "rv_id (new_revaluation u a i user s) = u" "rv_asset (new_revaluation u a i user s) = vi_asset i"
  "rv_date (new_revaluation u a i user s) = vi_date i" "rv_accumulated_after (new_revaluation u a i user s) = 0"
  "rv_created_by (new_revaluation u a i user s) = user" "rv_approved_by (new_revaluation u a i user s) = None"
  by (simp_all add: new_revaluation_def Let_def split: prod.split)

lemma created_revaluation:
  assumes "documents_ok s" and "create_revaluation org i user s = (Inr u, s1)" and "scoped_asset org (vi_asset i) s = Some a"
    and "asset_sound a" and "at_scale 6 (vi_fair_value i)"
  shows "get_row rv_id u (revaluations s1) = Some (new_revaluation u a i user s)" and "books s1 = books s"
    and "assets s1 = assets s" and "categories s1 = categories s" and "documents_ok s1" and "as_status a = AS_IN_USE"
    and "revaluations s1 = revaluations s @ [new_revaluation u a i user s]" and "u = next_fa s"
proof -
  obtain a' where "scoped_asset org (vi_asset i) s = Some a'" "as_status a' = AS_IN_USE" and u: "u = next_fa s"
    and s1: "s1 = s\<lparr>revaluations := add_row (new_revaluation (next_fa s) a' i user s) (revaluations s), next_fa := Suc (next_fa s)\<rparr>"
    using assms(2) by (rule create_revaluation_InrE)
  then have a': "a' = a" "as_status a = AS_IN_USE" using assms(3) by simp_all
  show "as_status a = AS_IN_USE" "u = next_fa s" by (rule a' u)+
  show "revaluations s1 = revaluations s @ [new_revaluation u a i user s]" by (simp add: s1 u a' add_row_def)
  show "get_row rv_id u (revaluations s1) = Some (new_revaluation u a i user s)"
    using new_revaluation_id [OF assms(1)] by (simp add: s1 u a' get_add_row)
  show "books s1 = books s" "assets s1 = assets s" "categories s1 = categories s" by (simp_all add: s1)
  have "recognised (new_revaluation (next_fa s) a i user s)" by (rule new_revaluation_recognised(4) [OF assms(1,4,5)])
  then have new: "at_scale 6 (rv_to_equity (new_revaluation (next_fa s) a i user s))" "at_scale 6 (rv_to_pl (new_revaluation (next_fa s) a i user s))"
    "0 \<le> rv_to_equity (new_revaluation (next_fa s) a i user s)" "0 \<le> rv_to_pl (new_revaluation (next_fa s) a i user s)"
    unfolding recognised_def by blast+
  have "set (revaluations s1) = insert (new_revaluation (next_fa s) a i user s) (set (revaluations s))"
    "disposals s1 = disposals s" "next_fa s1 = Suc (next_fa s)" by (simp_all add: s1 a' add_row_def)
  note same = this
  show "documents_ok s1" unfolding documents_ok_def same
  proof (intro conjI ballI)
    fix d assume "d \<in> set (disposals s)"
    then show "dp_id d < Suc (next_fa s)" using assms(1) by (auto simp: documents_ok_def less_Suc_eq)
  next
    fix x assume x: "x \<in> insert (new_revaluation (next_fa s) a i user s) (set (revaluations s))"
    show "rv_id x < Suc (next_fa s)" "at_scale 6 (rv_to_equity x)" "at_scale 6 (rv_to_pl x)" "0 \<le> rv_to_equity x" "0 \<le> rv_to_pl x"
      using x new assms(1) by (auto simp: documents_ok_def less_Suc_eq)
  qed
qed

definition revalued_to :: "asset_revaluation \<Rightarrow> fa_asset \<Rightarrow> fa_asset" where
  "revalued_to v a = a\<lparr>as_revalued := Some (rv_fair_value v), as_nbv := rv_carrying_after v, as_accumulated := rv_accumulated_after v\<rparr>"

definition approved_revaluation :: "uuid \<Rightarrow> timestamp \<Rightarrow> asset_revaluation \<Rightarrow> asset_revaluation" where
  "approved_revaluation user now v = v\<lparr>rv_approved_by := Some user, rv_approved_at := Some now\<rparr>"

lemma approved_recognised [simp]: "recognised (approved_revaluation user now v) = recognised v"
  by (simp add: recognised_def approved_revaluation_def)

lemma approve_revaluation_effect:
  assumes "approve_revaluation org u user now s = (Inr w, s')" and "get_row rv_id u (revaluations s) = Some v"
    and "scoped_asset org (rv_asset v) s = Some a"
  shows "s' = set_asset (rv_asset v) (revalued_to v) (set_revaluation u (approved_revaluation user now) s)"
    and "get_row rv_id u (revaluations s') = Some (approved_revaluation user now v)"
    and "scoped_asset org (rv_asset v) s' = Some (revalued_to v a)" and "books s' = books s" and "categories s' = categories s"
proof -
  show s': "s' = set_asset (rv_asset v) (revalued_to v) (set_revaluation u (approved_revaluation user now) s)"
    using assms by (auto simp: approve_revaluation_def raise_def return_def revalued_to_def [abs_def] approved_revaluation_def [abs_def]
        split: option.splits if_splits)
  have k: "rv_id (approved_revaluation user now x) = rv_id x" "as_id (revalued_to v b) = as_id b" "as_org (revalued_to v b) = as_org b" for x b
    by (simp_all add: approved_revaluation_def revalued_to_def)
  show "get_row rv_id u (revaluations s') = Some (approved_revaluation user now v)" using assms(2) k by (simp add: s' get_set_row)
  show "scoped_asset org (rv_asset v) s' = Some (revalued_to v a)"
    using scoped_asset_SomeD [OF assms(3)] k by (simp add: s' scoped_asset_def get_set_row)
  show "books s' = books s" "categories s' = categories s" by (simp_all add: s')
qed

lemma post_revaluation_effect:
  assumes p: "post_revaluation org u user pd number now s = (Inr w, s')"
    and inv: "gl_inv (books s)" and fresh: "find_batch (books s) org (document_key ''REVAL'' org u) = None"
    and v: "get_row rv_id u (revaluations s) = Some v" "recognised v"
    and a: "scoped_asset org (rv_asset v) s = Some a" "get_row ca_id (as_category a) (categories s) = Some c" "ca_surplus_account c = Some eq"
  obtains jid new b where "s' = set_revaluation u (\<lambda>x. x\<lparr>rv_journal := Some jid\<rparr>) (s\<lparr>books := b\<rparr>)"
    and "ledger b = ledger (books s) @ new" and "\<forall>l \<in> set new. ll_journal l = jid \<and> ll_org l = org"
    and "\<And>k. account_net k new = lines_net k (revaluation_lines v a c eq)"
proof -
  let ?dt = "case pd of Some d \<Rightarrow> d | None \<Rightarrow> rv_date v"
  let ?j = "document_journal ''Asset Revaluation: '' ''REVAL-'' ''ASSET_REVALUATION'' a u (rv_date v) ?dt (revaluation_lines v a c eq)"
  obtain fr s1 where doc: "post_document org ?j user number ?dt (document_key ''REVAL'' org u) now s = (Inr fr, s1)" "fr_success fr"
    and s': "s' = set_revaluation u (\<lambda>v. v\<lparr>rv_journal := fr_journal fr\<rparr>) s1"
    using p v(1) a by (auto simp: post_revaluation_def post_asset_revaluation_def bind_Inr raise_def return_def fa_refused_def
        split: option.splits if_splits)
  have "\<forall>l \<in> set (ji_lines ?j). simple_line l" using revaluation_lines_simple [OF v(2)] by simp
  from inv fresh doc this obtain jid new b where b: "s1 = s\<lparr>books := b\<rparr>" "fr_journal fr = Some jid" "ledger b = ledger (books s) @ new"
      "\<forall>l \<in> set new. ll_journal l = jid \<and> ll_org l = org" "\<And>k. account_net k new = lines_net k (ji_lines ?j)"
    by (rule post_document_effect) (rule that)
  show thesis
  proof (rule that)
    show "s' = set_revaluation u (\<lambda>x. x\<lparr>rv_journal := Some jid\<rparr>) (s\<lparr>books := b\<rparr>)" using s' b(1,2) by simp
    fix k show "account_net k new = lines_net k (revaluation_lines v a c eq)" using b(5) [of k] by simp
  qed (rule b)+
qed

lemma recognised_split:
  "recognised v \<Longrightarrow> rv_to_equity v + rv_deficit_reversed v - rv_to_pl v - rv_surplus_reversed v = rv_surplus v"
  unfolding recognised_def by (drule conjunct1) (erule sym)

text \<open>C34: a revaluation moves register and ledger by the same net amount, but not the same balances. When a revaluation of a
  sound asset has been created, approved and posted, the net book value and the asset account have both
  moved to the fair value, the difference is split exactly between equity and profit and loss, and the
  register has no accumulated depreciation any more; the account of accumulated depreciation, where it is a separate
  account, has not moved, so that from then on it shows what the register has dropped.\<close>

theorem revaluation_reaches_the_ledger:
  assumes "reachable (books s)" and "documents_ok s" and "scoped_asset org (vi_asset i) s = Some a" and "asset_sound a"
    and "get_row ca_id (as_category a) (categories s) = Some c" and "ca_surplus_account c = Some eq" and "at_scale 6 (vi_fair_value i)"
    and "create_revaluation org i user s = (Inr u, s1)" and "approve_revaluation org u user' now s1 = (Inr v, s2)"
    and "find_batch (books s2) org (document_key ''REVAL'' org u) = None"
    and "post_revaluation org u user'' pd number now' s2 = (Inr v', s3)"
  shows "\<exists>jid new x. ledger (books s3) = ledger (books s) @ new \<and> (\<forall>l \<in> set new. ll_journal l = jid \<and> ll_org l = org)
    \<and> get_row rv_id u (revaluations s3) = Some x \<and> rv_journal x = Some jid
    \<and> rv_to_equity x + rv_deficit_reversed x - rv_to_pl x - rv_surplus_reversed x = vi_fair_value i - as_nbv a
    \<and> (\<forall>k. account_net k new = (if k = ca_asset_account c then vi_fair_value i - as_nbv a else 0)
        - (if k = eq then rv_to_equity x - rv_surplus_reversed x else 0)
        - (if k = loss_account c then rv_deficit_reversed x - rv_to_pl x else 0))
    \<and> (ca_accumulated_account c \<notin> {ca_asset_account c, eq, loss_account c} \<longrightarrow> account_net (ca_accumulated_account c) new = 0)
    \<and> scoped_asset org (vi_asset i) s3 = Some (a\<lparr>as_revalued := Some (vi_fair_value i), as_nbv := vi_fair_value i, as_accumulated := 0\<rparr>)"
proof -
  let ?v = "new_revaluation u a i user s"
  note c1 = created_revaluation [OF assms(2,8,3,4,7)]
  note nv = new_revaluation_recognised [OF assms(2,4,7), of u user]
  have "scoped_asset org (rv_asset ?v) s1 = Some a" using assms(3) c1(3) by (simp add: scoped_asset_def)
  note a2 = approve_revaluation_effect [OF assms(9) c1(1) this]
  let ?x = "approved_revaluation user' now ?v"
  have val: "rv_asset ?x = vi_asset i" "rv_surplus ?x = vi_fair_value i - as_nbv a" using nv(1) by (simp_all add: approved_revaluation_def)
  have cat: "get_row ca_id (as_category (revalued_to ?v a)) (categories s2) = Some c"
    using assms(5) c1(4) a2(5) by (simp add: revalued_to_def)
  have "gl_inv (books s2)" using gl_inv_reachable [OF assms(1)] a2(4) c1(2) by simp
  from assms(11) this assms(10) a2(2) _ _ cat assms(6)
  obtain jid new b where b: "s3 = set_revaluation u (\<lambda>x. x\<lparr>rv_journal := Some jid\<rparr>) (s2\<lparr>books := b\<rparr>)"
      "ledger b = ledger (books s2) @ new" "\<forall>l \<in> set new. ll_journal l = jid \<and> ll_org l = org"
      "\<And>k. account_net k new = lines_net k (revaluation_lines ?x (revalued_to ?v a) c eq)"
    by (rule post_revaluation_effect) (use nv(4) a2(3) val(1) in simp_all)
  have net: "account_net k new = (if k = ca_asset_account c then vi_fair_value i - as_nbv a else 0)
        - (if k = eq then rv_to_equity ?x - rv_surplus_reversed ?x else 0)
        - (if k = loss_account c then rv_deficit_reversed ?x - rv_to_pl ?x else 0)" for k
    using b(4) [of k] revaluation_lines_net [of ?x k "revalued_to ?v a" c eq] nv(4) val(2) by simp
  let ?y = "?x\<lparr>rv_journal := Some jid\<rparr>"
  have row: "get_row rv_id u (revaluations s3) = Some ?y" using a2(2) by (simp add: b(1) get_set_row)
  have split: "rv_to_equity ?x + rv_deficit_reversed ?x - rv_to_pl ?x - rv_surplus_reversed ?x = vi_fair_value i - as_nbv a"
    using recognised_split [of ?x] nv(4) val(2) by simp
  have asset: "scoped_asset org (vi_asset i) s3 = Some (a\<lparr>as_revalued := Some (vi_fair_value i), as_nbv := vi_fair_value i, as_accumulated := 0\<rparr>)"
    using a2(3) nv(2,3) by (simp add: b(1) scoped_asset_def revalued_to_def)
  have led: "ledger (books s3) = ledger (books s) @ new" using b(1,2) a2(4) c1(2) by simp
  show ?thesis
  proof (intro exI [of _ jid] exI [of _ new] exI [of _ ?y] conjI allI impI)
    fix k show "account_net k new = (if k = ca_asset_account c then vi_fair_value i - as_nbv a else 0)
        - (if k = eq then rv_to_equity ?y - rv_surplus_reversed ?y else 0)
        - (if k = loss_account c then rv_deficit_reversed ?y - rv_to_pl ?y else 0)" using net [of k] by simp
  next
    show "rv_to_equity ?y + rv_deficit_reversed ?y - rv_to_pl ?y - rv_surplus_reversed ?y = vi_fair_value i - as_nbv a"
      using split by simp
  next
    assume "ca_accumulated_account c \<notin> {ca_asset_account c, eq, loss_account c}"
    then show "account_net (ca_accumulated_account c) new = 0" using net [of "ca_accumulated_account c"] by simp
  qed (use led b(3) row asset in simp_all)
qed

lemma prior_surplus_kept:
  assumes "documents_ok s" and "rv_asset x = a" and "d < d'" and "0 \<le> rv_to_equity x"
    and "revaluations t = map f (revaluations s @ [x])" and "\<And>v. rv_asset (f v) = rv_asset v \<and> rv_date (f v) = rv_date v \<and> rv_to_equity (f v) = rv_to_equity v"
  shows "(\<Sum>r\<leftarrow>prior_revaluations a d s. rv_to_equity r) \<le> (\<Sum>r\<leftarrow>prior_revaluations a d' t. rv_to_equity r)"
proof -
  have le: "(\<Sum>r\<leftarrow>filter P xs. rv_to_equity r) \<le> (\<Sum>r\<leftarrow>filter Q xs. rv_to_equity r)"
    if "\<And>r. P r \<Longrightarrow> Q r" and "\<forall>r \<in> set xs. 0 \<le> rv_to_equity r" for P Q and xs :: "asset_revaluation list"
    using that(2) by (induction xs) (auto simp: that(1) intro: add_increasing)
  have "(\<Sum>r\<leftarrow>prior_revaluations a d' t. rv_to_equity r)
      = (\<Sum>r\<leftarrow>filter (\<lambda>r. rv_asset r = a \<and> rv_date r < d') (revaluations s @ [x]). rv_to_equity r)"
    by (simp add: prior_revaluations_def assms(5,6) filter_map o_def)
  moreover have "(\<Sum>r\<leftarrow>prior_revaluations a d s. rv_to_equity r)
      \<le> (\<Sum>r\<leftarrow>filter (\<lambda>r. rv_asset r = a \<and> rv_date r < d') (revaluations s). rv_to_equity r)"
    unfolding prior_revaluations_def using assms(1,3) by (intro le) (auto simp: documents_ok_def)
  ultimately show ?thesis using assms(4) by simp
qed

lemma recognise_decrease: "0 < - x \<Longrightarrow> - x \<le> S \<Longrightarrow> recognise x S D = (0, 0, 0, - x)"
  by (simp add: recognise_def min_def)

text \<open>C35: a revaluation surplus can be used up more than once. The service adds up the surpluses that earlier revaluations
  credited to equity and never takes off what earlier decreases have charged to it. So of two decreases in
  a row, each within that sum, both are charged to equity in full and nothing to profit and loss, although together they
  may exceed every surplus there ever was.\<close>

theorem surplus_reversed_again:
  assumes "documents_ok s" and "scoped_asset org u s = Some a" and "asset_sound a" and "vi_asset i = u" and "vi_asset j = u"
    and "at_scale 6 (vi_fair_value i)" and "at_scale 6 (vi_fair_value j)" and "vi_date i < vi_date j" and "vi_fair_value i \<noteq> 0"
    and "vi_fair_value i < as_nbv a" and "as_nbv a - vi_fair_value i \<le> (\<Sum>r\<leftarrow>prior_revaluations u (vi_date i) s. rv_to_equity r)"
    and "vi_fair_value j < vi_fair_value i" and "vi_fair_value i - vi_fair_value j \<le> (\<Sum>r\<leftarrow>prior_revaluations u (vi_date i) s. rv_to_equity r)"
    and "create_revaluation org i user s = (Inr v, s1)" and "approve_revaluation org v user' now s1 = (Inr v', s2)"
    and "create_revaluation org j user s2 = (Inr w, s3)"
  shows "\<exists>x y. get_row rv_id v (revaluations s3) = Some x \<and> get_row rv_id w (revaluations s3) = Some y
    \<and> rv_surplus_reversed x = as_nbv a - vi_fair_value i \<and> rv_to_pl x = 0
    \<and> rv_surplus_reversed y = vi_fair_value i - vi_fair_value j \<and> rv_to_pl y = 0"
proof -
  let ?x = "new_revaluation v a i user s" and ?K = "\<Sum>r\<leftarrow>prior_revaluations u (vi_date i) s. rv_to_equity r"
  have sc: "scoped_asset org (vi_asset i) s = Some a" using assms(2,4) by simp
  note c1 = created_revaluation [OF assms(1,14) sc assms(3,6)]
  note n1 = new_revaluation_recognised [OF assms(1,3,6), of v user]
  have "recognise (vi_fair_value i - as_nbv a) (\<Sum>r\<leftarrow>prior_revaluations (vi_asset i) (vi_date i) s. rv_to_equity r) D
      = (0, 0, 0, as_nbv a - vi_fair_value i)" for D
    using recognise_decrease [of "vi_fair_value i - as_nbv a" ?K D] assms(4,10,11) by simp
  note v1 = new_revaluation_values [OF assms(1,3,6) this, of v user]
  have "scoped_asset org (rv_asset ?x) s1 = Some a" using sc c1(3) by (simp add: scoped_asset_def)
  note a2 = approve_revaluation_effect [OF assms(15) c1(1) this]
  let ?b = "revalued_to ?x a"
  have sb: "scoped_asset org (vi_asset j) s2 = Some ?b" using a2(3) assms(4,5) by simp
  have b: "asset_sound ?b" "as_nbv ?b = vi_fair_value i"
    using assms(6,9) n1(2,3) by (simp_all add: asset_sound_def revalued_to_def cost_basis_def)
  have row_ids: "\<And>z. rv_id (approved_revaluation user' now z) = rv_id z" by (simp add: approved_revaluation_def)
  have r2: "revaluations s2 = map (\<lambda>z. if rv_id z = v then approved_revaluation user' now z else z) (revaluations s @ [?x])"
    using a2(1) c1(7) by (simp add: set_row_def)
  have ok2: "documents_ok s2"
    using c1(5) unfolding a2(1) by (auto simp: documents_ok_def set_row_def approved_revaluation_def)
  have K: "?K \<le> (\<Sum>r\<leftarrow>prior_revaluations u (vi_date j) s2. rv_to_equity r)"
    by (rule prior_surplus_kept [OF assms(1) _ assms(8) _ r2]) (use assms(4) v1(1) in \<open>simp_all add: approved_revaluation_def\<close>)
  have "recognise (vi_fair_value j - as_nbv ?b) (\<Sum>r\<leftarrow>prior_revaluations (vi_asset j) (vi_date j) s2. rv_to_equity r) D
      = (0, 0, 0, vi_fair_value i - vi_fair_value j)" for D
    using recognise_decrease [of "vi_fair_value j - vi_fair_value i" "\<Sum>r\<leftarrow>prior_revaluations u (vi_date j) s2. rv_to_equity r" D]
      assms(5,12,13) K b(2) by simp
  note v2 = new_revaluation_values [OF ok2 b(1) assms(7) this, of w user]
  note c3 = created_revaluation [OF ok2 assms(16) sb b(1) assms(7)]
  have "get_row rv_id v (revaluations s3) = Some (approved_revaluation user' now ?x)"
    using a2(2) c3(7) by (simp add: get_row_append)
  then show ?thesis using c3(1) v1(2,4) v2(2,4) 
    by (intro exI [of _ "approved_revaluation user' now ?x"] exI [of _ "new_revaluation w ?b j user s2"])
      (simp add: approved_revaluation_def)
qed

end
