(* ===== verification/Depreciation_Properties.thy ===== *)
theory Depreciation_Properties
  imports Depreciation_Requests Adapter_Facts
begin

text \<open>
  What depreciation promises: assets only lose value and never below their residual value, a run takes
  the place of every other run over the same assets, the ledger receives what the register loses, and
  what the methods leave when the life of an asset ends. The last section holds a sample register.
\<close>

section \<open>A sample register\<close>

definition sample_asset :: fa_asset where
  "sample_asset = \<lparr>as_id = 50, as_org = 1, as_number = ''FA1'', as_name = ''Van'', as_category = 40,
     as_cost_center = None, as_project = None, as_acquired = Date 6 1 1, as_in_service = Some (Date 6 1 1),
     as_currency = ''NGN'', as_acquisition_cost = 3, as_functional_cost = 3, as_method = ''STRAIGHT_LINE'', as_useful_life = 3, as_remaining_life = 3,
     as_residual = 0, as_start = Some (Date 6 1 1), as_accumulated = 0, as_nbv = 3, as_revalued = None,
     as_status = AS_IN_USE, as_current_schedule = None, as_disposal_date = None, as_disposal_proceeds = None,
     as_disposal_gain_loss = None\<rparr>"

definition sample_run :: "uuid \<Rightarrow> nat \<Rightarrow> depreciation_run" where
  "sample_run r n = \<lparr>dr_id = r, dr_org = 1, dr_period = 10, dr_number = n, dr_description = None, dr_status = RS_CALCULATED,
     dr_assets_processed = 1, dr_total = 1, dr_journal = None, dr_batch = None, dr_started_at = Some 3,
     dr_completed_at = Some 3, dr_posted_at = None, dr_created_by = 8, dr_posted_by = None\<rparr>"

definition sample_schedule :: "uuid \<Rightarrow> uuid \<Rightarrow> depreciation_schedule" where
  "sample_schedule u r = \<lparr>ds_id = u, ds_run = r, ds_asset = 50, ds_cost_basis = 3, ds_accumulated_opening = 0,
     ds_nbv_opening = 3, ds_amount = 1, ds_accumulated_closing = 1, ds_nbv_closing = 2, ds_life_opening = 3,
     ds_life_closing = 2, ds_expense_account = 2, ds_accumulated_account = 3, ds_cost_center = None\<rparr>"

definition sample_register :: fa_db where
  "sample_register = \<lparr>books = sample_start, assets = [sample_asset],
     categories = [\<lparr>ca_id = 40, ca_org = 1, ca_code = ''VEH'', ca_parent = None, ca_method = ''STRAIGHT_LINE'',
       ca_useful_life = 3, ca_residual_percent = 0, ca_asset_account = 2, ca_accumulated_account = 3, ca_expense_account = 2,
       ca_gain_loss_account = 2, ca_surplus_account = Some 3, ca_impairment_account = None,
       ca_threshold = 0, ca_revaluation_allowed = True, ca_active = True\<rparr>],
     runs = [sample_run 60 1, sample_run 61 2], schedules = [sample_schedule 62 60, sample_schedule 63 61],
     lifecycle = [], disposals = [], revaluations = [], currency_of = (\<lambda>org. if org = 1 then Some ''NGN'' else None), next_fa = 64\<rparr>"

lemmas sample_register_defs = sample_asset_def sample_run_def sample_schedule_def sample_register_def

lemma sample_register_inv: "fa_inv sample_register"
  by (simp add: fa_inv_def sample_register_defs schedule_sound_def schedule_fits_def stored_asset_def at_scale_def)

lemma sample_run_posted: "case post_run 1 60 9 None (Date 6 1 31) ''JE1'' 5 sample_register of (Inr r, s') \<Rightarrow> r = 60 | _ \<Rightarrow> False"
  by code_simp

section \<open>The register\<close>

text \<open>C27: depreciation only depreciates. Over any sequence of requests that create, calculate, post and
  automate runs, whatever they answer, every asset of a sound register keeps its identity, its residual
  value and the sum of its accumulated depreciation and net book value; its net book value never rises and
  never falls below the residual value; its remaining life never rises; and the register stays sound.\<close>

theorem depreciation_only_depreciates:
  assumes "fa_inv s"
  shows "fa_inv (fold perform ops s) \<and> list_all2 (\<lambda>a a'. as_id a' = as_id a \<and> as_org a' = as_org a \<and> as_residual a' = as_residual a
      \<and> as_accumulated a' + as_nbv a' = as_accumulated a + as_nbv a
      \<and> as_nbv a' \<le> as_nbv a \<and> min (as_residual a) (as_nbv a) \<le> as_nbv a' \<and> as_remaining_life a' \<le> as_remaining_life a)
    (assets s) (assets (fold perform ops s))"
proof -
  have "depreciated_from s s" using assms by (simp add: depreciated_from_def register_step_refl)
  then have "depreciated_from s (fold perform ops s)" by (rule depreciated_from_requests)
  then show ?thesis by (simp add: depreciated_from_def register_step_def depreciates_def [abs_def])
qed

theorem depreciation_only_depreciates_witness:
  "\<exists>a. assets (fold perform [Post_run 1 60 9 None (Date 6 1 31) ''JE1'' 5, Automated_run 1 None (Date 6 2 1) True ''JE2'' 6] sample_register)
      = [a] \<and> as_accumulated a + as_nbv a = 3 \<and> 0 \<le> as_nbv a"
  using depreciation_only_depreciates [OF sample_register_inv,
      of "[Post_run 1 60 9 None (Date 6 1 31) ''JE1'' 5, Automated_run 1 None (Date 6 2 1) True ''JE2'' 6]"]
  by (auto simp: sample_register_def sample_asset_def list_all2_Cons1 simp del: fold.simps perform.simps)

section \<open>Overlapping runs\<close>

lemma posted_run_outdates:
  assumes inv: "fa_inv s" and p: "post_run org r user pd today number now s = (Inr v, s')"
    and other: "r' \<noteq> r" "get_row dr_id r' (runs s) = Some run" "dr_status run = RS_CALCULATED"
    and d: "d \<in> set (schedules_of r s)" "d' \<in> set (schedules_of r' s)" "ds_asset d' = ds_asset d"
  shows "outdated r' s'"
  using p
proof (cases rule: post_run_cases)
  case (posted run' fr b)
  have k: "fa_inv s'" using post_run_keeps [OF inv p] by simp
  obtain a where a: "get_row as_id (ds_asset d) (assets s) = Some a" using check_schedules_None [OF posted(4) d(1)] by blast
  have am: "a \<in> set (assets s)" "as_id a = ds_asset d" using get_row_SomeD [OF a] by simp_all
  have ids: "distinct (map as_id (assets s))" using inv by (simp add: fa_inv_def)
  have "find (\<lambda>x. ds_asset x = as_id a) (schedules_of r s) \<noteq> None" using d(1) am(2) by (auto simp: find_none)
  then obtain e where f: "find (\<lambda>x. ds_asset x = as_id a) (schedules_of r s) = Some e" by blast
  then have e: "e \<in> set (schedules_of r s)" "ds_asset e = as_id a" by (auto simp: find_Some_iff)
  have o: "ds_accumulated_opening e = as_accumulated a"
    using check_schedules_None [OF posted(4) e(1)] e(2) am(2) a by auto
  have "schedule_sound e" using e(1) inv by (simp add: fa_inv_def schedules_of_def)
  then have more: "as_accumulated a < as_accumulated (apply_found (schedules_of r s) a)"
    using f o by (simp add: apply_found_def applied_def schedule_sound_def)
  have "\<exists>x \<in> set (assets s). schedule_fits d' x" using d(2) inv by (simp add: fa_inv_def schedules_of_def)
  then obtain x where x: "x \<in> set (assets s)" "schedule_fits d' x" by blast
  have "get_row as_id (as_id x) (assets s) = Some x" by (rule get_row_distinct [OF ids x(1)])
  then have "x = a" using x(2) d(3) a by (simp add: schedule_fits_def)
  then have "ds_accumulated_opening d' < as_accumulated (apply_found (schedules_of r s) a)"
    using x(2) more by (simp add: schedule_fits_def)
  moreover have "apply_found (schedules_of r s) a \<in> set (assets s')"
    unfolding posted(7) using am(1) by (simp add: posted_assets [OF inv])
  moreover have "d' \<in> set (schedules s')" "ds_run d' = r'" using d(2) by (simp_all add: posted(7) schedules_of_def)
  moreover have "get_row dr_id r' (runs s') = Some run" using other(1,2) by (simp add: posted(7) get_set_row)
  ultimately show ?thesis using k other(3) am(2) d(3) unfolding outdated_def
    by (intro conjI exI [of _ run] bexI [of _ d'] bexI [of _ "apply_found (schedules_of r s) a"]) simp_all
qed simp_all

text \<open>C28: what one run has depreciated no other run depreciates again. Once a run has been posted, every other
  calculated run that holds one of its assets is refused by \<open>post_run\<close>, whoever asks, after any further
  requests; and \<open>calculate_run\<close>, which the refusal tells the user to call, refuses it as well: the run stays
  CALCULATED for ever.\<close>

theorem posted_run_excludes_overlap:
  assumes "fa_inv s" and "post_run org r user pd today number now s = (Inr v, s')"
    and "r' \<noteq> r" and "get_row dr_id r' (runs s) = Some run" and "dr_status run = RS_CALCULATED"
    and "d \<in> set (schedules_of r s)" and "d' \<in> set (schedules_of r' s)" and "ds_asset d' = ds_asset d"
  shows "(\<exists>c e. post_run org' r' user' pd' today' number' now' (fold perform ops s') = (Inl (Fa_raised c e), fold perform ops s'))
    \<and> (\<exists>c e. calculate_run org' r' today' now' (fold perform ops s') = (Inl (Fa_raised c e), fold perform ops s'))
    \<and> (\<exists>x. get_row dr_id r' (runs (fold perform ops s')) = Some x \<and> dr_status x = RS_CALCULATED)"
proof -
  have "outdated r' (fold perform ops s')"
    by (rule outdated_requests) (rule posted_run_outdates [OF assms])
  then show ?thesis using outdated_not_posted outdated_not_calculated by (auto simp: outdated_def)
qed

lemma sample_run_posts:
  obtains s' where "post_run 1 60 9 None (Date 6 1 31) ''JE1'' 5 sample_register = (Inr 60, s')"
  using sample_run_posted by (auto split: prod.splits sum.splits)

theorem posted_run_excludes_overlap_witness:
  "\<exists>s' c e. post_run 1 60 9 None (Date 6 1 31) ''JE1'' 5 sample_register = (Inr 60, s')
    \<and> post_run 1 61 9 None (Date 6 1 31) ''JE2'' 6 (perform (Calculate_run 1 61 (Date 6 1 31) 6) s')
      = (Inl (Fa_raised c e), perform (Calculate_run 1 61 (Date 6 1 31) 6) s')"
proof (rule sample_run_posts)
  fix s' assume p: "post_run 1 60 9 None (Date 6 1 31) ''JE1'' 5 sample_register = (Inr 60, s')"
  have "sample_schedule 62 60 \<in> set (schedules_of 60 sample_register)" "sample_schedule 63 61 \<in> set (schedules_of 61 sample_register)"
    "get_row dr_id 61 (runs sample_register) = Some (sample_run 61 2)"
    by (simp_all add: schedules_of_def sample_register_defs)
  from posted_run_excludes_overlap [OF sample_register_inv p _ this(3) _ this(1,2), of 1 9 None "Date 6 1 31" "''JE2''" 6
      "[Calculate_run 1 61 (Date 6 1 31) 6]"] p
  show ?thesis by (auto simp: sample_run_def sample_schedule_def simp del: perform.simps)
qed

section \<open>The ledger\<close>

definition amount_of :: "(depreciation_schedule \<Rightarrow> uuid) \<Rightarrow> uuid \<Rightarrow> depreciation_schedule list \<Rightarrow> decimal" where
  "amount_of acc a ds = (\<Sum>d\<leftarrow>ds. if acc d = a then ds_amount d else 0)"

lemma add_amount_sum:
  "(\<Sum>e\<leftarrow>add_amount k v m. if fst e = a then snd e else 0) = (\<Sum>e\<leftarrow>m. if fst e = a then snd e else 0) + (if k = a then v else 0)"
  by (induction k v m rule: add_amount.induct) auto

lemma add_amount_stored: "at_scale 6 v \<Longrightarrow> \<forall>e \<in> set m. at_scale 6 (snd e) \<Longrightarrow> \<forall>e \<in> set (add_amount k v m). at_scale 6 (snd e)"
  by (induction k v m rule: add_amount.induct) auto

lemma by_account_sum:
  assumes "\<forall>d \<in> set ds. 0 < ds_amount d"
  shows "(\<Sum>e\<leftarrow>by_account acc ds. if fst e = a then snd e else 0) = amount_of acc a ds"
proof -
  have "(\<Sum>e\<leftarrow>fold (\<lambda>d m. if 0 < ds_amount d then add_amount (acc d) (ds_amount d) m else m) ds m. if fst e = a then snd e else 0)
      = (\<Sum>e\<leftarrow>m. if fst e = a then snd e else 0) + amount_of acc a ds" for m
    using assms by (induction ds arbitrary: m) (simp_all add: add_amount_sum amount_of_def)
  from this [of "[]"] show ?thesis by (simp add: by_account_def)
qed

lemma by_account_stored:
  assumes "\<forall>d \<in> set ds. at_scale 6 (ds_amount d)"
  shows "\<forall>e \<in> set (by_account acc ds). at_scale 6 (snd e)"
proof -
  have "\<forall>e \<in> set (fold (\<lambda>d m. if 0 < ds_amount d then add_amount (acc d) (ds_amount d) m else m) ds m). at_scale 6 (snd e)"
    if "\<forall>e \<in> set m. at_scale 6 (snd e)" for m
    using assms that
  proof (induction ds arbitrary: m)
    case (Cons d ds)
    then show ?case using add_amount_stored [of "ds_amount d" m "acc d"] by auto
  qed simp
  from this [of "[]"] show ?thesis by (simp add: by_account_def)
qed

lemma run_journal_net:
  assumes "\<forall>d \<in> set ds. schedule_sound d"
  shows "view_net a (map (stored_amounts (run_journal run ds dt cur)) (ji_lines (run_journal run ds dt cur)))
    = amount_of ds_expense_account a ds - amount_of ds_accumulated_account a ds"
proof -
  let ?j = "run_journal run ds dt cur"
  have ok: "\<forall>d \<in> set ds. at_scale 6 (ds_amount d)" "\<forall>d \<in> set ds. 0 < ds_amount d"
    using assms by (simp_all add: schedule_sound_def)
  have "stored_amounts ?j (expense_line n e) = (fst e, snd e, 0)" "stored_amounts ?j (accumulated_line n e) = (fst e, 0, snd e)"
    if "at_scale 6 (snd e)" for n e
    using that by (simp_all add: stored_amounts_def expense_line_def accumulated_line_def functional_debit_def
        functional_credit_def functional_def quantize_at_scale)
  then have "map (stored_amounts ?j) (ji_lines ?j) = map (\<lambda>e. (fst e, snd e, 0)) (by_account ds_expense_account ds)
      @ map (\<lambda>e. (fst e, 0, snd e)) (by_account ds_accumulated_account ds)"
    using by_account_stored [OF ok(1)] by (simp add: run_journal_def)
  moreover have "view_net a (map (\<lambda>e. (fst e, snd e, 0)) m) = (\<Sum>e\<leftarrow>m. if fst e = a then snd e else 0)"
    "view_net a (map (\<lambda>e. (fst e, 0, snd e)) m) = - (\<Sum>e\<leftarrow>m. if fst e = a then snd e else 0)" for m
    by (induction m) (simp_all add: view_net_def)
  moreover have "view_net a (xs @ ys) = view_net a xs + view_net a ys" for xs ys by (simp add: view_net_def)
  ultimately show ?thesis using by_account_sum [OF ok(2)] by simp
qed

lemma post_depreciation_run_effect:
  assumes "gl_inv (books s)" and "find_batch (books s) org (run_key org r) = None" and "\<forall>d \<in> set (schedules_of r s). schedule_sound d"
    and "post_depreciation_run org r dt user number now s = (Inr fr, s')" and "fr_success fr"
  obtains jid new where "fr_journal fr = Some jid" and "ledger (books s') = ledger (books s) @ new"
    and "\<forall>l \<in> set new. ll_journal l = jid \<and> ll_org l = org"
    and "\<And>a. account_net a new = amount_of ds_expense_account a (schedules_of r s) - amount_of ds_accumulated_account a (schedules_of r s)"
proof -
  obtain run cur jo res b where run: "scoped_run org r s = Some run"
    and a: "create_approve_and_post_journal org (run_journal run (schedules_of r s) dt cur) user number dt
      (run_key org r) ''FA'' None now (books s) = (Inr (jo, res), b)" "ar_success res"
    and f: "fr_journal fr = jo" "books s' = b"
    using assms(4,5) by (auto simp: post_depreciation_run_def raise_def return_def fa_refused_def
        split: option.splits if_splits prod.splits sum.splits gl_error.splits)
  from adapter_effect [OF assms(1,2) a] obtain jid new where "jo = Some jid" "ledger b = ledger (books s) @ new"
    and v: "map ledger_view new = map (stored_amounts (run_journal run (schedules_of r s) dt cur))
      (ji_lines (run_journal run (schedules_of r s) dt cur))" and "\<forall>l \<in> set new. ll_journal l = jid \<and> ll_org l = org" .
  moreover have "account_net a new = amount_of ds_expense_account a (schedules_of r s) - amount_of ds_accumulated_account a (schedules_of r s)" for a
    unfolding account_net_view v by (rule run_journal_net [OF assms(3)])
  ultimately show thesis using f that by blast
qed

lemma accumulated_rise:
  assumes "distinct (map as_id as)" and "distinct (map ds_asset ds)"
    and "\<And>d. d \<in> set ds \<Longrightarrow> \<exists>a. get_row as_id (ds_asset d) as = Some a \<and> ds_accumulated_closing d = as_accumulated a + ds_amount d"
  shows "(\<Sum>a\<leftarrow>map (apply_found ds) as. as_accumulated a) = (\<Sum>a\<leftarrow>as. as_accumulated a) + (\<Sum>d\<leftarrow>ds. ds_amount d)"
proof -
  have one: "as_accumulated (apply_found ds a) = as_accumulated a + (\<Sum>d\<leftarrow>ds. if ds_asset d = as_id a then ds_amount d else 0)"
    if a: "a \<in> set as" for a
  proof (cases "find (\<lambda>d. ds_asset d = as_id a) ds")
    case None
    then have "(\<Sum>d\<leftarrow>ds. if ds_asset d = as_id a then ds_amount d else 0) = 0"
      by (auto simp: find_none intro!: sum_list_0 cong: map_cong)
    then show ?thesis using None by (simp add: apply_found_def)
  next
    case (Some e)
    then have e: "e \<in> set ds" "ds_asset e = as_id a" by (auto simp: find_Some_iff)
    have "get_row as_id (as_id a) as = Some a" by (rule get_row_distinct [OF assms(1) a])
    then have c: "ds_accumulated_closing e = as_accumulated a + ds_amount e" using assms(3) [OF e(1)] e(2) by auto
    have "(\<Sum>d\<leftarrow>ds. if ds_asset d = as_id a then ds_amount d else 0) = (\<Sum>d\<leftarrow>ds. if d = e then ds_amount e else 0)"
      using assms(2) e by (intro arg_cong [where f = sum_list] map_cong) (auto simp: distinct_map inj_on_def)
    also have "\<dots> = ds_amount e"
      using assms(2) e(1) by (simp add: distinct_map sum_list_distinct_conv_sum_set sum.delta)
    finally show ?thesis using Some c by (simp add: apply_found_def applied_def)
  qed
  have "(\<Sum>a\<leftarrow>as. \<Sum>d\<leftarrow>ds. if ds_asset d = as_id a then ds_amount d else 0)
      = (\<Sum>d\<leftarrow>ds. \<Sum>a\<leftarrow>as. if ds_asset d = as_id a then ds_amount d else 0)"
    by (induction ds) (simp_all add: sum_list_addf)
  also have "\<dots> = (\<Sum>d\<leftarrow>ds. ds_amount d)"
  proof (intro arg_cong [where f = sum_list] map_cong refl)
    fix d assume "d \<in> set ds"
    then obtain b where b: "b \<in> set as" "as_id b = ds_asset d" using assms(3) get_row_SomeD by metis
    then have "(\<Sum>a\<leftarrow>as. if ds_asset d = as_id a then ds_amount d else 0) = (\<Sum>a\<leftarrow>as. if a = b then ds_amount d else 0)"
      using assms(1) by (intro arg_cong [where f = sum_list] map_cong) (auto simp: distinct_map inj_on_def)
    also have "\<dots> = ds_amount d"
      using assms(1) b(1) by (simp add: distinct_map sum_list_distinct_conv_sum_set sum.delta)
    finally show "(\<Sum>a\<leftarrow>as. if ds_asset d = as_id a then ds_amount d else 0) = ds_amount d" .
  qed
  finally show ?thesis using one by (simp add: sum_list_addf cong: map_cong)
qed

text \<open>C29: the register and the ledger move together. When \<open>post_run\<close> returns and the run's key had not been
  used, the ledger has gained the lines of one journal, which the run names, whose net on every account is
  what the schedules charge to it as expense less what they add to it as accumulated depreciation; and the
  accumulated depreciation of the register has risen by the total of the schedules.\<close>

theorem run_reaches_the_ledger:
  assumes "fa_inv s" and "reachable (books s)" and "find_batch (books s) org (run_key org r) = None"
    and "post_run org r user pd today number now s = (Inr v, s')"
  shows "\<exists>jid new. ledger (books s') = ledger (books s) @ new \<and> (\<forall>l \<in> set new. ll_journal l = jid \<and> ll_org l = org)
    \<and> (\<exists>x. get_row dr_id r (runs s') = Some x \<and> dr_status x = RS_POSTED \<and> dr_journal x = Some jid)
    \<and> (\<forall>a. account_net a new = (\<Sum>d\<leftarrow>schedules_of r s. if ds_expense_account d = a then ds_amount d else 0)
        - (\<Sum>d\<leftarrow>schedules_of r s. if ds_accumulated_account d = a then ds_amount d else 0))
    \<and> (\<Sum>a\<leftarrow>assets s'. as_accumulated a) = (\<Sum>a\<leftarrow>assets s. as_accumulated a) + (\<Sum>d\<leftarrow>schedules_of r s. ds_amount d)"
  using assms(4)
proof (cases rule: post_run_cases)
  case (posted run fr b)
  let ?ds = "schedules_of r s"
  have sound: "\<forall>d \<in> set ?ds. schedule_sound d" using assms(1) by (simp add: fa_inv_def schedules_of_def)
  have same: "schedules_of r (set_run r posting_run s) = ?ds" "books (set_run r posting_run s) = books s"
    by (simp_all add: schedules_of_def)
  obtain jid new where l: "fr_journal fr = Some jid" "ledger b = ledger (books s) @ new" "\<forall>l \<in> set new. ll_journal l = jid \<and> ll_org l = org"
      "\<And>a. account_net a new = amount_of ds_expense_account a ?ds - amount_of ds_accumulated_account a ?ds"
    using post_depreciation_run_effect [OF _ _ _ posted(5,6), unfolded same] gl_inv_reachable [OF assms(2)] assms(3) sound by auto
  have r: "get_row dr_id r (runs s) = Some run" using posted(2) by (auto simp: scoped_run_def split: option.splits if_splits)
  have "\<exists>x. get_row dr_id r (runs s') = Some x \<and> dr_status x = RS_POSTED \<and> dr_journal x = Some jid"
    using r l(1) by (simp add: posted(7) get_set_row)
  moreover have "(\<Sum>a\<leftarrow>assets s'. as_accumulated a) = (\<Sum>a\<leftarrow>assets s. as_accumulated a) + (\<Sum>d\<leftarrow>?ds. ds_amount d)"
  proof -
    have "assets s' = map (apply_found ?ds) (assets s)" unfolding posted(7) by (simp add: posted_assets [OF assms(1)])
    moreover have "\<exists>a. get_row as_id (ds_asset d) (assets s) = Some a \<and> ds_accumulated_closing d = as_accumulated a + ds_amount d"
      if "d \<in> set ?ds" for d
      using check_schedules_None [OF posted(4) that] bspec [OF sound that] by (auto simp: schedule_sound_def)
    ultimately show ?thesis
      using accumulated_rise [OF _ run_schedules_distinct [OF assms(1)], of "assets s" r] assms(1) by (simp add: fa_inv_def)
  qed
  moreover have "books s' = b" unfolding posted(7) by simp
  ultimately show ?thesis using l(2,3,4) unfolding amount_of_def by blast
qed simp_all

theorem run_reaches_the_ledger_witness:
  "\<exists>s' new. post_run 1 60 9 None (Date 6 1 31) ''JE1'' 5 sample_register = (Inr 60, s')
    \<and> ledger (books s') = ledger sample_start @ new \<and> account_net 2 new = 1 \<and> account_net 3 new = -1
    \<and> (\<Sum>a\<leftarrow>assets s'. as_accumulated a) = 1"
proof (rule sample_run_posts)
  fix s' assume p: "post_run 1 60 9 None (Date 6 1 31) ''JE1'' 5 sample_register = (Inr 60, s')"
  have b: "books sample_register = sample_start" "batches sample_start = []"
    by (simp_all add: sample_register_def sample_start_def sample_books_def)
  have k: "reachable (books sample_register)" "find_batch (books sample_register) 1 (run_key 1 60) = None"
    using b sample_reachable(1) by (simp_all add: find_batch_def)
  from run_reaches_the_ledger [OF sample_register_inv k p] p b(1)
  show ?thesis by (auto simp: schedules_of_def sample_register_defs)
qed

section \<open>The end of an asset's life\<close>

text \<open>One month of an asset: it is calculated for one period and its schedule is posted (\<open>apply_schedule_assets\<close>
  shows that posting a schedule is \<open>applied\<close>).\<close>

definition monthly :: "fa_db \<Rightarrow> fa_asset \<Rightarrow> fa_asset" where
  "monthly s a = (case calculate_asset_depreciation a 1 s of Inl d \<Rightarrow> a | Inr c \<Rightarrow> applied (new_schedule 0 0 a c) a)"

lemma straight_line_month:
  assumes "get_row ca_id (as_category a) (categories s) = Some c" and "as_method a = ''STRAIGHT_LINE''"
    and "as_residual a < as_nbv a - m" and "calculate_straight_line (cost_basis a) (as_residual a) (as_useful_life a) 1 = m" and "0 \<le> m"
  shows "monthly s a = a\<lparr>as_accumulated := as_accumulated a + m, as_nbv := as_nbv a - m,
    as_remaining_life := max 0 (as_remaining_life a - 1), as_current_schedule := Some 0\<rparr>"
proof -
  have "method_amount a 1 = m" using assms(2,4) by (simp add: method_amount_def)
  then have "depreciation_amount a 1 = m" using assms(2,3,5) by (simp add: depreciation_amount_def Let_def)
  then show ?thesis using assms(1,3)
    by (simp add: monthly_def calculate_asset_depreciation_def Let_def applied_def new_schedule_def)
qed

lemma declining_settles:
  assumes "as_method a \<in> {''DECLINING_BALANCE'', ''DOUBLE_DECLINING''}" and "as_remaining_life a \<le> n" and "as_residual a \<le> as_nbv a"
    and "calculate_asset_depreciation a n s = Inr c"
  shows "dc_closing_nbv c = as_residual a \<and> dc_life_closing c = 0"
  using assms by (auto simp: calculate_asset_depreciation_def depreciation_amount_def Let_def split: option.splits)

text \<open>C30: a straight-line asset can end its life above its residual value. When the rounded monthly amount
  falls short of the share of a month, then after as many monthly runs as the asset has months its remaining
  life is 0, its net book value is above the residual value by the whole rounding difference, it is not
  marked fully depreciated, and no run will select it again: only the declining methods settle the difference
  in the last period.\<close>

theorem straight_line_leaves_rest:
  assumes "get_row ca_id (as_category a) (categories s) = Some c" and "as_method a = ''STRAIGHT_LINE''"
    and "as_useful_life a = int n" and "as_remaining_life a = int n" and "as_nbv a = cost_basis a" and "as_status a = AS_IN_USE"
    and "m = calculate_straight_line (cost_basis a) (as_residual a) (int n) 1" and "0 \<le> m"
    and "of_nat n * m < cost_basis a - as_residual a"
  shows "as_remaining_life ((monthly s ^^ n) a) = 0
    \<and> as_nbv ((monthly s ^^ n) a) = as_residual a + (cost_basis a - as_residual a - of_nat n * m)
    \<and> as_residual ((monthly s ^^ n) a) < as_nbv ((monthly s ^^ n) a)
    \<and> as_status ((monthly s ^^ n) a) = AS_IN_USE \<and> \<not> depreciable org ((monthly s ^^ n) a)"
proof -
  have "k \<le> n \<Longrightarrow> \<exists>u acc. (monthly s ^^ k) a = a\<lparr>as_accumulated := acc, as_nbv := as_nbv a - of_nat k * m,
      as_remaining_life := int n - int k, as_current_schedule := u\<rparr>" for k
  proof (induction k)
    case 0
    show ?case by (rule exI [of _ "as_current_schedule a"], rule exI [of _ "as_accumulated a"])
        (cases a, use assms(4) in simp)
  next
    case (Suc k)
    then obtain u acc where k: "(monthly s ^^ k) a = a\<lparr>as_accumulated := acc, as_nbv := as_nbv a - of_nat k * m,
      as_remaining_life := int n - int k, as_current_schedule := u\<rparr>" (is "_ = ?b") by auto
    have "of_nat (Suc k) * m \<le> of_nat n * m" using Suc.prems assms(8) by (intro mult_right_mono) (simp_all del: of_nat_Suc)
    then have less: "as_residual ?b < as_nbv ?b - m" using assms(5,9) by (simp add: algebra_simps)
    have "cost_basis ?b = cost_basis a" by (simp add: cost_basis_def split: option.split)
    then have "monthly s ?b = ?b\<lparr>as_accumulated := as_accumulated ?b + m, as_nbv := as_nbv ?b - m,
        as_remaining_life := max 0 (as_remaining_life ?b - 1), as_current_schedule := Some 0\<rparr>"
      using assms(1,2,3,7,8) less by (intro straight_line_month) simp_all
    then show ?case using Suc.prems k by (auto simp: algebra_simps)
  qed
  from this [of n] show ?thesis using assms(5,6,9) by (auto simp: depreciable_def)
qed

lemma third: "dec28 (1 / 3) = 3333333333333333333333333333 / 10 ^ 28"
  "dec28 (3333333333333333333333333333 / 10 ^ 28) = 3333333333333333333333333333 / 10 ^ 28"
proof -
  have "quotient_of (1 / 3) = (1, 3)"
    "quotient_of (3333333333333333333333333333 / 10 ^ 28) = (3333333333333333333333333333, 10 ^ 28)" by code_simp+
  then show "dec28 (1 / 3) = 3333333333333333333333333333 / 10 ^ 28"
    "dec28 (3333333333333333333333333333 / 10 ^ 28) = 3333333333333333333333333333 / 10 ^ 28"
    by (simp_all add: dec28_def adjusted_def num_digits.simps Let_def power_int_def half_even_def power_one_over)
qed

theorem straight_line_leaves_rest_witness:
  "as_remaining_life ((monthly sample_register ^^ 3) (sample_asset\<lparr>as_acquisition_cost := 1, as_nbv := 1\<rparr>)) = 0
    \<and> as_nbv ((monthly sample_register ^^ 3) (sample_asset\<lparr>as_acquisition_cost := 1, as_nbv := 1\<rparr>)) = 1 / 100"
proof -
  have "calculate_straight_line 1 0 (int 3) 1 = kobo (dec28 (dec28 (1 / 3)))"
    by (simp add: calculate_straight_line_def dec_div_def dec_mul_def)
  also have "\<dots> = kobo (3333333333333333333333333333 / 10 ^ 28)"
    by (simp only: third)
  also have "\<dots> = 33 / 100"
    by (simp add: quantize_half_up_def half_up_def)
  finally have "33 / 100 = calculate_straight_line 1 0 (int 3) 1" by simp
  with straight_line_leaves_rest [of "sample_asset\<lparr>as_acquisition_cost := 1, as_nbv := 1\<rparr>" sample_register _ 3 "33 / 100" 1]
  show ?thesis by (simp add: sample_register_defs cost_basis_def)
qed

end
