(* ===== verification/Fa_Document_Samples.thy ===== *)
theory Fa_Document_Samples
  imports Fa_Document_Properties Depreciation_Properties
begin

text \<open>
  Witnesses for disposals and revaluations, on a register of one van that cost 3 and has been depreciated by 1.
\<close>

definition sample_van :: fa_asset where
  "sample_van = sample_asset\<lparr>as_accumulated := 1, as_nbv := 2\<rparr>"

definition sample_fleet :: fa_db where
  "sample_fleet = sample_register\<lparr>assets := [sample_van], runs := [], schedules := []\<rparr>"

definition sample_category :: asset_category where
  "sample_category = hd (categories sample_fleet)"

definition sample_sale :: "decimal \<Rightarrow> decimal \<Rightarrow> disposal_input" where
  "sample_sale p c = \<lparr>di_asset = 50, di_period = 10, di_date = Date 6 1 20, di_type = DT_SALE, di_proceeds = p, di_costs = c,
     di_insurance = None\<rparr>"

lemma sample_fleet_facts:
  "reachable (books sample_fleet)" "documents_ok sample_fleet" "scoped_asset 1 50 sample_fleet = Some sample_van"
  "asset_sound sample_van" "get_row ca_id (as_category sample_van) (categories sample_fleet) = Some sample_category"
  "as_category sample_van = 40"
  using sample_reachable(1)
  by (simp_all add: sample_fleet_def sample_register_defs documents_ok_def scoped_asset_def sample_van_def asset_sound_def
      cost_basis_def at_scale_def sample_category_def)

lemma sample_sale_stored: "input_stored (sample_sale (of_int p) (of_int c))"
  by (simp add: input_stored_def net_proceeds_of_def sample_sale_def at_scale_def flip: of_int_diff)

lemma sample_sale_facts [simp]: "di_asset (sample_sale p c) = 50" "net_proceeds_of (sample_sale p c) = p - c"
  by (simp_all add: sample_sale_def net_proceeds_of_def)

section \<open>Disposal\<close>

definition sale_created :: fa_db where
  "sale_created = snd (create_disposal 1 (sample_sale 3 0) 7 sample_fleet)"

definition sale_approved :: fa_db where
  "sale_approved = snd (approve_disposal 1 64 8 5 sale_created)"

lemma sale_runs:
  "fst (create_disposal 1 (sample_sale 3 0) 7 sample_fleet) = Inr 64" "fst (approve_disposal 1 64 8 5 sale_created) = Inr 64"
  "fst (post_disposal 1 64 9 None ''JE1'' 6 sale_approved) = Inr 64"
  "find_batch (books sale_approved) 1 (document_key ''DISP'' 1 64) = None"
  by code_simp+

theorem disposal_reaches_the_ledger_witness:
  "\<exists>s3 new. post_disposal 1 64 9 None ''JE1'' 6 sale_approved = (Inr 64, s3) \<and> ledger (books s3) = ledger sample_start @ new
    \<and> account_net 3 new = 1 \<and> account_net 2 new = -1"
proof -
  obtain s3 where p: "post_disposal 1 64 9 None ''JE1'' 6 sale_approved = (Inr 64, s3)"
    using sale_runs(3) by (metis prod.collapse)
  have c: "create_disposal 1 (sample_sale 3 0) 7 sample_fleet = (Inr 64, sale_created)"
    "approve_disposal 1 64 8 5 sale_created = (Inr 64, sale_approved)"
    using sale_runs(1,2) by (simp_all add: sale_created_def sale_approved_def prod_eq_iff)
  have sc: "scoped_asset 1 (di_asset (sample_sale 3 0)) sample_fleet = Some sample_van" using sample_fleet_facts(3) by simp
  have st: "input_stored (sample_sale 3 0)" using sample_sale_stored [of 3 0] by simp
  have b: "books sample_fleet = sample_start" by (simp add: sample_fleet_def sample_register_def)
  from disposal_reaches_the_ledger [OF sample_fleet_facts(1,2) sc sample_fleet_facts(4,5) st c sale_runs(4) p]
  obtain new where n: "ledger (books s3) = ledger sample_start @ new" "\<And>k. account_net k new = derecognition k sample_category sample_van"
    using b by auto
  have "derecognition 3 sample_category sample_van = 1" "derecognition 2 sample_category sample_van = -1"
    by (simp_all add: derecognition_def sample_category_def sample_fleet_def sample_register_defs sample_van_def cost_basis_def)
  then show ?thesis using p n(1) n(2) [of 3] n(2) [of 2] by (intro exI [of _ s3] exI [of _ new]) simp
qed

definition costly_created :: fa_db where
  "costly_created = snd (create_disposal 1 (sample_sale 0 1) 7 sample_fleet)"

lemma costly_fst: "fst (create_disposal 1 (sample_sale 0 1) 7 sample_fleet) = Inr 64" "fst (approve_disposal 1 64 8 5 costly_created) = Inr 64"
  by code_simp+

lemma costly_run: "create_disposal 1 (sample_sale 0 1) 7 sample_fleet = (Inr 64, costly_created)"
  "fst (approve_disposal 1 64 8 5 costly_created) = Inr 64"
  using costly_fst by (simp_all add: costly_created_def prod_eq_iff)

theorem costly_disposal_never_posted_witness:
  "\<exists>e t'. post_disposal 1 64 9 None ''JE1'' 6 (snd (approve_disposal 1 64 8 5 costly_created)) = (Inl e, t')"
proof -
  have sc: "scoped_asset 1 (di_asset (sample_sale 0 1)) sample_fleet = Some sample_van" using sample_fleet_facts(3) by simp
  have st: "input_stored (sample_sale 0 1)" using sample_sale_stored [of 0 1] by simp
  note c = created_disposal(1,4) [OF sample_fleet_facts(2) costly_run(1) sc]
  have "scoped_asset 1 (dp_asset (new_disposal 64 sample_van (sample_sale 0 1) 7)) costly_created = Some sample_van"
    using c(2) sample_fleet_facts(3) by (simp add: scoped_asset_def new_disposal_def)
  moreover have "approve_disposal 1 64 8 5 costly_created = (Inr 64, snd (approve_disposal 1 64 8 5 costly_created))"
    using costly_run(2) by (simp add: prod_eq_iff)
  ultimately have "get_row dp_id 64 (disposals (snd (approve_disposal 1 64 8 5 costly_created)))
      = map_option (approved_disposal 8 5) (get_row dp_id 64 (disposals costly_created))"
    using approve_disposal_effect(1) [OF _ c(1)] c(1) by simp
  from costly_disposal_never_posted [OF sample_fleet_facts(2) sc sample_fleet_facts(4) st costly_run(1) _ this] show ?thesis by simp
qed

definition twice_created :: fa_db where
  "twice_created = snd (create_disposal 1 (sample_sale 2 0) 7 sale_created)"

definition once_approved :: fa_db where
  "once_approved = snd (approve_disposal 1 64 8 5 twice_created)"

definition twice_approved :: fa_db where
  "twice_approved = snd (approve_disposal 1 65 8 5 once_approved)"

definition once_posted :: fa_db where
  "once_posted = snd (post_disposal 1 64 9 None ''JE1'' 6 twice_approved)"

lemma twice_runs:
  "fst (create_disposal 1 (sample_sale 2 0) 7 sale_created) = Inr 65" "fst (approve_disposal 1 64 8 5 twice_created) = Inr 64"
  "fst (approve_disposal 1 65 8 5 once_approved) = Inr 65" "find_batch (books twice_approved) 1 (document_key ''DISP'' 1 64) = None"
  by code_simp+

lemma twice_story:
  "case post_disposal 1 64 9 None ''JE1'' 6 twice_approved of
     (Inr v, s) \<Rightarrow> v = 64 \<and> find_batch (books s) 1 (document_key ''DISP'' 1 65) = None
       \<and> fst (post_disposal 1 65 9 None ''JE2'' 7 s) = Inr 65
   | (Inl e, s) \<Rightarrow> False"
  by code_simp

lemma twice_posted:
  "fst (post_disposal 1 64 9 None ''JE1'' 6 twice_approved) = Inr 64"
  "find_batch (books once_posted) 1 (document_key ''DISP'' 1 65) = None"
  "fst (post_disposal 1 65 9 None ''JE2'' 7 once_posted) = Inr 65"
  using twice_story unfolding once_posted_def
  by (cases "post_disposal 1 64 9 None ''JE1'' 6 twice_approved", simp split: sum.splits)+

theorem asset_disposed_twice_witness:
  "\<exists>s6 new. post_disposal 1 65 9 None ''JE2'' 7 once_posted = (Inr 65, s6) \<and> ledger (books s6) = ledger sample_start @ new
    \<and> (\<forall>k. account_net k new = 2 * derecognition k sample_category sample_van)"
proof -
  have c: "create_disposal 1 (sample_sale 3 0) 7 sample_fleet = (Inr 64, sale_created)"
    "create_disposal 1 (sample_sale 2 0) 7 sale_created = (Inr 65, twice_created)"
    "approve_disposal 1 64 8 5 twice_created = (Inr 64, once_approved)"
    "approve_disposal 1 65 8 5 once_approved = (Inr 65, twice_approved)"
    "post_disposal 1 64 9 None ''JE1'' 6 twice_approved = (Inr 64, once_posted)"
    "post_disposal 1 65 9 None ''JE2'' 7 once_posted = (Inr 65, snd (post_disposal 1 65 9 None ''JE2'' 7 once_posted))"
    using sale_runs(1) twice_runs(1-3) twice_posted(1,3)
    by (simp_all add: sale_created_def twice_created_def once_approved_def twice_approved_def once_posted_def prod_eq_iff)
  have sc: "scoped_asset 1 (di_asset (sample_sale 3 0)) sample_fleet = Some sample_van" using sample_fleet_facts(3) by simp
  have st: "input_stored (sample_sale 3 0)" "input_stored (sample_sale 2 0)" using sample_sale_stored [of 3 0] sample_sale_stored [of 2 0] by simp_all
  have same: "di_asset (sample_sale 2 0) = di_asset (sample_sale 3 0)" by simp
  have b: "books sample_fleet = sample_start" by (simp add: sample_fleet_def sample_register_def)
  from asset_disposed_twice [OF sample_fleet_facts(1,2) sc sample_fleet_facts(4,5) st c(1,2) same c(3), of 9 None "''JE1''" 6 "''JE2''" 7]
  show ?thesis using c(4-6) twice_runs(4) twice_posted(2) b by auto
qed

section \<open>Revaluation\<close>

definition sample_valuation :: "nat \<Rightarrow> decimal \<Rightarrow> revaluation_input" where
  "sample_valuation d v = \<lparr>vi_asset = 50, vi_period = 10, vi_date = Date 6 1 d, vi_fair_value = v\<rparr>"

lemma sample_valuation_facts [simp]: "vi_asset (sample_valuation d v) = 50" "vi_fair_value (sample_valuation d v) = v"
  "vi_date (sample_valuation d v) = Date 6 1 d"
  by (simp_all add: sample_valuation_def)

definition van_valued :: fa_db where
  "van_valued = snd (create_revaluation 1 (sample_valuation 20 4) 7 sample_fleet)"

definition van_revalued :: fa_db where
  "van_revalued = snd (approve_revaluation 1 64 8 5 van_valued)"

lemma valuation_runs:
  "fst (create_revaluation 1 (sample_valuation 20 4) 7 sample_fleet) = Inr 64" "fst (approve_revaluation 1 64 8 5 van_valued) = Inr 64"
  "fst (post_revaluation 1 64 9 None ''JE1'' 6 van_revalued) = Inr 64"
  "find_batch (books van_revalued) 1 (document_key ''REVAL'' 1 64) = None"
  by code_simp+

theorem revaluation_reaches_the_ledger_witness:
  "\<exists>s3 new x. post_revaluation 1 64 9 None ''JE1'' 6 van_revalued = (Inr 64, s3) \<and> ledger (books s3) = ledger sample_start @ new
    \<and> get_row rv_id 64 (revaluations s3) = Some x \<and> rv_to_equity x + rv_deficit_reversed x - rv_to_pl x - rv_surplus_reversed x = 2
    \<and> account_net 2 new = 2 - (rv_deficit_reversed x - rv_to_pl x)"
proof -
  obtain s3 where p: "post_revaluation 1 64 9 None ''JE1'' 6 van_revalued = (Inr 64, s3)"
    using valuation_runs(3) by (metis prod.collapse)
  have c: "create_revaluation 1 (sample_valuation 20 4) 7 sample_fleet = (Inr 64, van_valued)"
    "approve_revaluation 1 64 8 5 van_valued = (Inr 64, van_revalued)"
    using valuation_runs(1,2) by (simp_all add: van_valued_def van_revalued_def prod_eq_iff)
  have sc: "scoped_asset 1 (vi_asset (sample_valuation 20 4)) sample_fleet = Some sample_van" using sample_fleet_facts(3) by simp
  have eq: "ca_surplus_account sample_category = Some 3" "ca_asset_account sample_category = 2" "loss_account sample_category = 2"
    by (simp_all add: sample_category_def sample_fleet_def sample_register_def loss_account_def)
  have st: "at_scale 6 (vi_fair_value (sample_valuation 20 4))" by (simp add: at_scale_def)
  have b: "books sample_fleet = sample_start" "as_nbv sample_van = 2" by (simp_all add: sample_fleet_def sample_register_def sample_van_def)
  from revaluation_reaches_the_ledger [OF sample_fleet_facts(1,2) sc sample_fleet_facts(4,5) eq(1) st c valuation_runs(4) p]
  show ?thesis
  proof (elim exE conjE)
    fix jid new x
    assume x: "ledger (books s3) = ledger (books sample_fleet) @ new" "get_row rv_id 64 (revaluations s3) = Some x"
      "rv_to_equity x + rv_deficit_reversed x - rv_to_pl x - rv_surplus_reversed x = vi_fair_value (sample_valuation 20 4) - as_nbv sample_van"
      "\<forall>k. account_net k new = (if k = ca_asset_account sample_category then vi_fair_value (sample_valuation 20 4) - as_nbv sample_van else 0)
        - (if k = 3 then rv_to_equity x - rv_surplus_reversed x else 0)
        - (if k = loss_account sample_category then rv_deficit_reversed x - rv_to_pl x else 0)"
    have "account_net 2 new = 2 - (rv_deficit_reversed x - rv_to_pl x)" using x(4) [rule_format, of 2] eq b(2) by simp
    then show ?thesis using p x(1-3) b by (intro exI [of _ s3] exI [of _ new] exI [of _ x]) simp
  qed
qed

text \<open>A van of 10 with one earlier revaluation that credited 5 to equity.\<close>

definition dear_van :: fa_asset where
  "dear_van = sample_asset\<lparr>as_acquisition_cost := 10, as_nbv := 10\<rparr>"

definition earlier_surplus :: asset_revaluation where
  "earlier_surplus = \<lparr>rv_id = 1, rv_asset = 50, rv_period = 10, rv_date = Date 6 1 1, rv_carrying_before = 5,
     rv_accumulated_before = 0, rv_fair_value = 10, rv_surplus = 5, rv_carrying_after = 10, rv_accumulated_after = 0,
     rv_to_equity = 5, rv_to_pl = 0, rv_deficit_reversed = 0, rv_surplus_reversed = 0, rv_journal = None, rv_created_by = 7,
     rv_approved_by = Some 8, rv_approved_at = Some 4\<rparr>"

definition dear_fleet :: fa_db where
  "dear_fleet = sample_fleet\<lparr>assets := [dear_van], revaluations := [earlier_surplus]\<rparr>"

definition fallen_once :: fa_db where
  "fallen_once = snd (create_revaluation 1 (sample_valuation 2 6) 7 dear_fleet)"

definition fall_approved :: fa_db where
  "fall_approved = snd (approve_revaluation 1 64 8 5 fallen_once)"

lemma fall_runs:
  "fst (create_revaluation 1 (sample_valuation 2 6) 7 dear_fleet) = Inr 64" "fst (approve_revaluation 1 64 8 5 fallen_once) = Inr 64"
  "fst (create_revaluation 1 (sample_valuation 3 2) 7 fall_approved) = Inr 65"
  by code_simp+

theorem surplus_reversed_again_witness:
  "\<exists>s3 x y. create_revaluation 1 (sample_valuation 3 2) 7 fall_approved = (Inr 65, s3)
    \<and> get_row rv_id 64 (revaluations s3) = Some x \<and> get_row rv_id 65 (revaluations s3) = Some y
    \<and> 5 < rv_surplus_reversed x + rv_surplus_reversed y \<and> rv_to_pl x = 0 \<and> rv_to_pl y = 0"
proof -
  obtain s3 where p: "create_revaluation 1 (sample_valuation 3 2) 7 fall_approved = (Inr 65, s3)"
    using fall_runs(3) by (metis prod.collapse)
  have c: "create_revaluation 1 (sample_valuation 2 6) 7 dear_fleet = (Inr 64, fallen_once)"
    "approve_revaluation 1 64 8 5 fallen_once = (Inr 64, fall_approved)"
    using fall_runs(1,2) by (simp_all add: fallen_once_def fall_approved_def prod_eq_iff)
  have f: "documents_ok dear_fleet" "scoped_asset 1 50 dear_fleet = Some dear_van" "asset_sound dear_van" "as_nbv dear_van = 10"
    by (simp_all add: dear_fleet_def dear_van_def earlier_surplus_def sample_fleet_def sample_register_defs documents_ok_def scoped_asset_def
        asset_sound_def cost_basis_def at_scale_def)
  have prior: "(\<Sum>r\<leftarrow>prior_revaluations 50 (Date 6 1 2) dear_fleet. rv_to_equity r) = 5"
    by (simp add: prior_revaluations_def dear_fleet_def earlier_surplus_def)
  from surplus_reversed_again [OF f(1-3) sample_valuation_facts(1) [of 2 6] sample_valuation_facts(1) [of 3 2] _ _ _ _ _ _ _ _ c p]
  show ?thesis using p f(4) prior by (auto simp: at_scale_def)
qed

end
