(* ===== verification/Fa_Acquisition.thy ===== *)
theory Fa_Acquisition
  imports Fa_Documents
begin

text \<open>
  Categories and master data of assets: \<open>app/services/fixed_assets/asset.py\<close>, and the posting of an
  acquisition in \<open>fa_posting_adapter.py\<close>. Location, custodian, texts, insurance and the like are only stored;
  their columns and the location and ownership events are left out. The number an empty one is
  replaced by comes from a numbering sequence and is an argument, as is the day of the request.
\<close>

section \<open>Categories\<close>

definition scoped_category :: "uuid \<Rightarrow> uuid \<Rightarrow> fa_db \<Rightarrow> asset_category option" where
  "scoped_category org u s = (case get_row ca_id u (categories s) of
     Some c \<Rightarrow> if ca_org c = org then Some c else None | None \<Rightarrow> None)"

text \<open>The walk to the root, in at most sixteen rounds.\<close>

fun climb_categories :: "nat \<Rightarrow> uuid \<Rightarrow> uuid list \<Rightarrow> asset_category \<Rightarrow> fa_db \<Rightarrow> (nat \<times> fa_detail) + asset_category" where
  "climb_categories 0 org visited c s = Inl (400, Hierarchy_too_deep)"
| "climb_categories (Suc n) org visited c s = (case ca_parent c of
     None \<Rightarrow> Inr c
   | Some u \<Rightarrow>
      if ca_id c \<in> set visited then Inl (400, Hierarchy_cycle)
      else (case scoped_category org u s of
          None \<Rightarrow> Inl (404, Category_missing)
        | Some p \<Rightarrow> climb_categories n org (ca_id c # visited) p s))"

definition resolve_primary_category :: "uuid \<Rightarrow> uuid \<Rightarrow> fa_db \<Rightarrow> (nat \<times> fa_detail) + asset_category" where
  "resolve_primary_category org u s = (case scoped_category org u s of
     None \<Rightarrow> Inl (404, Category_missing)
   | Some c \<Rightarrow> (case climb_categories 16 org [] c s of
       Inl e \<Rightarrow> Inl e
     | Inr r \<Rightarrow> if ca_active r then Inr r else Inl (400, Category_inactive)))"

record category_input =
  ci_code :: string
  ci_method :: string
  ci_useful_life :: int
  ci_residual_percent :: decimal
  ci_asset_account :: uuid
  ci_accumulated_account :: uuid
  ci_expense_account :: uuid
  ci_gain_loss_account :: uuid
  ci_surplus_account :: "uuid option"
  ci_impairment_account :: "uuid option"
  ci_threshold :: decimal
  ci_revaluation_allowed :: bool

definition stored_category :: "uuid \<Rightarrow> uuid \<Rightarrow> bool \<Rightarrow> category_input \<Rightarrow> asset_category" where
  "stored_category u org active i = \<lparr>ca_id = u, ca_org = org, ca_code = ci_code i, ca_parent = None, ca_method = ci_method i,
     ca_useful_life = ci_useful_life i, ca_residual_percent = quantize_half_up 2 (ci_residual_percent i),
     ca_asset_account = ci_asset_account i, ca_accumulated_account = ci_accumulated_account i,
     ca_expense_account = ci_expense_account i, ca_gain_loss_account = ci_gain_loss_account i,
     ca_surplus_account = ci_surplus_account i, ca_impairment_account = ci_impairment_account i,
     ca_threshold = numeric6 (ci_threshold i), ca_revaluation_allowed = ci_revaluation_allowed i, ca_active = active\<rparr>"

definition code_taken :: "uuid \<Rightarrow> string \<Rightarrow> fa_db \<Rightarrow> bool" where
  "code_taken org code s \<longleftrightarrow> (\<exists>c \<in> set (categories s). ca_org c = org \<and> ca_code c = code)"

definition create_category :: "uuid \<Rightarrow> category_input \<Rightarrow> fa_db \<Rightarrow> (fa_error, uuid, fa_db) tx" where
  "create_category org i s =
    (if code_taken org (ci_code i) s then raise (Fa_raised 400 (Category_code_taken (ci_code i))) s
     else return (next_fa s) (s\<lparr>categories := add_row (stored_category (next_fa s) org True i) (categories s),
       next_fa := Suc (next_fa s)\<rparr>))"

definition update_category :: "uuid \<Rightarrow> uuid \<Rightarrow> category_input \<Rightarrow> bool option \<Rightarrow> fa_db \<Rightarrow> (fa_error, uuid, fa_db) tx" where
  "update_category org u i active s = (case scoped_category org u s of
     None \<Rightarrow> raise (Fa_raised 404 Category_missing) s
   | Some c \<Rightarrow>
      if ca_code c \<noteq> ci_code i \<and> code_taken org (ci_code i) s then raise (Fa_raised 400 (Category_code_taken (ci_code i))) s
      else return u (s\<lparr>categories := set_row ca_id u
        (\<lambda>c. stored_category u org (case active of Some b \<Rightarrow> b | None \<Rightarrow> ca_active c) i) (categories s)\<rparr>))"

definition toggle_category :: "uuid \<Rightarrow> uuid \<Rightarrow> fa_db \<Rightarrow> (fa_error, uuid, fa_db) tx" where
  "toggle_category org u s = (case scoped_category org u s of
     None \<Rightarrow> raise (Fa_raised 404 Category_missing) s
   | Some c \<Rightarrow> return u (s\<lparr>categories := set_row ca_id u (\<lambda>c. c\<lparr>ca_active := \<not> ca_active c\<rparr>) (categories s)\<rparr>))"

section \<open>Creating an asset\<close>

record asset_input =
  ai_name :: string
  ai_category :: uuid
  ai_acquired :: date
  ai_cost :: decimal
  ai_currency :: string
  ai_number :: "string option"
  ai_cost_center :: "uuid option"
  ai_in_service :: "date option"
  ai_method :: "string option"
  ai_useful_life :: "int option"
  ai_residual :: "decimal option"
  ai_schedule :: "uuid option"
  ai_rate :: "decimal option"
  ai_status :: "asset_status option"

definition white_space :: "char \<Rightarrow> bool" where
  "white_space c \<longleftrightarrow> of_char c \<in> set [9, 10, 11, 12, 13, 28, 29, 30, 31, 32, 133, 160 :: nat]"

definition strip :: "string \<Rightarrow> string" where
  "strip t = rev (dropWhile white_space (rev (dropWhile white_space t)))"

text \<open>Why a depreciation schedule cannot be linked.\<close>

definition schedule_refused :: "uuid \<Rightarrow> uuid \<Rightarrow> fa_db \<Rightarrow> (nat \<times> fa_detail) option" where
  "schedule_refused org u s = (case get_row ds_id u (schedules s) of
     None \<Rightarrow> Some (404, Schedule_not_found)
   | Some d \<Rightarrow> (case scoped_run org (ds_run d) s of None \<Rightarrow> Some (400, Schedule_of_other_organization) | Some r \<Rightarrow> None))"

definition number_used :: "uuid \<Rightarrow> string \<Rightarrow> uuid option \<Rightarrow> fa_db \<Rightarrow> bool" where
  "number_used org number own s \<longleftrightarrow> (\<exists>a \<in> set (assets s). as_org a = org \<and> as_number a = number \<and> Some (as_id a) \<noteq> own)"

definition input_rate :: "asset_input \<Rightarrow> decimal" where
  "input_rate i = (case ai_rate i of Some r \<Rightarrow> (if r = 0 then 1 else r) | None \<Rightarrow> 1)"

definition residual_of :: "asset_input \<Rightarrow> asset_category \<Rightarrow> decimal" where
  "residual_of i c = (case ai_residual i of Some v \<Rightarrow> v | None \<Rightarrow> dec_mul (ai_cost i) (dec_div (ca_residual_percent c) 100))"

definition new_asset :: "uuid \<Rightarrow> uuid \<Rightarrow> string \<Rightarrow> asset_category \<Rightarrow> asset_input \<Rightarrow> fa_asset" where
  "new_asset u org number c i =
    (let status = (case ai_status i of Some st \<Rightarrow> st | None \<Rightarrow> AS_NOT_IN_USE);
         life = (case ai_useful_life i of Some n \<Rightarrow> n | None \<Rightarrow> ca_useful_life c);
         used = status \<in> {AS_IN_USE, AS_FULLY_DEPRECIATED};
         in_service = (if used then Some (case ai_in_service i of Some d \<Rightarrow> d | None \<Rightarrow> ai_acquired i) else ai_in_service i)
     in \<lparr>as_id = u, as_org = org, as_number = number, as_name = ai_name i, as_category = ca_id c,
       as_cost_center = ai_cost_center i, as_project = None, as_acquired = ai_acquired i, as_in_service = in_service,
       as_currency = ai_currency i, as_acquisition_cost = numeric6 (ai_cost i),
       as_functional_cost = numeric6 (dec_mul (ai_cost i) (input_rate i)), as_method = given_or (ca_method c) (ai_method i),
       as_useful_life = life, as_remaining_life = (if status = AS_FULLY_DEPRECIATED then 0 else life),
       as_residual = numeric6 (residual_of i c), as_start = (if used then in_service else None), as_accumulated = 0,
       as_nbv = numeric6 (ai_cost i), as_revalued = None, as_status = status, as_current_schedule = ai_schedule i,
       as_disposal_date = None, as_disposal_proceeds = None, as_disposal_gain_loss = None\<rparr>)"

definition create_asset :: "uuid \<Rightarrow> asset_input \<Rightarrow> date \<Rightarrow> string \<Rightarrow> fa_db \<Rightarrow> (fa_error, uuid, fa_db) tx" where
  "create_asset org i today sequence s =
    (if ai_cost i \<le> 0 then raise (Fa_raised 400 Cost_not_positive) s
     else if (case ai_useful_life i of Some n \<Rightarrow> n \<le> 0 | None \<Rightarrow> False) then raise (Fa_raised 400 Life_not_positive) s
     else if (case ai_residual i of Some v \<Rightarrow> ai_cost i < v | None \<Rightarrow> False) then raise (Fa_raised 400 Residual_above_cost) s
     else if today < ai_acquired i then raise (Fa_raised 400 Acquired_in_future) s
     else (case resolve_primary_category org (ai_category i) s of
         Inl (code, e) \<Rightarrow> raise (Fa_raised code e) s
       | Inr c \<Rightarrow>
          if 0 < ai_cost i \<and> ai_cost i < ca_threshold c then raise (Fa_raised 400 (Below_threshold (ai_cost i) (ca_threshold c))) s
          else let given = strip (given_or [] (ai_number i)); number = (if given = [] then sequence else given) in
            if number_used org number None s then raise (Fa_raised 400 (Asset_number_taken number)) s
            else (case (case ai_schedule i of None \<Rightarrow> None | Some u \<Rightarrow> schedule_refused org u s) of
                Some (code, e) \<Rightarrow> raise (Fa_raised code e) s
              | None \<Rightarrow>
                 if ai_status i = Some AS_RETIRED then raise (Fa_raised 400 Retired_by_disposal_only) s
                 else return (next_fa s) (s\<lparr>assets := add_row (new_asset (next_fa s) org number c i) (assets s),
                   lifecycle := lifecycle s @ [\<lparr>le_org = org, le_asset = next_fa s, le_source_type = ''asset'',
                     le_source = next_fa s, le_previous = None, le_new = AS_NOT_IN_USE, le_schedule = None\<rparr>],
                   next_fa := Suc (next_fa s)\<rparr>))))"

section \<open>Status and attributes\<close>

text \<open>A change of status with its event.\<close>

definition status_event :: "uuid \<Rightarrow> fa_asset \<Rightarrow> asset_status \<Rightarrow> lifecycle_event" where
  "status_event org a st = \<lparr>le_org = org, le_asset = as_id a, le_source_type = ''asset'', le_source = as_id a,
     le_previous = Some (as_status a), le_new = st, le_schedule = None\<rparr>"

definition activated :: "date option \<Rightarrow> date option \<Rightarrow> fa_asset \<Rightarrow> fa_asset" where
  "activated in_service start a =
    (let d = (case in_service of Some d \<Rightarrow> d | None \<Rightarrow> as_acquired a)
     in a\<lparr>as_status := AS_IN_USE, as_in_service := Some d, as_start := Some (case start of Some e \<Rightarrow> e | None \<Rightarrow> d)\<rparr>)"

definition activate_asset :: "uuid \<Rightarrow> uuid \<Rightarrow> date option \<Rightarrow> date option \<Rightarrow> fa_db \<Rightarrow> (fa_error, uuid, fa_db) tx" where
  "activate_asset org u in_service start s = (case scoped_asset org u s of
     None \<Rightarrow> raise (Fa_raised 404 Asset_not_found) s
   | Some a \<Rightarrow>
      if as_status a \<notin> {AS_NOT_IN_USE, AS_IN_STORE} then raise (Fa_raised 400 (Cannot_activate (as_status a))) s
      else return u ((set_asset u (activated in_service start) s)
        \<lparr>lifecycle := lifecycle s @ [status_event org a AS_IN_USE]\<rparr>))"

definition mark_fully_depreciated :: "uuid \<Rightarrow> uuid \<Rightarrow> fa_db \<Rightarrow> (fa_error, uuid, fa_db) tx" where
  "mark_fully_depreciated org u s = (case scoped_asset org u s of
     None \<Rightarrow> raise (Fa_raised 404 Asset_not_found) s
   | Some a \<Rightarrow>
      if as_status a \<noteq> AS_IN_USE then raise (Fa_raised 400 Only_in_use) s
      else return u ((set_asset u (\<lambda>a. a\<lparr>as_status := AS_FULLY_DEPRECIATED, as_remaining_life := 0\<rparr>) s)
        \<lparr>lifecycle := lifecycle s @ [status_event org a AS_FULLY_DEPRECIATED]\<rparr>))"

text \<open>The entries of the dictionary of updates; \<open>Set_other\<close> is a key of a column that is left out or unknown.\<close>

datatype asset_update = Set_status asset_status | Set_schedule "uuid option" | Set_cost_center "uuid option"
  | Set_number "string option" | Set_name string | Set_category uuid | Set_acquired date | Set_cost decimal
  | Set_currency string | Set_method string | Set_useful_life int | Set_residual decimal | Set_other string

definition with_status :: "asset_status \<Rightarrow> fa_asset \<Rightarrow> fa_asset" where
  "with_status st a =
    (let d = (case as_in_service a of Some d \<Rightarrow> d | None \<Rightarrow> as_acquired a);
         b = (if st \<in> {AS_IN_USE, AS_FULLY_DEPRECIATED}
           then a\<lparr>as_in_service := Some d, as_start := Some (case as_start a of Some e \<Rightarrow> e | None \<Rightarrow> d)\<rparr> else a)
     in b\<lparr>as_status := st, as_remaining_life := (if st = AS_FULLY_DEPRECIATED then 0 else as_remaining_life b)\<rparr>)"

definition updated_cost :: "asset_update list \<Rightarrow> decimal \<Rightarrow> decimal" where
  "updated_cost us cost = (case [v. Set_cost v \<leftarrow> us] of [] \<Rightarrow> cost | v # vs \<Rightarrow> v)"

definition pre_use :: "fa_asset \<Rightarrow> string \<Rightarrow> ((nat \<times> fa_detail) + fa_asset) \<Rightarrow> (nat \<times> fa_detail) + fa_asset" where
  "pre_use a key r = (if as_status a \<in> {AS_NOT_IN_USE, AS_IN_STORE} then r else Inl (400, Frozen_after_activation key))"

fun apply_update :: "uuid \<Rightarrow> asset_update list \<Rightarrow> date \<Rightarrow> fa_db \<Rightarrow> asset_update \<Rightarrow> fa_asset \<Rightarrow> (nat \<times> fa_detail) + fa_asset" where
  "apply_update org us today s (Set_status st) a =
    (if st = AS_RETIRED then Inl (400, Retired_by_disposal_only) else Inr (with_status st a))"
| "apply_update org us today s (Set_schedule None) a = Inr (a\<lparr>as_current_schedule := None\<rparr>)"
| "apply_update org us today s (Set_schedule (Some u)) a = (case schedule_refused org u s of
     Some e \<Rightarrow> Inl e | None \<Rightarrow> Inr (a\<lparr>as_current_schedule := Some u\<rparr>))"
| "apply_update org us today s (Set_cost_center u) a = Inr (a\<lparr>as_cost_center := u\<rparr>)"
| "apply_update org us today s (Set_number n) a = pre_use a ''asset_number'' (let number = strip (given_or [] n) in
     if number = [] then Inl (400, Asset_number_required)
     else if number_used org number (Some (as_id a)) s then Inl (400, Asset_number_taken number)
     else Inr (a\<lparr>as_number := number\<rparr>))"
| "apply_update org us today s (Set_name n) a = pre_use a ''asset_name'' (Inr (a\<lparr>as_name := n\<rparr>))"
| "apply_update org us today s (Set_category u) a = pre_use a ''category_id'' (case resolve_primary_category org u s of
     Inl e \<Rightarrow> Inl e | Inr c \<Rightarrow> Inr (a\<lparr>as_category := ca_id c\<rparr>))"
| "apply_update org us today s (Set_acquired d) a = pre_use a ''acquisition_date''
     (if today < d then Inl (400, Acquired_in_future) else Inr (a\<lparr>as_acquired := d\<rparr>))"
| "apply_update org us today s (Set_cost v) a = pre_use a ''acquisition_cost''
     (if v \<le> 0 then Inl (400, Cost_not_positive) else Inr (a\<lparr>as_acquisition_cost := numeric6 v\<rparr>))"
| "apply_update org us today s (Set_currency t) a = pre_use a ''currency_code'' (Inr (a\<lparr>as_currency := t\<rparr>))"
| "apply_update org us today s (Set_method t) a = pre_use a ''depreciation_method'' (Inr (a\<lparr>as_method := t\<rparr>))"
| "apply_update org us today s (Set_useful_life n) a = pre_use a ''useful_life_months''
     (if n \<le> 0 then Inl (400, Life_not_positive) else Inr (a\<lparr>as_useful_life := n\<rparr>))"
| "apply_update org us today s (Set_residual v) a = pre_use a ''residual_value''
     (if updated_cost us (as_acquisition_cost a) < v then Inl (400, Residual_above_cost) else Inr (a\<lparr>as_residual := numeric6 v\<rparr>))"
| "apply_update org us today s (Set_other t) a = Inr a"

text \<open>The loop over the updates; an exception leaves the object as the entries before it have made it.\<close>

fun apply_updates :: "uuid \<Rightarrow> asset_update list \<Rightarrow> date \<Rightarrow> fa_db \<Rightarrow> asset_update list \<Rightarrow> fa_asset
    \<Rightarrow> (nat \<times> fa_detail) option \<times> fa_asset" where
  "apply_updates org us today s [] a = (None, a)"
| "apply_updates org us today s (x # xs) a = (case apply_update org us today s x a of
     Inl e \<Rightarrow> (Some e, a) | Inr b \<Rightarrow> apply_updates org us today s xs b)"

definition update_asset :: "uuid \<Rightarrow> uuid \<Rightarrow> asset_update list \<Rightarrow> date \<Rightarrow> fa_db \<Rightarrow> (fa_error, uuid, fa_db) tx" where
  "update_asset org u us today s = (case scoped_asset org u s of
     None \<Rightarrow> raise (Fa_raised 404 Asset_not_found) s
   | Some a \<Rightarrow> (case apply_updates org us today s us a of
       (Some (code, e), b) \<Rightarrow> raise (Fa_raised code e) (set_asset u (\<lambda>_. b) s)
     | (None, b) \<Rightarrow> return u ((set_asset u (\<lambda>_. b) s)\<lparr>lifecycle := lifecycle s
         @ (if as_status b \<noteq> as_status a then [status_event org a (as_status b)] else [])\<rparr>)))"

section \<open>Posting an acquisition\<close>

definition functional_amount :: "fa_asset \<Rightarrow> decimal" where
  "functional_amount a = (if as_functional_cost a = 0 then as_acquisition_cost a else as_functional_cost a)"

text \<open>\<open>Decimal.quantize\<close> without a mode rounds ties to even.\<close>

definition acquisition_rate :: "fa_asset \<Rightarrow> decimal" where
  "acquisition_rate a = (if as_acquisition_cost a \<noteq> 0 \<and> functional_amount a \<noteq> 0
     then of_int (half_even (dec_div (functional_amount a) (as_acquisition_cost a) * 10 ^ 6)) / 10 ^ 6 else 1)"

definition acquisition_line :: "fa_asset \<Rightarrow> uuid \<Rightarrow> bool \<Rightarrow> string \<Rightarrow> line_input" where
  "acquisition_line a account debit text = \<lparr>li_account = account,
     li_debit = (if debit then as_acquisition_cost a else 0), li_credit = (if debit then 0 else as_acquisition_cost a),
     li_description = Some text, li_debit_functional = Some (if debit then functional_amount a else 0),
     li_credit_functional = Some (if debit then 0 else functional_amount a), li_currency_code = Some (as_currency a),
     li_exchange_rate = Some (acquisition_rate a),
     li_dims = no_dimensions\<lparr>cost_center_id := as_cost_center a, project_id := as_project a\<rparr>\<rparr>"

definition acquisition_journal :: "fa_asset \<Rightarrow> asset_category \<Rightarrow> uuid \<Rightarrow> string option \<Rightarrow> string \<Rightarrow> date \<Rightarrow> journal_input" where
  "acquisition_journal a c credit text currency d = \<lparr>ji_type = STANDARD, ji_entry_date = d, ji_posting_date = d,
     ji_description = given_or (''Asset acquisition '' @ as_number a) text,
     ji_lines = [acquisition_line a (ca_asset_account c) True ''Asset acquisition'',
       acquisition_line a credit False ''Asset acquisition offset''],
     ji_reference = Some (''FA-ACQ-'' @ as_number a), ji_currency_code = currency, ji_exchange_rate = acquisition_rate a,
     ji_exchange_rate_type_id = None, ji_source_module = Some ''FA'', ji_source_document_type = Some ''ASSET_ACQUISITION'',
     ji_source_document_id = Some (as_id a), ji_auto_reverse_date = None, ji_correlation_id = None\<rparr>"

definition post_asset_acquisition :: "uuid \<Rightarrow> uuid \<Rightarrow> date \<Rightarrow> uuid \<Rightarrow> uuid \<Rightarrow> string option \<Rightarrow> string \<Rightarrow> timestamp \<Rightarrow> fa_db
    \<Rightarrow> (fa_error, fa_posting, fa_db) tx" where
  "post_asset_acquisition org u d user credit text number now s = (case scoped_asset org u s of
     None \<Rightarrow> return (fa_refused None Asset_not_found) s
   | Some a \<Rightarrow> (case scoped_category org (as_category a) s of
       None \<Rightarrow> return (fa_refused None Category_missing) s
     | Some c \<Rightarrow> (case currency_of s org of
         None \<Rightarrow> raise (Fa_raised 500 Organization_not_found) s
       | Some currency \<Rightarrow> post_document org (acquisition_journal a c credit text currency d) user number d
           (document_key ''ACQ'' org u) now s)))"

end
