(* ===== verification/Fa_Acquisition_Facts.thy ===== *)
theory Fa_Acquisition_Facts
  imports Fa_Acquisition Fa_Document_Properties
begin

text \<open>
  Categories, acquisitions and corrections of assets. The walk through the hierarchy is compared with the chain of
  parents; what a new asset looks like, what its acquisition moves in the ledger and what its
  disposal needs are the parts of the properties that follow a single asset from its acquisition to its disposal.
\<close>

section \<open>The hierarchy of categories\<close>

text \<open>The category that is reached from another by going up \<open>n\<close> times inside the organisation.\<close>

fun above :: "uuid \<Rightarrow> fa_db \<Rightarrow> nat \<Rightarrow> asset_category \<Rightarrow> asset_category option" where
  "above org s 0 c = Some c"
| "above org s (Suc n) c = (case ca_parent c of None \<Rightarrow> None
    | Some u \<Rightarrow> (case scoped_category org u s of None \<Rightarrow> None | Some p \<Rightarrow> above org s n p))"

lemma scoped_category_SomeD:
  assumes "scoped_category org u s = Some c"
  shows "get_row ca_id u (categories s) = Some c" "ca_id c = u" "scoped_category org (ca_id c) s = Some c"
proof -
  show r: "get_row ca_id u (categories s) = Some c" using assms by (auto simp: scoped_category_def split: option.splits if_splits)
  show "ca_id c = u" using get_row_SomeD [OF r] by simp
  then show "scoped_category org (ca_id c) s = Some c" using assms by simp
qed

lemma above_add: "above org s (m + n) c = (case above org s m c of None \<Rightarrow> None | Some d \<Rightarrow> above org s n d)"
  by (induction m arbitrary: c) (auto split: option.splits)

lemma above_scoped: "scoped_category org u s = Some c \<Longrightarrow> above org s n c = Some d \<Longrightarrow> scoped_category org (ca_id d) s = Some d"
proof (induction n arbitrary: u c)
  case (Suc n)
  then show ?case by (auto split: option.splits)
qed (auto dest: scoped_category_SomeD)

text \<open>A chain that comes back to a category never reaches a root.\<close>

lemma above_cycle:
  assumes "above org s (Suc m) c = Some c"
  shows "above org s n c = Some r \<Longrightarrow> ca_parent r \<noteq> None"
proof (induction n rule: less_induct)
  case (less n)
  show ?case
  proof (cases "n < Suc m")
    case True
    then have "above org s (n + Suc (m - n)) c = Some c" using assms by simp
    then show ?thesis using less.prems unfolding above_add by (auto split: option.splits)
  next
    case False
    then have "above org s (Suc m + (n - Suc m)) c = Some r" using less.prems by simp
    then have "above org s (n - Suc m) c = Some r" using assms by (simp only: above_add) simp
    moreover have "n - Suc m < n" using False by linarith
    ultimately show ?thesis using less.IH by blast
  qed
qed

lemma climb_Inr: "climb_categories n org visited c s = Inr r \<Longrightarrow> \<exists>j<n. above org s j c = Some r \<and> ca_parent r = None"
proof (induction n arbitrary: visited c)
  case (Suc n)
  show ?case
  proof (cases "ca_parent c")
    case None
    then show ?thesis using Suc.prems by (intro exI [of _ 0]) simp
  next
    case (Some u)
    then obtain p where "scoped_category org u s = Some p" "climb_categories n org (ca_id c # visited) p s = Inr r"
      using Suc.prems by (auto split: option.splits if_splits)
    then show ?thesis using Suc.IH Some by (metis Suc_mono above.simps(2) option.simps(5))
  qed
qed simp

lemma climb_reaches:
  assumes "scoped_category org u s = Some c" and "above org s j c = Some r" and "ca_parent r = None" and "j < n"
    and "\<forall>i\<le>j. \<forall>d. above org s i c = Some d \<longrightarrow> ca_id d \<notin> set visited"
  shows "climb_categories n org visited c s = Inr r"
  using assms
proof (induction j arbitrary: u c n visited)
  case 0
  then show ?case by (cases n) auto
next
  case (Suc j)
  obtain m where m: "n = Suc m" "j < m" using Suc.prems(4) by (cases n) auto
  obtain v p where p: "ca_parent c = Some v" "scoped_category org v s = Some p" "above org s j p = Some r"
    using Suc.prems(2) by (auto split: option.splits)
  have fresh: "\<forall>i\<le>j. \<forall>d. above org s i p = Some d \<longrightarrow> ca_id d \<notin> set (ca_id c # visited)"
  proof (intro allI impI)
    fix i d assume i: "i \<le> j" "above org s i p = Some d"
    then have up: "above org s (Suc i) c = Some d" using p by simp
    have "ca_id d \<noteq> ca_id c"
    proof
      assume "ca_id d = ca_id c"
      then have "d = c" using above_scoped [OF p(2) i(2)] scoped_category_SomeD(3) [OF Suc.prems(1)] by (metis option.inject)
      then have "above org s (Suc i) c = Some c" using up by (simp only:)
      then show False using above_cycle Suc.prems(2,3) by blast
    qed
    moreover have "ca_id d \<notin> set visited" using Suc.prems(5) up i(1) by (meson Suc_le_mono)
    ultimately show "ca_id d \<notin> set (ca_id c # visited)" by simp
  qed
  have "ca_id c \<notin> set visited" using Suc.prems(5) by (metis above.simps(1) le0)
  moreover have "climb_categories m org (ca_id c # visited) p s = Inr r" by (rule Suc.IH [OF p(2,3) Suc.prems(3) m(2) fresh])
  ultimately show ?case using p(1,2) unfolding m(1) by simp
qed

lemma climb_cycle:
  "climb_categories n org visited c s = Inl (400, Hierarchy_cycle) \<longleftrightarrow>
    (\<exists>j<n. \<exists>d. above org s j c = Some d \<and> ca_parent d \<noteq> None
      \<and> (ca_id d \<in> set visited \<or> (\<exists>i<j. \<exists>e. above org s i c = Some e \<and> ca_id e = ca_id d)))"
proof (induction n arbitrary: visited c)
  case (Suc n)
  show ?case
  proof (cases "ca_parent c")
    case None
    then show ?thesis by (auto simp: less_Suc_eq_0_disj)
  next
    case (Some u)
    show ?thesis
    proof (cases "ca_id c \<in> set visited")
      case True
      then show ?thesis using Some by (auto intro!: exI [of _ 0])
    next
      case False
      show ?thesis
      proof (cases "scoped_category org u s")
        case None
        then show ?thesis using Some False by (auto simp: less_Suc_eq_0_disj)
      next
        case p: (Some p)
        have up: "above org s (Suc j) c = above org s j p" for j using Some p by simp
        have before: "(\<exists>i<Suc j. \<exists>e. above org s i c = Some e \<and> ca_id e = x)
            \<longleftrightarrow> x = ca_id c \<or> (\<exists>i<j. \<exists>e. above org s i p = Some e \<and> ca_id e = x)" for j x
          unfolding Ex_less_Suc2 up by auto
        have "climb_categories (Suc n) org visited c s = climb_categories n org (ca_id c # visited) p s"
          using Some False p by simp
        moreover have "(\<exists>j<Suc n. \<exists>d. above org s j c = Some d \<and> ca_parent d \<noteq> None
              \<and> (ca_id d \<in> set visited \<or> (\<exists>i<j. \<exists>e. above org s i c = Some e \<and> ca_id e = ca_id d)))
          \<longleftrightarrow> (\<exists>j<n. \<exists>d. above org s j p = Some d \<and> ca_parent d \<noteq> None
              \<and> (ca_id d \<in> set (ca_id c # visited) \<or> (\<exists>i<j. \<exists>e. above org s i p = Some e \<and> ca_id e = ca_id d)))"
          unfolding Ex_less_Suc2 [of n] up before using False by (simp add: disj_ac)
        ultimately show ?thesis using Suc.IH [of "ca_id c # visited" p] by (simp only:)
      qed
    qed
  qed
qed simp

lemma above_repeats:
  assumes "above org s m c = above org s n c" and "above org s n c = Some d" and "m < n"
  shows "ca_parent d \<noteq> None"
proof -
  obtain k where k: "n = m + Suc k" using assms(3) less_iff_Suc_add by auto
  have "above org s (Suc k) d = Some d" using assms(1,2) unfolding k above_add by simp
  then show ?thesis by (auto split: option.splits)
qed

lemma resolved_category:
  assumes "resolve_primary_category org u s = Inr c"
  shows "scoped_category org (ca_id c) s = Some c"
proof -
  obtain b where "scoped_category org u s = Some b" "climb_categories 16 org [] b s = Inr c"
    using assms by (auto simp: resolve_primary_category_def split: option.splits sum.splits if_splits)
  then show ?thesis using climb_Inr [of 16 org "[]" b s c] above_scoped by blast
qed

section \<open>A new asset\<close>

definition assets_numbered :: "fa_db \<Rightarrow> bool" where
  "assets_numbered s \<longleftrightarrow> (\<forall>a \<in> set (assets s). as_id a < next_fa s)"

definition acquired_cost :: "asset_input \<Rightarrow> decimal" where
  "acquired_cost i = numeric6 (ai_cost i)"

definition acquired_functional :: "asset_input \<Rightarrow> decimal" where
  "acquired_functional i = (let f = numeric6 (dec_mul (ai_cost i) (input_rate i)) in if f = 0 then acquired_cost i else f)"

lemma new_asset_values:
  "as_id (new_asset u org n c i) = u" "as_org (new_asset u org n c i) = org" "as_category (new_asset u org n c i) = ca_id c"
  "as_acquisition_cost (new_asset u org n c i) = acquired_cost i" "as_nbv (new_asset u org n c i) = acquired_cost i"
  "as_accumulated (new_asset u org n c i) = 0" "as_revalued (new_asset u org n c i) = None"
  "as_functional_cost (new_asset u org n c i) = numeric6 (dec_mul (ai_cost i) (input_rate i))"
  by (simp_all add: new_asset_def acquired_cost_def Let_def)

lemma created_asset:
  assumes "assets_numbered s" and "documents_ok s" and "create_asset org i today sequence s = (Inr u, s1)"
  obtains c n where "resolve_primary_category org (ai_category i) s = Inr c"
    and "scoped_asset org u s1 = Some (new_asset u org n c i)" and "books s1 = books s" and "categories s1 = categories s"
    and "documents_ok s1"
proof -
  obtain c n where c: "resolve_primary_category org (ai_category i) s = Inr c" and u: "u = next_fa s"
    and s1: "s1 = s\<lparr>assets := add_row (new_asset (next_fa s) org n c i) (assets s),
      lifecycle := lifecycle s @ [\<lparr>le_org = org, le_asset = next_fa s, le_source_type = ''asset'',
        le_source = next_fa s, le_previous = None, le_new = AS_NOT_IN_USE, le_schedule = None\<rparr>], next_fa := Suc (next_fa s)\<rparr>"
    using assms(3) by (auto simp: create_asset_def raise_def return_def Let_def split: if_splits sum.splits prod.splits option.splits)
  have "get_row as_id u (assets s) = None" using assms(1) u by (auto simp: get_row_None_iff assets_numbered_def)
  then have "scoped_asset org u s1 = Some (new_asset u org n c i)"
    by (simp add: s1 u scoped_asset_def add_row_def get_row_append new_asset_values)
  moreover have "documents_ok s1" using assms(2) by (auto simp: documents_ok_def s1 less_Suc_eq)
  ultimately show thesis using that [OF c, of n] by (simp add: s1)
qed

lemma get_set_row_at:
  assumes "get_row k u xs = Some a" and "k (f a) = u"
  shows "get_row k u (set_row k u f xs) = Some (f a)"
  using assms by (induction xs) (auto simp: set_row_def split: if_splits)

lemma set_scoped_asset:
  assumes "scoped_asset org u s = Some a" and "as_id (f a) = as_id a" and "as_org (f a) = as_org a"
    and "assets s' = set_row as_id u f (assets s)"
  shows "scoped_asset org u s' = Some (f a)"
  using scoped_asset_SomeD [OF assms(1)] assms(2-4) get_set_row_at [of as_id u "assets s" a f] by (simp add: scoped_asset_def)

lemma activate_effect:
  assumes "activate_asset org u d e s = (Inr v, s')" and "scoped_asset org u s = Some a"
  shows "scoped_asset org u s' = Some (activated d e a)" and "books s' = books s" and "categories s' = categories s"
    and "documents_ok s' = documents_ok s"
proof -
  have s': "s' = (set_asset u (activated d e) s)\<lparr>lifecycle := lifecycle s @ [status_event org a AS_IN_USE]\<rparr>"
    using assms by (auto simp: activate_asset_def raise_def return_def split: if_splits)
  show "scoped_asset org u s' = Some (activated d e a)"
    by (rule set_scoped_asset [OF assms(2), where f = "activated d e"])
      (simp add: activated_def Let_def, simp add: activated_def Let_def, simp add: s')
  show "books s' = books s" "categories s' = categories s" "documents_ok s' = documents_ok s" by (simp_all add: s' documents_ok_def)
qed

lemma update_cost_effect:
  assumes "update_asset org u [Set_cost v] today s = (Inr w, s')" and "scoped_asset org u s = Some a"
  shows "scoped_asset org u s' = Some (a\<lparr>as_acquisition_cost := numeric6 v\<rparr>)" and "documents_ok s' = documents_ok s"
    and "0 < v"
proof -
  have s': "s' = (set_asset u (\<lambda>_. a\<lparr>as_acquisition_cost := numeric6 v\<rparr>) s)" and "0 < v"
    using assms by (auto simp: update_asset_def raise_def return_def pre_use_def split: if_splits)
  show "0 < v" by fact
  show "scoped_asset org u s' = Some (a\<lparr>as_acquisition_cost := numeric6 v\<rparr>)"
    by (rule set_scoped_asset [OF assms(2)]) (simp_all add: s')
  show "documents_ok s' = documents_ok s" by (simp add: s' documents_ok_def)
qed

section \<open>Posting an acquisition\<close>

lemma post_asset_acquisition_effect:
  assumes inv: "gl_inv (books s)" and fresh: "find_batch (books s) org (document_key ''ACQ'' org u) = None"
    and p: "post_asset_acquisition org u d user credit text number now s = (Inr fr, s')" "fr_success fr"
    and a: "scoped_asset org u s = Some a" "scoped_category org (as_category a) s = Some c" "at_scale 6 (functional_amount a)"
  obtains new b where "s' = s\<lparr>books := b\<rparr>" and "ledger b = ledger (books s) @ new" and "gl_inv b"
    and "\<And>k. account_net k new = (if k = ca_asset_account c then functional_amount a else 0) - (if k = credit then functional_amount a else 0)"
proof -
  obtain currency where doc: "post_document org (acquisition_journal a c credit text currency d) user number d
      (document_key ''ACQ'' org u) now s = (Inr fr, s')"
    using p a by (auto simp: post_asset_acquisition_def raise_def return_def fa_refused_def split: option.splits)
  let ?j = "acquisition_journal a c credit text currency d"
  obtain jid res b where n: "create_approve_and_post_journal org ?j user number d (document_key ''ACQ'' org u) ''FA'' None now (books s)
      = (Inr (Some jid, res), b)" "ar_success res" "s' = s\<lparr>books := b\<rparr>"
    using post_document_cases [OF doc p(2)] .
  obtain jid' new where l: "ledger b = ledger (books s) @ new" "map ledger_view new = map (stored_amounts ?j) (ji_lines ?j)"
    by (rule adapter_effect [OF inv fresh n(1,2)])
  have "stored_amounts ?j (acquisition_line a x True t) = (x, functional_amount a, 0)"
    "stored_amounts ?j (acquisition_line a x False t) = (x, 0, functional_amount a)" for x t
    using a(3) by (simp_all add: stored_amounts_def functional_debit_def functional_credit_def functional_def
        acquisition_line_def quantize_at_scale)
  then have "account_net k new = (if k = ca_asset_account c then functional_amount a else 0) - (if k = credit then functional_amount a else 0)" for k
    unfolding account_net_view l(2) by (simp add: acquisition_journal_def view_net_def)
  then show thesis using that n(3) l(1) adapter.returns [OF inv n(1)] by simp
qed

section \<open>Disposals of an asset whose books do not agree\<close>

lemma disposal_lines_excess:
  assumes "0 \<le> dp_accumulated d" and "0 \<le> dp_net_proceeds d" and "dp_gain_loss d = dp_net_proceeds d - dp_nbv d"
  shows "(\<Sum>l\<leftarrow>disposal_lines d a c. li_debit l) - (\<Sum>l\<leftarrow>disposal_lines d a c. li_credit l)
    = dp_accumulated d + dp_nbv d - dp_cost d"
  using assms by (auto simp: disposal_lines_def)

lemma disposal_lines_at_scale:
  assumes "at_scale 6 (dp_accumulated d)" "at_scale 6 (dp_net_proceeds d)" "at_scale 6 (dp_cost d)" "at_scale 6 (dp_gain_loss d)"
  shows "\<forall>l \<in> set (disposal_lines d a c). simple_line l"
  using assms at_scale_abs [OF assms(4)] by (auto simp: disposal_lines_def at_scale_uminus)

text \<open>An asset \<open>b\<close> whose values have moved as depreciation moves them since it was \<open>a\<close>.\<close>

definition asset_values_kept :: "fa_asset \<Rightarrow> fa_asset \<Rightarrow> bool" where
  "asset_values_kept a b \<longleftrightarrow> as_acquisition_cost b = as_acquisition_cost a \<and> as_revalued b = as_revalued a
     \<and> as_accumulated b + as_nbv b = as_accumulated a + as_nbv a
     \<and> at_scale 6 (as_accumulated b) \<and> at_scale 6 (as_nbv b) \<and> 0 \<le> as_accumulated b"

lemma disagreeing_never_disposed:
  assumes "documents_ok s" and "scoped_asset org (di_asset i) s = Some a" and "cost_basis a \<noteq> as_accumulated a + as_nbv a"
    and "at_scale 6 (cost_basis a)" "at_scale 6 (as_accumulated a)" "at_scale 6 (as_nbv a)" and "0 \<le> as_accumulated a"
    and "input_stored i" and "0 \<le> net_proceeds_of i" and "create_disposal org i user s = (Inr u, s1)"
    and "get_row dp_id u (disposals t) = map_option (approved_disposal user' now) (get_row dp_id u (disposals s1))"
  shows "\<exists>e t'. post_disposal org' u user'' pd number now' t = (Inl e, t')"
proof -
  let ?d = "new_disposal u a i user"
  have row: "get_row dp_id u (disposals t) = Some (approved_disposal user' now ?d)"
    using created_disposal(1) [OF assms(1,10,2)] assms(11) by simp
  have scale: "at_scale 6 (net_proceeds_of i)" "at_scale 6 (net_proceeds_of i - as_nbv a)"
    using assms(6,8) by (auto simp: input_stored_def)
  have d: "dp_accumulated ?d = as_accumulated a" "dp_cost ?d = cost_basis a" "dp_nbv ?d = as_nbv a"
      "dp_net_proceeds ?d = net_proceeds_of i" "dp_gain_loss ?d = net_proceeds_of i - as_nbv a"
    using scale by (simp_all add: new_disposal_def quantize_at_scale)
  show ?thesis
  proof (rule unbalanced_never_posted [OF row])
    fix b k
    show "\<forall>l \<in> set (disposal_lines (approved_disposal user' now ?d) b k). simple_line l"
      using d scale assms(4-6) by (intro disposal_lines_at_scale) (simp_all add: approved_disposal_def)
    show "(\<Sum>l\<leftarrow>disposal_lines (approved_disposal user' now ?d) b k. li_debit l)
        \<noteq> (\<Sum>l\<leftarrow>disposal_lines (approved_disposal user' now ?d) b k. li_credit l)"
      using disposal_lines_excess [of "approved_disposal user' now ?d" b k] d assms(3,7,9) by (simp add: approved_disposal_def)
  qed
qed

end
