(* ===== verification/Fa_Acquisition_Properties.thy ===== *)
theory Fa_Acquisition_Properties
  imports Fa_Acquisition_Facts
begin

text \<open>
  Acquired assets: the category they are put in, what is left of their cost in the ledger when they are gone, and
  why an asset whose cost was corrected cannot leave it.
\<close>

text \<open>C36: the category of a new asset is the root of its hierarchy. The walk returns a category exactly when going up from
  the given one, inside the organisation, reaches it in at most fifteen steps, it has no parent, and it is
  active; and it reports a cycle exactly when going up comes back to a category within those steps.\<close>

theorem category_resolved:
  "(resolve_primary_category org u s = Inr r \<longleftrightarrow>
      (\<exists>c. scoped_category org u s = Some c \<and> (\<exists>n<16. above org s n c = Some r) \<and> ca_parent r = None \<and> ca_active r))
   \<and> (resolve_primary_category org u s = Inl (400, Hierarchy_cycle) \<longleftrightarrow>
      (\<exists>c. scoped_category org u s = Some c \<and> (\<exists>n<16. \<exists>m<n. above org s m c = above org s n c \<and> above org s n c \<noteq> None)))"
proof (cases "scoped_category org u s")
  case None
  then show ?thesis by (simp add: resolve_primary_category_def)
next
  case (Some c)
  have same: "(\<exists>m<n. \<exists>e. above org s m c = Some e \<and> ca_id e = ca_id d) \<longleftrightarrow> (\<exists>m<n. above org s m c = above org s n c)"
    if "above org s n c = Some d" for n d
    using that above_scoped [OF Some] by (metis option.inject)
  have root: "climb_categories 16 org [] c s = Inr r \<longleftrightarrow> (\<exists>n<16. above org s n c = Some r) \<and> ca_parent r = None"
    using climb_Inr [of 16 org "[]" c s r] climb_reaches [OF Some, of _ r 16 "[]"] by auto
  have cycle: "climb_categories 16 org [] c s = Inl (400, Hierarchy_cycle)
      \<longleftrightarrow> (\<exists>n<16. \<exists>m<n. above org s m c = above org s n c \<and> above org s n c \<noteq> None)"
  proof -
    have "(\<exists>d. above org s n c = Some d \<and> ca_parent d \<noteq> None
          \<and> (ca_id d \<in> set [] \<or> (\<exists>m<n. \<exists>e. above org s m c = Some e \<and> ca_id e = ca_id d)))
        \<longleftrightarrow> (\<exists>m<n. above org s m c = above org s n c \<and> above org s n c \<noteq> None)" for n
    proof (cases "above org s n c")
      case (Some d)
      have "ca_parent d \<noteq> None" if "m < n" "above org s m c = above org s n c" for m
        using above_repeats that Some by blast
      then show ?thesis using same [OF Some] Some by auto
    qed simp
    then show ?thesis unfolding climb_cycle by (simp only:)
  qed
  have "resolve_primary_category org u s = Inr r \<longleftrightarrow> climb_categories 16 org [] c s = Inr r \<and> ca_active r"
    "resolve_primary_category org u s = Inl (400, Hierarchy_cycle) \<longleftrightarrow> climb_categories 16 org [] c s = Inl (400, Hierarchy_cycle)"
    using Some by (auto simp: resolve_primary_category_def split: sum.splits)
  then show ?thesis using Some root cycle by simp
qed

text \<open>C37: what is left of an asset in the ledger. When an asset has been created, put in use, its acquisition posted, and it
  has been disposed of before any depreciation, the ledger has gained exactly this: on the asset account the functional
  cost less the cost in the currency of the asset, the cost on the account of gains and losses,
  and the functional cost on the credit of the account that paid. An asset in the functional currency is gone;
  one that was bought at a rate other than 1 stays on the asset account with the difference for ever, because a
  disposal books amounts in the asset's currency as functional amounts.\<close>

theorem acquired_asset_leaves_rest:
  assumes "reachable (books s)" and "documents_ok s" and "assets_numbered s" and "create_asset org i today sequence s = (Inr u, s1)"
    and "activate_asset org u in_service start s1 = (Inr v, s2)"
    and "find_batch (books s2) org (document_key ''ACQ'' org u) = None"
    and "post_asset_acquisition org u d user credit text number now s2 = (Inr fr, s3)" and "fr_success fr"
    and "di_asset j = u" and "input_stored j" and "create_disposal org j user' s3 = (Inr w, s4)"
    and "approve_disposal org w user'' now' s4 = (Inr x, s5)" and "find_batch (books s5) org (document_key ''DISP'' org w) = None"
    and "post_disposal org w user''' pd number' now'' s5 = (Inr y, s6)"
  shows "\<exists>c new. resolve_primary_category org (ai_category i) s = Inr c \<and> ledger (books s6) = ledger (books s) @ new
    \<and> (\<forall>k. account_net k new = (if k = ca_asset_account c then acquired_functional i - acquired_cost i else 0)
        + (if k = ca_gain_loss_account c then acquired_cost i else 0) - (if k = credit then acquired_functional i else 0))"
proof -
  obtain c n where c: "resolve_primary_category org (ai_category i) s = Inr c"
    and s1: "scoped_asset org u s1 = Some (new_asset u org n c i)" "books s1 = books s" "categories s1 = categories s" "documents_ok s1"
    using created_asset [OF assms(3,2,4)] .
  note s2 = activate_effect [OF assms(5) s1(1)]
  let ?a = "activated in_service start (new_asset u org n c i)"
  have a: "as_category ?a = ca_id c" "as_acquisition_cost ?a = acquired_cost i" "as_nbv ?a = acquired_cost i" "as_accumulated ?a = 0"
      "as_revalued ?a = None" "functional_amount ?a = acquired_functional i"
    by (simp_all add: activated_def Let_def new_asset_values functional_amount_def acquired_functional_def)
  have cat: "scoped_category org (as_category ?a) s2 = Some c"
    using resolved_category [OF c] s1(3) s2(3) a(1) by (simp add: scoped_category_def)
  have inv: "gl_inv (books s2)" using gl_inv_reachable [OF assms(1)] s1(2) s2(2) by simp
  have scale: "at_scale 6 (functional_amount ?a)" "asset_sound ?a"
    using a by (simp_all add: acquired_functional_def acquired_cost_def Let_def asset_sound_def cost_basis_def)
  obtain new b where p: "s3 = s2\<lparr>books := b\<rparr>" "ledger b = ledger (books s2) @ new" "gl_inv b"
      "\<And>k. account_net k new = (if k = ca_asset_account c then acquired_functional i else 0) - (if k = credit then acquired_functional i else 0)"
    using post_asset_acquisition_effect [OF inv assms(6,7,8) s2(1) cat scale(1)] unfolding a(6) by blast
  have s3: "gl_inv (books s3)" "documents_ok s3" "scoped_asset org (di_asset j) s3 = Some ?a"
      "get_row ca_id (as_category ?a) (categories s3) = Some c"
    using p(1,3) s2(1,4) s1(4) assms(9) scoped_category_SomeD(1) [OF cat] by (simp_all add: documents_ok_def scoped_asset_def)
  obtain new' where q: "ledger (books s6) = ledger (books s3) @ new'" "\<And>k. account_net k new' = derecognition k c ?a"
    using disposal_effects [OF s3(1-3) scale(2) s3(4) assms(10-14)] by blast
  have "account_net k (new @ new') = (if k = ca_asset_account c then acquired_functional i - acquired_cost i else 0)
      + (if k = ca_gain_loss_account c then acquired_cost i else 0) - (if k = credit then acquired_functional i else 0)" for k
    using p(4) [of k] q(2) [of k] a by (simp add: account_net_def derecognition_def cost_basis_def)
  moreover have "ledger (books s6) = ledger (books s) @ (new @ new')" using q(1) p(1,2) s2(2) s1(2) by simp
  ultimately show ?thesis using c by blast
qed

text \<open>C38: a correction of the cost before the activation blocks the disposals of an asset until its values are set anew. The
  correction changes the cost and neither the net book value nor the functional cost, so that cost, accumulated
  depreciation and net book value no longer agree. Depreciation keeps the cost and the sum of the other two (it moves
  amounts from one to the other), so the disagreement stays; and as long as it does, in any later session
  where the asset has this cost, no revaluation and this sum, a disposal that is created with
  net proceeds that are not negative does not balance, and every posting of its approved row raises. An approved revaluation ends this, since it
  sets all three.\<close>

theorem corrected_cost_never_disposed:
  assumes "documents_ok s" and "assets_numbered s" and "create_asset org i today sequence s = (Inr u, s1)"
    and "update_asset org u [Set_cost v] today' s1 = (Inr x, s2)" and "numeric6 v \<noteq> acquired_cost i"
    and "activate_asset org u in_service start s2 = (Inr y, s3)" and "scoped_asset org u s3 = Some a"
    and "documents_ok q" and "scoped_asset org u q = Some b" and "asset_values_kept a b"
    and "di_asset j = u" and "input_stored j" and "0 \<le> net_proceeds_of j" and "create_disposal org j user q = (Inr w, q')"
    and "get_row dp_id w (disposals t) = map_option (approved_disposal user' now) (get_row dp_id w (disposals q'))"
  shows "as_acquisition_cost a = numeric6 v \<and> as_accumulated a + as_nbv a = acquired_cost i
    \<and> as_functional_cost a = numeric6 (dec_mul (ai_cost i) (input_rate i))
    \<and> (\<exists>e t'. post_disposal org' w user'' pd number now' t = (Inl e, t'))"
proof -
  obtain c n where s1: "scoped_asset org u s1 = Some (new_asset u org n c i)"
    using created_asset [OF assms(2,1,3)] .
  note s3 = activate_effect(1) [OF assms(6) update_cost_effect(1) [OF assms(4) s1]]
  have "a = activated in_service start ((new_asset u org n c i)\<lparr>as_acquisition_cost := numeric6 v\<rparr>)" using s3 assms(7) by simp
  then have a: "as_acquisition_cost a = numeric6 v" "as_nbv a = acquired_cost i" "as_accumulated a = 0" "as_revalued a = None"
      "as_functional_cost a = numeric6 (dec_mul (ai_cost i) (input_rate i))"
    by (simp_all add: activated_def Let_def new_asset_values)
  have "cost_basis b \<noteq> as_accumulated b + as_nbv b" using assms(5,10) a by (simp add: asset_values_kept_def cost_basis_def)
  moreover have "at_scale 6 (cost_basis b)" using assms(10) a by (simp add: asset_values_kept_def cost_basis_def)
  moreover have "at_scale 6 (as_accumulated b)" "at_scale 6 (as_nbv b)" "0 \<le> as_accumulated b"
    using assms(10) by (simp_all add: asset_values_kept_def)
  moreover have "scoped_asset org (di_asset j) q = Some b" using assms(9,11) by simp
  ultimately have "\<exists>e t'. post_disposal org' w user'' pd number now' t = (Inl e, t')"
    using disagreeing_never_disposed [OF assms(8) _ _ _ _ _ _ assms(12-15)] by blast
  then show ?thesis using a by simp
qed

end
