(* ===== verification/Fa_Acquisition_Samples.thy ===== *)
theory Fa_Acquisition_Samples
  imports Fa_Acquisition_Properties Depreciation_Properties
begin

text \<open>
  Witnesses for acquired assets: a van bought for 3 at the rate 2 that is put in use, posted and sold for 3, and one whose
  cost is corrected from 3 to 4.
\<close>

definition empty_register :: fa_db where
  "empty_register = sample_register\<lparr>assets := [], runs := [], schedules := []\<rparr>"

definition bought_van :: asset_input where
  "bought_van = \<lparr>ai_name = ''Van'', ai_category = 40, ai_acquired = Date 6 1 1, ai_cost = 3, ai_currency = ''USD'', ai_number = None,
     ai_cost_center = None, ai_in_service = None, ai_method = None, ai_useful_life = None, ai_residual = None, ai_schedule = None,
     ai_rate = Some 2, ai_status = None\<rparr>"

definition van_sale :: disposal_input where
  "van_sale = \<lparr>di_asset = 64, di_period = 10, di_date = Date 6 1 20, di_type = DT_SALE, di_proceeds = 3, di_costs = 0, di_insurance = None\<rparr>"

lemma empty_register_facts:
  "reachable (books empty_register)" "documents_ok empty_register" "assets_numbered empty_register" "books empty_register = sample_start"
  using sample_reachable(1)
  by (simp_all add: empty_register_def sample_register_def documents_ok_def assets_numbered_def)

lemma van_sale_facts: "di_asset van_sale = 64" "input_stored van_sale" "0 \<le> net_proceeds_of van_sale"
  by (simp_all add: van_sale_def input_stored_def net_proceeds_of_def at_scale_def)

lemma ran: "fst p = r \<Longrightarrow> p = (r, snd p)"
  by (simp add: prod_eq_iff)

section \<open>Bought and sold\<close>

definition van_bought :: fa_db where
  "van_bought = snd (create_asset 1 bought_van (Date 6 1 20) ''FA1'' empty_register)"

definition van_in_use :: fa_db where
  "van_in_use = snd (activate_asset 1 64 None None van_bought)"

lemma van_runs:
  "fst (create_asset 1 bought_van (Date 6 1 20) ''FA1'' empty_register) = Inr 64" "fst (activate_asset 1 64 None None van_bought) = Inr 64"
  "find_batch (books van_in_use) 1 (document_key ''ACQ'' 1 64) = None"
  by code_simp+

text \<open>The rest of its life, in one evaluation.\<close>

lemma van_story:
  "case post_asset_acquisition 1 64 (Date 6 1 20) 9 3 None ''JE1'' 6 van_in_use of
     (Inr fr, s3) \<Rightarrow> fr_success fr \<and> (case create_disposal 1 van_sale 7 s3 of
       (Inr w, s4) \<Rightarrow> w = 65 \<and> (case approve_disposal 1 65 8 7 s4 of
         (Inr x, s5) \<Rightarrow> find_batch (books s5) 1 (document_key ''DISP'' 1 65) = None
           \<and> (case post_disposal 1 65 9 None ''JE2'' 8 s5 of (Inr y, s6) \<Rightarrow> True | (Inl e, s6) \<Rightarrow> False)
       | (Inl e, s5) \<Rightarrow> False) | (Inl e, s4) \<Rightarrow> False) | (Inl e, s3) \<Rightarrow> False"
  by code_simp

lemma van_amounts: "acquired_functional bought_van = 6" "acquired_cost bought_van = 3" "ai_category bought_van = 40"
    "acquired_functional bought_van - acquired_cost bought_van = 3"
  by code_simp+

theorem acquired_asset_leaves_rest_witness:
  "\<exists>s5 y s6 c new. post_disposal 1 65 9 None ''JE2'' 8 s5 = (Inr y, s6)
    \<and> resolve_primary_category 1 40 empty_register = Inr c \<and> ledger (books s6) = ledger sample_start @ new
    \<and> (\<forall>k. account_net k new = (if k = ca_asset_account c then 3 else 0) + (if k = ca_gain_loss_account c then 3 else 0)
        - (if k = 3 then 6 else 0))"
proof -
  obtain fr s3 s4 x s5 y s6 where
    c: "post_asset_acquisition 1 64 (Date 6 1 20) 9 3 None ''JE1'' 6 van_in_use = (Inr fr, s3)" "fr_success fr"
      "create_disposal 1 van_sale 7 s3 = (Inr 65, s4)" "approve_disposal 1 65 8 7 s4 = (Inr x, s5)"
      "find_batch (books s5) 1 (document_key ''DISP'' 1 65) = None" "post_disposal 1 65 9 None ''JE2'' 8 s5 = (Inr y, s6)"
    using van_story by (auto split: prod.splits sum.splits)
  note c' = ran [OF van_runs(1), folded van_bought_def] ran [OF van_runs(2), folded van_in_use_def]
  have "\<exists>c new. resolve_primary_category 1 40 empty_register = Inr c \<and> ledger (books s6) = ledger sample_start @ new
      \<and> (\<forall>k. account_net k new = (if k = ca_asset_account c then 3 else 0) + (if k = ca_gain_loss_account c then 3 else 0)
        - (if k = 3 then 6 else 0))"
    using acquired_asset_leaves_rest [OF empty_register_facts(1-3) c' van_runs(3) c(1,2) van_sale_facts(1,2) c(3-6)]
    unfolding van_amounts(4) unfolding van_amounts empty_register_facts(4) .
  then show ?thesis using c(6) by blast
qed

section \<open>Corrected\<close>

definition van_corrected :: fa_db where
  "van_corrected = snd (update_asset 1 64 [Set_cost 4] (Date 6 1 20) van_bought)"

definition corrected_in_use :: fa_db where
  "corrected_in_use = snd (activate_asset 1 64 None None van_corrected)"

definition corrected_offered :: fa_db where
  "corrected_offered = snd (create_disposal 1 van_sale 7 corrected_in_use)"

lemma corrected_runs:
  "fst (update_asset 1 64 [Set_cost 4] (Date 6 1 20) van_bought) = Inr 64" "fst (activate_asset 1 64 None None van_corrected) = Inr 64"
  "fst (create_disposal 1 van_sale 7 corrected_in_use) = Inr 65"
  by code_simp+

text \<open>The disposal of the corrected van once it has been approved.\<close>

definition corrected_sold :: fa_db where
  "corrected_sold = corrected_offered\<lparr>disposals := map (approved_disposal 8 7) (disposals corrected_offered)\<rparr>"

lemma corrected_asset:
  "case scoped_asset 1 64 corrected_in_use of None \<Rightarrow> False | Some a \<Rightarrow> asset_values_kept a a \<and> documents_ok corrected_in_use"
  by code_simp

theorem corrected_cost_never_disposed_witness:
  "(\<exists>a. scoped_asset 1 64 corrected_in_use = Some a \<and> as_acquisition_cost a = 4 \<and> as_accumulated a + as_nbv a = 3)
    \<and> (\<exists>e t'. post_disposal 1 65 9 None ''JE2'' 8 corrected_sold = (Inl e, t'))"
proof -
  note c = ran [OF van_runs(1), folded van_bought_def] ran [OF corrected_runs(1), folded van_corrected_def]
    ran [OF corrected_runs(2), folded corrected_in_use_def] ran [OF corrected_runs(3), folded corrected_offered_def]
  obtain a where a: "scoped_asset 1 64 corrected_in_use = Some a" "asset_values_kept a a" "documents_ok corrected_in_use"
    using corrected_asset by (auto split: option.splits)
  have v: "numeric6 4 = (4 :: decimal)" by code_simp
  have differs: "numeric6 4 \<noteq> acquired_cost bought_van" unfolding v van_amounts by simp
  have row: "get_row dp_id 65 (disposals corrected_sold) = map_option (approved_disposal 8 7) (get_row dp_id 65 (disposals corrected_offered))"
    by (simp add: corrected_sold_def get_row_map approved_disposal_def)
  from corrected_cost_never_disposed [OF empty_register_facts(2,3) c(1,2) differs c(3) a(1,3,1,2) van_sale_facts c(4) row, of 1 9 None "''JE2''" 8]
  show ?thesis using a(1) unfolding v van_amounts by blast
qed

end
