(* ===== verification/Tax_Transactions.thy ===== *)
theory Tax_Transactions
  imports Gl_Model
begin

text \<open>
  Tax transactions (\<open>app/models/finance/tax/tax_code.py\<close>, \<open>tax_transaction.py\<close>) and their creation,
  \<open>TaxTransactionService.create_transaction\<close> and \<open>create_from_invoice_line\<close> of
  \<open>app/services/finance/tax/tax_transaction.py\<close>. Amounts are stored with six decimals.
\<close>

datatype tax_transaction_type = TT_INPUT | TT_OUTPUT | TT_WITHHOLDING | TT_ACCRUAL | TT_PAYMENT | TT_REFUND

datatype tax_recognition_basis = TR_ACCRUAL | TR_CASH

record tax_code =
  tc_id :: uuid
  tc_org :: uuid
  tc_jurisdiction :: uuid
  tc_rate :: decimal
  tc_is_recoverable :: bool
  tc_recovery_rate :: decimal
  tc_return_box :: "string option"

record tax_transaction_input =
  ti_fiscal_period :: uuid
  ti_tax_code :: uuid
  ti_jurisdiction :: uuid
  ti_type :: tax_transaction_type
  ti_date :: date
  ti_document_type :: string
  ti_document :: uuid
  ti_document_line :: "uuid option"
  ti_reference :: "string option"
  ti_counterparty_type :: "string option"
  ti_counterparty_name :: "string option"
  ti_counterparty_tax_id :: "string option"
  ti_currency_code :: string
  ti_base :: decimal
  ti_rate :: decimal
  ti_tax :: decimal
  ti_exchange_rate :: "decimal option"
  ti_functional_base :: decimal
  ti_functional_tax :: decimal
  ti_basis :: tax_recognition_basis
  ti_recoverable :: decimal
  ti_non_recoverable :: decimal
  ti_return_box :: "string option"

record tax_transaction =
  tt_id :: uuid
  tt_org :: uuid
  tt_input :: tax_transaction_input
  tt_included_in_return :: bool

record tax_db =
  tax_codes :: "tax_code list"
  tax_transactions :: "tax_transaction list"
  next_tax :: uuid

datatype tax_error = Tax_code_not_found

definition scoped_tax_code :: "uuid \<Rightarrow> uuid \<Rightarrow> tax_db \<Rightarrow> tax_code option" where
  "scoped_tax_code org c s = (case get_row tc_id c (tax_codes s) of
     Some x \<Rightarrow> if tc_org x = org then Some x else None | None \<Rightarrow> None)"

text \<open>The row of an input: the columns round what they store.\<close>

definition stored_tax :: "tax_transaction_input \<Rightarrow> tax_code \<Rightarrow> tax_transaction_input" where
  "stored_tax i c = i\<lparr>ti_base := numeric6 (ti_base i), ti_rate := numeric6 (ti_rate i), ti_tax := numeric6 (ti_tax i),
     ti_exchange_rate := map_option (quantize_half_up 10) (ti_exchange_rate i),
     ti_functional_base := numeric6 (ti_functional_base i), ti_functional_tax := numeric6 (ti_functional_tax i),
     ti_recoverable := numeric6 (ti_recoverable i), ti_non_recoverable := numeric6 (ti_non_recoverable i),
     ti_return_box := (case ti_return_box i of Some b \<Rightarrow> (if b = [] then tc_return_box c else Some b) | None \<Rightarrow> tc_return_box c)\<rparr>"

definition create_transaction :: "uuid \<Rightarrow> tax_transaction_input \<Rightarrow> tax_db \<Rightarrow> (tax_error, uuid, tax_db) tx" where
  "create_transaction org i s = (case scoped_tax_code org (ti_tax_code i) s of
     None \<Rightarrow> raise Tax_code_not_found s
   | Some c \<Rightarrow> return (next_tax s) (s\<lparr>tax_transactions := add_row \<lparr>tt_id = next_tax s, tt_org = org,
       tt_input = stored_tax i c, tt_included_in_return = False\<rparr> (tax_transactions s), next_tax := Suc (next_tax s)\<rparr>))"

definition recoverable_part :: "bool \<Rightarrow> tax_code \<Rightarrow> decimal \<Rightarrow> decimal \<times> decimal" where
  "recoverable_part is_purchase c tax =
    (if is_purchase \<and> tc_is_recoverable c
     then (kobo (dec_mul tax (tc_recovery_rate c)), tax - kobo (dec_mul tax (tc_recovery_rate c)))
     else if is_purchase then (0, tax) else (0, 0))"

definition create_from_invoice_line :: "uuid \<Rightarrow> uuid \<Rightarrow> uuid \<Rightarrow> uuid \<Rightarrow> uuid \<Rightarrow> string \<Rightarrow> date \<Rightarrow> bool \<Rightarrow> decimal \<Rightarrow> string
    \<Rightarrow> string option \<Rightarrow> string option \<Rightarrow> decimal \<Rightarrow> tax_db \<Rightarrow> (tax_error, uuid, tax_db) tx" where
  "create_from_invoice_line org p code invoice line number d is_purchase base currency name tax_id rate s =
    (case scoped_tax_code org code s of
       None \<Rightarrow> raise Tax_code_not_found s
     | Some c \<Rightarrow>
        (let tax = kobo (dec_mul base (tc_rate c)); parts = recoverable_part is_purchase c tax
         in create_transaction org \<lparr>ti_fiscal_period = p, ti_tax_code = code, ti_jurisdiction = tc_jurisdiction c,
              ti_type = (if is_purchase then TT_INPUT else TT_OUTPUT), ti_date = d,
              ti_document_type = (if is_purchase then ''AP_INVOICE'' else ''AR_INVOICE''), ti_document = invoice,
              ti_document_line = Some line, ti_reference = Some number,
              ti_counterparty_type = Some (if is_purchase then ''SUPPLIER'' else ''CUSTOMER''),
              ti_counterparty_name = name, ti_counterparty_tax_id = tax_id, ti_currency_code = currency,
              ti_base = base, ti_rate = tc_rate c, ti_tax = tax, ti_exchange_rate = Some rate,
              ti_functional_base = kobo (dec_mul base rate), ti_functional_tax = kobo (dec_mul tax rate),
              ti_basis = TR_ACCRUAL, ti_recoverable = fst parts, ti_non_recoverable = snd parts,
              ti_return_box = None\<rparr> s))"

end
