(* ===== verification/Ap_Model.thy ===== *)
theory Ap_Model
  imports Tax_Transactions Reversal_Service
begin

text \<open>
  The tables of accounts payable that posting an invoice reads or writes (\<open>app/models/finance/ap\<close>,
  the columns of accounts, categories and items it looks up), and the database they share with the
  books and the tax transactions. The account columns here are those of \<open>gl.account\<close> that the ledger
  does not use.
\<close>

datatype invoice_type = SIT_STANDARD | SIT_CREDIT_NOTE | SIT_DEBIT_NOTE

datatype invoice_status = SI_DRAFT | SI_SUBMITTED | SI_PENDING_APPROVAL | SI_APPROVED | SI_POSTED | SI_PARTIALLY_PAID
  | SI_PAID | SI_ON_HOLD | SI_REJECTED | SI_VOID | SI_DISPUTED

datatype posting_status = PS_NOT_POSTED | PS_PENDING | PS_POSTED

datatype ifrs_category = IC_ASSETS | IC_LIABILITIES | IC_EQUITY | IC_REVENUE | IC_EXPENSES | IC_OTHER_COMPREHENSIVE_INCOME

record supplier =
  su_id :: uuid
  su_org :: uuid
  su_legal_name :: string
  su_tax_number :: "string option"
  su_expense_account :: "uuid option"

record supplier_invoice =
  si_id :: uuid
  si_org :: uuid
  si_supplier :: uuid
  si_number :: string
  si_supplier_number :: "string option"
  si_type :: invoice_type
  si_date :: date
  si_currency :: string
  si_exchange_rate :: "decimal option"
  si_rate_type :: "uuid option"
  si_total :: decimal
  si_functional :: decimal
  si_status :: invoice_status
  si_control_account :: uuid
  si_journal :: "uuid option"
  si_batch :: "uuid option"
  si_posting_status :: posting_status
  si_posted_by :: "uuid option"
  si_posted_at :: "timestamp option"
  si_correlation_id :: "string option"

record supplier_invoice_line =
  il_id :: uuid
  il_invoice :: uuid
  il_number :: nat
  il_goods_receipt_line :: "uuid option"
  il_item :: "uuid option"
  il_description :: string
  il_amount :: decimal
  il_tax_code :: "uuid option"
  il_tax :: decimal
  il_expense_account :: "uuid option"
  il_asset_account :: "uuid option"
  il_cost_center :: "uuid option"
  il_project :: "uuid option"
  il_segment :: "uuid option"
  il_capitalize :: bool

record ap_account =
  aa_id :: uuid
  aa_org :: uuid
  aa_category :: uuid
  aa_is_active :: bool
  aa_subledger :: "string option"

record account_category =
  cg_id :: uuid
  cg_org :: uuid
  cg_ifrs :: ifrs_category

record ap_item =
  ai_id :: uuid
  ai_category :: "uuid option"
  ai_inventory_account :: "uuid option"

record ap_item_category =
  ag_id :: uuid
  ag_inventory_account :: uuid

record ap_world =
  ap_books :: gldb
  ap_taxes :: tax_db
  suppliers :: "supplier list"
  invoices :: "supplier_invoice list"
  invoice_lines :: "supplier_invoice_line list"
  ap_accounts :: "ap_account list"
  account_categories :: "account_category list"
  ap_items :: "ap_item list"
  ap_item_categories :: "ap_item_category list"

definition lines_of_invoice :: "uuid \<Rightarrow> ap_world \<Rightarrow> supplier_invoice_line list" where
  "lines_of_invoice i w = filter (\<lambda>l. il_invoice l = i) (invoice_lines w)"

definition ordered_lines :: "uuid \<Rightarrow> ap_world \<Rightarrow> supplier_invoice_line list" where
  "ordered_lines i w = sort_key il_number (lines_of_invoice i w)"

text \<open>\<open>invoice.exchange_rate or Decimal("1.0")\<close>.\<close>

definition rate_of :: "supplier_invoice \<Rightarrow> decimal" where
  "rate_of i = (case si_exchange_rate i of Some r \<Rightarrow> (if r = 0 then 1 else r) | None \<Rightarrow> 1)"

text \<open>\<open>account_validation.require_ap_control_account\<close>.\<close>

definition valid_ap_control_account :: "uuid \<Rightarrow> uuid \<Rightarrow> ap_world \<Rightarrow> bool" where
  "valid_ap_control_account org a w \<longleftrightarrow> (\<exists>x \<in> set (ap_accounts w). \<exists>c \<in> set (account_categories w).
     aa_id x = a \<and> aa_org x = org \<and> aa_is_active x \<and> aa_subledger x = Some ''AP''
     \<and> aa_category x = cg_id c \<and> cg_org c = org \<and> cg_ifrs c = IC_LIABILITIES)"

text \<open>\<open>posting/helpers.determine_debit_account\<close>. The module it imports for a line that is matched to a goods
  receipt does not exist, so the import raises.\<close>

definition item_account :: "uuid option \<Rightarrow> ap_world \<Rightarrow> uuid option" where
  "item_account item w = (case item of None \<Rightarrow> None
     | Some u \<Rightarrow> (case get_row ai_id u (ap_items w) of None \<Rightarrow> None
       | Some x \<Rightarrow> (case ai_inventory_account x of Some a \<Rightarrow> Some a
         | None \<Rightarrow> (case ai_category x of None \<Rightarrow> None
           | Some g \<Rightarrow> map_option ag_inventory_account (get_row ag_id g (ap_item_categories w))))))"

definition determine_debit_account :: "supplier_invoice_line \<Rightarrow> supplier \<Rightarrow> ap_world \<Rightarrow> string + uuid option" where
  "determine_debit_account l su w =
    (if il_goods_receipt_line l \<noteq> None then Inl (''No module named '' @ [CHR 0x27] @ ''app.models.core_org'' @ [CHR 0x27])
     else Inr (case item_account (il_item l) w of Some a \<Rightarrow> Some a
       | None \<Rightarrow>
          if il_capitalize l \<and> il_asset_account l \<noteq> None then il_asset_account l
          else (case il_expense_account l of Some a \<Rightarrow> Some a
            | None \<Rightarrow> (case il_asset_account l of Some a \<Rightarrow> Some a | None \<Rightarrow> su_expense_account su))))"

end
