(* ===== verification/Ap_Posting_Saga.thy ===== *)
theory Ap_Posting_Saga
  imports Ap_Model Saga_Engine
begin

text \<open>
  The saga that posts a supplier invoice: \<open>app/services/finance/ap/ap_posting_saga.py\<close>, an instance of the
  saga engine whose world is the database of accounts payable with the books and the tax transactions.
  \<^item> JSON strings that print an identifier, a date or an amount are the values they print.
  \<^item> The numbers drawn for the journal and for its reversal, and the texts of the exceptions of the
    ledger (\<open>render\<close>), are arguments. The clock of a request is the engine's.
  \<^item> Where the session cannot commit any more (a driver's error that the step swallowed), the commit of the
    engine fails: the step is \<open>Interrupted\<close>, with what had been committed before it.
\<close>

datatype ap_value = V_text string | V_id uuid | V_nat nat | V_amount decimal | V_date date | V_ids "uuid list" | V_null

type_synonym ap_json = "ap_value json"

definition id_at :: "ap_json \<Rightarrow> string \<Rightarrow> uuid option" where
  "id_at m k = (case m k of Some (V_id u) \<Rightarrow> Some u | _ \<Rightarrow> None)"

definition date_at :: "ap_json \<Rightarrow> string \<Rightarrow> date option" where
  "date_at m k = (case m k of Some (V_date d) \<Rightarrow> Some d | _ \<Rightarrow> None)"

definition text_at :: "ap_json \<Rightarrow> string \<Rightarrow> string option" where
  "text_at m k = (case m k of Some (V_text t) \<Rightarrow> Some t | _ \<Rightarrow> None)"

definition id_text :: "uuid option \<Rightarrow> ap_value" where
  "id_text u = (case u of Some x \<Rightarrow> V_id x | None \<Rightarrow> V_text ''None'')"

definition stop :: "string \<Rightarrow> ap_value step_outcome" where
  "stop e = Finished \<lparr>sp_success = False, sp_output = Map.empty, sp_compensation = Map.empty, sp_error = Some e\<rparr>"

definition proceed :: "ap_json \<Rightarrow> ap_json \<Rightarrow> ap_value step_outcome" where
  "proceed out undo_data = Finished \<lparr>sp_success = True, sp_output = out, sp_compensation = undo_data, sp_error = None\<rparr>"

definition invoice_status_value :: "invoice_status \<Rightarrow> string" where
  "invoice_status_value st = (case st of SI_DRAFT \<Rightarrow> ''DRAFT'' | SI_SUBMITTED \<Rightarrow> ''SUBMITTED''
     | SI_PENDING_APPROVAL \<Rightarrow> ''PENDING_APPROVAL'' | SI_APPROVED \<Rightarrow> ''APPROVED'' | SI_POSTED \<Rightarrow> ''POSTED''
     | SI_PARTIALLY_PAID \<Rightarrow> ''PARTIALLY_PAID'' | SI_PAID \<Rightarrow> ''PAID'' | SI_ON_HOLD \<Rightarrow> ''ON_HOLD''
     | SI_REJECTED \<Rightarrow> ''REJECTED'' | SI_VOID \<Rightarrow> ''VOID'' | SI_DISPUTED \<Rightarrow> ''DISPUTED'')"

definition invoice_status_of :: "string \<Rightarrow> invoice_status option" where
  "invoice_status_of v = find (\<lambda>st. invoice_status_value st = v) [SI_DRAFT, SI_SUBMITTED, SI_PENDING_APPROVAL,
     SI_APPROVED, SI_POSTED, SI_PARTIALLY_PAID, SI_PAID, SI_ON_HOLD, SI_REJECTED, SI_VOID, SI_DISPUTED]"

definition invoice_type_value :: "invoice_type \<Rightarrow> string" where
  "invoice_type_value t = (case t of SIT_STANDARD \<Rightarrow> ''STANDARD'' | SIT_CREDIT_NOTE \<Rightarrow> ''CREDIT_NOTE''
     | SIT_DEBIT_NOTE \<Rightarrow> ''DEBIT_NOTE'')"

section \<open>Validation\<close>

definition validated_context :: "supplier_invoice \<Rightarrow> supplier \<Rightarrow> nat \<Rightarrow> ap_json" where
  "validated_context i su n = [''invoice_number'' \<mapsto> V_text (si_number i), ''supplier_name'' \<mapsto> V_text (su_legal_name su),
     ''supplier_id'' \<mapsto> V_id (su_id su), ''ap_control_account_id'' \<mapsto> V_id (si_control_account i),
     ''invoice_type'' \<mapsto> V_text (invoice_type_value (si_type i)), ''currency_code'' \<mapsto> V_text (si_currency i),
     ''exchange_rate'' \<mapsto> V_amount (rate_of i), ''total_amount'' \<mapsto> V_amount (si_total i),
     ''functional_currency_amount'' \<mapsto> V_amount (si_functional i), ''line_count'' \<mapsto> V_nat n]"

definition step_validate_invoice :: "ap_world \<Rightarrow> ap_json \<Rightarrow> ap_json \<Rightarrow> ap_value step_outcome \<times> ap_world" where
  "step_validate_invoice w p ctx = (case (id_at p ''organization_id'', id_at p ''invoice_id'') of
     (Some org, Some iid) \<Rightarrow>
       (case get_row si_id iid (invoices w) of
          None \<Rightarrow> (stop ''Supplier invoice not found'', w)
        | Some i \<Rightarrow>
           if si_org i \<noteq> org then (stop ''Invoice not found for organization'', w)
           else if si_status i \<noteq> SI_APPROVED
             then (stop (''Invoice must be APPROVED to post (current: '' @ invoice_status_value (si_status i) @ '')''), w)
           else (case get_row su_id (si_supplier i) (suppliers w) of
               None \<Rightarrow> (stop ''Supplier not found'', w)
             | Some su \<Rightarrow>
                if su_org su \<noteq> org then (stop ''Supplier not found'', w)
                else if \<not> valid_ap_control_account org (si_control_account i) w
                  then (stop (''Invoice AP control account is invalid. Select a valid default payable account on the ''
                    @ ''supplier, then recreate or update this draft invoice before posting.''), w)
                else if ordered_lines iid w = [] then (stop ''Invoice has no lines'', w)
                else (proceed (validated_context i su (length (ordered_lines iid w))) Map.empty, w)))
   | _ \<Rightarrow> (Raised ''KeyError'', w))"

section \<open>The journal\<close>

definition invoice_dims :: "supplier_invoice_line \<Rightarrow> dims" where
  "invoice_dims l = \<lparr>business_unit_id = None, cost_center_id = il_cost_center l, project_id = il_project l,
     segment_id = il_segment l\<rparr>"

definition charge_line :: "supplier_invoice \<Rightarrow> supplier_invoice_line \<Rightarrow> uuid \<Rightarrow> line_input" where
  "charge_line i l a = (let total_amount = il_amount l + il_tax l; functional_amount = dec_mul total_amount (rate_of i)
     in if si_type i = SIT_CREDIT_NOTE
        then \<lparr>li_account = a, li_debit = 0, li_credit = \<bar>total_amount\<bar>,
          li_description = Some (''AP Credit Note: '' @ il_description l), li_debit_functional = Some 0,
          li_credit_functional = Some \<bar>functional_amount\<bar>, li_currency_code = None, li_exchange_rate = None,
          li_dims = invoice_dims l\<rparr>
        else \<lparr>li_account = a, li_debit = total_amount, li_credit = 0,
          li_description = Some (''AP Invoice: '' @ il_description l), li_debit_functional = Some functional_amount,
          li_credit_functional = Some 0, li_currency_code = None, li_exchange_rate = None, li_dims = invoice_dims l\<rparr>)"

definition control_line :: "supplier_invoice \<Rightarrow> supplier \<Rightarrow> line_input" where
  "control_line i su = (let d = \<lparr>business_unit_id = None, cost_center_id = None, project_id = None, segment_id = None\<rparr>
     in if si_type i = SIT_CREDIT_NOTE
        then \<lparr>li_account = si_control_account i, li_debit = \<bar>si_total i\<bar>, li_credit = 0,
          li_description = Some (''AP Credit Note: '' @ su_legal_name su), li_debit_functional = Some \<bar>si_functional i\<bar>,
          li_credit_functional = Some 0, li_currency_code = None, li_exchange_rate = None, li_dims = d\<rparr>
        else \<lparr>li_account = si_control_account i, li_debit = 0, li_credit = si_total i,
          li_description = Some (''AP Invoice: '' @ su_legal_name su), li_debit_functional = Some 0,
          li_credit_functional = Some (si_functional i), li_currency_code = None, li_exchange_rate = None, li_dims = d\<rparr>)"

text \<open>The loop over the lines: a line of zero is passed over, a line without an account fails the step, an
  exception raises out of it.\<close>

fun charge_lines :: "supplier_invoice \<Rightarrow> supplier \<Rightarrow> ap_world \<Rightarrow> supplier_invoice_line list
    \<Rightarrow> ap_value step_outcome + line_input list" where
  "charge_lines i su w [] = Inr []"
| "charge_lines i su w (l # ls) =
    (if il_amount l + il_tax l = 0 then charge_lines i su w ls
     else (case determine_debit_account l su w of
         Inl m \<Rightarrow> Inl (Raised m)
       | Inr None \<Rightarrow> Inl (stop (''No expense account for line '' @ nat_str (il_number l)))
       | Inr (Some a) \<Rightarrow> map_sum id ((#) (charge_line i l a)) (charge_lines i su w ls)))"

definition invoice_journal :: "supplier_invoice \<Rightarrow> supplier \<Rightarrow> date \<Rightarrow> line_input list \<Rightarrow> journal_input" where
  "invoice_journal i su d ls = \<lparr>ji_type = STANDARD, ji_entry_date = si_date i, ji_posting_date = d,
     ji_description = ''AP Invoice '' @ si_number i @ '' - '' @ su_legal_name su, ji_lines = ls,
     ji_reference = Some (given_or (si_number i) (si_supplier_number i)), ji_currency_code = si_currency i,
     ji_exchange_rate = rate_of i, ji_exchange_rate_type_id = si_rate_type i, ji_source_module = Some ''AP'',
     ji_source_document_type = Some ''SUPPLIER_INVOICE'', ji_source_document_id = Some (si_id i),
     ji_auto_reverse_date = None, ji_correlation_id = si_correlation_id i\<rparr>"

definition step_create_journal :: "(gl_error \<Rightarrow> string) \<Rightarrow> string \<Rightarrow> timestamp
    \<Rightarrow> ap_world \<Rightarrow> ap_json \<Rightarrow> ap_json \<Rightarrow> ap_value step_outcome \<times> ap_world" where
  "step_create_journal render number now w p ctx =
    (case (id_at p ''organization_id'', id_at p ''invoice_id'', id_at p ''posted_by_user_id'', date_at p ''posting_date'') of
       (Some org, Some iid, Some user, Some d) \<Rightarrow>
         (case get_row si_id iid (invoices w) of
            None \<Rightarrow> (stop ''Supplier invoice not found'', w)
          | Some i \<Rightarrow>
             if si_org i \<noteq> org then (stop ''Invoice does not belong to organization'', w)
             else (case get_row su_id (si_supplier i) (suppliers w) of
                 None \<Rightarrow> (stop ''Supplier not found'', w)
               | Some su \<Rightarrow>
                  (case charge_lines i su w (ordered_lines iid w) of
                     Inl e \<Rightarrow> (e, w)
                   | Inr ls \<Rightarrow>
                      (case bind_tx (create_journal org (invoice_journal i su d (ls @ [control_line i su])) user number (ap_books w))
                          (\<lambda>jid s1. bind_tx (submit_journal org jid user now s1) (\<lambda>_ s2. approve_journal org jid user now s2)) of
                         (Inl e, b) \<Rightarrow> (stop (''Journal creation failed: '' @ render e), w)
                       | (Inr jid, b) \<Rightarrow>
                           (proceed [''journal_entry_id'' \<mapsto> V_id jid, ''journal_number'' \<mapsto> V_text number]
                             [''journal_entry_id'' \<mapsto> V_id jid], w\<lparr>ap_books := b\<rparr>)))))
     | _ \<Rightarrow> (Raised ''KeyError'', w))"

definition compensate_create_journal :: "ap_world \<Rightarrow> ap_json \<Rightarrow> ap_json \<Rightarrow> undo_outcome \<times> ap_world" where
  "compensate_create_journal w p undo_data = (case id_at undo_data ''journal_entry_id'' of
     None \<Rightarrow> (Undone True, w)
   | Some jid \<Rightarrow> (case get_row je_id jid (journals (ap_books w)) of
        None \<Rightarrow> (Undone True, w)
      | Some j \<Rightarrow>
         if je_status j \<in> {J_VOID, J_POSTED} then (Undone True, w)
         else (Undone True, w\<lparr>ap_books := set_journal jid (\<lambda>j. j\<lparr>je_status := J_VOID\<rparr>) (ap_books w)\<rparr>)))"

section \<open>The ledger\<close>

definition saga_posting_request :: "uuid \<Rightarrow> supplier_invoice \<Rightarrow> uuid \<Rightarrow> date \<Rightarrow> string option \<Rightarrow> uuid \<Rightarrow> posting_request" where
  "saga_posting_request org i jid d key user = \<lparr>rq_organization_id = org, rq_journal_entry_id = jid,
     rq_posting_date = d, rq_idempotency_key = given_or (uuid_str org @ '':AP:'' @ uuid_str (si_id i) @ '':post:v1'') key,
     rq_source_module = ''AP'', rq_entries = [], rq_correlation_id = si_correlation_id i, rq_posted_by = Some user,
     rq_allow_adjustment_period = False, rq_reopen_session_id = None\<rparr>"

definition step_post_to_ledger :: "(gl_error \<Rightarrow> string) \<Rightarrow> timestamp
    \<Rightarrow> ap_world \<Rightarrow> ap_json \<Rightarrow> ap_json \<Rightarrow> ap_value step_outcome \<times> ap_world" where
  "step_post_to_ledger render now w p ctx =
    (case (id_at p ''organization_id'', id_at p ''invoice_id'', id_at p ''posted_by_user_id'', date_at p ''posting_date'',
        id_at ctx ''journal_entry_id'') of
       (Some org, Some iid, Some user, Some d, Some jid) \<Rightarrow>
         (case get_row si_id iid (invoices w) of
            None \<Rightarrow> (stop ''Supplier invoice not found'', w)
          | Some i \<Rightarrow>
             (case post_journal_entry (saga_posting_request org i jid d (text_at p ''idempotency_key'') user) now (ap_books w) of
                (Inl (IntegrityError k), b) \<Rightarrow> (Interrupted, w)
              | (Inl e, b) \<Rightarrow> (stop (''Ledger posting error: '' @ render e), w\<lparr>ap_books := b\<rparr>)
              | (Inr r, b) \<Rightarrow>
                  if \<not> res_success r then (stop (''Ledger posting failed: '' @ res_message r), w\<lparr>ap_books := b\<rparr>)
                  else (proceed [''posting_batch_id'' \<mapsto> id_text (res_batch_id r), ''posted_lines'' \<mapsto> V_nat (res_posted_lines r),
                      ''total_debit'' \<mapsto> V_amount (res_total_debit r), ''total_credit'' \<mapsto> V_amount (res_total_credit r)]
                    [''journal_entry_id'' \<mapsto> V_id jid, ''posting_batch_id'' \<mapsto> id_text (res_batch_id r)], w\<lparr>ap_books := b\<rparr>)))
     | _ \<Rightarrow> (Raised ''KeyError'', w))"

definition compensate_post_to_ledger :: "string \<Rightarrow> timestamp \<Rightarrow> ap_world \<Rightarrow> ap_json \<Rightarrow> ap_json \<Rightarrow> undo_outcome \<times> ap_world" where
  "compensate_post_to_ledger number now w p undo_data =
    (case id_at undo_data ''journal_entry_id'' of
       None \<Rightarrow> (Undone True, w)
     | Some jid \<Rightarrow>
        (case (id_at p ''organization_id'', id_at p ''posted_by_user_id'', date_at p ''posting_date'') of
           (Some org, Some user, Some d) \<Rightarrow>
             (case create_reversal org jid d user ''Saga compensation - posting failed'' True None False None number now
                 (ap_books w) of
                (Inl (IntegrityError k), b) \<Rightarrow> (Undo_interrupted, w)
              | (Inl e, b) \<Rightarrow> (Undone False, w\<lparr>ap_books := b\<rparr>)
              | (Inr r, b) \<Rightarrow> (Undone (rr_success r), w\<lparr>ap_books := b\<rparr>))
         | _ \<Rightarrow> (Undo_raised ''KeyError'', w)))"

section \<open>Tax transactions\<close>

text \<open>The loop over the lines; a tax transaction that fails is passed over.\<close>

fun record_taxes :: "uuid \<Rightarrow> uuid \<Rightarrow> supplier_invoice \<Rightarrow> supplier \<Rightarrow> supplier_invoice_line list \<Rightarrow> tax_db \<Rightarrow> uuid list \<times> tax_db" where
  "record_taxes org per i su [] t = ([], t)"
| "record_taxes org per i su (l # ls) t = (case il_tax_code l of
     None \<Rightarrow> record_taxes org per i su ls t
   | Some c \<Rightarrow>
      if il_tax l = 0 then record_taxes org per i su ls t
      else (case create_from_invoice_line org per c (si_id i) (il_id l) (si_number i) (si_date i) True
          (if si_type i = SIT_CREDIT_NOTE then - il_amount l else il_amount l) (si_currency i)
          (Some (su_legal_name su)) (su_tax_number su) (rate_of i) t of
         (Inl e, t') \<Rightarrow> record_taxes org per i su ls t'
       | (Inr x, t') \<Rightarrow> (case record_taxes org per i su ls t' of (xs, t'') \<Rightarrow> (x # xs, t''))))"

definition step_create_tax_transactions :: "ap_world \<Rightarrow> ap_json \<Rightarrow> ap_json \<Rightarrow> ap_value step_outcome \<times> ap_world" where
  "step_create_tax_transactions w p ctx = (case (id_at p ''organization_id'', id_at p ''invoice_id'') of
     (Some org, Some iid) \<Rightarrow>
       (case get_row si_id iid (invoices w) of
          None \<Rightarrow> (stop ''Supplier invoice not found'', w)
        | Some i \<Rightarrow>
           (case get_row su_id (si_supplier i) (suppliers w) of
              None \<Rightarrow> (stop ''Supplier not found'', w)
            | Some su \<Rightarrow>
               (case get_period_for_date (ap_books w) org (si_date i) of
                  None \<Rightarrow> (proceed [''tax_transaction_ids'' \<mapsto> V_ids []] Map.empty, w)
                | Some per \<Rightarrow>
                   (case record_taxes org (fp_id per) i su (lines_of_invoice iid w) (ap_taxes w) of (ids, t) \<Rightarrow>
                     (proceed [''tax_transaction_ids'' \<mapsto> V_ids ids] [''tax_transaction_ids'' \<mapsto> V_ids ids],
                      w\<lparr>ap_taxes := t\<rparr>)))))
   | _ \<Rightarrow> (Raised ''KeyError'', w))"

definition compensate_tax_transactions :: "ap_world \<Rightarrow> ap_json \<Rightarrow> ap_json \<Rightarrow> undo_outcome \<times> ap_world" where
  "compensate_tax_transactions w p undo_data = (case undo_data ''tax_transaction_ids'' of
     Some (V_ids ids) \<Rightarrow> (Undone True, w\<lparr>ap_taxes := (ap_taxes w)\<lparr>tax_transactions :=
       filter (\<lambda>x. tt_id x \<notin> set ids) (tax_transactions (ap_taxes w))\<rparr>\<rparr>)
   | _ \<Rightarrow> (Undone True, w))"

section \<open>The invoice\<close>

abbreviation set_invoice :: "uuid \<Rightarrow> (supplier_invoice \<Rightarrow> supplier_invoice) \<Rightarrow> ap_world \<Rightarrow> ap_world" where
  "set_invoice i f w \<equiv> w\<lparr>invoices := set_row si_id i f (invoices w)\<rparr>"

definition step_update_invoice_status :: "timestamp \<Rightarrow> ap_world \<Rightarrow> ap_json \<Rightarrow> ap_json \<Rightarrow> ap_value step_outcome \<times> ap_world" where
  "step_update_invoice_status now w p ctx =
    (case (id_at p ''invoice_id'', id_at p ''posted_by_user_id'', id_at ctx ''journal_entry_id'', id_at ctx ''posting_batch_id'') of
       (Some iid, Some user, Some jid, Some bid) \<Rightarrow>
         (case get_row si_id iid (invoices w) of
            None \<Rightarrow> (stop ''Supplier invoice not found'', w)
          | Some i \<Rightarrow>
             (proceed [''invoice_status'' \<mapsto> V_text ''POSTED'']
               [''original_status'' \<mapsto> V_text (invoice_status_value (si_status i))],
              set_invoice iid (\<lambda>i. i\<lparr>si_status := SI_POSTED, si_posting_status := PS_POSTED, si_journal := Some jid,
                si_batch := Some bid, si_posted_by := Some user, si_posted_at := Some now\<rparr>) w))
     | _ \<Rightarrow> (Raised ''KeyError'', w))"

definition compensate_invoice_status :: "ap_world \<Rightarrow> ap_json \<Rightarrow> ap_json \<Rightarrow> undo_outcome \<times> ap_world" where
  "compensate_invoice_status w p undo_data = (case id_at p ''invoice_id'' of
     None \<Rightarrow> (Undo_raised ''KeyError'', w)
   | Some iid \<Rightarrow> (case get_row si_id iid (invoices w) of
        None \<Rightarrow> (Undone True, w)
      | Some i \<Rightarrow> (case invoice_status_of (case text_at undo_data ''original_status'' of Some t \<Rightarrow> t | None \<Rightarrow> ''APPROVED'') of
           None \<Rightarrow> (Undone False, w)
         | Some st \<Rightarrow> (Undone True, set_invoice iid (\<lambda>i. i\<lparr>si_status := st, si_posting_status := PS_NOT_POSTED,
             si_journal := None, si_batch := None, si_posted_by := None, si_posted_at := None\<rparr>) w))))"

section \<open>The saga\<close>

definition ap_result :: "ap_json \<Rightarrow> ap_json \<Rightarrow> ap_json" where
  "ap_result p ctx = (let get = (\<lambda>k. case ctx k of Some v \<Rightarrow> v | None \<Rightarrow> V_null)
     in [''journal_entry_id'' \<mapsto> get ''journal_entry_id'', ''posting_batch_id'' \<mapsto> get ''posting_batch_id'',
       ''posted_lines'' \<mapsto> get ''posted_lines'', ''total_debit'' \<mapsto> get ''total_debit'', ''total_credit'' \<mapsto> get ''total_credit'',
       ''tax_transaction_ids'' \<mapsto> (case ctx ''tax_transaction_ids'' of Some v \<Rightarrow> v | None \<Rightarrow> V_ids [])])"

definition ap_posting_saga :: "(gl_error \<Rightarrow> string) \<Rightarrow> string \<Rightarrow> string \<Rightarrow> timestamp \<Rightarrow> (ap_world, ap_value) orchestrator" where
  "ap_posting_saga render number reversal_number now = \<lparr>oc_type = ''AP_INVOICE_POST'', oc_steps =
     [\<lparr>sd_name = ''validate_invoice'', sd_execute = step_validate_invoice, sd_compensate = None\<rparr>,
      \<lparr>sd_name = ''create_journal'', sd_execute = step_create_journal render number now,
        sd_compensate = Some compensate_create_journal\<rparr>,
      \<lparr>sd_name = ''post_to_ledger'', sd_execute = step_post_to_ledger render now,
        sd_compensate = Some (compensate_post_to_ledger reversal_number now)\<rparr>,
      \<lparr>sd_name = ''create_tax_transactions'', sd_execute = step_create_tax_transactions,
        sd_compensate = Some compensate_tax_transactions\<rparr>,
      \<lparr>sd_name = ''update_invoice_status'', sd_execute = step_update_invoice_status now,
        sd_compensate = Some compensate_invoice_status\<rparr>],
     oc_build_result = ap_result\<rparr>"

record ap_saga_result =
  ap_success :: bool
  ap_journal :: "uuid option"
  ap_batch :: "uuid option"
  ap_message :: string
  ap_saga :: uuid

definition saga_key :: "uuid \<Rightarrow> uuid \<Rightarrow> string option \<Rightarrow> string" where
  "saga_key org iid key = given_or (uuid_str org @ '':AP:'' @ uuid_str iid @ '':post:saga:v1'') key"

definition saga_payload :: "uuid \<Rightarrow> uuid \<Rightarrow> date \<Rightarrow> uuid \<Rightarrow> string \<Rightarrow> ap_json" where
  "saga_payload org iid d user key = [''organization_id'' \<mapsto> V_id org, ''invoice_id'' \<mapsto> V_id iid,
     ''posting_date'' \<mapsto> V_date d, ''posted_by_user_id'' \<mapsto> V_id user, ''idempotency_key'' \<mapsto> V_text key]"

definition post_invoice_with_saga :: "(gl_error \<Rightarrow> string) \<Rightarrow> string \<Rightarrow> string \<Rightarrow> timestamp \<Rightarrow> uuid \<Rightarrow> uuid \<Rightarrow> date \<Rightarrow> uuid
    \<Rightarrow> string option \<Rightarrow> string option \<Rightarrow> (ap_world, ap_value) saga_db
    \<Rightarrow> (saga_error, ap_saga_result, (ap_world, ap_value) saga_db) tx" where
  "post_invoice_with_saga render number reversal_number now org iid d user key correlation s =
    bind_tx (execute (ap_posting_saga render number reversal_number now) org (saga_payload org iid d user (saga_key org iid key))
        (saga_key org iid key) user correlation now s) (\<lambda>r.
      return (if sr_success r
        then \<lparr>ap_success = True, ap_journal = id_at (sr_result r) ''journal_entry_id'',
          ap_batch = id_at (sr_result r) ''posting_batch_id'', ap_message = ''Invoice posted successfully'', ap_saga = sr_saga_id r\<rparr>
        else \<lparr>ap_success = False, ap_journal = None, ap_batch = None, ap_message = error_or ''Posting failed'' (sr_error r),
          ap_saga = sr_saga_id r\<rparr>))"

end
