(* ===== verification/Ap_Saga_Facts.thy ===== *)
theory Ap_Saga_Facts
  imports Ap_Posting_Saga Saga_Properties Adapter_Facts
begin

text \<open>
  The steps of the invoice saga one by one, and what the first three of them, up to the ledger, make of the
  database: all of it or nothing.
\<close>

section \<open>The engine\<close>

lemma forward_append:
  "forward p (ds @ es) c w = (case forward p ds c w of None \<Rightarrow> None
     | Some (cs, e, c', w') \<Rightarrow> (case e of Some m \<Rightarrow> Some (cs, Some m, c', w')
       | None \<Rightarrow> map_option (\<lambda>(cs', e', c'', w''). (cs @ cs', e', c'', w'')) (forward p es c' w')))"
proof (induction ds arbitrary: c w)
  case Nil
  then show ?case by (simp add: option.map_ident_strong split: option.split)
next
  case (Cons d ds)
  obtain o1 w1 where "sd_execute d w p c = (o1, w1)" by fastforce
  then show ?case using Cons.IH by (cases o1) (auto simp: option.map_comp o_def split_def split: option.split)
qed

lemma compensation_outcome:
  assumes "at_step orc g done s" and "backward (sg_payload g) (rev done) (world s) = Some (f, w)"
  shows "\<exists>r s'. compensate_steps orc g now s = (Inr r, s') \<and> sr_was_compensated r = (\<not> f) \<and> world s' = w"
proof -
  let ?s1 = "set_saga (sg_id g) (\<lambda>g. g\<lparr>sg_status := SG_COMPENSATING\<rparr>) s"
  have "steps_done (sg_id g) done ?s1" using assms(1) by (simp add: at_step_def steps_done_def)
  from compensate_from_refines [OF this _ _ , of orc "sg_payload g" f w now False] assms
  obtain t where "compensate_from orc (sg_id g) now (sg_payload g) (length done) False ?s1 = (Inr f, t)" "world t = w"
    by (auto simp: at_step_def)
  then show ?thesis using assms(1) by (simp add: compensate_steps_def at_step_def return_def Let_def)
qed

lemma compensation_interrupted:
  assumes "at_step orc g (cs @ [(d, c)]) s" and "sd_compensate d = Some undo" and "undo (world s) (sg_payload g) c = (Undo_interrupted, w)"
  shows "\<exists>s'. compensate_steps orc g now s = (Inl Session_lost, s')"
proof -
  let ?s1 = "set_saga (sg_id g) (\<lambda>g. g\<lparr>sg_status := SG_COMPENSATING\<rparr>) s"
  have d: "length cs < length (oc_steps orc)" "sg_current_step g = Suc (length cs)"
    and m: "take (Suc (length cs)) (oc_steps orc) = map fst cs @ [d]"
    using assms(1) by (simp_all add: at_step_def)
  have "oc_steps orc ! length cs = take (Suc (length cs)) (oc_steps orc) ! length cs" by simp
  also have "\<dots> = d" unfolding m by (simp add: nth_append)
  finally have step: "oc_steps orc ! length cs = d" .
  obtain r where r: "get_step (sg_id g) (length cs) s = Some r" "ss_status r = ST_COMPLETED" "ss_compensation r = Some c"
    using assms(1) by (auto simp: at_step_def steps_done_append)
  have "compensate_from orc (sg_id g) now (sg_payload g) (Suc (length cs)) False ?s1
      = (Inl Session_lost, (set_step (sg_id g) (length cs) (\<lambda>r. r\<lparr>ss_status := ST_COMPENSATING\<rparr>) ?s1)\<lparr>world := w\<rparr>)"
    using r step d(1) assms(2,3) by (simp add: Let_def json_or_empty_def raise_def)
  then show ?thesis by (simp add: compensate_steps_def d(2) del: compensate_from.simps)
qed

section \<open>The journal of the invoice\<close>

lemma creation_as_adapter:
  assumes "bind_tx (create_journal org i user number s)
      (\<lambda>jid s1. bind_tx (submit_journal org jid user now s1) (\<lambda>_ s2. approve_journal org jid user now s2)) = (Inr jid, s')"
  shows "create_and_approve_journal org i user number now s = (Inr (Inr jid), s')"
proof -
  obtain j0 s1 where c: "create_journal org i user number s = (Inr j0, s1)"
    and r: "bind_tx (submit_journal org j0 user now s1) (\<lambda>_ s2. approve_journal org j0 user now s2) = (Inr jid, s')"
    using assms by (rule bind_InrE)
  obtain x s2 where b: "submit_journal org j0 user now s1 = (Inr x, s2)" "approve_journal org j0 user now s2 = (Inr jid, s')"
    using r by (rule bind_InrE)
  moreover have "jid = j0" using b(2) by (auto simp: approve_journal_def raise_def return_def split: option.splits if_splits)
  ultimately show ?thesis using c
    by (simp add: create_and_approve_journal_def submit_and_approve_as_system_def return_def)
qed

section \<open>The steps\<close>

lemma payload_fields [simp]:
  "id_at (saga_payload org i d user k) ''organization_id'' = Some org" "id_at (saga_payload org i d user k) ''invoice_id'' = Some i"
  "id_at (saga_payload org i d user k) ''posted_by_user_id'' = Some user" "date_at (saga_payload org i d user k) ''posting_date'' = Some d"
  "text_at (saga_payload org i d user k) ''idempotency_key'' = Some k"
  by (simp_all add: saga_payload_def id_at_def date_at_def text_at_def)

lemma outcome_simps [simp]: "stop e \<noteq> Raised m" "proceed a b \<noteq> Raised m" "stop e \<noteq> Interrupted" "proceed a b \<noteq> Interrupted"
  "proceed a b \<noteq> stop e" "stop e \<noteq> proceed a b" "(stop e = stop e') = (e = e')" "(proceed a b = proceed a' b') = (a = a' \<and> b = b')"
  by (simp_all add: stop_def proceed_def)

lemma validate_cases:
  assumes "step_validate_invoice w (saga_payload org i d user k) ctx = (res, w')"
  obtains (refused) m where "w' = w" "res = stop m"
  | (valid) x su where "w' = w" "get_row si_id i (invoices w) = Some x" "si_org x = org" "si_status x = SI_APPROVED"
      "get_row su_id (si_supplier x) (suppliers w) = Some su"
      "res = proceed (validated_context x su (length (ordered_lines i w))) Map.empty"
  using assms by (auto simp: step_validate_invoice_def split: option.splits if_splits)

lemma charge_lines_Inl: "charge_lines x su w ls = Inl e \<Longrightarrow> \<exists>m. e = stop m \<or> e = Raised m"
  by (induction ls) (auto split: if_splits sum.splits option.splits simp: map_sum_def)

lemma create_journal_cases:
  assumes "step_create_journal render number now w (saga_payload org i d user k) ctx = (res, w')"
    and "get_row si_id i (invoices w) = Some x" and "si_org x = org" and "get_row su_id (si_supplier x) (suppliers w) = Some su"
  obtains (refused) m where "w' = w" "res = stop m \<or> res = Raised m"
  | (created) ls jid b where "charge_lines x su w (ordered_lines i w) = Inr ls"
      "create_and_approve_journal org (invoice_journal x su d (ls @ [control_line x su])) user number now (ap_books w) = (Inr (Inr jid), b)"
      "res = proceed [''journal_entry_id'' \<mapsto> V_id jid, ''journal_number'' \<mapsto> V_text number] [''journal_entry_id'' \<mapsto> V_id jid]"
      "w' = w\<lparr>ap_books := b\<rparr>"
proof (cases "charge_lines x su w (ordered_lines i w)")
  case (Inl e)
  then obtain m where m: "e = stop m \<or> e = Raised m" using charge_lines_Inl by blast
  have "res = e" "w' = w" using assms Inl by (simp_all add: step_create_journal_def)
  then show thesis using m by (intro refused [of m]) simp_all
next
  case (Inr ls)
  let ?ji = "invoice_journal x su d (ls @ [control_line x su])"
  obtain c b where c: "bind_tx (create_journal org ?ji user number (ap_books w))
      (\<lambda>jid s1. bind_tx (submit_journal org jid user now s1) (\<lambda>_ s2. approve_journal org jid user now s2)) = (c, b)" by fastforce
  show thesis
  proof (cases c)
    case (Inl e)
    then have "res = stop (''Journal creation failed: '' @ render e)" "w' = w"
      using assms Inr c by (simp_all add: step_create_journal_def)
    then show thesis by (intro refused) simp_all
  next
    case jid: (Inr jid)
    then show thesis using assms Inr c
      by (intro created [OF Inr creation_as_adapter [OF c [unfolded jid]]]) (simp_all add: step_create_journal_def)
  qed
qed

lemma post_cases:
  assumes "step_post_to_ledger render now w (saga_payload org i d user k) ctx = (res, w')"
    and "get_row si_id i (invoices w) = Some x" and "id_at ctx ''journal_entry_id'' = Some jid"
    and "post_journal_entry (saga_posting_request org x jid d (Some k) user) now (ap_books w) = (r, b)"
  shows "case r of
      Inl (IntegrityError e) \<Rightarrow> res = Interrupted \<and> w' = w
    | Inl e \<Rightarrow> (\<exists>m. res = stop m) \<and> w' = w\<lparr>ap_books := b\<rparr>
    | Inr v \<Rightarrow> w' = w\<lparr>ap_books := b\<rparr> \<and> (if res_success v then \<exists>out.
          res = proceed out [''journal_entry_id'' \<mapsto> V_id jid, ''posting_batch_id'' \<mapsto> id_text (res_batch_id v)]
          \<and> out ''posting_batch_id'' = Some (id_text (res_batch_id v)) \<and> out ''journal_entry_id'' = None
        else \<exists>m. res = stop m)"
  using assms by (auto simp: step_post_to_ledger_def split: sum.split gl_error.split)

lemma tax_step:
  assumes "get_row si_id i (invoices w) = Some x" and "get_row su_id (si_supplier x) (suppliers w) = Some su"
  shows "\<exists>out undo t. step_create_tax_transactions w (saga_payload org i d user k) ctx = (proceed out undo, w\<lparr>ap_taxes := t\<rparr>)
    \<and> out ''journal_entry_id'' = None \<and> out ''posting_batch_id'' = None"
proof (cases "get_period_for_date (ap_books w) org (si_date x)")
  case None
  then have "step_create_tax_transactions w (saga_payload org i d user k) ctx
      = (proceed [''tax_transaction_ids'' \<mapsto> V_ids []] Map.empty, w\<lparr>ap_taxes := ap_taxes w\<rparr>)"
    using assms by (simp add: step_create_tax_transactions_def)
  then show ?thesis by (intro exI conjI) (assumption, simp_all)
next
  case (Some per)
  obtain ids t where "record_taxes org (fp_id per) x su (lines_of_invoice i w) (ap_taxes w) = (ids, t)" by fastforce
  then have "step_create_tax_transactions w (saga_payload org i d user k) ctx
      = (proceed [''tax_transaction_ids'' \<mapsto> V_ids ids] [''tax_transaction_ids'' \<mapsto> V_ids ids], w\<lparr>ap_taxes := t\<rparr>)"
    using assms Some by (simp add: step_create_tax_transactions_def)
  then show ?thesis by (intro exI conjI) (assumption, simp_all)
qed

lemma status_step:
  assumes "get_row si_id i (invoices w) = Some x" and "id_at ctx ''journal_entry_id'' = Some jid" and "id_at ctx ''posting_batch_id'' = Some bid"
  shows "\<exists>out undo. step_update_invoice_status now w (saga_payload org i d user k) ctx = (proceed out undo,
      set_invoice i (\<lambda>i. i\<lparr>si_status := SI_POSTED, si_posting_status := PS_POSTED, si_journal := Some jid,
        si_batch := Some bid, si_posted_by := Some user, si_posted_at := Some now\<rparr>) w)
    \<and> out ''journal_entry_id'' = None \<and> out ''posting_batch_id'' = None"
  using assms by (simp add: step_update_invoice_status_def)

section \<open>Up to the ledger\<close>

lemma invoice_journal_lines [simp]: "ji_lines (invoice_journal x su d ls) = ls"
  by (simp add: invoice_journal_def)

definition ledger_steps :: "(gl_error \<Rightarrow> string) \<Rightarrow> string \<Rightarrow> string \<Rightarrow> timestamp \<Rightarrow> (ap_world, ap_value) step_def list" where
  "ledger_steps render number rn now = take 3 (oc_steps (ap_posting_saga render number rn now))"

definition last_steps :: "(gl_error \<Rightarrow> string) \<Rightarrow> string \<Rightarrow> string \<Rightarrow> timestamp \<Rightarrow> (ap_world, ap_value) step_def list" where
  "last_steps render number rn now = drop 3 (oc_steps (ap_posting_saga render number rn now))"

lemma saga_steps_split: "oc_steps (ap_posting_saga render number rn now) = ledger_steps render number rn now @ last_steps render number rn now"
  by (simp add: ledger_steps_def last_steps_def)

text \<open>What the completed steps leave behind: the journal they created is posted, with the amounts of the
  invoice, and is all that the ledger has gained.\<close>

definition posted_invoice :: "uuid \<Rightarrow> uuid \<Rightarrow> date \<Rightarrow> ap_world \<Rightarrow> gldb \<Rightarrow> uuid \<Rightarrow> bool" where
  "posted_invoice org i d w b jid \<longleftrightarrow> (\<exists>x su ls new. get_row si_id i (invoices w) = Some x \<and> si_org x = org
     \<and> si_status x = SI_APPROVED \<and> get_row su_id (si_supplier x) (suppliers w) = Some su
     \<and> charge_lines x su w (ordered_lines i w) = Inr ls \<and> ledger b = ledger (ap_books w) @ new
     \<and> map ledger_view new = map (stored_amounts (invoice_journal x su d (ls @ [control_line x su]))) (ls @ [control_line x su])
     \<and> (\<forall>l \<in> set new. ll_journal l = jid \<and> ll_org l = org) \<and> (\<exists>y \<in> set (journals b). je_id y = jid \<and> je_status y = J_POSTED))"

lemma ledger_steps_cases:
  fixes k number rn :: "string" and org i user :: "uuid" and d :: "date" and render :: "gl_error \<Rightarrow> string" and now :: "timestamp"
  defines "P \<equiv> saga_payload org i d user k" and "L \<equiv> ledger_steps render number rn now"
  assumes inv: "gl_inv (ap_books w)" and fresh: "find_batch (ap_books w) org k = None" and k: "k \<noteq> []"
  obtains (refused) cs m ctx w1 b where "forward P L Map.empty w = Some (cs, Some m, ctx, w1)"
      "backward P (rev cs) w1 = Some (False, w\<lparr>ap_books := b\<rparr>)" "ledger b = ledger (ap_books w)"
  | (interrupted) cs ctx b where "forward P (take 2 L) Map.empty w = Some (cs, None, ctx, w\<lparr>ap_books := b\<rparr>)"
      "sd_execute (L ! 2) (w\<lparr>ap_books := b\<rparr>) P ctx = (Interrupted, w\<lparr>ap_books := b\<rparr>)" "ledger b = ledger (ap_books w)"
  | (posted) ctx undo jid bid b where
      "forward P L Map.empty w = Some ([(L ! 0, Map.empty), (L ! 1, [''journal_entry_id'' \<mapsto> V_id jid]), (L ! 2, undo)],
        None, ctx, w\<lparr>ap_books := b\<rparr>)"
      "id_at undo ''journal_entry_id'' = Some jid"
      "id_at ctx ''journal_entry_id'' = Some jid" "id_at ctx ''posting_batch_id'' = Some bid"
      "posted_invoice org i d w b jid" "gl_inv b"
proof -
  have L: "L = [\<lparr>sd_name = ''validate_invoice'', sd_execute = step_validate_invoice, sd_compensate = None\<rparr>,
      \<lparr>sd_name = ''create_journal'', sd_execute = step_create_journal render number now, sd_compensate = Some compensate_create_journal\<rparr>,
      \<lparr>sd_name = ''post_to_ledger'', sd_execute = step_post_to_ledger render now,
        sd_compensate = Some (compensate_post_to_ledger rn now)\<rparr>]" (is "_ = [?d0, ?d1, ?d2]")
    by (simp add: L_def ledger_steps_def ap_posting_saga_def)
  have same: "w = w\<lparr>ap_books := ap_books w\<rparr>" by simp
  obtain r0 w0 where v: "step_validate_invoice w P Map.empty = (r0, w0)" by fastforce
  from v [unfolded P_def] show thesis
  proof (cases rule: validate_cases)
    case (refused m)
    then show thesis using v same
      by (intro that(1) [of "[]" _ _ w "ap_books w"]) (simp_all add: L stop_def)
  next
    case (valid x su)
    let ?c0 = "Map.empty ++ validated_context x su (length (ordered_lines i w))"
    obtain r1 w1 where c: "step_create_journal render number now w P ?c0 = (r1, w1)" by fastforce
    from c [unfolded P_def] valid(2,3,5) show thesis
    proof (cases rule: create_journal_cases)
      case (refused m)
      then show thesis using v c valid(1,6) same
        by (intro that(1) [of "[(?d0, Map.empty)]" _ _ w "ap_books w"]) (auto simp: L stop_def proceed_def)
    next
      case (created ls jid b)
      let ?ji = "invoice_journal x su d (ls @ [control_line x su])"
      let ?c1 = "?c0 ++ [''journal_entry_id'' \<mapsto> V_id jid, ''journal_number'' \<mapsto> V_text number]"
      let ?rq = "saga_posting_request org x jid d (Some k) user"
      have rq: "rq_organization_id ?rq = org" "rq_journal_entry_id ?rq = jid" "rq_entries ?rq = []"
          "find_batch (ap_books w) org (rq_idempotency_key ?rq) = None"
        using fresh k by (simp_all add: saga_posting_request_def given_or_def)
      have l1: "ledger b = ledger (ap_books w)" using create_and_approve_result(2) [OF inv created(2)] .
      obtain j where j: "get_row je_id jid (journals b) = Some j" "je_status j = J_APPROVED"
        using create_and_approve_result(1) [OF inv created(2)] by blast
      have x1: "get_row si_id i (invoices w1) = Some x" using valid(2) created(4) by simp
      have id1: "id_at ?c1 ''journal_entry_id'' = Some jid" by (simp add: id_at_def)
      obtain r2 w2 where p: "step_post_to_ledger render now w1 P ?c1 = (r2, w2)" by fastforce
      obtain r t where pj: "post_journal_entry ?rq now (ap_books w1) = (r, t)" by fastforce
      note post = post_cases [OF p [unfolded P_def] x1 id1 pj]
      have two: "forward P [?d0, ?d1] Map.empty w = Some ([(?d0, Map.empty), (?d1, [''journal_entry_id'' \<mapsto> V_id jid])], None, ?c1, w1)"
        using v c valid(1,6) created(3) by (simp add: proceed_def)
      have three: "forward P L Map.empty w = (case forward P [?d2] ?c1 w1 of None \<Rightarrow> None
          | Some (cs', e', c'', w'') \<Rightarrow> Some ([(?d0, Map.empty), (?d1, [''journal_entry_id'' \<mapsto> V_id jid])] @ cs', e', c'', w''))"
        using forward_append [of P "[?d0, ?d1]" "[?d2]" Map.empty w] two by (simp add: L split: option.split)
      have pj': "post_journal_entry ?rq now b = (r, t)" using pj created(4) by simp
      from inv created(2) rq(4,1-3) pj' show thesis
      proof (cases rule: posting_cases)
        case (refused e)
        show thesis
        proof (cases e)
          case (IntegrityError n)
          then have "r2 = Interrupted" "w2 = w1" using post refused(1) by simp_all
          then show thesis using two p created(4) l1 by (intro that(2) [of _ ?c1 b]) (simp_all add: L)
        next
          case (HTTPException n e')
          then obtain m where m: "r2 = stop m" "w2 = w1\<lparr>ap_books := t\<rparr>" using post refused(1) by auto
          have kept: "books_kept b t" using refused(2) HTTPException by simp
          have rt: "get_row je_id jid (journals t) = Some j" using j(1) books_keptD(1) [OF kept] by simp
          let ?b = "set_journal jid (\<lambda>j. j\<lparr>je_status := J_VOID\<rparr>) t"
          have "forward P L Map.empty w = Some ([(?d0, Map.empty), (?d1, [''journal_entry_id'' \<mapsto> V_id jid])],
              Some (step_failure ''post_to_ledger'' (Some m)), ?c1, w2)"
            using three p m(1) by (simp add: stop_def)
          moreover have "backward P (rev [(?d0, Map.empty), (?d1, [''journal_entry_id'' \<mapsto> V_id jid])]) w2 = Some (False, w\<lparr>ap_books := ?b\<rparr>)"
            using m(2) rt j(2) created(4) by (simp add: compensate_create_journal_def id_at_def)
          moreover have "ledger ?b = ledger (ap_books w)" using l1 books_keptD(3) [OF kept] by simp
          ultimately show thesis by (rule that(1))
        qed
      next
        case (posted res new bid)
        let ?undo = "[''journal_entry_id'' \<mapsto> V_id jid, ''posting_batch_id'' \<mapsto> id_text (Some bid)]"
        obtain out where out: "r2 = proceed out ?undo" "out ''posting_batch_id'' = Some (V_id bid)" "out ''journal_entry_id'' = None"
            "w2 = w1\<lparr>ap_books := t\<rparr>"
          using post posted(1-3) by (auto simp: id_text_def)
        have b: "gl_inv b" using adapter_creating.returns [OF inv created(2)] by simp
        have "gl_inv t" using gl_operation.returns [OF gl_operation_post [OF rq(3)] b, of now res t] pj' posted(1) by simp
        moreover have "posted_invoice org i d w t jid"
          using valid(2-5) created(1) posted(4-7) unfolding posted_invoice_def by auto
        moreover have "forward P L Map.empty w = Some ([(?d0, Map.empty), (?d1, [''journal_entry_id'' \<mapsto> V_id jid]), (?d2, ?undo)],
            None, ?c1 ++ out, w\<lparr>ap_books := t\<rparr>)"
          using three p out(1,4) created(4) by (simp add: proceed_def)
        ultimately show thesis using out(2,3)
          by (intro that(3) [of jid ?undo "?c1 ++ out" t bid]) (simp_all add: L id_at_def map_add_def)
      qed
    qed
  qed
qed

section \<open>Reversal\<close>

lemma reversal_marks_original:
  assumes inv: "gl_inv s" and c: "create_reversal org jid d user reason True key adj sess number now s = (Inr res, s')"
  shows "\<exists>y. get_row je_id jid (journals s') = Some y \<and> je_status y = J_REVERSED" and "\<exists>more. ledger s' = ledger s @ more"
proof -
  have inv': "gl_inv s'" "evolves s s'" using reversing.returns [OF inv c] by simp_all
  then show "\<exists>more. ledger s' = ledger s @ more" by (auto simp: evolves_def appends_def)
  from create_reversal_posted [OF inv c] obtain j rvl r where j: "scoped_journal org jid s = Some j" "je_id rvl = next_uuid s"
    and p: "post_seeing (insert_reversal j rvl s) (reversal_request org j (je_id rvl) d user key adj sess) now
       (set_journal (je_id j) (\<lambda>j. j\<lparr>je_status := J_REVERSED\<rparr>) (insert_reversal j rvl s)) = (Inr r, s')" .
  have id: "je_id j = jid" using scoped_journal_SomeD [OF j(1)] by simp
  obtain y where y: "y \<in> set (journals (marked_original jid j rvl s))" "je_id y = jid" "je_status y = J_REVERSED"
    using marked_original_rows(3) [OF inv j] by blast
  have new: "jid \<noteq> next_uuid s" by (rule marked_original_rows(1) [OF inv j])
  have "y \<in> set (journals s')" using p [unfolded id]
  proof (cases rule: post_seeing_cases)
    case (posted res j' pid bid)
    have "rq_journal_entry_id (reversal_request org j (je_id rvl) d user key adj sess) = next_uuid s"
      by (simp add: reversal_request_def j(2))
    then have "\<exists>f. journals s' = set_row je_id (next_uuid s) f (journals (marked_original jid j rvl s))"
      using posted(2) unfolding posts_def by metis
    then show ?thesis using set_row_other [OF y(1), of je_id "next_uuid s"] y(2) new by auto
  qed (use y(1) in simp_all)
  moreover have "distinct (map je_id (journals s'))" using inv'(1) by (simp add: gl_inv_def ids_ok_def)
  ultimately show "\<exists>y. get_row je_id jid (journals s') = Some y \<and> je_status y = J_REVERSED"
    using get_row_distinct [of je_id "journals s'" y] y(2,3) by auto
qed

end
