(* ===== verification/Ap_Saga_Properties.thy ===== *)
theory Ap_Saga_Properties
  imports Ap_Saga_Facts
begin

text \<open>
  The invoice saga as a whole: it posts the invoice entirely or leaves no trace in the ledger, it cannot work
  where the approver must differ from the creator, and a compensation after the posting voids a journal
  that stays in the ledger. The last section holds a sample invoice.
\<close>

section \<open>All or nothing\<close>

lemma saga_key_nonempty [simp]: "saga_key org i key \<noteq> []"
  by (auto simp: saga_key_def given_or_def split: option.split)

lemma result_fields:
  assumes "id_at ctx ''journal_entry_id'' = Some jid" and "id_at ctx ''posting_batch_id'' = Some bid"
  shows "id_at (ap_result p ctx) ''journal_entry_id'' = Some jid" and "id_at (ap_result p ctx) ''posting_batch_id'' = Some bid"
  using assms by (auto simp: ap_result_def Let_def id_at_def split: option.splits ap_value.splits)

lemma last_steps_succeed:
  assumes "get_row si_id i (invoices w) = Some x" and "get_row su_id (si_supplier x) (suppliers w) = Some su"
    and "id_at ctx ''journal_entry_id'' = Some jid" and "id_at ctx ''posting_batch_id'' = Some bid"
  shows "\<exists>cs ctx' t. forward (saga_payload org i d user k) (last_steps render number rn now) ctx w = Some (cs, None, ctx',
      set_invoice i (\<lambda>i. i\<lparr>si_status := SI_POSTED, si_posting_status := PS_POSTED, si_journal := Some jid,
        si_batch := Some bid, si_posted_by := Some user, si_posted_at := Some now\<rparr>) (w\<lparr>ap_taxes := t\<rparr>))
    \<and> id_at ctx' ''journal_entry_id'' = Some jid \<and> id_at ctx' ''posting_batch_id'' = Some bid"
proof -
  obtain out undo t where t: "step_create_tax_transactions w (saga_payload org i d user k) ctx = (proceed out undo, w\<lparr>ap_taxes := t\<rparr>)"
      "out ''journal_entry_id'' = None" "out ''posting_batch_id'' = None"
    using tax_step [OF assms(1,2)] by blast
  have ctx: "id_at (ctx ++ out) ''journal_entry_id'' = Some jid" "id_at (ctx ++ out) ''posting_batch_id'' = Some bid"
    using assms(3,4) t(2,3) by (simp_all add: id_at_def map_add_def)
  have inv: "get_row si_id i (invoices (w\<lparr>ap_taxes := t\<rparr>)) = Some x" using assms(1) by simp
  obtain out' undo' where st: "step_update_invoice_status now (w\<lparr>ap_taxes := t\<rparr>) (saga_payload org i d user k) (ctx ++ out)
      = (proceed out' undo', set_invoice i (\<lambda>i. i\<lparr>si_status := SI_POSTED, si_posting_status := PS_POSTED, si_journal := Some jid,
        si_batch := Some bid, si_posted_by := Some user, si_posted_at := Some now\<rparr>) (w\<lparr>ap_taxes := t\<rparr>))"
      "out' ''journal_entry_id'' = None" "out' ''posting_batch_id'' = None"
    using status_step [OF inv ctx, of now org d user k] by blast
  have "id_at (ctx ++ out ++ out') ''journal_entry_id'' = Some jid" "id_at (ctx ++ out ++ out') ''posting_batch_id'' = Some bid"
    using ctx st(2,3) by (simp_all add: id_at_def map_add_def)
  moreover have "forward (saga_payload org i d user k) (last_steps render number rn now) ctx w
      = Some (zip (last_steps render number rn now) [undo, undo'], None, ctx ++ out ++ out',
        set_invoice i (\<lambda>i. i\<lparr>si_status := SI_POSTED, si_posting_status := PS_POSTED, si_journal := Some jid,
          si_batch := Some bid, si_posted_by := Some user, si_posted_at := Some now\<rparr>) (w\<lparr>ap_taxes := t\<rparr>))"
    using t(1) st(1) by (simp add: last_steps_def ap_posting_saga_def proceed_def)
  ultimately show ?thesis by (intro exI conjI)
qed

text \<open>C39: an invoice is posted entirely or not at all. A saga with a new key and a new batch key that comes to
  an end has either posted the approved invoice: the ledger has gained one journal, line by line the charges of the
  invoice and the amount of its control account, and the invoice is POSTED and names that journal; or
  the ledger, the invoices and the tax transactions are as they were.\<close>

theorem ap_saga_all_or_nothing:
  assumes "saga_ids_ok s" and "get_saga_by_idempotency_key (saga_key org i key) s = None"
    and "reachable (ap_books (world s))" and "find_batch (ap_books (world s)) org (saga_key org i key) = None"
    and "post_invoice_with_saga render number rn now org i d user key correlation s = (Inr r, s')"
  shows "if ap_success r
    then \<exists>jid bid x su ls new. ap_journal r = Some jid \<and> ap_batch r = Some bid
      \<and> get_row si_id i (invoices (world s)) = Some x \<and> si_org x = org \<and> si_status x = SI_APPROVED
      \<and> get_row su_id (si_supplier x) (suppliers (world s)) = Some su
      \<and> charge_lines x su (world s) (ordered_lines i (world s)) = Inr ls
      \<and> ledger (ap_books (world s')) = ledger (ap_books (world s)) @ new
      \<and> map ledger_view new = map (stored_amounts (invoice_journal x su d (ls @ [control_line x su]))) (ls @ [control_line x su])
      \<and> (\<forall>l \<in> set new. ll_journal l = jid \<and> ll_org l = org)
      \<and> (\<exists>y \<in> set (journals (ap_books (world s'))). je_id y = jid \<and> je_status y = J_POSTED)
      \<and> get_row si_id i (invoices (world s')) = Some (x\<lparr>si_status := SI_POSTED, si_posting_status := PS_POSTED,
          si_journal := Some jid, si_batch := Some bid, si_posted_by := Some user, si_posted_at := Some now\<rparr>)
    else ledger (ap_books (world s')) = ledger (ap_books (world s)) \<and> invoices (world s') = invoices (world s)
      \<and> ap_taxes (world s') = ap_taxes (world s)"
proof -
  let ?k = "saga_key org i key" and ?orc = "ap_posting_saga render number rn now"
  let ?P = "saga_payload org i d user ?k" and ?w = "world s" and ?L = "ledger_steps render number rn now"
  obtain r0 s0 where e: "execute ?orc org ?P ?k user correlation now s = (Inr r0, s0)" and s0: "s0 = s'"
    and r: "r = (if sr_success r0
        then \<lparr>ap_success = True, ap_journal = id_at (sr_result r0) ''journal_entry_id'',
          ap_batch = id_at (sr_result r0) ''posting_batch_id'', ap_message = ''Invoice posted successfully'', ap_saga = sr_saga_id r0\<rparr>
        else \<lparr>ap_success = False, ap_journal = None, ap_batch = None, ap_message = error_or ''Posting failed'' (sr_error r0),
          ap_saga = sr_saga_id r0\<rparr>)"
    using assms(5) unfolding post_invoice_with_saga_def bind_Inr by (auto simp: return_def)
  have ends: "r0 = outcome_result (next_saga s) out \<and> world s' = w'" if "saga_spec ?orc ?P ?w = Some (out, w')" for out w'
    using execute_fresh_refines [OF assms(1,2) that, of org user correlation now] e s0 by auto
  have whole: "saga_spec ?orc ?P ?w = (case forward ?P (?L @ last_steps render number rn now) Map.empty ?w of
      None \<Rightarrow> None | Some (cs, e, c, w') \<Rightarrow> finish ?orc ?P cs e c w')"
    unfolding saga_spec_def saga_from_def saga_steps_split append_Nil ..
  from gl_inv_reachable [OF assms(3)] assms(4) saga_key_nonempty show ?thesis
  proof (cases rule: ledger_steps_cases [where i = i and d = d and user = user and render = render and number = number and rn = rn and now = now])
    case (refused cs m ctx w1 b)
    then have "saga_spec ?orc ?P ?w = Some (Compensated m, ?w\<lparr>ap_books := b\<rparr>)"
      unfolding whole forward_append by (simp add: finish_def)
    from ends [OF this] show ?thesis using refused(3) r by simp
  next
    case (interrupted cs ctx b)
    have "oc_steps ?orc = take 2 ?L @ (?L ! 2) # last_steps render number rn now"
      by (simp add: ledger_steps_def last_steps_def ap_posting_saga_def)
    from fresh_interrupted [OF assms(1,2) this interrupted(1,2)] e show ?thesis by (metis Inl_Inr_False Pair_inject)
  next
    case (posted ctx undo jid bid b)
    obtain x su ls new where p: "get_row si_id i (invoices ?w) = Some x" "si_org x = org" "si_status x = SI_APPROVED"
        "get_row su_id (si_supplier x) (suppliers ?w) = Some su" "charge_lines x su ?w (ordered_lines i ?w) = Inr ls"
        "ledger b = ledger (ap_books ?w) @ new"
        "map ledger_view new = map (stored_amounts (invoice_journal x su d (ls @ [control_line x su]))) (ls @ [control_line x su])"
        "\<forall>l \<in> set new. ll_journal l = jid \<and> ll_org l = org" "\<exists>y \<in> set (journals b). je_id y = jid \<and> je_status y = J_POSTED"
      using posted(5) unfolding posted_invoice_def by blast
    have "get_row si_id i (invoices (?w\<lparr>ap_books := b\<rparr>)) = Some x" "get_row su_id (si_supplier x) (suppliers (?w\<lparr>ap_books := b\<rparr>)) = Some su"
      using p(1,4) by simp_all
    from last_steps_succeed [OF this posted(3,4), of org d user ?k render number rn now]
    obtain cs ctx' t where l: "forward ?P (last_steps render number rn now) ctx (?w\<lparr>ap_books := b\<rparr>) = Some (cs, None, ctx',
        set_invoice i (\<lambda>i. i\<lparr>si_status := SI_POSTED, si_posting_status := PS_POSTED, si_journal := Some jid,
          si_batch := Some bid, si_posted_by := Some user, si_posted_at := Some now\<rparr>) (?w\<lparr>ap_books := b, ap_taxes := t\<rparr>))"
        "id_at ctx' ''journal_entry_id'' = Some jid" "id_at ctx' ''posting_batch_id'' = Some bid" by auto
    have "saga_spec ?orc ?P ?w = Some (Completed (ap_result ?P ctx'), set_invoice i (\<lambda>i. i\<lparr>si_status := SI_POSTED,
        si_posting_status := PS_POSTED, si_journal := Some jid, si_batch := Some bid, si_posted_by := Some user,
        si_posted_at := Some now\<rparr>) (?w\<lparr>ap_books := b, ap_taxes := t\<rparr>))"
      unfolding whole forward_append using posted(1) l(1) by (simp add: finish_def ap_posting_saga_def)
    from ends [OF this] result_fields [OF l(2,3)] r p show ?thesis by (auto simp: get_set_row)
  qed
qed

section \<open>Segregation of duties\<close>

lemma own_approval_refused:
  assumes inv: "gl_inv s" and sod: "org \<in> set (sod_orgs s)"
  shows "bind_tx (create_journal org i user number s)
      (\<lambda>jid s1. bind_tx (submit_journal org jid user now s1) (\<lambda>_ s2. approve_journal org jid user now s2)) \<noteq> (Inr v, s')"
proof
  assume "bind_tx (create_journal org i user number s)
      (\<lambda>jid s1. bind_tx (submit_journal org jid user now s1) (\<lambda>_ s2. approve_journal org jid user now s2)) = (Inr v, s')"
  then obtain jid s1 s2 x where c: "create_journal org i user number s = (Inr jid, s1)"
    and b: "submit_journal org jid user now s1 = (Inr x, s2)" and a: "approve_journal org jid user now s2 = (Inr v, s')"
    by (auto simp: bind_Inr)
  have "(\<exists>j. get_row je_id jid (journals s1) = Some j \<and> je_created_by j = user) \<and> sod_orgs s1 = sod_orgs s"
    using c
  proof (rule create_journal_InrE)
    fix p td assume jid: "jid = next_uuid s" and s1: "s1 = audit org (next_uuid s) INSERT None None (Some user)
      (insert_journal (new_journal (next_uuid s) org number (fp_id p) i td td user)
         (new_lines i (next_uuid s) (next_uuid s + 1) 0 (ji_lines i)) (next_uuid s + 1 + length (ji_lines i)) s)"
    have "get_row je_id jid (journals s) = None"
      using inv jid by (auto simp: get_row_None_iff gl_inv_def ids_ok_def)
    moreover have "sod_orgs (insert_journal j0 ls n s) = sod_orgs s" for j0 ls n by (simp add: insert_journal_def)
    ultimately show ?thesis by (simp add: s1 jid get_row_append) (simp add: new_journal_def)
  qed
  then obtain j where j: "get_row je_id jid (journals s1) = Some j" "je_created_by j = user" and f: "sod_orgs s1 = sod_orgs s" by blast
  have "get_row je_id jid (journals s2) = Some (j\<lparr>je_status := J_SUBMITTED, je_submitted_by := Some user, je_submitted_at := Some now\<rparr>)"
    and "sod_orgs s2 = sod_orgs s"
    using b j f by (auto simp: submit_journal_def scoped_journal_def raise_def return_def get_set_row split: option.splits if_splits)
  then show False
    using a j(2) sod by (auto simp: approve_journal_def scoped_journal_def raise_def return_def split: option.splits if_splits)
qed

lemma create_journal_needs_another_approver:
  assumes "gl_inv (ap_books w)" and "org \<in> set (sod_orgs (ap_books w))"
    and "step_create_journal render number now w (saga_payload org i d user k) ctx = (res, w')"
  shows "w' = w \<and> (\<exists>m. res = stop m \<or> res = Raised m)"
proof (cases "\<exists>x su. get_row si_id i (invoices w) = Some x \<and> si_org x = org \<and> get_row su_id (si_supplier x) (suppliers w) = Some su")
  case False
  then show ?thesis using assms(3) by (auto simp: step_create_journal_def split: option.splits if_splits)
next
  case True
  then obtain x su where row: "get_row si_id i (invoices w) = Some x" "si_org x = org" "get_row su_id (si_supplier x) (suppliers w) = Some su" by blast
  show ?thesis
  proof (cases "charge_lines x su w (ordered_lines i w)")
    case (Inl e)
    then show ?thesis using assms(3) row charge_lines_Inl [OF Inl] by (auto simp: step_create_journal_def)
  next
    case (Inr ls)
    let ?ji = "invoice_journal x su d (ls @ [control_line x su])"
    obtain c b where c: "bind_tx (create_journal org ?ji user number (ap_books w))
        (\<lambda>jid s1. bind_tx (submit_journal org jid user now s1) (\<lambda>_ s2. approve_journal org jid user now s2)) = (c, b)" by fastforce
    then obtain e where "c = Inl e" using own_approval_refused [OF assms(1,2)] by (cases c) auto
    then show ?thesis using assms(3) row Inr c by (auto simp: step_create_journal_def)
  qed
qed

text \<open>The saga cannot post where duties are segregated. The step that creates the journal submits and
  approves it as the same user, so in an organisation that wants another approver every invoice is
  refused: the saga with a new key ends without success, and the database is as it was.\<close>

theorem ap_saga_refused_under_segregation:
  assumes "saga_ids_ok s" and "get_saga_by_idempotency_key (saga_key org i key) s = None"
    and "reachable (ap_books (world s))" and "org \<in> set (sod_orgs (ap_books (world s)))"
  shows "\<exists>r s'. post_invoice_with_saga render number rn now org i d user key correlation s = (Inr r, s')
    \<and> \<not> ap_success r \<and> world s' = world s"
proof -
  let ?k = "saga_key org i key" and ?orc = "ap_posting_saga render number rn now"
  let ?P = "saga_payload org i d user ?k" and ?w = "world s"
  have "\<exists>m. saga_spec ?orc ?P ?w = Some (Compensated m, ?w)"
  proof -
    obtain r0 w0 where v: "step_validate_invoice ?w ?P Map.empty = (r0, w0)" by fastforce
    then show ?thesis
    proof (cases rule: validate_cases)
      case (refused m)
      then show ?thesis using v by (simp add: saga_spec_def saga_from_def ap_posting_saga_def finish_def stop_def)
    next
      case (valid x su)
      obtain r1 w1 where c: "step_create_journal render number now ?w ?P
          (Map.empty ++ validated_context x su (length (ordered_lines i ?w))) = (r1, w1)" by fastforce
      have "w1 = ?w \<and> (\<exists>m. r1 = stop m \<or> r1 = Raised m)"
        by (rule create_journal_needs_another_approver [OF gl_inv_reachable [OF assms(3)] assms(4) c])
      then show ?thesis using v valid(1,6) c
        by (auto simp: saga_spec_def saga_from_def ap_posting_saga_def finish_def stop_def proceed_def)
    qed
  qed
  then obtain m where "saga_spec ?orc ?P ?w = Some (Compensated m, ?w)" by blast
  from execute_fresh_refines [OF assms(1,2) this, of org user correlation now]
  show ?thesis by (auto simp: post_invoice_with_saga_def return_def)
qed

section \<open>Compensation after the posting\<close>

text \<open>The saga whose process dies as it starts its \<open>n\<close>th step.\<close>

definition dies_in :: "nat \<Rightarrow> ('w, 'v) orchestrator \<Rightarrow> ('w, 'v) orchestrator" where
  "dies_in n orc = orc\<lparr>oc_steps := (oc_steps orc)[n := (oc_steps orc ! n)\<lparr>sd_execute := \<lambda>w p ctx. (Interrupted, w)\<rparr>]\<rparr>"

lemma dies_in_tax_step:
  "oc_steps (dies_in 3 (ap_posting_saga render number rn now)) = ledger_steps render number rn now
    @ (hd (last_steps render number rn now))\<lparr>sd_execute := \<lambda>w p ctx. (Interrupted, w)\<rparr> # tl (last_steps render number rn now)"
  "take 2 (ledger_steps render number rn now) @ ledger_steps render number rn now ! 2 # rest
    = ledger_steps render number rn now @ rest"
  by (simp_all add: dies_in_def ap_posting_saga_def ledger_steps_def last_steps_def numeral_3_eq_3)

text \<open>Another instance of the saga takes over the steps done.\<close>

lemma at_step_other:
  assumes "at_step orc g cs s" and "length (oc_steps orc') = length (oc_steps orc)"
  shows "at_step orc' g (zip (oc_steps orc') (map snd cs)) s"
proof -
  have len: "length (zip (oc_steps orc') (map snd cs)) = length cs" using assms by (simp add: at_step_def)
  moreover have "map fst (zip (oc_steps orc') (map snd cs)) = take (length cs) (oc_steps orc')"
    using assms by (simp add: at_step_def map_fst_zip_take)
  moreover have "snd (zip (oc_steps orc') (map snd cs) ! k) = snd (cs ! k)" if "k < length cs" for k
    using that assms by (simp add: at_step_def)
  ultimately show ?thesis using assms by (simp add: at_step_def steps_done_def)
qed

lemma create_journal_undone:
  assumes "get_row je_id jid (journals (ap_books w)) = Some y" and "je_status y = J_REVERSED"
    and "id_at c ''journal_entry_id'' = Some jid"
  shows "compensate_create_journal w p c
    = (Undone True, w\<lparr>ap_books := set_journal jid (\<lambda>j. j\<lparr>je_status := J_VOID\<rparr>) (ap_books w)\<rparr>)"
  using assms by (simp add: compensate_create_journal_def)

lemma create_journal_undo_total: "\<exists>w'. compensate_create_journal w p c = (Undone True, w')"
  by (auto simp: compensate_create_journal_def split: option.split)

lemma posted_then_voided:
  assumes inv: "gl_inv (ap_books w)" and inl: "\<exists>l \<in> set (ledger (ap_books w)). ll_journal l = jid"
    and undo: "id_at undo ''journal_entry_id'' = Some jid" and cj: "id_at cjd ''journal_entry_id'' = Some jid"
    and d: "sd_compensate dj = Some compensate_create_journal" "sd_compensate dp = Some (compensate_post_to_ledger rn now)"
      "sd_compensate dv = None"
    and P: "P = saga_payload org i dt user k"
  obtains (lost) "fst (compensate_post_to_ledger rn now w P undo) = Undo_interrupted"
  | (failed) w' where "backward P [(dp, undo), (dj, cjd), (dv, v)] w = Some (True, w')"
  | (voided) w' y where "backward P [(dp, undo), (dj, cjd), (dv, v)] w = Some (False, w')"
      "get_row je_id jid (journals (ap_books w')) = Some y" "je_status y = J_VOID"
      "\<exists>l \<in> set (ledger (ap_books w')). ll_journal l = jid"
proof -
  obtain r b where c: "create_reversal org jid dt user ''Saga compensation - posting failed'' True None False None rn now
      (ap_books w) = (r, b)" by fastforce
  let ?u = "compensate_post_to_ledger rn now w P undo"
  have u: "?u = (case r of Inl (IntegrityError e) \<Rightarrow> (Undo_interrupted, w) | Inl e \<Rightarrow> (Undone False, w\<lparr>ap_books := b\<rparr>)
      | Inr v \<Rightarrow> (Undone (rr_success v), w\<lparr>ap_books := b\<rparr>))"
    using c undo by (simp add: compensate_post_to_ledger_def P)
  obtain w2 where w2: "compensate_create_journal (w\<lparr>ap_books := b\<rparr>) P cjd = (Undone True, w2)"
    using create_journal_undo_total by blast
  have rest: "backward P [(dp, undo), (dj, cjd), (dv, v)] w = Some (\<not> ok, w2)"
    if "?u = (Undone ok, w\<lparr>ap_books := b\<rparr>)" for ok
    using that w2 d by (cases ok) simp_all
  show thesis
  proof (cases "?u = (Undone True, w\<lparr>ap_books := b\<rparr>)")
    case False
    then have "fst ?u = Undo_interrupted \<or> ?u = (Undone False, w\<lparr>ap_books := b\<rparr>)"
      unfolding u by (auto split: sum.split gl_error.split)
    then show thesis using lost rest [of False] failed by auto
  next
    case True
    then obtain v where "r = Inr v" unfolding u by (auto split: sum.splits gl_error.splits)
    with c have rv: "create_reversal org jid dt user ''Saga compensation - posting failed'' True None False None rn now
        (ap_books w) = (Inr v, b)" by simp
    obtain y where y: "get_row je_id jid (journals b) = Some y" "je_status y = J_REVERSED"
      using reversal_marks_original(1) [OF inv rv] by blast
    obtain more where more: "ledger b = ledger (ap_books w) @ more" using reversal_marks_original(2) [OF inv rv] by blast
    have "w2 = w\<lparr>ap_books := set_journal jid (\<lambda>j. j\<lparr>je_status := J_VOID\<rparr>) b\<rparr>"
      using create_journal_undone [OF _ _ cj, of "w\<lparr>ap_books := b\<rparr>" y P] y w2 by simp
    moreover have "get_row je_id jid (journals (set_journal jid (\<lambda>j. j\<lparr>je_status := J_VOID\<rparr>) b)) = Some (y\<lparr>je_status := J_VOID\<rparr>)"
      by (rule get_row_set_journal [OF y(1)]) simp
    ultimately show thesis using rest [OF True] more inl
      by (intro voided [of w2 "y\<lparr>je_status := J_VOID\<rparr>"]) auto
  qed
qed

lemma void_in_ledger:
  assumes "get_row je_id jid (journals s) = Some y" and "je_status y = J_VOID" and "\<exists>l \<in> set (ledger s). ll_journal l = jid"
  shows "\<not> gl_inv s"
proof
  assume "gl_inv s"
  then have "posted_ok s y" using get_row_SomeD [OF assms(1)] by (auto simp: gl_inv_def)
  then have "ledger_of s jid = []" using assms(2) get_row_SomeD [OF assms(1)] by (simp add: posted_ok_def in_ledger_def)
  then show False using assms(3) by (auto simp: ledger_of_def filter_empty_conv)
qed

lemma dying_saga_posted:
  fixes k :: string and org i user :: uuid and d :: date
  assumes ok: "saga_ids_ok s" "get_saga_by_idempotency_key key s = None"
    and inv: "gl_inv (ap_books (world s))" "find_batch (ap_books (world s)) org k = None" "k \<noteq> []"
    and run: "execute (dies_in 3 (ap_posting_saga render number rn now)) org (saga_payload org i d user k) key user correlation now s
      = (Inl Session_lost, s1)"
    and moved: "ledger (ap_books (world s1)) \<noteq> ledger (ap_books (world s))"
  obtains h jid undo where "at_step (dies_in 3 (ap_posting_saga render number rn now)) h
      [(ledger_steps render number rn now ! 0, Map.empty), (ledger_steps render number rn now ! 1, [''journal_entry_id'' \<mapsto> V_id jid]),
       (ledger_steps render number rn now ! 2, undo)] s1"
    "sg_id h = next_saga s" "sg_payload h = saga_payload org i d user k" "sg_status h = SG_EXECUTING"
    "id_at undo ''journal_entry_id'' = Some jid" "gl_inv (ap_books (world s1))"
    "\<exists>l \<in> set (ledger (ap_books (world s1))). ll_journal l = jid"
proof -
  let ?orc = "dies_in 3 (ap_posting_saga render number rn now)"
  let ?P = "saga_payload org i d user k" and ?w = "world s" and ?L = "ledger_steps render number rn now"
  let ?d = "(hd (last_steps render number rn now))\<lparr>sd_execute := \<lambda>w p ctx. (Interrupted, w)\<rparr>"
    and ?rest = "tl (last_steps render number rn now)"
  have steps: "oc_steps ?orc = ?L @ ?d # ?rest" by (rule dies_in_tax_step(1))
  from inv show thesis
  proof (cases rule: ledger_steps_cases [where i = i and d = d and user = user and render = render and number = number and rn = rn and now = now])
    case (refused cs m ctx w1 b)
    then have "saga_spec ?orc ?P ?w = Some (Compensated m, ?w\<lparr>ap_books := b\<rparr>)"
      unfolding saga_spec_def saga_from_def steps append_Nil forward_append by (simp add: finish_def)
    from execute_fresh_refines [OF ok this, of org user correlation now] run show thesis by auto
  next
    case (interrupted cs ctx b)
    have s2: "oc_steps ?orc = take 2 ?L @ ?L ! 2 # (?d # ?rest)" unfolding steps dies_in_tax_step(2) ..
    obtain t where "execute ?orc org ?P key user correlation now s = (Inl Session_lost, t)" "world t = ?w\<lparr>ap_books := b\<rparr>"
      by (rule fresh_interrupted [OF ok s2 interrupted(1,2), where org = org and user = user and correlation = correlation and now = now])
    then show thesis using run moved interrupted(3) by simp
  next
    case (posted ctx undo jid bid b)
    have dies: "sd_execute ?d (?w\<lparr>ap_books := b\<rparr>) ?P ctx = (Interrupted, ?w\<lparr>ap_books := b\<rparr>)" by simp
    obtain t h where h: "execute ?orc org ?P key user correlation now s = (Inl Session_lost, t)" "world t = ?w\<lparr>ap_books := b\<rparr>"
        "at_step ?orc h [(?L ! 0, Map.empty), (?L ! 1, [''journal_entry_id'' \<mapsto> V_id jid]), (?L ! 2, undo)] t"
        "sg_id h = next_saga s" "sg_payload h = ?P" "sg_status h = SG_EXECUTING"
      by (rule fresh_interrupted [OF ok steps posted(1) dies, where org = org and user = user and correlation = correlation and now = now])
    obtain x su ls new where n: "ledger b = ledger (ap_books ?w) @ new" "\<forall>l \<in> set new. ll_journal l = jid \<and> ll_org l = org"
        "map ledger_view new = map (stored_amounts (invoice_journal x su d (ls @ [control_line x su]))) (ls @ [control_line x su])"
      using posted(5) unfolding posted_invoice_def by blast
    have "length new = length (ls @ [control_line x su])" using arg_cong [OF n(3), of length] by simp
    then obtain l where "l \<in> set new" by (cases new) auto
    then have "\<exists>l \<in> set (ledger b). ll_journal l = jid" using n(1,2) by auto
    moreover have "t = s1" using h(1) run by simp
    ultimately show thesis using that [of h jid undo] h posted(2,6) by simp
  qed
qed

text \<open>C40: a compensation after the posting voids a journal that stays in the ledger. When the process
  dies once the ledger has the invoice, and the saga is then recovered with compensation forced and reports
  success, the undo of the posting has reversed the journal and marked it REVERSED, and the undo of its creation, which
  leaves only POSTED and VOID journals alone, has voided it: a VOID journal has ledger lines, and the invariant of
  the books, which their own services keep, is broken.\<close>

theorem forced_compensation_voids_posted:
  assumes "saga_ids_ok s" and "get_saga_by_idempotency_key key s = None"
    and "reachable (ap_books (world s))" and "find_batch (ap_books (world s)) org k = None" and "k \<noteq> []"
    and "execute (dies_in 3 (ap_posting_saga render number rn now)) org (saga_payload org i d user k) key user correlation now s
      = (Inl Session_lost, s1)"
    and "ledger (ap_books (world s1)) \<noteq> ledger (ap_books (world s))"
    and "recover_saga [''AP_INVOICE_POST'' \<mapsto> ap_posting_saga render' number' rn' later] (next_saga s) True later s1 = (Inr True, s2)"
  shows "\<exists>jid y. get_row je_id jid (journals (ap_books (world s2))) = Some y \<and> je_status y = J_VOID
    \<and> (\<exists>l \<in> set (ledger (ap_books (world s2))). ll_journal l = jid) \<and> \<not> gl_inv (ap_books (world s2))"
proof -
  let ?P = "saga_payload org i d user k" and ?orc = "ap_posting_saga render' number' rn' later"
  obtain h jid undo where h: "at_step (dies_in 3 (ap_posting_saga render number rn now)) h
      [(ledger_steps render number rn now ! 0, Map.empty), (ledger_steps render number rn now ! 1, [''journal_entry_id'' \<mapsto> V_id jid]),
       (ledger_steps render number rn now ! 2, undo)] s1" (is "at_step _ h ?cs s1")
    "sg_id h = next_saga s" "sg_payload h = ?P" "sg_status h = SG_EXECUTING" "id_at undo ''journal_entry_id'' = Some jid"
    and w: "gl_inv (ap_books (world s1))" "\<exists>l \<in> set (ledger (ap_books (world s1))). ll_journal l = jid"
    using dying_saga_posted [OF assms(1,2) gl_inv_reachable [OF assms(3)] assms(4-7)] .
  have row: "get_saga (next_saga s) s1 = Some h" using h(1,2) by (simp add: at_step_def)
  have c: "bind_tx (compensate_steps ?orc h later s1) (\<lambda>r. return (sr_was_compensated r)) = (Inr True, s2)"
    using assms(8) row h(4) by (auto simp: recover_saga_def return_def split: option.splits if_splits)
  let ?cs' = "zip (oc_steps ?orc) (map snd ?cs)"
  have at: "at_step ?orc h ?cs' s1" using at_step_other [OF h(1), of ?orc] by (simp add: dies_in_def ap_posting_saga_def)
  obtain dv dj dp where cs': "?cs' = [(dv, Map.empty), (dj, [''journal_entry_id'' \<mapsto> V_id jid])] @ [(dp, undo)]"
    and ds: "sd_compensate dj = Some compensate_create_journal" "sd_compensate dp = Some (compensate_post_to_ledger rn' later)"
      "sd_compensate dv = None"
    by (simp add: ap_posting_saga_def)
  have undone: "\<exists>r s'. compensate_steps ?orc h later s1 = (Inr r, s') \<and> sr_was_compensated r = (\<not> f) \<and> world s' = w'"
    if "backward ?P [(dp, undo), (dj, [''journal_entry_id'' \<mapsto> V_id jid]), (dv, Map.empty)] (world s1) = Some (f, w')" for f w'
    by (rule compensation_outcome [OF at]) (use that in \<open>simp only: cs' h(3) rev.simps append.simps\<close>)
  have cj: "id_at [''journal_entry_id'' \<mapsto> V_id jid] ''journal_entry_id'' = Some jid" by (simp add: id_at_def)
  from w h(5) cj ds refl [of ?P] show ?thesis
  proof (cases rule: posted_then_voided [where v = "Map.empty"])
    case lost
    then obtain w' where "compensate_post_to_ledger rn' later (world s1) ?P undo = (Undo_interrupted, w')"
      by (metis prod.collapse)
    from compensation_interrupted [OF at [unfolded cs'] ds(2) this [folded h(3)], of later] c show ?thesis by auto
  next
    case (failed w')
    from undone [OF failed] c show ?thesis by (auto simp: return_def)
  next
    case (voided w' y)
    from undone [OF voided(1)] c have "world s2 = w'" by (auto simp: return_def)
    then show ?thesis using voided(2-4) void_in_ledger [OF voided(2-4)] by auto
  qed
qed

end
