(* ===== verification/Ap_Saga_Samples.thy ===== *)
theory Ap_Saga_Samples
  imports Ap_Saga_Properties Gl_Books
begin

text \<open>
  Witnesses for the invoice saga: an approved invoice of one line, posted in books where duties are not
  segregated, refused in books where they are, and one whose saga dies after the posting.
\<close>

definition sample_supplier :: supplier where
  "sample_supplier = \<lparr>su_id = 2, su_org = 1, su_legal_name = ''S'', su_tax_number = None, su_expense_account = Some 2\<rparr>"

definition sample_invoice :: supplier_invoice where
  "sample_invoice = \<lparr>si_id = 5, si_org = 1, si_supplier = 2, si_number = ''I'', si_supplier_number = None,
     si_type = SIT_STANDARD, si_date = Date 6 1 15, si_currency = ''NGN'', si_exchange_rate = None, si_rate_type = None,
     si_total = 2, si_functional = 2, si_status = SI_APPROVED, si_control_account = 3, si_journal = None, si_batch = None,
     si_posting_status = PS_NOT_POSTED, si_posted_by = None, si_posted_at = None, si_correlation_id = None\<rparr>"

definition sample_invoice_line :: supplier_invoice_line where
  "sample_invoice_line = \<lparr>il_id = 6, il_invoice = 5, il_number = 1, il_goods_receipt_line = None, il_item = None,
     il_description = ''L'', il_amount = 2, il_tax_code = None, il_tax = 0, il_expense_account = None,
     il_asset_account = None, il_cost_center = None, il_project = None, il_segment = None, il_capitalize = False\<rparr>"

definition sample_payables :: "uuid list \<Rightarrow> (ap_world, ap_value) saga_db" where
  "sample_payables sod = \<lparr>sagas = [], saga_steps = [],
     world = \<lparr>ap_books = sample_start\<lparr>sod_orgs := sod\<rparr>, ap_taxes = \<lparr>tax_codes = [], tax_transactions = [], next_tax = 1\<rparr>,
       suppliers = [sample_supplier], invoices = [sample_invoice], invoice_lines = [sample_invoice_line],
       ap_accounts = [\<lparr>aa_id = 3, aa_org = 1, aa_category = 4, aa_is_active = True, aa_subledger = Some ''AP''\<rparr>],
       account_categories = [\<lparr>cg_id = 4, cg_org = 1, cg_ifrs = IC_LIABILITIES\<rparr>],
       ap_items = [], ap_item_categories = []\<rparr>, next_saga = 1\<rparr>"

lemma sample_payables_facts:
  "saga_ids_ok (sample_payables sod)" "get_saga_by_idempotency_key k (sample_payables sod) = None"
  "find_batch (ap_books (world (sample_payables sod))) org k' = None"
  by (simp_all add: sample_payables_def saga_ids_ok_def get_saga_by_idempotency_key_def sample_start_def sample_defs find_batch_def)

lemma sample_payables_reachable: "reachable (ap_books (world (sample_payables sod)))"
  by (rule reachable.start) (simp add: initial_def sample_payables_def sample_start_def sample_defs)

text \<open>The journal of the invoice, approved, and its posting.\<close>

definition sample_invoice_journal :: journal_input where
  "sample_invoice_journal = invoice_journal sample_invoice sample_supplier (Date 6 1 15)
     [charge_line sample_invoice sample_invoice_line 2, control_line sample_invoice sample_supplier]"

definition sample_approved_books :: gldb where
  "sample_approved_books = snd (bind_tx (create_journal 1 sample_invoice_journal 7 ''J'' (sample_start\<lparr>sod_orgs := []\<rparr>))
     (\<lambda>jid s1. bind_tx (submit_journal 1 jid 7 5 s1) (\<lambda>_ s2. approve_journal 1 jid 7 5 s2)))"

lemma sample_approval:
  "fst (bind_tx (create_journal 1 sample_invoice_journal 7 ''J'' (sample_start\<lparr>sod_orgs := []\<rparr>))
     (\<lambda>jid s1. bind_tx (submit_journal 1 jid 7 5 s1) (\<lambda>_ s2. approve_journal 1 jid 7 5 s2))) = Inr 30"
  by code_simp

definition sample_invoice_posting :: "(gl_error, posting_result, gldb) tx" where
  "sample_invoice_posting = post_journal_entry (saga_posting_request 1 sample_invoice 30 (Date 6 1 15) (Some (saga_key 1 5 None)) 7) 5
     sample_approved_books"

lemma sample_posting:
  "case fst sample_invoice_posting of Inr v \<Rightarrow> res_success v \<and> res_batch_id v \<noteq> None | _ \<Rightarrow> False"
  "length (ledger (snd sample_invoice_posting)) = 2"
  by code_simp+

lemma sample_undoing:
  "case fst (create_reversal 1 30 (Date 6 1 15) 7 ''Saga compensation - posting failed'' True None False None ''R'' 6
     (snd sample_invoice_posting)) of Inr v \<Rightarrow> rr_success v | _ \<Rightarrow> False"
  by code_simp

abbreviation sample_saga_payload :: ap_json where
  "sample_saga_payload \<equiv> saga_payload 1 5 (Date 6 1 15) 7 (saga_key 1 5 None)"

abbreviation sample_ledger_steps :: "(ap_world, ap_value) step_def list" where
  "sample_ledger_steps \<equiv> ledger_steps (\<lambda>e. ''e'') ''J'' ''R'' 5"

lemma sample_payables_rows [simp]:
  "get_row si_id 5 (invoices (world (sample_payables sod))) = Some sample_invoice"
  "get_row su_id 2 (suppliers (world (sample_payables sod))) = Some sample_supplier"
  "si_supplier sample_invoice = 2" "si_org sample_invoice = 1" "su_org sample_supplier = 1"
  "si_status sample_invoice = SI_APPROVED" "su_id sample_supplier = 2"
  "ordered_lines 5 (world (sample_payables sod)) = [sample_invoice_line]"
  "charge_lines sample_invoice sample_supplier (world (sample_payables sod)) [sample_invoice_line]
    = Inr [charge_line sample_invoice sample_invoice_line 2]"
  "valid_ap_control_account (Suc 0) (si_control_account sample_invoice) (world (sample_payables sod))"
  by (simp_all add: sample_payables_def sample_invoice_def sample_supplier_def sample_invoice_line_def ordered_lines_def
      lines_of_invoice_def determine_debit_account_def item_account_def valid_ap_control_account_def)

lemma sample_ledger_run:
  obtains ctx undo bid where
    "forward sample_saga_payload sample_ledger_steps Map.empty (world (sample_payables []))
      = Some (zip sample_ledger_steps [Map.empty, [''journal_entry_id'' \<mapsto> V_id 30], undo], None, ctx,
          (world (sample_payables []))\<lparr>ap_books := snd sample_invoice_posting\<rparr>)"
    "id_at undo ''journal_entry_id'' = Some 30"
    "id_at ctx ''journal_entry_id'' = Some 30" "id_at ctx ''posting_batch_id'' = Some bid"
proof -
  let ?w = "world (sample_payables [])" and ?P = sample_saga_payload
  have books: "ap_books ?w = sample_start\<lparr>sod_orgs := []\<rparr>" by (simp add: sample_payables_def)
  have v: "step_validate_invoice ?w ?P c = (proceed (validated_context sample_invoice sample_supplier 1) Map.empty, ?w)" for c
    by (simp add: step_validate_invoice_def)
  have c: "step_create_journal (\<lambda>e. ''e'') ''J'' 5 ?w ?P c = (proceed [''journal_entry_id'' \<mapsto> V_id 30, ''journal_number'' \<mapsto> V_text ''J'']
      [''journal_entry_id'' \<mapsto> V_id 30], ?w\<lparr>ap_books := sample_approved_books\<rparr>)" for c
  proof -
    have "bind_tx (create_journal 1 sample_invoice_journal 7 ''J'' (ap_books ?w))
        (\<lambda>jid s1. bind_tx (submit_journal 1 jid 7 5 s1) (\<lambda>_ s2. approve_journal 1 jid 7 5 s2)) = (Inr 30, sample_approved_books)"
      unfolding books sample_approved_books_def by (rule prod_eqI) (simp_all only: sample_approval fst_conv snd_conv)
    then show ?thesis by (simp add: step_create_journal_def sample_invoice_journal_def del: charge_lines.simps)
  qed
  let ?b = "snd sample_invoice_posting"
  obtain v where p: "post_journal_entry (saga_posting_request 1 sample_invoice 30 (Date 6 1 15) (Some (saga_key 1 5 None)) 7) 5
     sample_approved_books = (Inr v, ?b)" and r: "res_success v" "res_batch_id v \<noteq> None"
    using sample_posting(1) unfolding sample_invoice_posting_def by (auto split: sum.splits prod.splits simp: fst_def)
  obtain bid where bid: "res_batch_id v = Some bid" using r(2) by auto
  let ?c1 = "Map.empty ++ validated_context sample_invoice sample_supplier 1 ++ [''journal_entry_id'' \<mapsto> V_id 30, ''journal_number'' \<mapsto> V_text ''J'']"
  have i: "get_row si_id 5 (invoices (?w\<lparr>ap_books := sample_approved_books\<rparr>)) = Some sample_invoice" by simp
  have j: "id_at ?c1 ''journal_entry_id'' = Some 30" by (simp add: id_at_def)
  obtain res w2 where st: "step_post_to_ledger (\<lambda>e. ''e'') 5 (?w\<lparr>ap_books := sample_approved_books\<rparr>) ?P ?c1 = (res, w2)" by fastforce
  have p': "post_journal_entry (saga_posting_request 1 sample_invoice 30 (Date 6 1 15) (Some (saga_key 1 5 None)) 7) 5
     (ap_books (?w\<lparr>ap_books := sample_approved_books\<rparr>)) = (Inr v, ?b)" using p by simp
  obtain out undo where o: "res = proceed out undo" "w2 = ?w\<lparr>ap_books := ?b\<rparr>" "out ''posting_batch_id'' = Some (V_id bid)" "out ''journal_entry_id'' = None"
      "id_at undo ''journal_entry_id'' = Some 30"
    using post_cases [OF st i j p'] r(1) bid by (auto simp: id_text_def id_at_def)
  have "forward ?P sample_ledger_steps Map.empty ?w = Some (zip sample_ledger_steps [Map.empty, [''journal_entry_id'' \<mapsto> V_id 30], undo],
      None, ?c1 ++ out, ?w\<lparr>ap_books := ?b\<rparr>)"
    using v c st o(1,2) by (simp add: ledger_steps_def ap_posting_saga_def proceed_def numeral_3_eq_3)
  then show thesis by (rule that) (use j o(3-5) in \<open>simp_all add: id_at_def map_add_def\<close>)
qed

abbreviation sample_saga :: "(ap_world, ap_value) orchestrator" where
  "sample_saga \<equiv> ap_posting_saga (\<lambda>e. ''e'') ''J'' ''R'' 5"

lemma sample_saga_succeeds:
  "\<exists>r s'. post_invoice_with_saga (\<lambda>e. ''e'') ''J'' ''R'' 5 1 5 (Date 6 1 15) 7 None None (sample_payables []) = (Inr r, s')
    \<and> ap_success r"
proof -
  let ?w = "world (sample_payables [])"
  obtain ctx undo bid where run: "forward sample_saga_payload sample_ledger_steps Map.empty ?w
      = Some (zip sample_ledger_steps [Map.empty, [''journal_entry_id'' \<mapsto> V_id 30], undo], None, ctx, ?w\<lparr>ap_books := snd sample_invoice_posting\<rparr>)"
    and c: "id_at ctx ''journal_entry_id'' = Some 30" "id_at ctx ''posting_batch_id'' = Some bid"
    by (rule sample_ledger_run)
  have "get_row si_id 5 (invoices (?w\<lparr>ap_books := snd sample_invoice_posting\<rparr>)) = Some sample_invoice"
    "get_row su_id (si_supplier sample_invoice) (suppliers (?w\<lparr>ap_books := snd sample_invoice_posting\<rparr>)) = Some sample_supplier" by simp_all
  from last_steps_succeed [OF this c, of 1 "Date 6 1 15" 7 "saga_key 1 5 None" "\<lambda>e. ''e''" "''J''" "''R''" 5]
  obtain cs ctx' w' where "forward sample_saga_payload (last_steps (\<lambda>e. ''e'') ''J'' ''R'' 5) ctx (?w\<lparr>ap_books := snd sample_invoice_posting\<rparr>)
      = Some (cs, None, ctx', w')" by auto
  then have "saga_spec sample_saga sample_saga_payload ?w = Some (Completed (oc_build_result sample_saga sample_saga_payload ctx'), w')"
    unfolding saga_spec_def saga_from_def saga_steps_split forward_append using run by (simp add: finish_def)
  from execute_fresh_refines [OF sample_payables_facts(1,2) this, of 1 "saga_key 1 5 None" 7 None 5]
  show ?thesis by (auto simp: post_invoice_with_saga_def return_def)
qed

section \<open>Witnesses\<close>

theorem ap_saga_all_or_nothing_witness:
  "\<exists>r s'. post_invoice_with_saga (\<lambda>e. ''e'') ''J'' ''R'' 5 1 5 (Date 6 1 15) 7 None None (sample_payables []) = (Inr r, s')
    \<and> length (ledger (ap_books (world s'))) = 2 \<and> map_option si_status (get_row si_id 5 (invoices (world s'))) = Some SI_POSTED"
proof -
  obtain r s' where run: "post_invoice_with_saga (\<lambda>e. ''e'') ''J'' ''R'' 5 1 5 (Date 6 1 15) 7 None None (sample_payables []) = (Inr r, s')"
    and ok: "ap_success r" using sample_saga_succeeds by blast
  obtain jid bid new where n: "ledger (ap_books (world s')) = ledger (ap_books (world (sample_payables []))) @ new"
      "map ledger_view new = map (stored_amounts (invoice_journal sample_invoice sample_supplier (Date 6 1 15)
         ([charge_line sample_invoice sample_invoice_line 2] @ [control_line sample_invoice sample_supplier])))
         ([charge_line sample_invoice sample_invoice_line 2] @ [control_line sample_invoice sample_supplier])"
      "get_row si_id 5 (invoices (world s')) = Some (sample_invoice\<lparr>si_status := SI_POSTED, si_posting_status := PS_POSTED,
          si_journal := Some jid, si_batch := Some bid, si_posted_by := Some 7, si_posted_at := Some 5\<rparr>)"
    using ap_saga_all_or_nothing [OF sample_payables_facts(1,2) sample_payables_reachable sample_payables_facts(3) run] ok
    by (auto simp del: charge_lines.simps)
  have "ledger (ap_books (world (sample_payables []))) = []" by (simp add: sample_payables_def sample_start_def sample_books_def)
  moreover have "length new = 2" using arg_cong [OF n(2), of length] by simp
  ultimately show ?thesis using run n(1,3) by (intro exI conjI) (assumption, simp_all)
qed

theorem ap_saga_refused_under_segregation_witness:
  "\<exists>r s'. post_invoice_with_saga (\<lambda>e. ''e'') ''J'' ''R'' 5 1 5 (Date 6 1 15) 7 None None (sample_payables [1]) = (Inr r, s')
    \<and> \<not> ap_success r \<and> world s' = world (sample_payables [1])"
  by (rule ap_saga_refused_under_segregation [OF sample_payables_facts(1,2) sample_payables_reachable])
    (simp add: sample_payables_def)

text \<open>The process dies as the taxes are to be recorded, and the saga is then compensated by force.\<close>

lemma sample_death:
  obtains s1 h undo where "execute (dies_in 3 sample_saga) 1 sample_saga_payload ''k'' 7 None 5 (sample_payables []) = (Inl Session_lost, s1)"
    "world s1 = (world (sample_payables []))\<lparr>ap_books := snd sample_invoice_posting\<rparr>"
    "at_step (dies_in 3 sample_saga) h (zip sample_ledger_steps [Map.empty, [''journal_entry_id'' \<mapsto> V_id 30], undo]) s1"
    "sg_id h = next_saga (sample_payables [])" "sg_payload h = sample_saga_payload" "sg_status h = SG_EXECUTING"
    "sg_type h = ''AP_INVOICE_POST''" "id_at undo ''journal_entry_id'' = Some 30"
proof -
  obtain ctx undo where run: "forward sample_saga_payload sample_ledger_steps Map.empty (world (sample_payables []))
      = Some (zip sample_ledger_steps [Map.empty, [''journal_entry_id'' \<mapsto> V_id 30], undo], None, ctx,
          (world (sample_payables []))\<lparr>ap_books := snd sample_invoice_posting\<rparr>)"
    and u: "id_at undo ''journal_entry_id'' = Some 30" by (rule sample_ledger_run)
  let ?d = "(hd (last_steps (\<lambda>e. ''e'') ''J'' ''R'' 5))\<lparr>sd_execute := \<lambda>w p ctx. (Interrupted, w)\<rparr>"
  have "sd_execute ?d ((world (sample_payables []))\<lparr>ap_books := snd sample_invoice_posting\<rparr>) sample_saga_payload ctx
      = (Interrupted, (world (sample_payables []))\<lparr>ap_books := snd sample_invoice_posting\<rparr>)" by simp
  from sample_payables_facts(1,2) dies_in_tax_step(1) run this show thesis
    by (rule fresh_interrupted [where org = 1 and key = "''k''" and user = 7 and correlation = None and now = 5])
      (rule that, assumption+, simp_all add: u dies_in_def ap_posting_saga_def)
qed

lemma sample_forced_recovery:
  obtains s1 s2 where "execute (dies_in 3 sample_saga) 1 sample_saga_payload ''k'' 7 None 5 (sample_payables []) = (Inl Session_lost, s1)"
    "ledger (ap_books (world s1)) \<noteq> ledger (ap_books (world (sample_payables [])))"
    "recover_saga [''AP_INVOICE_POST'' \<mapsto> ap_posting_saga (\<lambda>e. ''e'') ''J'' ''R'' 6] (next_saga (sample_payables [])) True 6 s1 = (Inr True, s2)"
proof -
  let ?orc = "ap_posting_saga (\<lambda>e. ''e'') ''J'' ''R'' 6" and ?cj = "[''journal_entry_id'' \<mapsto> V_id 30]"
  obtain s1 h undo where s1: "execute (dies_in 3 sample_saga) 1 sample_saga_payload ''k'' 7 None 5 (sample_payables []) = (Inl Session_lost, s1)"
      "world s1 = (world (sample_payables []))\<lparr>ap_books := snd sample_invoice_posting\<rparr>"
    and h: "at_step (dies_in 3 sample_saga) h (zip sample_ledger_steps [Map.empty, ?cj, undo]) s1"
      "sg_id h = next_saga (sample_payables [])" "sg_payload h = sample_saga_payload" "sg_status h = SG_EXECUTING"
      "sg_type h = ''AP_INVOICE_POST''" "id_at undo ''journal_entry_id'' = Some 30" by (rule sample_death)
  have two: "length (ledger (ap_books (world s1))) = 2" using sample_posting(2) s1(2) by simp
  obtain v b where r: "create_reversal 1 30 (Date 6 1 15) 7 ''Saga compensation - posting failed'' True None False None ''R'' 6
      (snd sample_invoice_posting) = (Inr v, b)" "rr_success v"
    using sample_undoing by (auto split: sum.splits prod.splits simp: fst_def)
  obtain w' where w': "compensate_create_journal ((world s1)\<lparr>ap_books := b\<rparr>) sample_saga_payload ?cj = (Undone True, w')"
    using create_journal_undo_total by blast
  let ?cs = "zip (oc_steps ?orc) (map snd (zip sample_ledger_steps [Map.empty, ?cj, undo]))"
  have at: "at_step ?orc h ?cs s1" by (rule at_step_other [OF h(1)]) (simp add: dies_in_def ap_posting_saga_def)
  have "compensate_post_to_ledger ''R'' 6 (world s1) sample_saga_payload undo = (Undone True, (world s1)\<lparr>ap_books := b\<rparr>)"
    using r h(6) s1(2) by (simp add: compensate_post_to_ledger_def)
  then have "backward (sg_payload h) (rev ?cs) (world s1) = Some (False, w')"
    using w' by (simp add: h(3) ap_posting_saga_def ledger_steps_def numeral_3_eq_3)
  from compensation_outcome [OF at this, of 6] obtain r' s2 where c: "compensate_steps ?orc h 6 s1 = (Inr r', s2)" "sr_was_compensated r'"
    by auto
  have "get_saga (next_saga (sample_payables [])) s1 = Some h" using h(1,2) by (simp add: at_step_def)
  then have "recover_saga [''AP_INVOICE_POST'' \<mapsto> ?orc] (next_saga (sample_payables [])) True 6 s1 = (Inr True, s2)"
    using c h(4,5) by (simp add: recover_saga_def return_def)
  moreover have "ledger (ap_books (world (sample_payables []))) = []" by (simp add: sample_payables_def sample_start_def sample_books_def)
  ultimately show thesis using that s1(1) two by fastforce
qed

theorem forced_compensation_voids_posted_witness:
  "\<exists>s1 s2. recover_saga [''AP_INVOICE_POST'' \<mapsto> ap_posting_saga (\<lambda>e. ''e'') ''J'' ''R'' 6] (next_saga (sample_payables [])) True 6 s1 = (Inr True, s2)
    \<and> (\<exists>jid y. get_row je_id jid (journals (ap_books (world s2))) = Some y \<and> je_status y = J_VOID
        \<and> (\<exists>l \<in> set (ledger (ap_books (world s2))). ll_journal l = jid))"
proof (rule sample_forced_recovery)
  fix s1 s2
  assume r: "execute (dies_in 3 sample_saga) 1 sample_saga_payload ''k'' 7 None 5 (sample_payables []) = (Inl Session_lost, s1)"
    "ledger (ap_books (world s1)) \<noteq> ledger (ap_books (world (sample_payables [])))"
    "recover_saga [''AP_INVOICE_POST'' \<mapsto> ap_posting_saga (\<lambda>e. ''e'') ''J'' ''R'' 6] (next_saga (sample_payables [])) True 6 s1 = (Inr True, s2)"
  from forced_compensation_voids_posted [OF sample_payables_facts(1,2) sample_payables_reachable sample_payables_facts(3)
      saga_key_nonempty r] r(3)
  show ?thesis by blast
qed

end
