(* ===== verification/Spec2Isabelle.thy ===== *)
theory Spec2Isabelle
  imports Journal_Facts Saga_Samples Ipsas_Samples Paye_Properties Task_Properties
    Fifo_Properties Wac_Properties Fa_Document_Samples
    Fa_Acquisition_Samples Ap_Saga_Samples
begin

text \<open>
  This development models the core of the dotmac ERP, the Python application under \<open>src/app\<close>, and
  proves the properties that make it correct. The application is a set of service classes over one
  relational database (SQLAlchemy): a request opens a session, calls services, which load rows,
  change them and add new ones, and commits when it returns. The services modelled here are those
  that keep the books and the rules other modules rely on: the general ledger, the saga engine that
  chains postings, the posting of supplier invoices on both, public-sector budget control, payroll income tax,
  inventory costing, acquisition, depreciation, disposal and revaluation of fixed assets, and project tasks. Web pages, imports,
  integrations and the other modules are not modelled; what they post goes to the ledger through \<open>post_journal_entry\<close> as well.

  \<^bold>\<open>How code becomes a definition.\<close>
  A row is a record of the columns the modelled code uses, an enum a datatype, a table the list of its
  rows in insertion order, and a session the record of its tables. An operation that changes the
  session is a function to \<open>(error + result) \<times> session\<close>: \<open>Inl e\<close> for every exception it raises,
  with the session as the raising call leaves it, because callers sometimes catch it. \<open>request\<close> is
  the session dependency of the API, which commits or rolls back. Identifiers are numbers drawn from
  a counter of the session; dates, clocks, random digits and journal numbers drawn elsewhere are
  arguments. \<open>Decimal\<close> is the rational it denotes, with the roundings the code asks for
  (\<open>quantize_half_up\<close>), the scale of a \<open>NUMERIC(20, 6)\<close> column (\<open>numeric6\<close>), and the 28-digit default
  context of a division (\<open>dec_div\<close>). Sums of stored amounts below \<open>10 ^ 21\<close> are exact in that context
  (\<open>dec28_exact\<close>, \<open>dec28_persisted\<close>), and so are products of at most 28 digits; amounts are taken to be in that range. Where a query has no order, rows come
  in table order. Authorisation and the organisation scope of a session are outside; the explicit
  organisation checks of the services are in.

  \<^bold>\<open>Shared theories.\<close>
  \<^item> \<open>Erp_Prelude\<close>: results, requests, tables and their lemmas (collections \<open>tx_simps\<close>, \<open>row_simps\<close>), the
    locale \<open>orm_table\<close> of a table that is loaded and assigned; strings of numbers and identifiers.
  \<^item> \<open>Dates\<close>: \<open>datetime.date\<close> and the calendar. \<open>Decimals\<close>: the numbers above, with the locale
    \<open>rounding\<close> interpreted for six and two decimals.

  \<^bold>\<open>General ledger\<close> (\<open>services/finance/gl\<close>, \<open>services/finance/posting\<close>).
  \<^item> \<open>Gl_Model\<close>: the tables (\<open>models/finance/gl\<close>) as the record \<open>gldb\<close>. \<open>Residue\<close>: \<open>posting/residue.py\<close>, the
    allocation of a rounding residue. \<open>Period_Guard\<close>: \<open>period_guard.py\<close>, the write gate and the period
    lifecycle. \<open>Ledger_Posting\<close>: \<open>ledger_posting.py\<close> with the claim of a posting batch, the validation of
    the amounts, the ledger lines, balance invalidation and the outbox event. \<open>Journal_Service\<close>:
    \<open>journal.py\<close>. \<open>Reversal_Service\<close>: \<open>reversal.py\<close>. \<open>Posting_Adapter\<close>: \<open>posting/base.py\<close>, which creates,
    approves and posts in one call and reverts the approval of a journal it could not post. Ledger
    lines are written by \<open>post_journal_entry\<close> only, which asks the guard.
  \<^item> \<open>Gl_Invariant\<close> states what the tables satisfy together (\<open>gl_inv\<close>) and what may never be taken back
    (\<open>evolves\<close>) and shows them for elementary changes; \<open>Gl_Safety\<close> is the contract of an operation (locale
    \<open>gl_operation\<close>), interpreted for every operation; \<open>Gl_Books\<close> closes the operations to a system of
    requests and derives the properties of all reachable books: debits equal credits, the ledger holds
    the lines of exactly the posted journals, it is only appended to, hard-closed periods are final,
    statuses move along the lifecycle.
  \<^item> \<open>Reversal_Facts\<close>, \<open>Journal_Facts\<close>: reversals net to zero and can be posted, the adapter never strands a
    journal, and the behaviour of the gate, of creation, approval and voiding.

  \<^bold>\<open>Sagas\<close> (\<open>services/finance/platform/saga_orchestrator.py\<close>, \<open>saga_recovery.py\<close>).
  \<open>Saga_Engine\<close> is the engine over any list of step functions and any rest of the database, with
  interruption (the death of the process) as an outcome of a step; \<open>Saga_Facts\<close> holds the abstract saga and
  what the engine promises, \<open>Saga_Properties\<close> the refinement, replay, resumption and the cases in which a
  compensation is lost, \<open>Saga_Samples\<close> the witnesses. The step functions are parameters of the engine.

  \<^bold>\<open>Supplier invoices\<close> (\<open>services/finance/ap/ap_posting_saga.py\<close>), an instance of the engine on the books.
  \<open>Tax_Transactions\<close>: the creation of tax transactions. \<open>Ap_Model\<close>: suppliers, invoices and the choice of accounts.
  \<open>Ap_Posting_Saga\<close>: the five steps, their compensations and the entry point. \<open>Ap_Saga_Facts\<close> describes the steps
  one by one and the phase up to the ledger; \<open>Ap_Saga_Properties\<close> composes the engine's refinement with the
  invariant of the books: an invoice is posted entirely or not at all, and two cases in which the saga
  fails its purpose. \<open>Ap_Saga_Samples\<close> holds the witnesses.

  \<^bold>\<open>Public-sector budget control\<close> (\<open>services/finance/ipsas\<close>).
  \<open>Ipsas_Model\<close>: funds, appropriations, allotments, commitments, virements. \<open>Ipsas_Control\<close>: the invariant
  of encumbrance control and the locale \<open>budget_operation\<close> that every operation interprets. \<open>Ipsas_Facts\<close>: no
  appropriation is overcommitted, the stages of a commitment are ordered, virements conserve the budget.

  \<^bold>\<open>Payroll income tax\<close> (\<open>services/people/payroll/paye_calculator.py\<close>, \<open>tax_band_service.py\<close>).
  \<open>Paye\<close>: bands, validation, seeding and the calculation. \<open>Paye_Facts\<close> compares the loop with the progressive
  tax as a function of the income; \<open>Paye_Properties\<close> bounds the rounding and relates the validator's
  verdict to the calculation.

  \<^bold>\<open>Inventory costing\<close> (\<open>services/inventory\<close>).
  \<open>Inventory_Model\<close>: the tables and the balance of an item. \<open>Fifo_Valuation\<close>: \<open>fifo_valuation.py\<close>;
  \<open>Fifo_Facts\<close> describes the consumption loop by the rows it leaves (\<open>drained\<close>) and their FIFO cost, and
  \<open>Fifo_Properties\<close> shows that consumption takes exactly the oldest units, can be split into parts, and
  gives received stock out at its cost. \<open>Wac_Valuation\<close>: \<open>wac_valuation.py\<close> and the receipts and issues of
  \<open>transaction.py\<close> that use it; \<open>Wac_Properties\<close> compares the two replays of the service and the ledger
  with the movements.

  \<^bold>\<open>Depreciation\<close> (\<open>services/fixed_assets\<close>).
  \<open>Fa_Model\<close>: the register as a session whose books are those of the ledger. \<open>Depreciation\<close>:
  \<open>depreciation.py\<close> and the posting of a run in \<open>fa_posting_adapter.py\<close>. \<open>Depreciation_Facts\<close> holds the
  invariant of the register and the effect of each operation, \<open>Depreciation_Requests\<close> the locale
  \<open>fa_operation\<close> of what requests keep, interpreted for the register and for runs that are out of date.
  \<open>Adapter_Facts\<close> says what any sub-ledger that posts through the adapter writes to the ledger, and
  \<open>Depreciation_Properties\<close> rests on it: register and ledger move by the same amounts, overlapping runs
  exclude each other, and straight-line assets can keep a rounding difference.

  \<^bold>\<open>Disposal and revaluation\<close> (\<open>disposal.py\<close>, \<open>revaluation.py\<close>, their posting in \<open>fa_posting_adapter.py\<close>).
  \<open>Fa_Documents\<close>: creation, approval and posting of both documents on the same session. \<open>Fa_Document_Facts\<close>: the
  journal of a document and its effect on the ledger, the invariant of the document tables, and \<open>fa_operation\<close>
  interpreted for disposals. \<open>Fa_Document_Properties\<close>: what a posted document moves on every account,
  that a costly disposal of a sound asset cannot be posted, and that an asset or a surplus can be used up twice.
  \<open>Fa_Document_Samples\<close> holds the witnesses.

  \<^bold>\<open>Acquisition of assets\<close> (\<open>asset.py\<close>, \<open>post_asset_acquisition\<close> in \<open>fa_posting_adapter.py\<close>).
  \<open>Fa_Acquisition\<close>: categories with the walk to their root, the creation, activation and correction of assets, and
  the journal of an acquisition. \<open>Fa_Acquisition_Facts\<close> compares the walk with the chain of parents and
  describes a new asset and its acquisition; \<open>Fa_Acquisition_Properties\<close> follows an asset through acquisition
  and disposal in the ledger. \<open>Fa_Acquisition_Samples\<close> holds the witnesses.

  \<^bold>\<open>Project tasks\<close> (\<open>services/pm/task_service.py\<close>).
  \<open>Task_Service\<close>: tasks as rows and objects, since the sessions do not autoflush and \<open>refresh\<close> drops what
  is not flushed. \<open>Task_Facts\<close>: the two cycle checks decide reachability (locale \<open>successor_graph\<close>).
  \<open>Task_Requests\<close>: requests as a step relation with its invariant. \<open>Task_Properties\<close>: both graphs stay
  acyclic, the checks and the recursive deletion return.

  \<^bold>\<open>Loops and bounds.\<close>
  Loops over lists are structural. The two searches of the task service are \<open>partial_function\<close>s in which
  \<open>None\<close> is a loop that never ends; that they end is proved (on every graph for the dependency search, on
  every reachable session for the hierarchy). The recursion of \<open>delete_task\<close> takes a depth, and
  \<open>delete_cancels_subtree\<close> shows that a depth exists for every live task of a reachable session. The walk to
  the root of a category counts the sixteen rounds the code allows. No other definition takes fuel.

  \<^bold>\<open>Samples.\<close> \<open>Sample_Data\<close>, \<open>Saga_Samples\<close>, \<open>Ap_Saga_Samples\<close>, \<open>Fa_Document_Samples\<close>,
  \<open>Fa_Acquisition_Samples\<close>, \<open>Ipsas_Samples\<close> and the ends of the property theories hold small
  databases on which the hypotheses of the properties are met.

  \<^bold>\<open>Not modelled.\<close>
  \<^item> Sub-ledgers (accounts receivable, the rest of accounts payable, banking and reconciliation, tax returns,
    capitalisation of invoice lines, leases, consolidation, payments, expenses): they post through
    the adapter, through a saga of their own (\<open>ar_posting_saga.py\<close>) or by calling the journal and ledger services.
  \<^item> The rest of inventory (other costing methods of a movement, lots and serial numbers of a movement,
    transfers, counts, bills of material) and of payroll (salary structures, slips, loans).
  \<^item> Human resources, fleet, support, procurement, recruitment, performance, training and the other
    modules that store forms and list them.
  \<^item> Web routes, templates, schemas, reports, listings: presentation of rows.
  \<^item> Authentication, permissions, the organisation filter of a session, settings and feature flags: a flag
    that a modelled operation reads is part of its session.
  \<^item> Outbox relay, synchronisation with external systems, imports, background tasks and migrations:
    input and output around the services.
  \<^item> Concurrency of transactions: an operation runs alone on its session; row locks and unique
    constraints appear as the errors they raise.
\<close>

end
